(* ===== verification/Prelude.thy ===== *)
theory Prelude
  imports Main "HOL-Library.Word"
begin

text \<open>
  Shared vocabulary of the development: the Rust integer types as words, byte lists,
  Rust strings as HOL strings (one \<open>char\<close> per UTF-8 byte), little-endian conversion,
  the error-result combinators, and the generic list lemmas the components use.
\<close>

unbundle bit_operations_syntax

section \<open>Types\<close>

type_synonym u8 = "8 word"
type_synonym u16 = "16 word"
type_synonym u32 = "32 word"
type_synonym u64 = "64 word"
type_synonym bytes = "8 word list"

section \<open>Collections of rewrite rules\<close>

named_theorems le_simps "little-endian encoding and decoding"
named_theorems reader_defs "unfolding of the reader combinators"
named_theorems codec_rt "decoder applied to its encoder's output"

section \<open>Results\<close>

text \<open>Rust's \<open>Result\<close> is a sum, \<open>Inl\<close> the error; \<open>ebind\<close> is the \<open>?\<close> operator.\<close>

definition ebind :: "'e + 'a \<Rightarrow> ('a \<Rightarrow> 'e + 'b) \<Rightarrow> 'e + 'b" where
  "ebind m f = (case m of Inl e \<Rightarrow> Inl e | Inr x \<Rightarrow> f x)"

lemma ebind_Inl [simp]: "ebind (Inl e) f = Inl e"
  by (simp add: ebind_def)

lemma ebind_Inr [simp]: "ebind (Inr x) f = f x"
  by (simp add: ebind_def)

lemma ebind_eq_Inr_conv: "ebind m f = Inr y \<longleftrightarrow> (\<exists>x. m = Inr x \<and> f x = Inr y)"
  by (cases m) auto

lemma ebind_assoc: "ebind (ebind m f) g = ebind m (\<lambda>x. ebind (f x) g)"
  by (cases m) auto

text \<open>A call that can also panic: \<open>panic!\<close>, \<open>unwrap\<close>, an index out of range.\<close>

datatype ('e, 'a) outcome = Value 'a | Fails 'e | Panics

definition obind :: "('e, 'a) outcome \<Rightarrow> ('a \<Rightarrow> ('e, 'b) outcome) \<Rightarrow> ('e, 'b) outcome" where
  "obind m f = (case m of Value x \<Rightarrow> f x | Fails e \<Rightarrow> Fails e | Panics \<Rightarrow> Panics)"

lemma obind_simps [simp]:
  "obind (Value x) f = f x" "obind (Fails e) f = Fails e" "obind Panics f = Panics"
  by (simp_all add: obind_def)

lemma obind_eq_Value_conv: "obind m f = Value y \<longleftrightarrow> (\<exists>x. m = Value x \<and> f x = Value y)"
  by (cases m) auto

lemma obind_eq_Panics_conv:
  "obind m f = Panics \<longleftrightarrow> m = Panics \<or> (\<exists>x. m = Value x \<and> f x = Panics)"
  by (cases m) auto

section \<open>Little-endian numbers\<close>

lemma unat_word_less [simp]:
  "unat (a :: u8) < 256" "unat (b :: u16) < 65536" "unat (c :: u32) < 4294967296"
  "unat (d :: u64) < 18446744073709551616"
  using unsigned_less [of a, where 'a = nat] unsigned_less [of b, where 'a = nat]
    unsigned_less [of c, where 'a = nat] unsigned_less [of d, where 'a = nat]
  by simp_all

fun le_of_nat :: "nat \<Rightarrow> nat \<Rightarrow> bytes" where
  "le_of_nat 0 x = []"
| "le_of_nat (Suc n) x = of_nat (x mod 256) # le_of_nat n (x div 256)"

fun nat_of_le :: "bytes \<Rightarrow> nat" where
  "nat_of_le [] = 0"
| "nat_of_le (b # bs) = unat b + 256 * nat_of_le bs"

lemma length_le_of_nat [simp, le_simps]: "length (le_of_nat n x) = n"
  by (induction n arbitrary: x) auto

lemma unat_byte_of_nat [simp]: "unat (of_nat x :: 8 word) = x mod 256"
  by (simp add: unat_of_nat)

lemma unat_of_nat_small:
  "n < 65536 \<Longrightarrow> unat (of_nat n :: u16) = n"
  "n < 4294967296 \<Longrightarrow> unat (of_nat n :: u32) = n"
  by (simp_all add: unat_of_nat)

lemma bit_high_False:
  fixes w :: "'a::len word"
  assumes "unat w < 2 ^ k" and "k \<le> n"
  shows "\<not> bit w n"
proof -
  have "(2 :: nat) ^ k \<le> 2 ^ n" using assms(2) by (rule power_increasing) simp
  with assms(1) have "unat w < 2 ^ n" by linarith
  then have "\<not> bit (unat w) n" by (simp add: bit_iff_odd)
  then show ?thesis by (auto simp: bit_unsigned_iff dest: bit_imp_le_length)
qed

text \<open>Setting and clearing a flag bit.\<close>

lemma or_and_not: "(m OR b) AND NOT b = m AND NOT (b :: 'a::len word)"
  by (rule bit_word_eqI) (auto simp: bit_simps)

lemma and_not_clear: "\<not> bit m k \<Longrightarrow> m AND NOT (push_bit k 1) = (m :: 'a::len word)"
  by (rule bit_word_eqI) (auto simp: bit_simps)

lemma nat_of_le_of_nat: "nat_of_le (le_of_nat n x) = x mod 256 ^ n"
proof (induction n arbitrary: x)
  case 0
  then show ?case by simp
next
  case (Suc n)
  have "x mod (256 * 256 ^ n) = 256 * (x div 256 mod 256 ^ n) + x mod 256"
    by (rule mod_mult2_eq)
  with Suc show ?case by simp
qed

lemma nat_of_le_less: "nat_of_le bs < 256 ^ length bs"
proof (induction bs)
  case Nil
  then show ?case by simp
next
  case (Cons b bs)
  have "unat b < 256" by simp
  moreover from Cons have "nat_of_le bs + 1 \<le> 256 ^ length bs" by simp
  then have "256 * nat_of_le bs + 256 \<le> 256 * 256 ^ length bs" by linarith
  ultimately have "unat b + 256 * nat_of_le bs < 256 * 256 ^ length bs" by linarith
  then show ?case by simp
qed

lemma le_of_nat_of_le: "le_of_nat (length bs) (nat_of_le bs) = bs"
proof (induction bs)
  case Nil
  then show ?case by simp
next
  case (Cons b bs)
  have "unat b < 256" by simp
  with Cons show ?case by (simp add: word_eq_iff_unsigned)
qed

text \<open>\<open>to_le_bytes\<close> of each width, and the value read back.\<close>

definition le8 :: "u8 \<Rightarrow> bytes" where "le8 w = le_of_nat 1 (unat w)"
definition le16 :: "u16 \<Rightarrow> bytes" where "le16 w = le_of_nat 2 (unat w)"
definition le32 :: "u32 \<Rightarrow> bytes" where "le32 w = le_of_nat 4 (unat w)"
definition le64 :: "u64 \<Rightarrow> bytes" where "le64 w = le_of_nat 8 (unat w)"

lemma length_le [simp, le_simps]:
  "length (le8 a) = 1" "length (le16 b) = 2" "length (le32 c) = 4" "length (le64 d) = 8"
  by (simp_all add: le8_def le16_def le32_def le64_def)

lemma of_nat_nat_of_le [simp, le_simps]:
  "of_nat (nat_of_le (le8 a)) = a"
  "of_nat (nat_of_le (le16 b)) = b"
  "of_nat (nat_of_le (le32 c)) = c"
  "of_nat (nat_of_le (le64 d)) = d"
  using unat_word_less(1) [of a] unat_word_less(2) [of b] unat_word_less(3) [of c]
    unat_word_less(4) [of d]
  by (simp_all add: le8_def le16_def le32_def le64_def nat_of_le_of_nat)

lemma of_nat_mod_256 [simp]: "(of_nat (x mod 256) :: u8) = of_nat x"
  by (intro word_unat_eq_iff [THEN iffD2]) simp

lemma le16_eq: "le16 w = [ucast (w AND 0xff), ucast (drop_bit 8 w)]"
proof -
  have "w AND 0xff = take_bit 8 w"
    by (simp add: take_bit_eq_mask mask_eq_exp_minus_1)
  then have lo: "(ucast (w AND 0xff) :: u8) = ucast w"
    by (simp only:) (rule bit_word_eqI, simp add: bit_simps)
  have hi: "unat w div 256 = unat (drop_bit 8 w)"
    by (simp add: drop_bit_eq_div unat_div_distrib)
  show ?thesis
    unfolding lo by (simp add: le16_def numeral_2_eq_2 hi)
qed

lemma le_of_nat_4: "le_of_nat 4 x = [of_nat (x mod 256), of_nat (x div 256 mod 256),
    of_nat (x div 256 div 256 mod 256), of_nat (x div 256 div 256 div 256 mod 256)]"
proof -
  have "(4 :: nat) = Suc (Suc (Suc (Suc 0)))" by simp
  then show ?thesis by (simp only: le_of_nat.simps)
qed

lemma le8_eq: "le8 w = [w]"
  by (simp add: le8_def eval_nat_numeral(1))

lemma of_nat_nat_of_le_inj:
  "length bs = 1 \<Longrightarrow> le8 (of_nat (nat_of_le bs)) = bs"
  "length bs = 2 \<Longrightarrow> le16 (of_nat (nat_of_le bs)) = bs"
  "length bs = 4 \<Longrightarrow> le32 (of_nat (nat_of_le bs)) = bs"
  "length bs = 8 \<Longrightarrow> le64 (of_nat (nat_of_le bs)) = bs"
  using nat_of_le_less [of bs] le_of_nat_of_le [of bs]
  by (simp_all add: le8_def le16_def le32_def le64_def unat_of_nat take_bit_eq_mod)

section \<open>Rust strings\<close>

text \<open>
  A Rust \<open>String\<close> is a sequence of bytes that is valid UTF-8. It is modelled as a HOL
  \<open>string\<close> with one \<open>char\<close> per byte; \<open>utf8_valid\<close> is the check of
  \<open>std::str::from_utf8\<close>.
\<close>

definition byte_of_char :: "char \<Rightarrow> u8" where
  "byte_of_char c = of_nat (of_char c)"

definition char_of_byte :: "u8 \<Rightarrow> char" where
  "char_of_byte b = char_of (unat b)"

definition str_bytes :: "string \<Rightarrow> bytes" where
  "str_bytes s = map byte_of_char s"

definition bytes_str :: "bytes \<Rightarrow> string" where
  "bytes_str bs = map char_of_byte bs"

lemma char_of_byte_of_char [simp]: "char_of_byte (byte_of_char c) = c"
  by (simp add: char_of_byte_def byte_of_char_def)

lemma byte_of_char_of_byte [simp]: "byte_of_char (char_of_byte b) = b"
proof -
  have "unat b < 256" by simp
  then show ?thesis by (simp add: char_of_byte_def byte_of_char_def)
qed

lemma bytes_str_bytes [simp]: "bytes_str (str_bytes s) = s"
  by (simp add: bytes_str_def str_bytes_def comp_def)

lemma str_bytes_str [simp]: "str_bytes (bytes_str bs) = bs"
  by (simp add: bytes_str_def str_bytes_def comp_def)

lemma length_str_bytes [simp]: "length (str_bytes s) = length s"
  by (simp add: str_bytes_def)

lemma str_bytes_Nil [simp]: "str_bytes [] = []" "str_bytes s = [] \<longleftrightarrow> s = []"
  by (simp_all add: str_bytes_def)

lemma str_bytes_inj: "str_bytes s = str_bytes t \<Longrightarrow> s = t"
  by (metis bytes_str_bytes)

definition cont_byte :: "u8 \<Rightarrow> bool" where
  "cont_byte b \<longleftrightarrow> 128 \<le> unat b \<and> unat b < 192"

fun utf8_valid :: "bytes \<Rightarrow> bool" where
  "utf8_valid [] = True"
| "utf8_valid (a # r) =
    (let x = unat a in
     if x < 128 then utf8_valid r
     else if x < 194 then False
     else if x < 224 then
       (case r of b # r' \<Rightarrow> cont_byte b \<and> utf8_valid r' | _ \<Rightarrow> False)
     else if x < 240 then
       (case r of b # c # r' \<Rightarrow>
          (if x = 224 then 160 \<le> unat b \<and> unat b < 192
           else if x = 237 then 128 \<le> unat b \<and> unat b < 160
           else cont_byte b) \<and> cont_byte c \<and> utf8_valid r'
        | _ \<Rightarrow> False)
     else if x < 245 then
       (case r of b # c # d # r' \<Rightarrow>
          (if x = 240 then 144 \<le> unat b \<and> unat b < 192
           else if x = 244 then 128 \<le> unat b \<and> unat b < 144
           else cont_byte b) \<and> cont_byte c \<and> cont_byte d \<and> utf8_valid r'
        | _ \<Rightarrow> False)
     else False)"

lemma utf8_valid_ascii: "\<forall>b\<in>set bs. unat b < 128 \<Longrightarrow> utf8_valid bs"
  by (induction bs) auto

section \<open>Lists\<close>

lemma take_length_append [simp]: "take (length xs) (xs @ ys) = xs"
  by simp

text \<open>\<open>split_once\<close> of Rust at a separator string: the text before and after its first occurrence.\<close>

fun starts_with :: "string \<Rightarrow> string \<Rightarrow> bool" where
  "starts_with [] s = True"
| "starts_with (p # ps) [] = False"
| "starts_with (p # ps) (c # cs) = (p = c \<and> starts_with ps cs)"

fun split_once :: "string \<Rightarrow> string \<Rightarrow> (string \<times> string) option" where
  "split_once sep [] = (if sep = [] then Some ([], []) else None)"
| "split_once sep (c # cs) =
    (if starts_with sep (c # cs) then Some ([], drop (length sep) (c # cs))
     else (case split_once sep cs of None \<Rightarrow> None | Some (a, b) \<Rightarrow> Some (c # a, b)))"

text \<open>\<open>split\<close> at every occurrence of a character.\<close>

fun split_char :: "char \<Rightarrow> string \<Rightarrow> string list" where
  "split_char d [] = [[]]"
| "split_char d (c # cs) =
    (if c = d then [] # split_char d cs
     else (case split_char d cs of [] \<Rightarrow> [[c]] | w # ws \<Rightarrow> (c # w) # ws))"

fun join_char :: "char \<Rightarrow> string list \<Rightarrow> string" where
  "join_char d [] = []"
| "join_char d [w] = w"
| "join_char d (w # v # ws) = w @ d # join_char d (v # ws)"

lemma split_char_nonempty [simp]: "split_char d s \<noteq> []"
  by (induction s) (auto split: list.splits)

lemma split_char_append_sep:
  "d \<notin> set w \<Longrightarrow> split_char d (w @ d # s) = w # split_char d s"
  by (induction w) (auto split: list.splits)

lemma split_char_no_sep: "d \<notin> set w \<Longrightarrow> split_char d w = [w]"
  by (induction w) auto

lemma split_join_char:
  assumes "ws \<noteq> []" and "\<forall>w\<in>set ws. d \<notin> set w"
  shows "split_char d (join_char d ws) = ws"
  using assms
proof (induction ws rule: induct_list012)
  case 1
  then show ?case by simp
next
  case (2 w)
  then show ?case by (simp add: split_char_no_sep)
next
  case (3 w v ws)
  then show ?case by (simp add: split_char_append_sep)
qed

lemma starts_with_append [simp]: "starts_with p (p @ s)"
  by (induction p) auto

lemma starts_with_iff: "starts_with p s \<longleftrightarrow> (\<exists>r. s = p @ r)"
  by (induction p s rule: starts_with.induct) auto

lemma split_once_char:
  "d \<notin> set w \<Longrightarrow> split_once [d] (w @ d # s) = Some (w, s)"
  by (induction w) auto

lemma split_once_None: "d \<notin> set w \<Longrightarrow> split_once [d] w = None"
  by (induction w) auto

section \<open>Decimal numbers\<close>

text \<open>
  \<open>to_string\<close> of an unsigned number and \<open>str::parse\<close> of one: an optional plus sign,
  then at least one digit, and a value that fits the width.
\<close>

definition digit_char :: "nat \<Rightarrow> char" where
  "digit_char d = char_of (48 + d)"

definition char_digit :: "char \<Rightarrow> nat option" where
  "char_digit c = (let n = of_char c in if 48 \<le> n \<and> n < 58 then Some (n - 48) else None)"

fun show_nat :: "nat \<Rightarrow> string" where
  "show_nat n = (if n < 10 then [digit_char n] else show_nat (n div 10) @ [digit_char (n mod 10)])"

declare show_nat.simps [simp del]

fun parse_digits :: "nat \<Rightarrow> string \<Rightarrow> nat option" where
  "parse_digits acc [] = Some acc"
| "parse_digits acc (c # cs) =
    (case char_digit c of None \<Rightarrow> None | Some d \<Rightarrow> parse_digits (10 * acc + d) cs)"

definition parse_uint :: "nat \<Rightarrow> string \<Rightarrow> nat option" where
  "parse_uint bound s =
    (let body = (case s of [] \<Rightarrow> [] | c # cs \<Rightarrow> if c = CHR ''+'' then cs else s) in
     if body = [] then None
     else (case parse_digits 0 body of
             None \<Rightarrow> None
           | Some n \<Rightarrow> if n < bound then Some n else None))"

lemma char_digit_char [simp]: "d < 10 \<Longrightarrow> char_digit (digit_char d) = Some d"
  by (simp add: char_digit_def digit_char_def)

lemma parse_digits_append:
  "parse_digits acc (s @ t) =
    (case parse_digits acc s of None \<Rightarrow> None | Some a \<Rightarrow> parse_digits a t)"
  by (induction s arbitrary: acc) (auto split: option.splits)

lemma parse_digits_show: "parse_digits 0 (show_nat n) = Some n"
proof (induction n rule: show_nat.induct)
  case (1 n)
  show ?case
  proof (cases "n < 10")
    case True
    then show ?thesis by (simp add: show_nat.simps [of n])
  next
    case False
    with 1 have "parse_digits 0 (show_nat (n div 10)) = Some (n div 10)" by simp
    with False show ?thesis
      by (simp add: show_nat.simps [of n] parse_digits_append)
  qed
qed

lemma show_nat_nonempty [simp]: "show_nat n \<noteq> []"
  by (subst show_nat.simps) simp

lemma set_show_nat: "c \<in> set (show_nat n) \<Longrightarrow> \<exists>d<10. c = digit_char d"
proof (induction n rule: show_nat.induct)
  case (1 n)
  show ?case
  proof (cases "n < 10")
    case True
    with 1 show ?thesis by (auto simp: show_nat.simps [of n])
  next
    case False
    have "n mod 10 < 10" by simp
    then have "\<exists>d<10. digit_char (n mod 10) = digit_char d" by blast
    with False 1 show ?thesis by (auto simp: show_nat.simps [of n])
  qed
qed

lemma of_digit_char: "d < 10 \<Longrightarrow> of_char (digit_char d) = 48 + d"
  by (simp add: digit_char_def)

lemma show_nat_digits: "c \<in> set (show_nat n) \<Longrightarrow> 48 \<le> (of_char c :: nat) \<and> (of_char c :: nat) < 58"
  by (auto dest!: set_show_nat simp: of_digit_char)

lemma parse_uint_show [simp]: "n < b \<Longrightarrow> parse_uint b (show_nat n) = Some n"
proof -
  assume n: "n < b"
  obtain c cs where s: "show_nat n = c # cs" by (cases "show_nat n") auto
  then have "48 \<le> (of_char c :: nat)" using show_nat_digits [of c n] by simp
  then have "c \<noteq> CHR ''+''" by auto
  with s n parse_digits_show [of n] show ?thesis by (simp add: parse_uint_def)
qed

lemma parse_uint_bound: "parse_uint b s = Some n \<Longrightarrow> n < b"
  by (auto simp: parse_uint_def Let_def split: if_splits option.splits)

section \<open>Enumerations with codes\<close>

text \<open>
  The derived conversions \<open>IntoPrimitive\<close> and \<open>TryFromPrimitive\<close> of an enumeration: its
  code function, and the search of its constructors for a code.
\<close>

definition enum_of_code :: "('e \<Rightarrow> 'c) \<Rightarrow> 'e list \<Rightarrow> 'c \<Rightarrow> 'e option" where
  "enum_of_code code all c = find (\<lambda>e. code e = c) all"

locale code_enum =
  fixes code :: "'e \<Rightarrow> 'c" and all :: "'e list"
  assumes all_complete: "e \<in> set all"
    and codes_distinct: "distinct (map code all)"
begin

lemma code_inj: "code e = code e' \<Longrightarrow> e = e'"
  using codes_distinct all_complete by (auto simp: distinct_map inj_on_def)

lemma of_code_iff: "enum_of_code code all c = Some e \<longleftrightarrow> code e = c"
proof
  assume "enum_of_code code all c = Some e"
  then show "code e = c" by (auto simp: enum_of_code_def find_Some_iff)
next
  assume c: "code e = c"
  have "find (\<lambda>e. code e = c) all \<noteq> None"
    using c all_complete [of e] by (auto simp: find_None_iff)
  then obtain e' where e': "find (\<lambda>e. code e = c) all = Some e'" by blast
  then have "code e' = c" by (auto simp: find_Some_iff)
  with c have "e' = e" by (auto intro: code_inj)
  with e' show "enum_of_code code all c = Some e" by (simp add: enum_of_code_def)
qed

lemma of_code_code [simp]: "enum_of_code code all (code e) = Some e"
  by (simp add: of_code_iff)

lemma of_code_None_iff: "enum_of_code code all c = None \<longleftrightarrow> (\<forall>e. code e \<noteq> c)"
  using of_code_iff by (metis not_Some_eq)

end

end
