(* ===== verification/Storage_Db.thy ===== *)
theory Storage_Db
  imports Prelude
begin

text \<open>
  The database of the dedicated server: the tables of
  \<open>dedicated-server/src/storage/migrations\<close>, the statements the storage shares, the trigger
  \<open>scbl_party_member_leave_lobby\<close>, and the functions on session attributes at the top of
  \<open>dedicated-server/src/storage/mod.rs\<close>.

  A table is the list of its rows in rowid order. Times are seconds, the resolution of
  \<open>CURRENT_TIMESTAMP\<close>; the clock reading of a transaction is its argument \<open>now\<close>. A
  transaction maps a database to an error, after which nothing is changed, or to its result
  and the new database. Ids are the 64-bit integers of SQLite, as natural numbers. The
  columns nothing reads (\<open>created_at\<close>, \<open>updated_at\<close> and \<open>joined_at\<close> of every table but
  \<open>invites\<close>, \<open>is_private\<close>) are left out, and so is the seeded game session, whose null
  attributes no code writes.
\<close>

section \<open>Tables\<close>

record user_row =
  u_id :: nat
  u_name :: string
  u_password :: "string option"
  u_password_hash :: "string option"
  u_ubi_id :: "string option"
  u_last_login :: "nat option"
  u_is_online :: bool
  u_last_api_seen :: "nat option"

record session_row =
  g_id :: nat
  g_type :: nat
  g_attributes :: string
  g_creator :: nat
  g_destroyed :: "nat option"

record party_row =
  pt_id :: nat
  pt_leader :: nat

record invite_row =
  i_rowid :: nat
  i_sender :: nat
  i_receiver :: nat
  i_kind :: nat
  i_type :: nat
  i_session :: nat
  i_party :: "nat option"
  i_created :: nat
  i_expires :: nat
  i_delivered :: "nat option"
  i_delivery_count :: nat
  i_accepted :: "nat option"
  i_consumed :: "nat option"

record db =
  users :: "user_row list"
  game_sessions :: "session_row list"
  participants :: "(nat \<times> nat) list"
  station_urls :: "(nat \<times> string) list"
  user_sessions :: "(string \<times> nat) list"
  parties :: "party_row list"
  party_seq :: nat
  party_members :: "(nat \<times> nat) list"
  invites :: "invite_row list"

datatype db_error = ForeignKeyViolation | UniqueViolation | DecodeError | StateError

type_synonym 'a txn = "db \<Rightarrow> db_error + 'a \<times> db"

definition treturn :: "'a \<Rightarrow> 'a txn" where
  "treturn x = (\<lambda>db. Inr (x, db))"

definition tfail :: "db_error \<Rightarrow> 'a txn" where
  "tfail e = (\<lambda>db. Inl e)"

definition tbind :: "'a txn \<Rightarrow> ('a \<Rightarrow> 'b txn) \<Rightarrow> 'b txn" where
  "tbind m f = (\<lambda>db. case m db of Inl e \<Rightarrow> Inl e | Inr (x, db') \<Rightarrow> f x db')"

definition tread :: "(db \<Rightarrow> 'a) \<Rightarrow> 'a txn" where
  "tread f = (\<lambda>db. Inr (f db, db))"

definition texec :: "(db \<Rightarrow> db) \<Rightarrow> unit txn" where
  "texec f = (\<lambda>db. Inr ((), f db))"

fun tfor :: "'a list \<Rightarrow> ('a \<Rightarrow> unit txn) \<Rightarrow> unit txn" where
  "tfor [] f = treturn ()"
| "tfor (x # xs) f = tbind (f x) (\<lambda>_. tfor xs f)"

lemma tbind_Inr_conv:
  "tbind m f db = Inr z \<longleftrightarrow> (\<exists>x db'. m db = Inr (x, db') \<and> f x db' = Inr z)"
  by (auto simp: tbind_def split: sum.splits)

lemma tbind_Inr: "m db = Inr (x, db') \<Longrightarrow> tbind m f db = f x db'"
  by (simp add: tbind_def)

lemma txn_simps [simp]:
  "treturn x db = Inr (x, db)" "tfail e db = Inl e" "tread g db = Inr (g db, db)"
  "texec h db = Inr ((), h db)" "tbind (treturn x) f db = f x db"
  "tbind (tread g) f db = f (g db) db" "tbind (texec h) f' db = f' () (h db)"
  by (simp_all add: treturn_def tfail_def tread_def texec_def tbind_def)

section \<open>Session attributes\<close>

definition INVITE_KIND_PRIVATE_ROOM :: nat where "INVITE_KIND_PRIVATE_ROOM = 1"
definition INVITE_KIND_LOBBY_PARTY :: nat where "INVITE_KIND_LOBBY_PARTY = 2"
definition INVITE_KIND_PARTY_FOLLOW :: nat where "INVITE_KIND_PARTY_FOLLOW = 3"
definition INVITE_KIND_LOBBY_RESTORE :: nat where "INVITE_KIND_LOBBY_RESTORE = 4"

lemmas invite_kinds = INVITE_KIND_PRIVATE_ROOM_def INVITE_KIND_LOBBY_PARTY_def
  INVITE_KIND_PARTY_FOLLOW_def INVITE_KIND_LOBBY_RESTORE_def

text \<open>\<open>str::trim\<close>: the UTF-8 encodings of the characters with the property \<open>White_Space\<close>.\<close>

definition whitespace :: "string list" where
  "whitespace = [[CHR 0x09], [CHR 0x0A], [CHR 0x0B], [CHR 0x0C], [CHR 0x0D], [CHR '' ''],
     [CHR 0xC2, CHR 0x85], [CHR 0xC2, CHR 0xA0], [CHR 0xE1, CHR 0x9A, CHR 0x80],
     [CHR 0xE2, CHR 0x80, CHR 0x80], [CHR 0xE2, CHR 0x80, CHR 0x81],
     [CHR 0xE2, CHR 0x80, CHR 0x82], [CHR 0xE2, CHR 0x80, CHR 0x83],
     [CHR 0xE2, CHR 0x80, CHR 0x84], [CHR 0xE2, CHR 0x80, CHR 0x85],
     [CHR 0xE2, CHR 0x80, CHR 0x86], [CHR 0xE2, CHR 0x80, CHR 0x87],
     [CHR 0xE2, CHR 0x80, CHR 0x88], [CHR 0xE2, CHR 0x80, CHR 0x89],
     [CHR 0xE2, CHR 0x80, CHR 0x8A], [CHR 0xE2, CHR 0x80, CHR 0xA8],
     [CHR 0xE2, CHR 0x80, CHR 0xA9], [CHR 0xE2, CHR 0x80, CHR 0xAF],
     [CHR 0xE2, CHR 0x81, CHR 0x9F], [CHR 0xE3, CHR 0x80, CHR 0x80]]"

fun strip_prefixes :: "string list \<Rightarrow> nat \<Rightarrow> string \<Rightarrow> string" where
  "strip_prefixes ws 0 s = s"
| "strip_prefixes ws (Suc n) s =
    (case find (\<lambda>w. starts_with w s) ws of
       None \<Rightarrow> s
     | Some w \<Rightarrow> strip_prefixes ws n (drop (length w) s))"

definition trim_start :: "string \<Rightarrow> string" where
  "trim_start s = strip_prefixes whitespace (length s) s"

definition trim_end :: "string \<Rightarrow> string" where
  "trim_end s = rev (strip_prefixes (map rev whitespace) (length s) (rev s))"

definition trim :: "string \<Rightarrow> string" where
  "trim s = trim_end (trim_start s)"

fun find_map :: "('a \<Rightarrow> 'b option) \<Rightarrow> 'a list \<Rightarrow> 'b option" where
  "find_map f [] = None"
| "find_map f (x # xs) = (case f x of None \<Rightarrow> find_map f xs | Some y \<Rightarrow> Some y)"

definition attribute_entry :: "nat \<Rightarrow> string \<Rightarrow> nat option" where
  "attribute_entry attribute_id entry =
    Option.bind (split_once ''=>'' entry) (\<lambda>(raw_id, raw_value).
    Option.bind (parse_uint (2 ^ 32) (trim raw_id)) (\<lambda>i.
    if i \<noteq> attribute_id then None else parse_uint (2 ^ 32) (trim raw_value)))"

definition session_attribute_value :: "string \<Rightarrow> nat \<Rightarrow> nat option" where
  "session_attribute_value attributes attribute_id =
    find_map (attribute_entry attribute_id) (split_char (CHR '';'') attributes)"

definition is_lobby_session_attributes :: "string \<Rightarrow> bool" where
  "is_lobby_session_attributes a \<longleftrightarrow> session_attribute_value a 113 = Some 1"

definition is_game_room_attributes :: "string \<Rightarrow> bool" where
  "is_game_room_attributes a \<longleftrightarrow> session_attribute_value a 113 = Some 0"

text \<open>The loop of \<open>project_private_invite_session_class_only\<close>: the entries and \<open>replaced\<close>.\<close>

fun project_entries :: "string list \<Rightarrow> string list \<times> bool" where
  "project_entries [] = ([], False)"
| "project_entries (e # es) =
    (let entry = trim e; (rest, replaced) = project_entries es in
     if entry = [] then (rest, replaced)
     else case split_once ''=>'' entry of
       Some (raw_id, _) \<Rightarrow>
         if trim raw_id = ''113'' then (''113 => 1'' # rest, True) else (entry # rest, replaced)
     | None \<Rightarrow> (entry # rest, replaced))"

definition project_private_invite_session_class_only :: "string \<Rightarrow> string" where
  "project_private_invite_session_class_only attributes =
    (let (projected, replaced) = project_entries (split_char (CHR '';'') attributes) in
     join_char (CHR '';'') (if replaced then projected else projected @ [''113 => 1'']))"

section \<open>Rows\<close>

definition user_ids :: "db \<Rightarrow> nat list" where "user_ids db = map u_id (users db)"
definition session_ids :: "db \<Rightarrow> nat list" where "session_ids db = map g_id (game_sessions db)"
definition party_ids :: "db \<Rightarrow> nat list" where "party_ids db = map pt_id (parties db)"

definition active_session :: "nat \<Rightarrow> nat \<Rightarrow> session_row \<Rightarrow> bool" where
  "active_session ty sid g \<longleftrightarrow> g_id g = sid \<and> g_type g = ty \<and> g_destroyed g = None"

definition find_active :: "nat \<Rightarrow> nat \<Rightarrow> db \<Rightarrow> session_row option" where
  "find_active ty sid db = find (active_session ty sid) (game_sessions db)"

definition update_sessions :: "(session_row \<Rightarrow> bool) \<Rightarrow> (session_row \<Rightarrow> session_row) \<Rightarrow> db \<Rightarrow> db" where
  "update_sessions P f db = db\<lparr>game_sessions := map (\<lambda>g. if P g then f g else g) (game_sessions db)\<rparr>"

definition update_users :: "(user_row \<Rightarrow> bool) \<Rightarrow> (user_row \<Rightarrow> user_row) \<Rightarrow> db \<Rightarrow> db" where
  "update_users P f db = db\<lparr>users := map (\<lambda>u. if P u then f u else u) (users db)\<rparr>"

definition update_invites :: "(invite_row \<Rightarrow> bool) \<Rightarrow> (invite_row \<Rightarrow> invite_row) \<Rightarrow> db \<Rightarrow> db" where
  "update_invites P f db = db\<lparr>invites := map (\<lambda>i. if P i then f i else i) (invites db)\<rparr>"

definition delete_invites :: "(invite_row \<Rightarrow> bool) \<Rightarrow> db \<Rightarrow> db" where
  "delete_invites P db = db\<lparr>invites := filter (\<lambda>i. \<not> P i) (invites db)\<rparr>"

definition is_participant :: "nat \<Rightarrow> nat \<Rightarrow> db \<Rightarrow> bool" where
  "is_participant sid uid db \<longleftrightarrow> (sid, uid) \<in> set (participants db)"

text \<open>\<open>SELECT user_id FROM participants WHERE game_id = ? ORDER BY user_id\<close>.\<close>

definition participant_ids :: "nat \<Rightarrow> db \<Rightarrow> nat list" where
  "participant_ids sid db = sort (map snd (filter (\<lambda>r. fst r = sid) (participants db)))"

definition has_station_url :: "nat \<Rightarrow> db \<Rightarrow> bool" where
  "has_station_url uid db \<longleftrightarrow> uid \<in> fst ` set (station_urls db)"

text \<open>\<open>INSERT OR IGNORE INTO participants\<close>: foreign keys are checked for a new row only.\<close>

definition insert_participant :: "nat \<Rightarrow> nat \<Rightarrow> unit txn" where
  "insert_participant sid uid = (\<lambda>db.
     if (sid, uid) \<in> set (participants db) then Inr ((), db)
     else if sid \<notin> set (session_ids db) \<or> uid \<notin> set (user_ids db) then Inl ForeignKeyViolation
     else Inr ((), db\<lparr>participants := participants db @ [(sid, uid)]\<rparr>))"

section \<open>Parties and the trigger\<close>

text \<open>Deleting a party deletes its members.\<close>

definition delete_parties :: "(party_row \<Rightarrow> bool) \<Rightarrow> db \<Rightarrow> db" where
  "delete_parties P db =
    (let gone = map pt_id (filter P (parties db)) in
     db\<lparr>parties := filter (\<lambda>p. \<not> P p) (parties db),
        party_members := filter (\<lambda>m. snd m \<notin> set gone) (party_members db)\<rparr>)"

definition delete_party_member :: "nat \<Rightarrow> db \<Rightarrow> db" where
  "delete_party_member uid db = db\<lparr>party_members := filter (\<lambda>m. fst m \<noteq> uid) (party_members db)\<rparr>"

definition drop_party :: "nat \<Rightarrow> db \<Rightarrow> db" where
  "drop_party uid db = delete_party_member uid (delete_parties (\<lambda>p. pt_leader p = uid) db)"

text \<open>\<open>INSERT INTO party_members ... ON CONFLICT(user_id) DO UPDATE\<close>.\<close>

definition upsert_party_member :: "nat \<Rightarrow> nat \<Rightarrow> unit txn" where
  "upsert_party_member uid pid = (\<lambda>db.
     if uid \<notin> set (user_ids db) \<or> pid \<notin> set (party_ids db) then Inl ForeignKeyViolation
     else Inr ((), db\<lparr>party_members :=
       (if uid \<in> fst ` set (party_members db)
        then map (\<lambda>m. if fst m = uid then (uid, pid) else m) (party_members db)
        else party_members db @ [(uid, pid)])\<rparr>))"

fun contains :: "string \<Rightarrow> string \<Rightarrow> bool" where
  "contains p [] = (p = [])"
| "contains p (c # cs) = (starts_with p (c # cs) \<or> contains p cs)"

text \<open>\<open>';' || replace(attributes, ' ', '') || ';' LIKE '%;113=>v;%'\<close>.\<close>

definition sql_session_class :: "string \<Rightarrow> string \<Rightarrow> bool" where
  "sql_session_class v attributes \<longleftrightarrow>
     contains ('';113=>'' @ v @ '';'') ('';'' @ filter (\<lambda>c. c \<noteq> CHR '' '') attributes @ '';'')"

definition leave_lobby_trigger :: "nat \<times> nat \<Rightarrow> db \<Rightarrow> bool" where
  "leave_lobby_trigger r db \<longleftrightarrow>
     (\<exists>g\<in>set (game_sessions db). g_id g = fst r \<and> sql_session_class ''1'' (g_attributes g))
     \<and> \<not> (\<exists>q\<in>set (participants db). snd q = snd r \<and>
           (\<exists>g\<in>set (game_sessions db). g_id g = fst q \<and> g_destroyed g = None
              \<and> sql_session_class ''0'' (g_attributes g)))"

text \<open>
  Rows are deleted one after the other, and the trigger runs after each: it sees the rows
  the same statement has not deleted yet.
\<close>

definition delete_participant_row :: "nat \<times> nat \<Rightarrow> db \<Rightarrow> db" where
  "delete_participant_row r db =
    (let db = db\<lparr>participants := filter (\<lambda>q. q \<noteq> r) (participants db)\<rparr> in
     if leave_lobby_trigger r db then drop_party (snd r) db else db)"

definition delete_participants :: "(nat \<times> nat \<Rightarrow> bool) \<Rightarrow> db \<Rightarrow> db" where
  "delete_participants P db =
    foldl (\<lambda>db r. delete_participant_row r db) db (filter P (participants db))"

text \<open>The next rowid: one more than the largest, or one.\<close>

definition next_rowid :: "nat list \<Rightarrow> nat" where
  "next_rowid ids = Suc (foldr max ids 0)"

text \<open>\<open>INSERT INTO parties\<close>: an \<open>AUTOINCREMENT\<close> key is never reused.\<close>

definition insert_party :: "nat \<Rightarrow> nat txn" where
  "insert_party leader = (\<lambda>db.
     if leader \<notin> set (user_ids db) then Inl ForeignKeyViolation
     else if leader \<in> pt_leader ` set (parties db) then Inl UniqueViolation
     else let pid = max (next_rowid (party_ids db)) (Suc (party_seq db)) in
       Inr (pid, db\<lparr>parties := parties db @ [\<lparr>pt_id = pid, pt_leader = leader\<rparr>], party_seq := pid\<rparr>))"

text \<open>\<open>INSERT INTO invites\<close>, with the defaults of the columns it does not name.\<close>

definition new_invite ::
    "nat \<Rightarrow> nat \<Rightarrow> nat \<Rightarrow> nat \<Rightarrow> nat \<Rightarrow> nat \<Rightarrow> nat option \<Rightarrow> nat \<Rightarrow> nat \<Rightarrow> invite_row" where
  "new_invite row sender receiver kind ty sid party now ttl =
    \<lparr>i_rowid = row, i_sender = sender, i_receiver = receiver, i_kind = kind, i_type = ty,
     i_session = sid, i_party = party, i_created = now, i_expires = now + ttl, i_delivered = None,
     i_delivery_count = 0, i_accepted = None, i_consumed = None\<rparr>"

definition insert_invite ::
    "nat \<Rightarrow> nat \<Rightarrow> nat \<Rightarrow> nat \<Rightarrow> nat \<Rightarrow> nat option \<Rightarrow> nat \<Rightarrow> nat \<Rightarrow> nat txn" where
  "insert_invite sender receiver kind ty sid party now ttl = (\<lambda>db.
     if sender \<notin> set (user_ids db) \<or> receiver \<notin> set (user_ids db) then Inl ForeignKeyViolation
     else let row = next_rowid (map i_rowid (invites db)) in
       Inr (row, db\<lparr>invites := invites db @ [new_invite row sender receiver kind ty sid party now ttl]\<rparr>))"

text \<open>\<open>ORDER BY ... DESC LIMIT 1\<close>: the row no other is newer than.\<close>

fun latest :: "('a \<Rightarrow> 'a \<Rightarrow> bool) \<Rightarrow> 'a list \<Rightarrow> 'a option" where
  "latest newer [] = None"
| "latest newer (x # xs) =
    (case latest newer xs of None \<Rightarrow> Some x | Some y \<Rightarrow> if newer x y then Some x else Some y)"

text \<open>A loop that counts the rows its statements change.\<close>

fun tsum :: "'a list \<Rightarrow> ('a \<Rightarrow> nat txn) \<Rightarrow> nat txn" where
  "tsum [] f = treturn 0"
| "tsum (x # xs) f = tbind (f x) (\<lambda>n. tbind (tsum xs f) (\<lambda>m. treturn (n + m)))"

lemma next_rowid_fresh: "next_rowid ids \<notin> set ids"
proof -
  have "n \<in> set ids \<Longrightarrow> n \<le> foldr max ids 0" for n by (induction ids) auto
  from this[of "next_rowid ids"] show ?thesis by (auto simp: next_rowid_def)
qed

lemma latest_in: "latest newer xs = Some x \<Longrightarrow> x \<in> set xs"
  by (induction xs arbitrary: x) (auto split: option.splits if_splits)

lemma latest_None [simp]: "latest newer xs = None \<longleftrightarrow> xs = []"
  by (cases xs) (auto split: option.splits)

end
