(* ===== verification/Storage_Invariants.thy ===== *)
theory Storage_Invariants
  imports Storage_Db
begin

text \<open>
  The invariants of the database and a small Hoare logic for transactions. \<open>db_refs\<close> is what
  the schema of \<open>storage/migrations\<close> declares (keys and foreign keys), \<open>parties_ok\<close> ties a
  party to its leader, \<open>lanes_ok\<close> bounds the open invitations of a receiver, and
  \<open>hosts_except X\<close> says that the host of an active session outside \<open>X\<close> takes part in it: a
  transaction breaks it for the sessions it removes participants from and restores it by
  reconciling them.
\<close>

section \<open>Triples\<close>

definition hoare :: "(db \<Rightarrow> bool) \<Rightarrow> 'a txn \<Rightarrow> ('a \<Rightarrow> db \<Rightarrow> bool) \<Rightarrow> bool" where
  "hoare P m Q \<longleftrightarrow> (\<forall>db x db'. P db \<longrightarrow> m db = Inr (x, db') \<longrightarrow> Q x db')"

definition keeps :: "(db \<Rightarrow> bool) \<Rightarrow> 'a txn \<Rightarrow> bool" where
  "keeps I m \<longleftrightarrow> hoare I m (\<lambda>_. I)"

lemma hoareI: "(\<And>db x db'. P db \<Longrightarrow> m db = Inr (x, db') \<Longrightarrow> Q x db') \<Longrightarrow> hoare P m Q"
  by (simp add: hoare_def)

lemma hoareD: "hoare P m Q \<Longrightarrow> P db \<Longrightarrow> m db = Inr (x, db') \<Longrightarrow> Q x db'"
  by (simp add: hoare_def)

lemma keepsD: "keeps I m \<Longrightarrow> I db \<Longrightarrow> m db = Inr (x, db') \<Longrightarrow> I db'"
  by (simp add: keeps_def hoare_def)

lemma keepsI: "(\<And>db x db'. I db \<Longrightarrow> m db = Inr (x, db') \<Longrightarrow> I db') \<Longrightarrow> keeps I m"
  by (simp add: keeps_def hoare_def)

lemma hoare_bind:
  "hoare P m R \<Longrightarrow> (\<And>x. hoare (R x) (f x) Q) \<Longrightarrow> hoare P (tbind m f) Q"
  by (auto simp: hoare_def tbind_Inr_conv)

lemma tbind_assoc: "tbind (tbind m f) g = tbind m (\<lambda>x. tbind (f x) g)"
  by (rule ext) (auto simp: tbind_def split: sum.split)

named_theorems keeps_intros \<open>preservation of an invariant by a transaction\<close>

lemma keeps_bind [keeps_intros]:
  "keeps I m \<Longrightarrow> (\<And>x. keeps I (f x)) \<Longrightarrow> keeps I (tbind m f)"
  unfolding keeps_def by (rule hoare_bind)

lemma keeps_return [keeps_intros]: "keeps I (treturn x)"
  by (auto intro: keepsI)

lemma keeps_fail [keeps_intros]: "keeps I (tfail e)"
  by (auto intro: keepsI)

lemma keeps_read [keeps_intros]: "keeps I (tread f)"
  by (auto intro: keepsI)

lemma keeps_exec: "(\<And>db. I db \<Longrightarrow> I (f db)) \<Longrightarrow> keeps I (texec f)"
  by (simp add: keeps_def hoare_def)

lemma keeps_if [keeps_intros]:
  "(b \<Longrightarrow> keeps I m) \<Longrightarrow> (\<not> b \<Longrightarrow> keeps I m') \<Longrightarrow> keeps I (if b then m else m')"
  by simp

lemma keeps_option [keeps_intros]:
  "keeps I m \<Longrightarrow> (\<And>x. keeps I (f x)) \<Longrightarrow> keeps I (case z of None \<Rightarrow> m | Some x \<Rightarrow> f x)"
  by (cases z) auto

lemma keeps_prod [keeps_intros]:
  "(\<And>x y. keeps I (f x y)) \<Longrightarrow> keeps I (case z of (x, y) \<Rightarrow> f x y)"
  by (cases z) auto

lemma keeps_for [keeps_intros]: "(\<And>x. keeps I (f x)) \<Longrightarrow> keeps I (tfor xs f)"
  by (induction xs) (auto intro: keeps_intros)

lemma keeps_sum [keeps_intros]: "(\<And>x. keeps I (f x)) \<Longrightarrow> keeps I (tsum xs f)"
  by (induction xs) (auto intro: keeps_intros)

section \<open>The invariants\<close>

definition db_refs :: "db \<Rightarrow> bool" where
  "db_refs db \<longleftrightarrow> distinct (user_ids db) \<and> distinct (session_ids db) \<and> distinct (party_ids db)
     \<and> distinct (participants db) \<and> distinct (map fst (party_members db))
     \<and> distinct (map pt_leader (parties db)) \<and> distinct (map i_rowid (invites db))
     \<and> (\<forall>g\<in>set (game_sessions db). g_creator g \<in> set (user_ids db))
     \<and> (\<forall>r\<in>set (participants db). fst r \<in> set (session_ids db) \<and> snd r \<in> set (user_ids db))
     \<and> (\<forall>r\<in>set (station_urls db). fst r \<in> set (user_ids db))
     \<and> (\<forall>r\<in>set (user_sessions db). snd r \<in> set (user_ids db))
     \<and> (\<forall>p\<in>set (parties db). pt_leader p \<in> set (user_ids db) \<and> pt_id p \<le> party_seq db)
     \<and> (\<forall>m\<in>set (party_members db). fst m \<in> set (user_ids db) \<and> snd m \<in> set (party_ids db))
     \<and> (\<forall>i\<in>set (invites db). i_sender i \<in> set (user_ids db) \<and> i_receiver i \<in> set (user_ids db))"

definition parties_ok :: "db \<Rightarrow> bool" where
  "parties_ok db \<longleftrightarrow> (\<forall>p\<in>set (parties db). (pt_leader p, pt_id p) \<in> set (party_members db))"

text \<open>
  A receiver has at most one open invitation in each lane, and an invitation to follow
  names its party.
\<close>

definition lane :: "nat \<Rightarrow> nat" where
  "lane k = (if k = INVITE_KIND_LOBBY_PARTY then INVITE_KIND_PRIVATE_ROOM else k)"

definition open_in_lane :: "nat \<Rightarrow> nat \<Rightarrow> invite_row \<Rightarrow> bool" where
  "open_in_lane u l i \<longleftrightarrow> i_receiver i = u \<and> lane (i_kind i) = l \<and> i_consumed i = None"

definition lanes_ok :: "db \<Rightarrow> bool" where
  "lanes_ok db \<longleftrightarrow> (\<forall>u l. length (filter (open_in_lane u l) (invites db)) \<le> 1)
     \<and> (\<forall>i\<in>set (invites db). i_kind i = INVITE_KIND_PARTY_FOLLOW \<longrightarrow> i_party i \<noteq> None)"

definition hosts_except :: "(nat \<times> nat) set \<Rightarrow> db \<Rightarrow> bool" where
  "hosts_except X db \<longleftrightarrow> (\<forall>g\<in>set (game_sessions db). g_destroyed g = None \<longrightarrow>
     (g_type g, g_id g) \<notin> X \<longrightarrow> is_participant (g_id g) (g_creator g) db)"

definition inv_except :: "(nat \<times> nat) set \<Rightarrow> db \<Rightarrow> bool" where
  "inv_except X db \<longleftrightarrow> db_refs db \<and> parties_ok db \<and> lanes_ok db \<and> hosts_except X db"

definition storage_inv :: "db \<Rightarrow> bool" where
  "storage_inv db = inv_except {} db"

lemmas inv_defs = inv_except_def db_refs_def parties_ok_def hosts_except_def

section \<open>Statements\<close>

lemma update_sessions_simps [simp]:
  "users (update_sessions P f db) = users db" "participants (update_sessions P f db) = participants db"
  "station_urls (update_sessions P f db) = station_urls db" "parties (update_sessions P f db) = parties db"
  "party_members (update_sessions P f db) = party_members db" "invites (update_sessions P f db) = invites db"
  "user_sessions (update_sessions P f db) = user_sessions db" "party_seq (update_sessions P f db) = party_seq db"
  "game_sessions (update_sessions P f db) = map (\<lambda>g. if P g then f g else g) (game_sessions db)"
  by (simp_all add: update_sessions_def)

lemma update_users_simps [simp]:
  "game_sessions (update_users P f db) = game_sessions db" "participants (update_users P f db) = participants db"
  "station_urls (update_users P f db) = station_urls db" "parties (update_users P f db) = parties db"
  "party_members (update_users P f db) = party_members db" "invites (update_users P f db) = invites db"
  "user_sessions (update_users P f db) = user_sessions db" "party_seq (update_users P f db) = party_seq db"
  by (simp_all add: update_users_def)

lemma update_invites_simps [simp]:
  "users (update_invites P f db) = users db" "participants (update_invites P f db) = participants db"
  "station_urls (update_invites P f db) = station_urls db" "parties (update_invites P f db) = parties db"
  "party_members (update_invites P f db) = party_members db"
  "game_sessions (update_invites P f db) = game_sessions db"
  "user_sessions (update_invites P f db) = user_sessions db" "party_seq (update_invites P f db) = party_seq db"
  "invites (update_invites P f db) = map (\<lambda>i. if P i then f i else i) (invites db)"
  by (simp_all add: update_invites_def)

lemma delete_invites_simps [simp]:
  "users (delete_invites P db) = users db" "participants (delete_invites P db) = participants db"
  "station_urls (delete_invites P db) = station_urls db" "parties (delete_invites P db) = parties db"
  "party_members (delete_invites P db) = party_members db"
  "game_sessions (delete_invites P db) = game_sessions db"
  "user_sessions (delete_invites P db) = user_sessions db" "party_seq (delete_invites P db) = party_seq db"
  "invites (delete_invites P db) = filter (\<lambda>i. \<not> P i) (invites db)"
  by (simp_all add: delete_invites_def)

lemma ids_simps [simp]:
  "user_ids (update_sessions P f db) = user_ids db" "party_ids (update_sessions P f db) = party_ids db"
  "is_participant s u (update_sessions P f db) = is_participant s u db"
  "session_ids (update_users R h db) = session_ids db" "party_ids (update_users R h db) = party_ids db"
  "is_participant s u (update_users R h db) = is_participant s u db"
  "user_ids (update_invites Q g db) = user_ids db" "session_ids (update_invites Q g db) = session_ids db"
  "party_ids (update_invites Q g db) = party_ids db"
  "is_participant s u (update_invites Q g db) = is_participant s u db"
  "user_ids (delete_invites Q db) = user_ids db" "session_ids (delete_invites Q db) = session_ids db"
  "party_ids (delete_invites Q db) = party_ids db"
  "is_participant s u (delete_invites Q db) = is_participant s u db"
  by (simp_all add: user_ids_def session_ids_def party_ids_def is_participant_def)

lemma session_ids_update [simp]:
  "(\<And>g. g_id (f g) = g_id g) \<Longrightarrow> session_ids (update_sessions P f db) = session_ids db"
  by (simp add: session_ids_def)

lemma user_ids_update [simp]:
  "(\<And>u. u_id (f u) = u_id u) \<Longrightarrow> user_ids (update_users P f db) = user_ids db"
  by (simp add: user_ids_def update_users_def)

lemma lanes_simps [simp]:
  "lanes_ok (update_users R h db) = lanes_ok db" "lanes_ok (update_sessions P f db) = lanes_ok db"
  by (simp_all add: lanes_ok_def)

text \<open>Users: only the ids matter.\<close>

lemma inv_update_users:
  assumes "\<And>u. u_id (f u) = u_id u" "inv_except X db"
  shows "inv_except X (update_users P f db)"
  using assms by (simp add: inv_defs)

text \<open>Invitations: consuming, delivering and deleting open no new one.\<close>

lemma open_count_map:
  assumes "\<And>i. open_in_lane u l (f i) \<Longrightarrow> open_in_lane u l i"
  shows "length (filter (open_in_lane u l) (map (\<lambda>i. if P i then f i else i) xs))
    \<le> length (filter (open_in_lane u l) xs)"
proof (induction xs)
  case (Cons x xs)
  then show ?case using assms[of x] by simp
qed simp

lemma open_count_filter:
  "length (filter (open_in_lane u l) (filter Q xs)) \<le> length (filter (open_in_lane u l) xs)"
  by (induction xs) simp_all

lemma lanes_update_invites:
  assumes "\<And>u l i. open_in_lane u l (f i) \<Longrightarrow> open_in_lane u l i"
    and "\<And>i. i_kind (f i) = i_kind i \<and> i_party (f i) = i_party i" and "lanes_ok db"
  shows "lanes_ok (update_invites P f db)"
  unfolding lanes_ok_def update_invites_simps
proof (intro conjI allI)
  fix u l
  show "length (filter (open_in_lane u l) (map (\<lambda>i. if P i then f i else i) (invites db))) \<le> 1"
    using assms(3) unfolding lanes_ok_def by (blast intro: order_trans[OF open_count_map[OF assms(1)]])
qed (use assms(2,3) in \<open>auto simp: lanes_ok_def\<close>)

lemma lanes_delete_invites: "lanes_ok db \<Longrightarrow> lanes_ok (delete_invites P db)"
  unfolding lanes_ok_def delete_invites_simps set_filter
  by (blast intro: order_trans[OF open_count_filter])

lemma inv_update_invites:
  assumes "\<And>i. i_receiver (f i) = i_receiver i" "\<And>i. i_sender (f i) = i_sender i"
    "\<And>i. i_kind (f i) = i_kind i \<and> i_party (f i) = i_party i" "\<And>i. i_rowid (f i) = i_rowid i"
    "\<And>i. i_consumed i \<noteq> None \<Longrightarrow> i_consumed (f i) \<noteq> None" "inv_except X db"
  shows "inv_except X (update_invites P f db)"
proof -
  have "open_in_lane u l (f i) \<Longrightarrow> open_in_lane u l i" for u l i
    using assms(5)[of i] by (cases "i_consumed i") (auto simp: open_in_lane_def assms(1,3))
  then have "lanes_ok (update_invites P f db)"
    using assms(3,6) by (intro lanes_update_invites) (auto simp: inv_except_def)
  moreover have "db_refs (update_invites P f db)"
  proof -
    have "map i_rowid (map (\<lambda>i. if P i then f i else i) xs) = map i_rowid xs" for xs
      by (induction xs) (simp_all add: assms(4))
    moreover have "\<forall>i\<in>set (map (\<lambda>i. if P i then f i else i) (invites db)).
        i_sender i \<in> set (user_ids db) \<and> i_receiver i \<in> set (user_ids db)"
      using assms(6) by (auto simp: inv_except_def db_refs_def assms(1,2))
    ultimately show ?thesis
      using assms(6) by (simp add: inv_except_def db_refs_def del: map_map)
  qed
  ultimately show ?thesis using assms(6) by (simp add: inv_except_def parties_ok_def hosts_except_def)
qed

lemma inv_delete_invites: "inv_except X db \<Longrightarrow> inv_except X (delete_invites P db)"
  using lanes_delete_invites[of db P] by (auto simp: inv_defs intro: distinct_map_filter)

text \<open>Sessions: a change that keeps id and type; the new host takes part.\<close>

lemma inv_update_sessions:
  assumes "\<And>g. g_id (f g) = g_id g" "inv_except X db"
    and "\<And>g. g \<in> set (game_sessions db) \<Longrightarrow> P g \<Longrightarrow> g_creator (f g) \<in> set (user_ids db)"
    and "\<And>g. g \<in> set (game_sessions db) \<Longrightarrow> P g \<Longrightarrow> g_destroyed (f g) = None \<Longrightarrow>
           (g_type (f g), g_id g) \<notin> Y \<Longrightarrow> is_participant (g_id g) (g_creator (f g)) db"
    and "\<And>g. g \<in> set (game_sessions db) \<Longrightarrow> \<not> P g \<Longrightarrow> g_destroyed g = None \<Longrightarrow>
           (g_type g, g_id g) \<in> X \<Longrightarrow> (g_type g, g_id g) \<in> Y"
  shows "inv_except Y (update_sessions P f db)"
proof -
  have "\<forall>g\<in>set (map (\<lambda>g. if P g then f g else g) (game_sessions db)). g_creator g \<in> set (user_ids db)"
    using assms(2,3) by (auto simp: inv_except_def db_refs_def)
  then have "db_refs (update_sessions P f db)"
    using assms(1,2) by (simp add: inv_except_def db_refs_def del: set_map)
  moreover have "hosts_except Y (update_sessions P f db)"
    unfolding hosts_except_def
  proof (intro ballI impI)
    fix h assume h: "h \<in> set (game_sessions (update_sessions P f db))"
      "g_destroyed h = None" "(g_type h, g_id h) \<notin> Y"
    then obtain g where g: "g \<in> set (game_sessions db)" "h = (if P g then f g else g)" by auto
    show "is_participant (g_id h) (g_creator h) (update_sessions P f db)"
    proof (cases "P g")
      case True then show ?thesis using assms(4)[OF g(1)] h g(2) by (simp add: assms(1))
    next
      case False then show ?thesis
        using assms(2,5) g h by (auto simp: inv_except_def hosts_except_def)
    qed
  qed
  ultimately show ?thesis using assms(2) by (simp add: inv_except_def parties_ok_def)
qed

lemma inv_weaken: "inv_except X db \<Longrightarrow> X \<subseteq> Y \<Longrightarrow> inv_except Y db"
  unfolding inv_except_def hosts_except_def by blast

lemma inv_users: "inv_except X db \<Longrightarrow> i \<in> set (invites db) \<Longrightarrow>
    i_sender i \<in> set (user_ids db) \<and> i_receiver i \<in> set (user_ids db)"
  by (simp add: inv_except_def db_refs_def)

text \<open>Participants.\<close>

lemma inv_insert_participant: "keeps (inv_except X) (insert_participant sid uid)"
proof (rule keepsI)
  fix db x db' assume inv: "inv_except X db" and *: "insert_participant sid uid db = Inr (x, db')"
  then consider "db' = db"
    | "(sid, uid) \<notin> set (participants db)" "sid \<in> set (session_ids db)" "uid \<in> set (user_ids db)"
      "db' = db\<lparr>participants := participants db @ [(sid, uid)]\<rparr>"
    by (auto simp: insert_participant_def split: if_splits)
  then show "inv_except X db'"
  proof cases
    case 2
    have "hosts_except X db'"
      using inv unfolding 2(4) inv_except_def hosts_except_def is_participant_def by auto
    moreover have "db_refs db'"
      using inv 2(1-3) unfolding 2(4) inv_except_def db_refs_def
      by (simp add: user_ids_def session_ids_def party_ids_def)
    ultimately show ?thesis
      using inv unfolding 2(4) inv_except_def by (simp add: parties_ok_def lanes_ok_def)
  qed (use inv in simp)
qed

text \<open>Parties.\<close>

definition same_but_parties :: "db \<Rightarrow> db \<Rightarrow> bool" where
  "same_but_parties db db' \<longleftrightarrow> users db' = users db \<and> game_sessions db' = game_sessions db
     \<and> participants db' = participants db \<and> station_urls db' = station_urls db
     \<and> user_sessions db' = user_sessions db \<and> invites db' = invites db"

lemma same_but_parties_refl [simp]: "same_but_parties db db"
  by (simp add: same_but_parties_def)

lemma same_but_parties_trans:
  "same_but_parties a b \<Longrightarrow> same_but_parties b c \<Longrightarrow> same_but_parties a c"
  by (simp add: same_but_parties_def)

text \<open>What the party tables have to satisfy, with the users as a parameter.\<close>

definition party_tables :: "nat set \<Rightarrow> db \<Rightarrow> bool" where
  "party_tables us db \<longleftrightarrow> distinct (party_ids db) \<and> distinct (map fst (party_members db))
     \<and> distinct (map pt_leader (parties db))
     \<and> (\<forall>p\<in>set (parties db). pt_leader p \<in> us \<and> pt_id p \<le> party_seq db)
     \<and> (\<forall>m\<in>set (party_members db). fst m \<in> us \<and> snd m \<in> set (party_ids db))"

lemma inv_party_tables: "inv_except X db \<Longrightarrow> party_tables (set (user_ids db)) db"
  by (simp add: inv_except_def db_refs_def party_tables_def)

lemma inv_parties:
  assumes "inv_except X db" "same_but_parties db db'"
    and "party_tables (set (user_ids db)) db'" "parties_ok db'"
  shows "inv_except X db'"
proof -
  note same = assms(2)[unfolded same_but_parties_def]
  have ids: "user_ids db' = user_ids db" "session_ids db' = session_ids db"
    using same by (simp_all add: user_ids_def session_ids_def)
  have "db_refs db'"
    using assms(1,3) unfolding inv_except_def db_refs_def party_tables_def by (simp add: same ids)
  moreover have "lanes_ok db'" "hosts_except X db'"
    using assms(1) same by (simp_all add: inv_except_def lanes_ok_def hosts_except_def is_participant_def)
  ultimately show ?thesis using assms(4) by (simp add: inv_except_def)
qed

lemma distinct_key_eq: "distinct (map f xs) \<Longrightarrow> x \<in> set xs \<Longrightarrow> y \<in> set xs \<Longrightarrow> f x = f y \<Longrightarrow> x = y"
  by (metis distinct_map inj_on_def)

lemma delete_parties_tables:
  assumes "party_tables us db" "parties_ok db"
  shows "party_tables us (delete_parties P db)" "parties_ok (delete_parties P db)"
    "same_but_parties db (delete_parties P db)"
proof -
  have other: "p \<in> set (parties db) \<Longrightarrow> \<not> P p \<Longrightarrow> q \<in> set (parties db) \<Longrightarrow> P q \<Longrightarrow> pt_id p \<noteq> pt_id q" for p q
    using assms(1) distinct_key_eq[of pt_id "parties db" p q] by (auto simp: party_tables_def party_ids_def)
  have kept: "b \<in> pt_id ` set (parties db) \<Longrightarrow> b \<notin> pt_id ` {p \<in> set (parties db). P p}
    \<Longrightarrow> b \<in> pt_id ` {p \<in> set (parties db). \<not> P p}" for b by blast
  show "party_tables us (delete_parties P db)"
    using assms(1) kept unfolding party_tables_def delete_parties_def party_ids_def Let_def
    by (simp add: distinct_map_filter)
  show "parties_ok (delete_parties P db)"
    using assms(2) other unfolding parties_ok_def delete_parties_def Let_def by auto
  show "same_but_parties db (delete_parties P db)"
    by (simp add: same_but_parties_def delete_parties_def Let_def)
qed

lemma drop_party_tables:
  assumes "party_tables us db" "parties_ok db"
  shows "party_tables us (drop_party u db)" "parties_ok (drop_party u db)"
    "same_but_parties db (drop_party u db)"
proof -
  let ?d = "delete_parties (\<lambda>p. pt_leader p = u) db"
  note del = delete_parties_tables[OF assms, of "\<lambda>p. pt_leader p = u"]
  have eq: "drop_party u db = delete_party_member u ?d" by (simp add: drop_party_def)
  show "party_tables us (drop_party u db)"
    using del(1) unfolding eq
    by (simp add: delete_party_member_def party_tables_def party_ids_def distinct_map_filter)
  have "\<forall>p\<in>set (parties ?d). pt_leader p \<noteq> u" by (simp add: delete_parties_def Let_def)
  then show "parties_ok (drop_party u db)"
    using del(2) unfolding eq by (simp add: delete_party_member_def parties_ok_def)
  show "same_but_parties db (drop_party u db)"
    using del(3) unfolding eq by (simp add: delete_party_member_def same_but_parties_def)
qed

lemma inv_parties_ok: "inv_except X db \<Longrightarrow> parties_ok db"
  by (simp add: inv_except_def)

lemma inv_delete_parties:
  assumes "inv_except X db" shows "inv_except X (delete_parties P db)"
  using delete_parties_tables[OF inv_party_tables[OF assms] inv_parties_ok[OF assms]]
  by (intro inv_parties[OF assms])

lemma inv_drop_party:
  assumes "inv_except X db" shows "inv_except X (drop_party u db)"
  using drop_party_tables[OF inv_party_tables[OF assms] inv_parties_ok[OF assms]]
  by (intro inv_parties[OF assms])

lemma upsert_tables:
  assumes "party_tables us db" "upsert_party_member uid pid db = Inr (x, db')" "us = set (user_ids db)"
    and "\<forall>p\<in>set (parties db). if pt_leader p = uid then pt_id p = pid
           else (pt_leader p, pt_id p) \<in> set (party_members db)"
  shows "party_tables us db' \<and> parties_ok db' \<and> same_but_parties db db' \<and> (uid, pid) \<in> set (party_members db')
    \<and> parties db' = parties db"
proof -
  define ms where "ms = (if uid \<in> fst ` set (party_members db)
    then map (\<lambda>m. if fst m = uid then (uid, pid) else m) (party_members db)
    else party_members db @ [(uid, pid)])"
  have db': "db' = db\<lparr>party_members := ms\<rparr>" and ok: "uid \<in> us" "pid \<in> set (party_ids db)"
    using assms(2,3) by (auto simp: upsert_party_member_def ms_def split: if_splits)
  have keys: "map fst (map (\<lambda>m. if fst m = uid then (uid, pid) else m) xs) = map fst xs" for xs :: "(nat \<times> nat) list"
    by (induction xs) auto
  have d: "distinct (map fst ms)"
    using assms(1) keys by (auto simp: party_tables_def ms_def simp del: map_map)
  have m: "\<forall>m\<in>set ms. fst m \<in> us \<and> snd m \<in> set (party_ids db)"
    using assms(1) ok by (auto simp: party_tables_def ms_def split: if_splits)
  have new: "(uid, pid) \<in> set ms" by (force simp: ms_def)
  have old: "m \<in> set (party_members db) \<Longrightarrow> fst m \<noteq> uid \<Longrightarrow> m \<in> set ms" for m
    by (force simp: ms_def)
  have "(pt_leader p, pt_id p) \<in> set ms" if "p \<in> set (parties db)" for p
    using assms(4)[rule_format, OF that] new old[of "(pt_leader p, pt_id p)"]
    by (cases "pt_leader p = uid") auto
  then show ?thesis
    using assms(1) d m new unfolding db'
    by (simp add: party_tables_def parties_ok_def same_but_parties_def party_ids_def)
qed

lemma inv_upsert_party_member:
  "hoare (\<lambda>db. inv_except X db \<and> (\<forall>p\<in>set (parties db). pt_leader p = uid \<longrightarrow> pt_id p = pid))
     (upsert_party_member uid pid) (\<lambda>_. inv_except X)"
proof (rule hoareI, elim conjE)
  fix db x db' assume inv: "inv_except X db" and "upsert_party_member uid pid db = Inr (x, db')"
    and "\<forall>p\<in>set (parties db). pt_leader p = uid \<longrightarrow> pt_id p = pid"
  then have "party_tables (set (user_ids db)) db' \<and> parties_ok db' \<and> same_but_parties db db'"
    using upsert_tables[OF inv_party_tables[OF inv]] inv by (auto simp: inv_except_def parties_ok_def)
  then show "inv_except X db'" using inv_parties[OF inv] by blast
qed

lemma insert_party_tables:
  assumes "party_tables (set (user_ids db)) db" "insert_party leader db = Inr (pid, db')"
  shows "party_tables (set (user_ids db)) db' \<and> same_but_parties db db'
    \<and> (\<exists>q. parties db' = parties db @ [q] \<and> pt_leader q = leader \<and> pt_id q = pid)
    \<and> party_members db' = party_members db \<and> leader \<notin> pt_leader ` set (parties db)"
proof -
  define k where "k = max (next_rowid (party_ids db)) (Suc (party_seq db))"
  have *: "pid = k" "leader \<in> set (user_ids db)" "leader \<notin> pt_leader ` set (parties db)"
    "db' = db\<lparr>parties := parties db @ [\<lparr>pt_id = k, pt_leader = leader\<rparr>], party_seq := k\<rparr>"
    using assms(2) by (auto simp: insert_party_def k_def Let_def split: if_splits)
  have k: "\<forall>p\<in>set (parties db). pt_id p < k"
    using assms(1) by (auto simp: party_tables_def k_def)
  show ?thesis
    using assms(1) *(2,3) k unfolding *(1,4) party_tables_def same_but_parties_def party_ids_def
    by (auto intro: less_imp_le)
qed

text \<open>Deleting participants.\<close>

lemma delete_row_frame:
  assumes "inv_except UNIV db"
  shows "inv_except UNIV (delete_participant_row r db)
    \<and> users (delete_participant_row r db) = users db
    \<and> game_sessions (delete_participant_row r db) = game_sessions db
    \<and> station_urls (delete_participant_row r db) = station_urls db
    \<and> user_sessions (delete_participant_row r db) = user_sessions db
    \<and> invites (delete_participant_row r db) = invites db
    \<and> participants (delete_participant_row r db) = filter (\<lambda>q. q \<noteq> r) (participants db)"
proof -
  let ?d = "db\<lparr>participants := filter (\<lambda>q. q \<noteq> r) (participants db)\<rparr>"
  have inv: "inv_except UNIV ?d"
    using assms by (auto simp: inv_except_def db_refs_def parties_ok_def lanes_ok_def hosts_except_def
        user_ids_def session_ids_def party_ids_def)
  show ?thesis
    using inv inv_drop_party[OF inv]
      drop_party_tables(3)[OF inv_party_tables[OF inv] inv_parties_ok[OF inv], of "snd r"]
    by (simp add: delete_participant_row_def Let_def same_but_parties_def)
qed

lemma delete_rows_frame:
  assumes "inv_except UNIV db"
  shows "inv_except UNIV (foldl (\<lambda>db r. delete_participant_row r db) db rs)
    \<and> users (foldl (\<lambda>db r. delete_participant_row r db) db rs) = users db
    \<and> game_sessions (foldl (\<lambda>db r. delete_participant_row r db) db rs) = game_sessions db
    \<and> station_urls (foldl (\<lambda>db r. delete_participant_row r db) db rs) = station_urls db
    \<and> user_sessions (foldl (\<lambda>db r. delete_participant_row r db) db rs) = user_sessions db
    \<and> invites (foldl (\<lambda>db r. delete_participant_row r db) db rs) = invites db
    \<and> participants (foldl (\<lambda>db r. delete_participant_row r db) db rs)
        = filter (\<lambda>q. q \<notin> set rs) (participants db)"
  using assms
proof (induction rs arbitrary: db)
  case (Cons r rs)
  note row = delete_row_frame[OF Cons.prems, of r]
  show ?case using row Cons.IH[of "delete_participant_row r db"]
    by (simp add: conj_commute cong: conj_cong)
qed simp

lemma inv_UNIV: "inv_except X db \<Longrightarrow> inv_except UNIV db"
  by (rule inv_weaken) auto

lemma delete_participants_frame:
  assumes "inv_except X db"
  shows "users (delete_participants P db) = users db"
    "game_sessions (delete_participants P db) = game_sessions db"
    "station_urls (delete_participants P db) = station_urls db"
    "user_sessions (delete_participants P db) = user_sessions db"
    "invites (delete_participants P db) = invites db"
    "participants (delete_participants P db) = filter (\<lambda>r. \<not> P r) (participants db)"
    "inv_except UNIV (delete_participants P db)"
  using delete_rows_frame[OF inv_UNIV[OF assms], of "filter P (participants db)"]
  by (simp_all add: delete_participants_def cong: filter_cong)

lemma inv_delete_participants:
  assumes "inv_except X db"
    and "\<And>g. g \<in> set (game_sessions db) \<Longrightarrow> g_destroyed g = None \<Longrightarrow> P (g_id g, g_creator g)
      \<Longrightarrow> (g_type g, g_id g) \<in> Y"
  shows "inv_except (X \<union> Y) (delete_participants P db)"
proof -
  note frame = delete_participants_frame[OF assms(1), of P]
  have "hosts_except (X \<union> Y) (delete_participants P db)"
    using assms unfolding inv_except_def hosts_except_def is_participant_def frame(2,6) by auto
  then show ?thesis using frame(7) by (simp add: inv_except_def)
qed

text \<open>Invitations.\<close>

lemma inv_insert_invite:
  "hoare (\<lambda>db. inv_except X db \<and> (\<forall>i\<in>set (invites db). \<not> open_in_lane receiver (lane kind) i)
       \<and> (kind = INVITE_KIND_PARTY_FOLLOW \<longrightarrow> party \<noteq> None))
     (insert_invite sender receiver kind ty sid party now ttl) (\<lambda>_. inv_except X)"
proof (rule hoareI, elim conjE)
  fix db x db' assume inv: "inv_except X db"
    and free: "\<forall>i\<in>set (invites db). \<not> open_in_lane receiver (lane kind) i"
    and pty: "kind = INVITE_KIND_PARTY_FOLLOW \<longrightarrow> party \<noteq> None"
    and ins: "insert_invite sender receiver kind ty sid party now ttl db = Inr (x, db')"
  define j where "j = new_invite (next_rowid (map i_rowid (invites db))) sender receiver kind ty sid party now ttl"
  from ins have "db' = db\<lparr>invites := invites db @ [j]\<rparr>" "sender \<in> set (user_ids db)" "receiver \<in> set (user_ids db)"
    by (auto simp: insert_invite_def j_def Let_def split: if_splits)
  then obtain i where i: "i_sender i \<in> set (user_ids db)" "i_receiver i = receiver" "i_kind i = kind"
      "receiver \<in> set (user_ids db)" "i_rowid i \<notin> i_rowid ` set (invites db)" "i_party i = party"
      "db' = db\<lparr>invites := invites db @ [i]\<rparr>"
    using next_rowid_fresh[of "map i_rowid (invites db)"]
    by (intro that[of j]) (simp_all add: j_def new_invite_def)
  have "lanes_ok db'"
    unfolding lanes_ok_def
  proof (intro conjI allI)
    fix u l
    have le: "length (filter (open_in_lane u l) (invites db)) \<le> 1"
      using inv by (simp add: inv_except_def lanes_ok_def)
    show "length (filter (open_in_lane u l) (invites db')) \<le> 1"
    proof (cases "open_in_lane u l i")
      case True
      then have "filter (open_in_lane u l) (invites db) = []"
        using free i(2,3) by (auto simp: open_in_lane_def filter_empty_conv)
      then show ?thesis by (simp add: i(7))
    qed (use le in \<open>simp add: i(7)\<close>)
  qed (use inv pty i(3,6) in \<open>auto simp: i(7) inv_except_def lanes_ok_def\<close>)
  then show "inv_except X db'"
    using inv i unfolding i(7) inv_except_def db_refs_def parties_ok_def hosts_except_def is_participant_def
    by (auto simp: user_ids_def session_ids_def party_ids_def)
qed

end
