(* ===== verification/Storage_Parties.thy ===== *)
theory Storage_Parties
  imports Storage_Invariants
begin

text \<open>
  Parties: \<open>ensure_party_for_leader_async\<close> and \<open>queue_party_follow_invites_async\<close> of
  \<open>dedicated-server/src/storage/mod.rs\<close>. The columns \<open>updated_at\<close> and \<open>joined_at\<close>, which
  nothing reads, are not modelled, so the statements that set only them are left out.
\<close>

section \<open>Operations\<close>

definition find_party :: "nat \<Rightarrow> db \<Rightarrow> nat option" where
  "find_party leader db = map_option pt_id (find (\<lambda>p. pt_leader p = leader) (parties db))"

definition ensure_party_for_leader :: "nat \<Rightarrow> nat txn" where
  "ensure_party_for_leader leader =
    tbind (tread (find_party leader)) (\<lambda>existing.
    tbind (case existing of Some pid \<Rightarrow> treturn pid | None \<Rightarrow> insert_party leader) (\<lambda>pid.
    tbind (upsert_party_member leader pid) (\<lambda>_. treturn pid)))"

text \<open>
  The row that makes a new follow invitation superfluous. In the condition of the
  \<open>DELETE\<close> a null \<open>party_id\<close> leaves the comparison undecided, and an undecided row is kept.
\<close>

definition follow_target :: "nat \<Rightarrow> nat \<Rightarrow> nat \<Rightarrow> nat \<Rightarrow> invite_row \<Rightarrow> bool" where
  "follow_target now ty sid receiver i \<longleftrightarrow> i_receiver i = receiver \<and> i_kind i = INVITE_KIND_PARTY_FOLLOW
     \<and> i_consumed i = None \<and> i_type i = ty \<and> i_session i = sid \<and> i_expires i > now"

definition stale_follow :: "nat \<Rightarrow> nat \<Rightarrow> nat \<Rightarrow> nat \<Rightarrow> nat \<Rightarrow> invite_row \<Rightarrow> bool" where
  "stale_follow now pid ty sid receiver i \<longleftrightarrow> i_receiver i = receiver
     \<and> i_kind i = INVITE_KIND_PARTY_FOLLOW \<and> i_consumed i = None
     \<and> \<not> ((i_party i = None \<or> i_party i = Some pid) \<and> follow_target now ty sid receiver i)"

definition follow_member :: "nat \<Rightarrow> nat \<Rightarrow> nat \<Rightarrow> nat \<Rightarrow> nat \<Rightarrow> nat \<Rightarrow> nat txn" where
  "follow_member now leader pid ty sid receiver =
    tbind (texec (delete_invites (stale_follow now pid ty sid receiver))) (\<lambda>_.
    tbind (tread (\<lambda>db. \<exists>i\<in>set (invites db). i_party i = Some pid \<and> follow_target now ty sid receiver i)) (\<lambda>present.
    if present then treturn 0
    else tbind (insert_invite leader receiver INVITE_KIND_PARTY_FOLLOW ty sid (Some pid) now 300)
      (\<lambda>_. treturn 1)))"

definition party_follower_ids :: "nat \<Rightarrow> nat \<Rightarrow> db \<Rightarrow> nat list" where
  "party_follower_ids leader pid db =
    sort (map fst (filter (\<lambda>m. snd m = pid \<and> fst m \<noteq> leader) (party_members db)))"

definition queue_party_follow_invites :: "nat \<Rightarrow> nat \<Rightarrow> nat \<Rightarrow> nat \<Rightarrow> nat txn" where
  "queue_party_follow_invites now leader ty sid =
    tbind (tread (find_party leader)) (\<lambda>party.
    case party of
      None \<Rightarrow> treturn 0
    | Some pid \<Rightarrow>
        tbind (tread (is_participant sid leader)) (\<lambda>joined.
        if \<not> joined then treturn 0
        else tbind (tread (party_follower_ids leader pid)) (\<lambda>members.
          tsum members (follow_member now leader pid ty sid))))"

section \<open>Preservation\<close>

lemma find_party_Some:
  "find_party leader db = Some pid \<Longrightarrow> \<exists>p\<in>set (parties db). pt_leader p = leader \<and> pt_id p = pid"
  by (auto simp: find_party_def find_Some_iff)

lemma find_party_unique:
  assumes "inv_except X db" "find_party leader db = Some pid"
  shows "\<forall>p\<in>set (parties db). pt_leader p = leader \<longrightarrow> pt_id p = pid"
  using find_party_Some[OF assms(2)] inv_party_tables[OF assms(1)] distinct_key_eq[of pt_leader "parties db"]
  by (fastforce simp: party_tables_def)

lemma find_party_None: "find_party leader db = None \<longleftrightarrow> leader \<notin> pt_leader ` set (parties db)"
  by (auto simp: find_party_def find_None_iff)

lemma ensure_party_result:
  assumes inv: "inv_except X db" and run: "ensure_party_for_leader leader db = Inr (pid, db')"
  shows "inv_except X db' \<and> same_but_parties db db' \<and> find_party leader db' = Some pid
    \<and> (leader, pid) \<in> set (party_members db')"
proof (cases "find_party leader db")
  case (Some k)
  with run have [simp]: "pid = k" and up: "upsert_party_member leader k db = Inr ((), db')"
    by (auto simp: ensure_party_for_leader_def tbind_Inr_conv)
  have "\<forall>p\<in>set (parties db). if pt_leader p = leader then pt_id p = k
      else (pt_leader p, pt_id p) \<in> set (party_members db)"
    using find_party_unique[OF inv Some] inv by (simp add: inv_except_def parties_ok_def)
  note * = upsert_tables[OF inv_party_tables[OF inv] up refl this]
  then show ?thesis using inv_parties[OF inv, of db'] Some by (simp add: find_party_def)
next
  case None
  with run obtain d where ins: "insert_party leader db = Inr (pid, d)"
    and up: "upsert_party_member leader pid d = Inr ((), db')"
    by (auto simp: ensure_party_for_leader_def tbind_Inr_conv)
  note t = insert_party_tables[OF inv_party_tables[OF inv] ins]
  then obtain q where q: "parties d = parties db @ [q]" "pt_leader q = leader" "pt_id q = pid"
    and m: "party_members d = party_members db" and new: "leader \<notin> pt_leader ` set (parties db)" by blast
  have ids: "user_ids d = user_ids db" using t by (simp add: same_but_parties_def user_ids_def)
  have "\<forall>p\<in>set (parties d). if pt_leader p = leader then pt_id p = pid
      else (pt_leader p, pt_id p) \<in> set (party_members d)"
  proof -
    have "\<forall>p\<in>set (parties db). pt_leader p \<noteq> leader" using new by blast
    then show ?thesis using inv q m by (simp add: inv_except_def parties_ok_def)
  qed
  have "party_tables (set (user_ids d)) d" using t by (simp add: ids)
  note u = upsert_tables[OF this up refl \<open>\<forall>p\<in>set (parties d). _\<close>]
  have same: "same_but_parties db db'" using t u same_but_parties_trans by blast
  have "find (\<lambda>p. pt_leader p = leader) (parties db) = None" using new by (auto simp: find_None_iff)
  then have "find (\<lambda>p. pt_leader p = leader) (parties db @ [q]) = Some q"
    using q(2) by (induction "parties db") (auto simp: find_None_iff find_Some_iff nth_append)
  then have "find_party leader db' = Some pid" using u q by (simp add: find_party_def)
  moreover have "inv_except X db'"
    using inv_parties[OF inv same] u by (simp add: ids)
  ultimately show ?thesis using u same by blast
qed

lemma ensure_party_keeps [keeps_intros]: "keeps (inv_except X) (ensure_party_for_leader leader)"
  using ensure_party_result by (intro keepsI) blast

lemma lane_follow: "lane k = INVITE_KIND_PARTY_FOLLOW \<longleftrightarrow> k = INVITE_KIND_PARTY_FOLLOW"
  by (simp add: lane_def invite_kinds)

lemma follow_member_keeps [keeps_intros]: "keeps (inv_except X) (follow_member now leader pid ty sid receiver)"
proof (rule keepsI)
  fix db x db' assume inv: "inv_except X db"
    and run: "follow_member now leader pid ty sid receiver db = Inr (x, db')"
  define d where "d = delete_invites (stale_follow now pid ty sid receiver) db"
  have inv': "inv_except X d" unfolding d_def using inv by (rule inv_delete_invites)
  show "inv_except X db'"
  proof (cases "\<exists>i\<in>set (invites d). i_party i = Some pid \<and> follow_target now ty sid receiver i")
    case True then show ?thesis using run inv' by (simp add: follow_member_def d_def[symmetric])
  next
    case False
    with run obtain r where ins: "insert_invite leader receiver INVITE_KIND_PARTY_FOLLOW ty sid (Some pid) now 300 d = Inr (r, db')"
      by (auto simp: follow_member_def d_def[symmetric] tbind_Inr_conv)
    have "\<not> open_in_lane receiver (lane INVITE_KIND_PARTY_FOLLOW) i" if "i \<in> set (invites d)" for i
    proof
      assume "open_in_lane receiver (lane INVITE_KIND_PARTY_FOLLOW) i"
      then have o: "i_receiver i = receiver" "i_kind i = INVITE_KIND_PARTY_FOLLOW" "i_consumed i = None"
        by (auto simp: open_in_lane_def lane_follow) (simp_all add: lane_def invite_kinds split: if_splits)
      moreover have "i_party i \<noteq> None" using inv' that o(2) by (auto simp: inv_except_def lanes_ok_def)
      ultimately have "i_party i = Some pid \<and> follow_target now ty sid receiver i"
        using that by (auto simp: d_def stale_follow_def)
      with False that show False by blast
    qed
    then show ?thesis using hoareD[OF inv_insert_invite _ ins] inv' by blast
  qed
qed

lemma queue_follow_keeps [keeps_intros]: "keeps (inv_except X) (queue_party_follow_invites now leader ty sid)"
  unfolding queue_party_follow_invites_def by (intro keeps_intros)

end
