(* ===== verification/Storage_Sessions.thy ===== *)
theory Storage_Sessions
  imports Storage_Parties "HOL-Library.AList"
begin

text \<open>
  Game sessions: the operations of \<open>dedicated-server/src/storage/mod.rs\<close> that create, join,
  leave, reconcile, migrate, restore and delete sessions, the searches, the station URLs, and
  what happens to the state of a user whose connection closes. An operation is one database
  transaction; the values the code computes only for its log are left out. A rowset without
  \<open>ORDER BY\<close> is in table order, a \<open>HashSet\<close> of arguments in the order of the argument list.
\<close>

section \<open>Hosts\<close>

definition destroy :: "nat \<Rightarrow> session_row \<Rightarrow> session_row" where
  "destroy now g = g\<lparr>g_destroyed := Some now\<rparr>"

definition set_host :: "nat \<Rightarrow> session_row \<Rightarrow> session_row" where
  "set_host u g = g\<lparr>g_creator := u\<rparr>"

text \<open>
  \<open>reconcile_game_session_async\<close>: an active session without participants is destroyed, one
  whose host is gone gets the participant with the smallest id.
\<close>

definition reconcile_game_session :: "nat \<Rightarrow> nat \<Rightarrow> nat \<Rightarrow> nat option txn" where
  "reconcile_game_session now ty sid =
    tbind (tread (find_active ty sid)) (\<lambda>creator.
    case creator of
      None \<Rightarrow> treturn None
    | Some g \<Rightarrow>
        tbind (tread (participant_ids sid)) (\<lambda>ids.
        case ids of
          [] \<Rightarrow> tbind (texec (update_sessions (active_session ty sid) (destroy now))) (\<lambda>_. treturn None)
        | new_creator # _ \<Rightarrow>
            if g_creator g \<in> set ids then treturn (Some (g_creator g))
            else tbind (texec (update_sessions (active_session ty sid) (set_host new_creator)))
              (\<lambda>_. treturn (Some new_creator))))"

definition leave_game_session :: "nat \<Rightarrow> nat \<Rightarrow> nat \<Rightarrow> nat \<Rightarrow> unit txn" where
  "leave_game_session now uid ty sid =
    tbind (texec (\<lambda>db. delete_participants
      (\<lambda>r. r = (sid, uid) \<and> (\<exists>g\<in>set (game_sessions db). active_session ty sid g)) db)) (\<lambda>_.
    tbind (reconcile_game_session now ty sid) (\<lambda>_. treturn ()))"

definition migrate_game_session_host :: "nat \<Rightarrow> nat \<Rightarrow> nat \<Rightarrow> bool txn" where
  "migrate_game_session_host uid ty sid =
    tbind (tread (\<lambda>db. (\<exists>g\<in>set (game_sessions db). active_session ty sid g) \<and> is_participant sid uid db))
      (\<lambda>ok. if \<not> ok then treturn False
        else tbind (texec (update_sessions (active_session ty sid) (set_host uid))) (\<lambda>_. treturn True))"

definition abandoned_by :: "nat \<Rightarrow> nat \<Rightarrow> nat \<Rightarrow> session_row \<Rightarrow> bool" where
  "abandoned_by uid ty sid g \<longleftrightarrow> g_id g = sid \<and> g_type g = ty \<and> g_creator g = uid \<and> g_destroyed g \<noteq> None"

definition restore_abandoned_game_session_for_split :: "nat \<Rightarrow> nat \<Rightarrow> nat \<Rightarrow> bool txn" where
  "restore_abandoned_game_session_for_split uid ty sid =
    tbind (tread (\<lambda>db. length (filter (abandoned_by uid ty sid) (game_sessions db)))) (\<lambda>affected.
    if affected \<noteq> 1 then treturn False
    else tbind (texec (update_sessions (abandoned_by uid ty sid)
          (\<lambda>g. g\<lparr>g_creator := uid, g_destroyed := None\<rparr>))) (\<lambda>_.
      tbind (insert_participant sid uid) (\<lambda>_. treturn True)))"

section \<open>Creating, joining and deleting\<close>

text \<open>The cast \<open>id as u32\<close> of a rowid.\<close>

definition as_u32 :: "nat \<Rightarrow> nat" where
  "as_u32 n = n mod 2 ^ 32"

definition insert_session :: "nat \<Rightarrow> nat \<Rightarrow> string \<Rightarrow> nat txn" where
  "insert_session ty uid attributes = (\<lambda>db.
     if uid \<notin> set (user_ids db) then Inl ForeignKeyViolation
     else let sid = next_rowid (session_ids db) in
       Inr (sid, db\<lparr>game_sessions := game_sessions db @ [\<lparr>g_id = sid, g_type = ty,
         g_attributes = attributes, g_creator = uid, g_destroyed = None\<rparr>]\<rparr>))"

definition create_game_session :: "nat \<Rightarrow> nat \<Rightarrow> nat \<Rightarrow> string \<Rightarrow> nat txn" where
  "create_game_session now uid ty attributes =
    tbind (insert_session ty uid attributes) (\<lambda>sid.
    tbind (insert_participant sid uid) (\<lambda>_.
    tbind (if is_game_room_attributes attributes
           then queue_party_follow_invites now uid ty (as_u32 sid) else treturn 0) (\<lambda>_.
    treturn (as_u32 sid))))"

definition game_session_is_active :: "nat \<Rightarrow> nat \<Rightarrow> bool txn" where
  "game_session_is_active ty sid = tread (\<lambda>db. \<exists>g\<in>set (game_sessions db). active_session ty sid g)"

definition newer_invite :: "invite_row \<Rightarrow> invite_row \<Rightarrow> bool" where
  "newer_invite i j \<longleftrightarrow> i_created i > i_created j \<or> i_created i = i_created j \<and> i_rowid i > i_rowid j"

definition live_accepted :: "nat \<Rightarrow> nat \<Rightarrow> nat \<Rightarrow> nat \<Rightarrow> invite_row \<Rightarrow> bool" where
  "live_accepted now uid ty sid i \<longleftrightarrow> i_receiver i = uid \<and> i_type i = ty \<and> i_session i = sid
     \<and> i_accepted i \<noteq> None \<and> i_consumed i = None \<and> i_expires i > now"

definition accepted_lobby_invite :: "nat \<Rightarrow> nat \<Rightarrow> nat \<Rightarrow> nat \<Rightarrow> db \<Rightarrow> invite_row option" where
  "accepted_lobby_invite now uid ty sid db = latest newer_invite
     (filter (\<lambda>i. live_accepted now uid ty sid i
        \<and> i_kind i \<in> {INVITE_KIND_LOBBY_PARTY, INVITE_KIND_LOBBY_RESTORE} \<and> i_party i \<noteq> None) (invites db))"

definition join_party :: "nat \<Rightarrow> nat \<Rightarrow> unit txn" where
  "join_party uid pid =
    tbind (texec (delete_parties (\<lambda>p. pt_leader p = uid \<and> pt_id p \<noteq> pid))) (\<lambda>_.
    upsert_party_member uid pid)"

definition consume :: "nat \<Rightarrow> invite_row \<Rightarrow> invite_row" where
  "consume now i = i\<lparr>i_consumed := Some now\<rparr>"

definition join_game_session_unbounded :: "nat \<Rightarrow> nat \<Rightarrow> nat \<Rightarrow> nat \<Rightarrow> bool txn" where
  "join_game_session_unbounded now uid ty sid =
    tbind (tread (find_active ty sid)) (\<lambda>session.
    case session of
      None \<Rightarrow> treturn False
    | Some g \<Rightarrow>
        tbind (insert_participant sid uid) (\<lambda>_.
        tbind (tread (accepted_lobby_invite now uid ty sid)) (\<lambda>invite.
        tbind (case invite of None \<Rightarrow> treturn () | Some i \<Rightarrow> join_party uid (the (i_party i))) (\<lambda>_.
        tbind (texec (update_invites (live_accepted now uid ty sid) (consume now))) (\<lambda>_.
        tbind (if is_game_room_attributes (g_attributes g)
               then queue_party_follow_invites now uid ty sid else treturn 0) (\<lambda>_.
        treturn True))))))"

text \<open>The live lobby a deleted game room sends its players back to: the newest one.\<close>

definition hosted_by :: "nat \<Rightarrow> db \<Rightarrow> session_row \<Rightarrow> bool" where
  "hosted_by uid db g \<longleftrightarrow> g_creator g = uid \<and> g_destroyed g = None
     \<and> is_participant (g_id g) (g_creator g) db \<and> has_station_url (g_creator g) db"

definition later_session :: "session_row \<Rightarrow> session_row \<Rightarrow> bool" where
  "later_session g h \<longleftrightarrow> g_id g > g_id h"

definition find_lobby :: "nat \<Rightarrow> nat \<Rightarrow> nat \<Rightarrow> db \<Rightarrow> session_row option" where
  "find_lobby uid ty sid db = latest later_session (filter (\<lambda>g. hosted_by uid db g \<and> g_type g = ty
     \<and> g_id g \<noteq> sid \<and> is_lobby_session_attributes (g_attributes g)) (game_sessions db))"

definition restore_member :: "nat \<Rightarrow> nat \<Rightarrow> nat \<Rightarrow> nat \<Rightarrow> nat \<Rightarrow> nat \<Rightarrow> nat txn" where
  "restore_member now host ty lobby pid receiver =
    tbind (tread (is_participant lobby receiver)) (\<lambda>already.
    if already then treturn 0
    else tbind (texec (update_invites (\<lambda>i. i_receiver i = receiver
            \<and> i_kind i = INVITE_KIND_LOBBY_RESTORE \<and> i_consumed i = None) (consume now))) (\<lambda>_.
      tbind (insert_invite host receiver INVITE_KIND_LOBBY_RESTORE ty lobby (Some pid) now 60) (\<lambda>_.
      treturn 1)))"

definition owned_active :: "nat \<Rightarrow> nat \<Rightarrow> nat \<Rightarrow> session_row \<Rightarrow> bool" where
  "owned_active uid ty sid g \<longleftrightarrow> g_creator g = uid \<and> active_session ty sid g"

definition delete_game_session :: "nat \<Rightarrow> nat \<Rightarrow> nat \<Rightarrow> nat \<Rightarrow> (nat \<times> nat) txn" where
  "delete_game_session now uid ty sid =
    tbind (tread (\<lambda>db. find (owned_active uid ty sid) (game_sessions db))) (\<lambda>session.
    case session of
      None \<Rightarrow> treturn (0, 0)
    | Some g \<Rightarrow>
        tbind (tread (\<lambda>db. filter (\<lambda>u. u \<noteq> uid) (participant_ids sid db))) (\<lambda>remaining.
        tbind (tread (\<lambda>db. length (filter (owned_active uid ty sid) (game_sessions db)))) (\<lambda>deleted.
        tbind (texec (update_sessions (owned_active uid ty sid) (destroy now))) (\<lambda>_.
        if deleted = 0 \<or> \<not> is_game_room_attributes (g_attributes g) \<or> remaining = []
        then treturn (deleted, 0)
        else tbind (tread (find_lobby uid ty sid)) (\<lambda>lobby.
          case lobby of
            None \<Rightarrow> treturn (deleted, 0)
          | Some l \<Rightarrow>
              tbind (ensure_party_for_leader uid) (\<lambda>pid.
              tbind (tsum remaining (restore_member now uid ty (g_id l) pid)) (\<lambda>queued.
              treturn (deleted, queued))))))))"

definition delete_game_session_by_id :: "nat \<Rightarrow> nat \<Rightarrow> unit txn" where
  "delete_game_session_by_id now sid = texec (update_sessions (\<lambda>g. g_id g = sid) (destroy now))"

definition update_game_session :: "nat \<Rightarrow> nat \<Rightarrow> string \<Rightarrow> unit txn" where
  "update_game_session ty sid attributes = texec (update_sessions (\<lambda>g. g_id g = sid \<and> g_type g = ty)
     (\<lambda>g. g\<lparr>g_attributes := attributes\<rparr>))"

section \<open>Adding and removing participants\<close>

definition later_row :: "invite_row \<Rightarrow> invite_row \<Rightarrow> bool" where
  "later_row i j \<longleftrightarrow> i_rowid i > i_rowid j"

definition pending_invite_sender :: "nat \<Rightarrow> nat \<Rightarrow> nat \<Rightarrow> nat \<Rightarrow> db \<Rightarrow> nat option" where
  "pending_invite_sender now uid ty sid db = map_option i_sender (latest later_row
     (filter (\<lambda>i. live_accepted now uid ty sid i
        \<and> i_kind i \<in> {INVITE_KIND_PRIVATE_ROOM, INVITE_KIND_PARTY_FOLLOW}) (invites db)))"

text \<open>
  A private participant with an accepted invitation that has not joined yet is admitted at
  once only for the host's own invitation; otherwise its own \<open>JoinSession\<close> will add it.
\<close>

definition add_private :: "nat \<Rightarrow> nat \<Rightarrow> nat \<Rightarrow> nat \<Rightarrow> nat \<Rightarrow> nat \<Rightarrow> unit txn" where
  "add_private now caller creator ty sid uid =
    tbind (tread (pending_invite_sender now uid ty sid)) (\<lambda>pending.
    tbind (tread (is_participant sid uid)) (\<lambda>already.
    case pending of
      Some sender \<Rightarrow>
        if \<not> already then
          (if caller = creator \<and> sender = caller then insert_participant sid uid else treturn ())
        else insert_participant sid uid
    | None \<Rightarrow> insert_participant sid uid))"

definition add_participants :: "nat \<Rightarrow> nat \<Rightarrow> nat \<Rightarrow> nat \<Rightarrow> nat list \<Rightarrow> nat list \<Rightarrow> unit txn" where
  "add_participants now caller ty sid private_ids public_ids =
    (if private_ids = [] \<and> public_ids = [] then treturn ()
     else tbind (tread (find_active ty sid)) (\<lambda>session.
       case session of
         None \<Rightarrow> treturn ()
       | Some g \<Rightarrow>
           tbind (tfor (remdups public_ids) (insert_participant sid)) (\<lambda>_.
           tbind (tfor (remdups private_ids) (add_private now caller (g_creator g) ty sid)) (\<lambda>_.
           tbind (reconcile_game_session now ty sid) (\<lambda>_. treturn ())))))"

text \<open>\<open>remove_participants\<close> deletes by session id alone and reconciles by id and type.\<close>

definition remove_participants :: "nat \<Rightarrow> nat \<Rightarrow> nat \<Rightarrow> nat list \<Rightarrow> unit txn" where
  "remove_participants now ty sid uids =
    tbind (tfor (remdups uids) (\<lambda>u. texec (delete_participants (\<lambda>r. r = (sid, u))))) (\<lambda>_.
    tbind (reconcile_game_session now ty sid) (\<lambda>_. treturn ()))"

section \<open>The end of a connection\<close>

definition affected_sessions :: "nat \<Rightarrow> db \<Rightarrow> (nat \<times> nat) list" where
  "affected_sessions uid db = map (\<lambda>g. (g_type g, g_id g))
     (filter (\<lambda>g. g_destroyed g = None \<and> (g_creator g = uid \<or> is_participant (g_id g) uid db)) (game_sessions db))"

definition delete_station_urls :: "nat \<Rightarrow> db \<Rightarrow> db" where
  "delete_station_urls uid db = db\<lparr>station_urls := filter (\<lambda>r. fst r \<noteq> uid) (station_urls db)\<rparr>"

definition delete_user_sessions :: "nat \<Rightarrow> db \<Rightarrow> db" where
  "delete_user_sessions uid db = db\<lparr>user_sessions := filter (\<lambda>r. snd r \<noteq> uid) (user_sessions db)\<rparr>"

definition set_offline :: "nat \<Rightarrow> db \<Rightarrow> db" where
  "set_offline uid = update_users (\<lambda>u. u_id u = uid) (\<lambda>u. u\<lparr>u_is_online := False\<rparr>)"

definition cleanup_user_game_state :: "nat \<Rightarrow> nat \<Rightarrow> unit txn" where
  "cleanup_user_game_state now uid =
    tbind (tread (affected_sessions uid)) (\<lambda>affected.
    tbind (texec (drop_party uid)) (\<lambda>_.
    tbind (texec (delete_participants (\<lambda>r. snd r = uid))) (\<lambda>_.
    tbind (texec (delete_station_urls uid)) (\<lambda>_.
    tbind (texec (delete_user_sessions uid)) (\<lambda>_.
    tbind (texec (set_offline uid)) (\<lambda>_.
    tfor affected (\<lambda>(ty, sid). tbind (reconcile_game_session now ty sid) (\<lambda>_. treturn ()))))))))"

text \<open>\<open>delete_user_session\<close> is the same sequence of statements in its own transaction.\<close>

definition delete_user_session :: "nat \<Rightarrow> nat \<Rightarrow> unit txn" where
  "delete_user_session now uid = cleanup_user_game_state now uid"

definition API_PRESENCE_SECONDS :: nat where "API_PRESENCE_SECONDS = 15"

definition recent_api :: "nat \<Rightarrow> user_row \<Rightarrow> bool" where
  "recent_api now u \<longleftrightarrow> (case u_last_api_seen u of None \<Rightarrow> False | Some t \<Rightarrow> t + API_PRESENCE_SECONDS \<ge> now)"

definition close_secure_session :: "nat \<Rightarrow> nat \<Rightarrow> bool txn" where
  "close_secure_session now uid =
    tbind (tread (\<lambda>db. \<exists>u\<in>set (users db). u_id u = uid \<and> recent_api now u)) (\<lambda>recent.
    tbind (texec (delete_user_sessions uid)) (\<lambda>_.
    tbind (texec (set_offline uid)) (\<lambda>_.
    if recent then treturn True
    else tbind (cleanup_user_game_state now uid) (\<lambda>_. treturn False))))"

definition stale_users :: "nat \<Rightarrow> db \<Rightarrow> nat list" where
  "stale_users now db = map u_id (filter (\<lambda>u. \<not> u_is_online u \<and> \<not> recent_api now u
     \<and> (has_station_url (u_id u) db \<or> (\<exists>r\<in>set (participants db). snd r = u_id u))) (users db))"

definition cleanup_stale_api_sessions :: "nat \<Rightarrow> unit txn" where
  "cleanup_stale_api_sessions now =
    tbind (tread (stale_users now)) (\<lambda>stale. tfor stale (cleanup_user_game_state now))"

definition invalidate_sessions :: "nat \<Rightarrow> unit txn" where
  "invalidate_sessions now =
    tbind (texec (delete_parties (\<lambda>_. True))) (\<lambda>_.
    tbind (texec (\<lambda>db. db\<lparr>party_members := [], station_urls := [], user_sessions := []\<rparr>)) (\<lambda>_.
    tbind (texec (update_sessions (\<lambda>g. g_destroyed g = None) (destroy now))) (\<lambda>_.
    texec (update_users (\<lambda>_. True) (\<lambda>u. u\<lparr>u_is_online := False\<rparr>)))))"

definition register_urls :: "nat \<Rightarrow> string list \<Rightarrow> unit txn" where
  "register_urls uid urls =
    tbind (texec (delete_station_urls uid)) (\<lambda>_.
    tfor (remdups urls) (\<lambda>url db.
      if (uid, url) \<in> set (station_urls db) then Inr ((), db)
      else if uid \<notin> set (user_ids db) then Inl ForeignKeyViolation
      else Inr ((), db\<lparr>station_urls := station_urls db @ [(uid, url)]\<rparr>)))"

section \<open>Preservation\<close>

lemma find_active_Some:
  "find_active ty sid db = Some g \<Longrightarrow> g \<in> set (game_sessions db) \<and> active_session ty sid g"
  unfolding find_active_def find_Some_iff by auto

lemma find_active_None: "find_active ty sid db = None \<longleftrightarrow> (\<forall>g\<in>set (game_sessions db). \<not> active_session ty sid g)"
  unfolding find_active_def find_None_iff by auto

lemma session_unique:
  "inv_except X db \<Longrightarrow> g \<in> set (game_sessions db) \<Longrightarrow> h \<in> set (game_sessions db) \<Longrightarrow> g_id g = g_id h \<Longrightarrow> g = h"
  using distinct_key_eq[of g_id "game_sessions db" g h] by (simp add: inv_except_def db_refs_def session_ids_def)

lemma set_participant_ids: "u \<in> set (participant_ids sid db) \<longleftrightarrow> is_participant sid u db"
  by (force simp: participant_ids_def is_participant_def)

lemma participant_is_user: "inv_except X db \<Longrightarrow> is_participant sid u db \<Longrightarrow> u \<in> set (user_ids db)"
  by (force simp: inv_except_def db_refs_def is_participant_def)

lemma creator_is_user: "inv_except X db \<Longrightarrow> g \<in> set (game_sessions db) \<Longrightarrow> g_creator g \<in> set (user_ids db)"
  by (simp add: inv_except_def db_refs_def)

lemma inv_destroy:
  assumes "inv_except X db"
    and "\<And>g. g \<in> set (game_sessions db) \<Longrightarrow> g_destroyed g = None \<Longrightarrow> \<not> P g
      \<Longrightarrow> (g_type g, g_id g) \<in> X \<Longrightarrow> (g_type g, g_id g) \<in> Y"
  shows "inv_except Y (update_sessions P (destroy now) db)"
  by (rule inv_update_sessions[OF _ assms(1)])
    (use assms creator_is_user in \<open>auto simp: destroy_def\<close>)

lemma inv_set_host:
  assumes "inv_except X db" "is_participant sid u db"
  shows "inv_except (X - {(ty, sid)}) (update_sessions (active_session ty sid) (set_host u) db)"
  by (rule inv_update_sessions[OF _ assms(1)])
    (use assms participant_is_user in \<open>auto simp: set_host_def active_session_def\<close>)

lemma reconcile_restores:
  "hoare (inv_except X) (reconcile_game_session now ty sid) (\<lambda>_. inv_except (X - {(ty, sid)}))"
proof (rule hoareI)
  fix db x db' assume inv: "inv_except X db" and run: "reconcile_game_session now ty sid db = Inr (x, db')"
  show "inv_except (X - {(ty, sid)}) db'"
  proof (cases "find_active ty sid db")
    case None
    then have "db' = db" using run by (simp add: reconcile_game_session_def)
    then show ?thesis
      using inv None unfolding find_active_None inv_except_def hosts_except_def active_session_def by auto
  next
    case (Some g)
    note g = find_active_Some[OF Some]
    show ?thesis
    proof (cases "participant_ids sid db")
      case Nil
      then have "db' = update_sessions (active_session ty sid) (destroy now) db"
        using run Some by (simp add: reconcile_game_session_def)
      then show ?thesis using inv by (auto intro!: inv_destroy simp: active_session_def)
    next
      case (Cons u us)
      then have u: "is_participant sid u db" using set_participant_ids[of u sid db] by simp
      show ?thesis
      proof (cases "g_creator g \<in> set (u # us)")
        case True
        then have "db' = db" using run Some Cons by (simp add: reconcile_game_session_def split: if_splits)
        moreover have "is_participant sid (g_creator g) db"
          using True Cons set_participant_ids[of "g_creator g" sid db] by simp
        ultimately show ?thesis
          using inv g session_unique[OF inv, of g] unfolding inv_except_def hosts_except_def active_session_def
          by (metis Diff_iff prod.inject singletonD)
      next
        case False
        then have "db' = update_sessions (active_session ty sid) (set_host u) db"
          using run Some Cons by (simp add: reconcile_game_session_def)
        then show ?thesis using inv_set_host[OF inv u] by simp
      qed
    qed
  qed
qed

lemma reconcile_keeps [keeps_intros]: "keeps (inv_except X) (reconcile_game_session now ty sid)"
  using hoareD[OF reconcile_restores] inv_weaken by (intro keepsI) (metis Diff_subset)

lemma insert_participant_keeps [keeps_intros]: "keeps (inv_except X) (insert_participant sid uid)"
  by (rule inv_insert_participant)

lemma keeps_unit [keeps_intros]: "keeps I m \<Longrightarrow> keeps I (tbind m (\<lambda>_. treturn x))"
  by (intro keeps_intros)

lemma inv_host_present:
  assumes "inv_except X db" "\<forall>g\<in>set (game_sessions db). active_session ty sid g \<longrightarrow> is_participant sid (g_creator g) db"
  shows "inv_except (X - {(ty, sid)}) db"
  using assms unfolding inv_except_def hosts_except_def active_session_def by auto

lemma insert_participant_result:
  "insert_participant sid uid db = Inr (x, db') \<Longrightarrow>
    is_participant sid uid db' \<and> game_sessions db' = game_sessions db \<and> invites db' = invites db
    \<and> users db' = users db \<and> parties db' = parties db \<and> party_members db' = party_members db
    \<and> station_urls db' = station_urls db
    \<and> (\<forall>s u. is_participant s u db' \<longleftrightarrow> is_participant s u db \<or> (s, u) = (sid, uid))"
  by (auto simp: insert_participant_def is_participant_def split: if_splits)

lemma leave_keeps: "keeps storage_inv (leave_game_session now uid ty sid)"
proof (rule keepsI)
  fix db x db' assume inv: "storage_inv db" and run: "leave_game_session now uid ty sid db = Inr (x, db')"
  let ?P = "\<lambda>r. r = (sid, uid) \<and> (\<exists>g\<in>set (game_sessions db). active_session ty sid g)"
  have inv0: "inv_except {} db" using inv by (simp add: storage_inv_def)
  have "inv_except ({} \<union> {(ty, sid)}) (delete_participants ?P db)"
    using session_unique[OF inv0] by (intro inv_delete_participants[OF inv0]) (auto simp: active_session_def)
  moreover obtain y where "reconcile_game_session now ty sid (delete_participants ?P db) = Inr (y, db')"
    using run by (auto simp: leave_game_session_def tbind_Inr_conv)
  ultimately show "storage_inv db'"
    using hoareD[OF reconcile_restores] by (fastforce simp: storage_inv_def)
qed

lemma migrate_keeps: "keeps storage_inv (migrate_game_session_host uid ty sid)"
proof (rule keepsI)
  fix db x db' assume inv: "storage_inv db" and run: "migrate_game_session_host uid ty sid db = Inr (x, db')"
  show "storage_inv db'"
  proof (cases "is_participant sid uid db")
    case True
    have "inv_except {} (update_sessions (active_session ty sid) (set_host uid) db)"
      using inv_set_host[of "{}" db sid uid ty] inv True by (simp add: storage_inv_def)
    then show ?thesis using run inv by (auto simp: migrate_game_session_host_def storage_inv_def split: if_splits)
  qed (use run inv in \<open>simp add: migrate_game_session_host_def\<close>)
qed

lemma restore_abandoned_keeps: "keeps storage_inv (restore_abandoned_game_session_for_split uid ty sid)"
proof (rule keepsI)
  fix db x db'
  assume inv: "storage_inv db" and run: "restore_abandoned_game_session_for_split uid ty sid db = Inr (x, db')"
  define d where "d = update_sessions (abandoned_by uid ty sid) (\<lambda>g. g\<lparr>g_creator := uid, g_destroyed := None\<rparr>) db"
  have inv0: "inv_except {} db" using inv by (simp add: storage_inv_def)
  show "storage_inv db'"
  proof (cases "length (filter (abandoned_by uid ty sid) (game_sessions db)) = 1")
    case True
    then obtain y where ins: "insert_participant sid uid d = Inr (y, db')"
      using run by (auto simp: restore_abandoned_game_session_for_split_def tbind_Inr_conv d_def[symmetric])
    have dinv: "inv_except {(ty, sid)} d"
      unfolding d_def by (rule inv_update_sessions[OF _ inv0])
        (use creator_is_user[OF inv0] in \<open>auto simp: abandoned_by_def\<close>)
    obtain g where g: "g \<in> set (game_sessions db)" "abandoned_by uid ty sid g"
      using True by (metis filter_empty_conv length_0_conv zero_neq_one)
    have "\<forall>h\<in>set (game_sessions d). active_session ty sid h \<longrightarrow> g_creator h = uid"
    proof -
      have "\<forall>h\<in>set (game_sessions db). g_id h = sid \<longrightarrow> h = g"
        using session_unique[OF inv0] g by (auto simp: abandoned_by_def)
      then show ?thesis using g(2) by (auto simp: d_def active_session_def abandoned_by_def)
    qed
    then have "inv_except ({(ty, sid)} - {(ty, sid)}) db'"
      using insert_participant_result[OF ins] keepsD[OF inv_insert_participant dinv ins]
      by (intro inv_host_present) auto
    then show ?thesis by (simp add: storage_inv_def)
  qed (use run inv in \<open>simp add: restore_abandoned_game_session_for_split_def\<close>)
qed

lemma create_keeps: "keeps storage_inv (create_game_session now uid ty attributes)"
proof (rule keepsI)
  fix db x db' assume inv: "storage_inv db" and run: "create_game_session now uid ty attributes db = Inr (x, db')"
  have inv0: "inv_except {} db" using inv by (simp add: storage_inv_def)
  define sid where "sid = next_rowid (session_ids db)"
  define g where "g = \<lparr>g_id = sid, g_type = ty, g_attributes = attributes, g_creator = uid, g_destroyed = None\<rparr>"
  define d where "d = db\<lparr>game_sessions := game_sessions db @ [g]\<rparr>"
  obtain e y n where uid: "uid \<in> set (user_ids db)" and ins: "insert_participant sid uid d = Inr (y, e)"
    and q: "(if is_game_room_attributes attributes
      then queue_party_follow_invites now uid ty (as_u32 sid) else treturn 0) e = Inr (n, db')"
    using run by (auto simp: create_game_session_def insert_session_def tbind_Inr_conv Let_def
        sid_def g_def d_def split: if_splits)
  have fresh: "sid \<notin> set (session_ids db)" unfolding sid_def by (rule next_rowid_fresh)
  have "inv_except {(ty, sid)} d"
    using inv0 uid fresh unfolding d_def inv_except_def db_refs_def parties_ok_def lanes_ok_def
      hosts_except_def is_participant_def
    by (auto simp: user_ids_def session_ids_def party_ids_def g_def)
  then have "inv_except {(ty, sid)} e" using keepsD[OF inv_insert_participant _ ins] by simp
  moreover have "\<forall>h\<in>set (game_sessions e). active_session ty sid h \<longrightarrow> is_participant sid (g_creator h) e"
    using insert_participant_result[OF ins] fresh
    by (auto simp: d_def g_def active_session_def session_ids_def)
  ultimately have e: "inv_except {} e" using inv_host_present by fastforce
  have k: "keeps (inv_except {}) (if is_game_room_attributes attributes
      then queue_party_follow_invites now uid ty (as_u32 sid) else treturn 0)" by (intro keeps_intros)
  show "storage_inv db'" using keepsD[OF k e q] by (simp add: storage_inv_def)
qed

lemma live_accepted_consume:
  "keeps (inv_except X) (texec (update_invites P (consume now)))"
  by (rule keeps_exec, rule inv_update_invites) (auto simp: consume_def)

lemma join_party_keeps [keeps_intros]: "keeps (inv_except X) (join_party uid pid)"
proof -
  have "hoare (inv_except X) (texec (delete_parties (\<lambda>p. pt_leader p = uid \<and> pt_id p \<noteq> pid)))
    (\<lambda>_ db. inv_except X db \<and> (\<forall>p\<in>set (parties db). pt_leader p = uid \<longrightarrow> pt_id p = pid))"
  proof (rule hoareI)
    fix db x db' assume inv: "inv_except X db"
      and "texec (delete_parties (\<lambda>p. pt_leader p = uid \<and> pt_id p \<noteq> pid)) db = Inr (x, db')"
    then have db': "db' = delete_parties (\<lambda>p. pt_leader p = uid \<and> pt_id p \<noteq> pid) db" by simp
    show "inv_except X db' \<and> (\<forall>p\<in>set (parties db'). pt_leader p = uid \<longrightarrow> pt_id p = pid)"
    proof
      show "inv_except X db'" unfolding db' by (rule inv_delete_parties[OF inv])
    qed (simp add: db' delete_parties_def Let_def)
  qed
  then show ?thesis
    unfolding join_party_def keeps_def by (rule hoare_bind) (rule inv_upsert_party_member)
qed

lemma join_keeps: "keeps storage_inv (join_game_session_unbounded now uid ty sid)"
  unfolding join_game_session_unbounded_def storage_inv_def[abs_def]
  by (intro keeps_intros live_accepted_consume)

lemma open_consumed: "\<not> open_in_lane u l (consume now i)"
  by (simp add: open_in_lane_def consume_def)

lemma open_restore: "open_in_lane u (lane INVITE_KIND_LOBBY_RESTORE) i \<longleftrightarrow>
    i_receiver i = u \<and> i_kind i = INVITE_KIND_LOBBY_RESTORE \<and> i_consumed i = None"
  by (simp add: open_in_lane_def lane_def invite_kinds)

lemma restore_member_keeps [keeps_intros]:
  "keeps (inv_except X) (restore_member now host ty lobby pid receiver)"
proof -
  let ?P = "\<lambda>i. i_receiver i = receiver \<and> i_kind i = INVITE_KIND_LOBBY_RESTORE \<and> i_consumed i = None"
  have "hoare (inv_except X) (texec (update_invites ?P (consume now)))
    (\<lambda>_ db. inv_except X db \<and> (\<forall>i\<in>set (invites db). \<not> open_in_lane receiver (lane INVITE_KIND_LOBBY_RESTORE) i)
       \<and> (INVITE_KIND_LOBBY_RESTORE = INVITE_KIND_PARTY_FOLLOW \<longrightarrow> Some pid \<noteq> None))"
  proof (rule hoareI, intro conjI)
    fix db x db' assume inv: "inv_except X db" and "texec (update_invites ?P (consume now)) db = Inr (x, db')"
    then have db': "db' = update_invites ?P (consume now) db" by simp
    show "inv_except X db'" unfolding db' by (rule inv_update_invites[OF _ _ _ _ _ inv]) (auto simp: consume_def)
    show "\<forall>i\<in>set (invites db'). \<not> open_in_lane receiver (lane INVITE_KIND_LOBBY_RESTORE) i"
    proof
      fix i assume "i \<in> set (invites db')"
      then have "i \<in> (\<lambda>j. if ?P j then consume now j else j) ` set (invites db)" unfolding db' by simp
      then obtain j where "i = (if ?P j then consume now j else j)" by (rule imageE)
      then show "\<not> open_in_lane receiver (lane INVITE_KIND_LOBBY_RESTORE) i"
        by (cases "?P j") (simp_all add: open_consumed open_restore)
    qed
  qed simp
  then have k: "keeps (inv_except X) (tbind (texec (update_invites ?P (consume now)))
      (\<lambda>_. insert_invite host receiver INVITE_KIND_LOBBY_RESTORE ty lobby (Some pid) now 60))"
    unfolding keeps_def by (rule hoare_bind) (rule inv_insert_invite)
  have "keeps (inv_except X) (tbind (texec (update_invites ?P (consume now)))
      (\<lambda>_. tbind (insert_invite host receiver INVITE_KIND_LOBBY_RESTORE ty lobby (Some pid) now 60) (\<lambda>_. treturn (1::nat))))"
    unfolding tbind_assoc[symmetric] by (rule keeps_bind[OF k keeps_return])
  then show ?thesis
    unfolding restore_member_def by (intro keeps_bind[OF keeps_read] keeps_if keeps_return)
qed

lemma delete_session_keeps: "keeps storage_inv (delete_game_session now uid ty sid)"
proof -
  have "keeps (inv_except {}) (texec (update_sessions (owned_active uid ty sid) (destroy now)))"
    by (rule keeps_exec, rule inv_destroy) auto
  then show ?thesis
    unfolding delete_game_session_def storage_inv_def[abs_def] by (intro keeps_intros)
qed

lemma delete_by_id_keeps: "keeps storage_inv (delete_game_session_by_id now sid)"
  unfolding delete_game_session_by_id_def storage_inv_def[abs_def]
  by (rule keeps_exec, rule inv_destroy) auto

lemma update_session_keeps: "keeps storage_inv (update_game_session ty sid attributes)"
  unfolding update_game_session_def storage_inv_def[abs_def]
  by (rule keeps_exec, rule inv_update_sessions)
    (auto simp: creator_is_user inv_except_def hosts_except_def)

lemma add_participants_keeps: "keeps storage_inv (add_participants now caller ty sid ps qs)"
  unfolding add_participants_def add_private_def storage_inv_def[abs_def]
  by (intro keeps_intros)

lemma remove_loop:
  "hoare (\<lambda>db. inv_except {k. snd k = sid} db \<and> game_sessions db = gs)
     (tfor us (\<lambda>u. texec (delete_participants (\<lambda>r. r = (sid, u)))))
     (\<lambda>_ db. inv_except {k. snd k = sid} db \<and> game_sessions db = gs)"
proof (induction us)
  case Nil show ?case by (rule hoareI) simp
next
  case (Cons u us)
  have "hoare (\<lambda>db. inv_except {k. snd k = sid} db \<and> game_sessions db = gs)
     (texec (delete_participants (\<lambda>r. r = (sid, u))))
     (\<lambda>_ db. inv_except {k. snd k = sid} db \<and> game_sessions db = gs)"
  proof (rule hoareI, elim conjE)
    fix db x db' assume inv: "inv_except {k. snd k = sid} db" and gs: "game_sessions db = gs"
      and "texec (delete_participants (\<lambda>r. r = (sid, u))) db = Inr (x, db')"
    then have db': "db' = delete_participants (\<lambda>r. r = (sid, u)) db" by simp
    have "inv_except ({k. snd k = sid} \<union> {k. snd k = sid}) db'"
      unfolding db' by (rule inv_delete_participants[OF inv]) simp
    then show "inv_except {k. snd k = sid} db' \<and> game_sessions db' = gs"
      using gs delete_participants_frame(2)[OF inv] by (simp add: db')
  qed
  then show ?case unfolding tfor.simps by (rule hoare_bind) (rule Cons.IH)
qed

lemma remove_participants_keeps:
  assumes "storage_inv db" "remove_participants now ty sid us db = Inr (x, db')"
    and "\<forall>g\<in>set (game_sessions db). g_id g = sid \<longrightarrow> g_destroyed g = None \<longrightarrow> g_type g = ty"
  shows "storage_inv db'"
proof -
  obtain d y where loop: "tfor (remdups us) (\<lambda>u. texec (delete_participants (\<lambda>r. r = (sid, u)))) db = Inr ((), d)"
    and rec: "reconcile_game_session now ty sid d = Inr (y, db')"
    using assms(2) by (auto simp: remove_participants_def tbind_Inr_conv)
  have "inv_except {k. snd k = sid} db"
    using assms(1) by (auto simp: storage_inv_def intro: inv_weaken)
  from hoareD[OF remove_loop, OF conjI[OF this refl] loop]
  have "inv_except {k. snd k = sid} d" "game_sessions d = game_sessions db" by auto
  then have "inv_except {(ty, sid)} d"
    using assms(3) unfolding inv_except_def hosts_except_def by auto
  from hoareD[OF reconcile_restores this rec] show ?thesis by (simp add: storage_inv_def)
qed

lemma inv_delete_urls: "inv_except X db \<Longrightarrow> inv_except X (delete_station_urls uid db)"
  unfolding delete_station_urls_def inv_except_def db_refs_def parties_ok_def lanes_ok_def
    hosts_except_def is_participant_def by (auto simp: user_ids_def session_ids_def party_ids_def)

lemma inv_delete_user_sessions: "inv_except X db \<Longrightarrow> inv_except X (delete_user_sessions uid db)"
  unfolding delete_user_sessions_def inv_except_def db_refs_def parties_ok_def lanes_ok_def
    hosts_except_def is_participant_def by (auto simp: user_ids_def session_ids_def party_ids_def)

lemma inv_set_offline: "inv_except X db \<Longrightarrow> inv_except X (set_offline uid db)"
  unfolding set_offline_def by (rule inv_update_users) simp_all

lemma user_state_keeps [keeps_intros]:
  "keeps (inv_except X) (texec (delete_station_urls uid))"
  "keeps (inv_except X) (texec (delete_user_sessions uid))"
  "keeps (inv_except X) (texec (set_offline uid))"
  "keeps (inv_except X) (texec (drop_party uid))"
  "keeps (inv_except X) (texec (delete_parties P))"
  by (rule keeps_exec, erule inv_delete_urls inv_delete_user_sessions inv_set_offline inv_drop_party
      inv_delete_parties)+

lemma reconcile_all:
  "hoare (inv_except (set ks)) (tfor ks (\<lambda>(ty, sid). tbind (reconcile_game_session now ty sid) (\<lambda>_. treturn ())))
     (\<lambda>_. inv_except {})"
proof (induction ks)
  case Nil show ?case by (rule hoareI) simp
next
  case (Cons k ks)
  obtain ty sid where k: "k = (ty, sid)" by (cases k)
  have "hoare (inv_except (set (k # ks))) (tbind (reconcile_game_session now ty sid) (\<lambda>_. treturn ()))
    (\<lambda>_. inv_except (set ks))"
  proof (rule hoareI)
    fix db x db' assume inv: "inv_except (set (k # ks)) db"
      and "tbind (reconcile_game_session now ty sid) (\<lambda>_. treturn ()) db = Inr (x, db')"
    then obtain y where "reconcile_game_session now ty sid db = Inr (y, db')" by (auto simp: tbind_Inr_conv)
    from hoareD[OF reconcile_restores inv this] show "inv_except (set ks) db'"
      by (rule inv_weaken) (auto simp: k)
  qed
  from hoare_bind[OF this Cons.IH] show ?case unfolding k tfor.simps prod.case .
qed

lemma cleanup_keeps [keeps_intros]: "keeps (inv_except {}) (cleanup_user_game_state now uid)"
proof (rule keepsI)
  fix db x db' assume inv: "inv_except {} db" and run: "cleanup_user_game_state now uid db = Inr (x, db')"
  define a where "a = drop_party uid db"
  define b where "b = delete_participants (\<lambda>r. snd r = uid) a"
  define c where "c = set_offline uid (delete_user_sessions uid (delete_station_urls uid b))"
  have a: "inv_except {} a" unfolding a_def by (rule inv_drop_party[OF inv])
  have gs: "game_sessions a = game_sessions db"
    using drop_party_tables(3)[OF inv_party_tables[OF inv] inv_parties_ok[OF inv]]
    by (simp add: a_def same_but_parties_def)
  have "inv_except ({} \<union> set (affected_sessions uid db)) b"
    unfolding b_def by (rule inv_delete_participants[OF a]) (auto simp: gs affected_sessions_def)
  then have "inv_except (set (affected_sessions uid db)) c"
    unfolding c_def by (auto intro: inv_set_offline inv_delete_user_sessions inv_delete_urls)
  moreover have "tfor (affected_sessions uid db)
      (\<lambda>(ty, sid). tbind (reconcile_game_session now ty sid) (\<lambda>_. treturn ())) c = Inr ((), db')"
    using run by (simp add: cleanup_user_game_state_def a_def b_def c_def)
  ultimately show "inv_except {} db'" using hoareD[OF reconcile_all] by blast
qed

lemma end_of_connection_keeps:
  "keeps storage_inv (delete_user_session now uid)" "keeps storage_inv (close_secure_session now uid)"
  "keeps storage_inv (cleanup_stale_api_sessions now)"
  unfolding delete_user_session_def close_secure_session_def cleanup_stale_api_sessions_def
    storage_inv_def[abs_def] by (intro keeps_intros)+

lemma inv_clear_tables:
  assumes "inv_except X db" "parties db = []"
  shows "inv_except X (db\<lparr>party_members := [], station_urls := [], user_sessions := []\<rparr>)"
  using assms unfolding inv_except_def db_refs_def parties_ok_def lanes_ok_def hosts_except_def
    is_participant_def user_ids_def session_ids_def party_ids_def by simp

lemma inv_insert_url:
  assumes "inv_except X db" "uid \<in> set (user_ids db)"
  shows "inv_except X (db\<lparr>station_urls := station_urls db @ [(uid, url)]\<rparr>)"
  using assms unfolding inv_except_def db_refs_def parties_ok_def lanes_ok_def hosts_except_def
    is_participant_def user_ids_def session_ids_def party_ids_def by simp

lemma invalidate_keeps: "keeps storage_inv (invalidate_sessions now)"
proof -
  have "hoare (inv_except {}) (texec (delete_parties (\<lambda>_. True))) (\<lambda>_ db. inv_except {} db \<and> parties db = [])"
  proof (rule hoareI)
    fix db x db' assume inv: "inv_except {} db" and "texec (delete_parties (\<lambda>_. True)) db = Inr (x, db')"
    then have "db' = delete_parties (\<lambda>_. True) db" by simp
    then show "inv_except {} db' \<and> parties db' = []"
      using inv_delete_parties[OF inv, of "\<lambda>_. True"] by (simp add: delete_parties_def Let_def)
  qed
  moreover have "hoare (\<lambda>db. inv_except {} db \<and> parties db = [])
      (texec (\<lambda>db. db\<lparr>party_members := [], station_urls := [], user_sessions := []\<rparr>)) (\<lambda>_. inv_except {})"
    by (rule hoareI) (auto intro: inv_clear_tables)
  moreover have "keeps (inv_except {}) (texec (update_sessions (\<lambda>g. g_destroyed g = None) (destroy now)))"
    by (rule keeps_exec, rule inv_destroy) auto
  moreover have "keeps (inv_except {}) (texec (update_users (\<lambda>_. True) (\<lambda>u. u\<lparr>u_is_online := False\<rparr>)))"
    by (rule keeps_exec, rule inv_update_users) simp_all
  ultimately show ?thesis
    unfolding invalidate_sessions_def storage_inv_def[abs_def] keeps_def by (blast intro: hoare_bind)
qed

lemma register_urls_keeps: "keeps storage_inv (register_urls uid urls)"
proof -
  have "keeps (inv_except {}) (\<lambda>db. if (uid, url) \<in> set (station_urls db) then Inr ((), db)
      else if uid \<notin> set (user_ids db) then Inl ForeignKeyViolation
      else Inr ((), db\<lparr>station_urls := station_urls db @ [(uid, url)]\<rparr>))" for url
    by (rule keepsI) (auto intro: inv_insert_url split: if_splits)
  then show ?thesis unfolding register_urls_def storage_inv_def[abs_def] by (intro keeps_intros)
qed

end
