(* ===== verification/Storage_Invites.thy ===== *)
theory Storage_Invites
  imports Storage_Sessions
begin

text \<open>
  Invitations: creating, delivering, accepting and sweeping them, and the marks of manual
  invitation searches, from \<open>dedicated-server/src/storage/mod.rs\<close>. An invitation is returned
  as its row; the code copies seven of its columns. \<open>rollback\<close> returns the database the
  transaction started with.
\<close>

section \<open>Operations\<close>

text \<open>A host that can be invited to: the sender's active session, which it takes part in.\<close>

definition invitable :: "nat \<Rightarrow> nat \<Rightarrow> nat \<Rightarrow> db \<Rightarrow> bool" where
  "invitable sender ty sid db \<longleftrightarrow> (\<exists>g\<in>set (game_sessions db). active_session ty sid g
     \<and> g_creator g = sender \<and> is_participant sid (g_creator g) db) \<and> has_station_url sender db"

definition dead_invite :: "nat \<Rightarrow> invite_row \<Rightarrow> bool" where
  "dead_invite now i \<longleftrightarrow> i_consumed i \<noteq> None \<or> i_expires i \<le> now"

definition open_manual :: "nat \<Rightarrow> invite_row \<Rightarrow> bool" where
  "open_manual receiver i \<longleftrightarrow> i_receiver i = receiver
     \<and> i_kind i \<in> {INVITE_KIND_PRIVATE_ROOM, INVITE_KIND_LOBBY_PARTY} \<and> i_consumed i = None"

definition invite_party :: "nat \<Rightarrow> nat \<Rightarrow> nat option txn" where
  "invite_party sender kind =
    (if kind = INVITE_KIND_LOBBY_PARTY
     then tbind (ensure_party_for_leader sender) (\<lambda>pid. treturn (Some pid)) else treturn None)"

definition add_invite :: "nat \<Rightarrow> nat \<Rightarrow> nat \<Rightarrow> nat \<Rightarrow> nat \<Rightarrow> nat \<Rightarrow> nat option txn" where
  "add_invite now sender receiver kind ty sid db =
    (if kind \<notin> {INVITE_KIND_PRIVATE_ROOM, INVITE_KIND_LOBBY_PARTY} then Inr (None, db)
     else tbind (invite_party sender kind) (\<lambda>party.
       tbind (texec (delete_invites (dead_invite now))) (\<lambda>_.
       tbind (texec (delete_invites (open_manual receiver))) (\<lambda>_.
       tbind (tread (invitable sender ty sid)) (\<lambda>ok.
       if \<not> ok then (\<lambda>_. Inr (None, db))
       else tbind (insert_invite sender receiver kind ty sid party now 300)
         (\<lambda>row. treturn (Some row)))))) db)"

text \<open>
  The target of an invitation: an active session whose host takes part in it and can be
  reached; for a follow invitation the sender takes part, for the others it is the host.
\<close>

definition valid_target :: "nat \<Rightarrow> nat \<Rightarrow> nat \<Rightarrow> nat \<Rightarrow> db \<Rightarrow> bool" where
  "valid_target kind sender ty sid db \<longleftrightarrow> (\<exists>g\<in>set (game_sessions db). active_session ty sid g
     \<and> is_participant sid (g_creator g) db \<and> has_station_url (g_creator g) db
     \<and> (kind \<in> {INVITE_KIND_PRIVATE_ROOM, INVITE_KIND_LOBBY_PARTY, INVITE_KIND_LOBBY_RESTORE}
          \<and> g_creator g = sender
        \<or> kind = INVITE_KIND_PARTY_FOLLOW \<and> is_participant sid sender db))"

definition invite_target_ok :: "db \<Rightarrow> invite_row \<Rightarrow> bool" where
  "invite_target_ok db i \<longleftrightarrow> valid_target (i_kind i) (i_sender i) (i_type i) (i_session i) db"

definition cleanup_invalid_invites :: "nat \<Rightarrow> db \<Rightarrow> db" where
  "cleanup_invalid_invites now db = delete_invites (\<lambda>i. dead_invite now i \<or> \<not> invite_target_ok db i) db"

definition redundant_follow :: "nat \<Rightarrow> nat \<Rightarrow> db \<Rightarrow> invite_row \<Rightarrow> bool" where
  "redundant_follow now uid db i \<longleftrightarrow> i_receiver i = uid \<and> i_kind i = INVITE_KIND_PARTY_FOLLOW
     \<and> i_accepted i = None \<and> i_consumed i = None \<and> i_expires i > now
     \<and> is_participant (i_session i) (i_receiver i) db"

text \<open>An open invitation is due every three seconds, a follow invitation two seconds old at first.\<close>

definition due_invite :: "nat \<Rightarrow> nat \<Rightarrow> invite_row \<Rightarrow> bool" where
  "due_invite now uid i \<longleftrightarrow> i_receiver i = uid \<and> i_accepted i = None \<and> i_consumed i = None
     \<and> i_expires i > now
     \<and> (case i_delivered i of None \<Rightarrow> True | Some t \<Rightarrow> t + 3 \<le> now)
     \<and> (i_kind i \<noteq> INVITE_KIND_PARTY_FOLLOW \<or> i_created i + 2 \<le> now)"

definition mark_delivered :: "nat \<Rightarrow> invite_row \<Rightarrow> invite_row" where
  "mark_delivered now i = i\<lparr>i_delivered := Some now, i_delivery_count := i_delivery_count i + 1\<rparr>"

definition take_invite :: "nat \<Rightarrow> nat \<Rightarrow> invite_row option txn" where
  "take_invite now uid =
    tbind (texec (cleanup_invalid_invites now)) (\<lambda>_.
    tbind (texec (\<lambda>db. update_invites (redundant_follow now uid db) (consume now) db)) (\<lambda>_.
    tbind (tread (\<lambda>db. latest newer_invite (filter (due_invite now uid) (invites db)))) (\<lambda>invite.
    case invite of
      None \<Rightarrow> treturn None
    | Some i \<Rightarrow>
        tbind (texec (update_invites (\<lambda>j. i_rowid j = i_rowid i) (mark_delivered now))) (\<lambda>_.
        treturn (Some (i\<lparr>i_delivery_count := i_delivery_count i + 1\<rparr>))))))"

definition open_invite :: "nat \<Rightarrow> nat \<Rightarrow> nat \<Rightarrow> invite_row \<Rightarrow> bool" where
  "open_invite now uid row i \<longleftrightarrow> i_rowid i = row \<and> i_receiver i = uid \<and> i_consumed i = None \<and> i_expires i > now"

definition mark_accepted :: "nat \<Rightarrow> invite_row \<Rightarrow> invite_row" where
  "mark_accepted now i = i\<lparr>i_accepted := (case i_accepted i of None \<Rightarrow> Some now | t \<Rightarrow> t)\<rparr>"

definition accept_invite :: "nat \<Rightarrow> nat \<Rightarrow> nat \<Rightarrow> invite_row option txn" where
  "accept_invite now uid row db =
    tbind (texec (cleanup_invalid_invites now)) (\<lambda>_.
    tbind (texec (update_invites (open_invite now uid row) (mark_accepted now))) (\<lambda>_.
    tbind (tread (\<lambda>db. find (\<lambda>i. open_invite now uid row i \<and> i_accepted i \<noteq> None) (invites db))) (\<lambda>invite.
    case invite of
      None \<Rightarrow> treturn None
    | Some i \<Rightarrow>
        if i_kind i \<in> {INVITE_KIND_PRIVATE_ROOM, INVITE_KIND_PARTY_FOLLOW} then
          tbind (tread (\<lambda>d. invite_target_ok d i)) (\<lambda>ok.
          if \<not> ok then (\<lambda>_. Inr (None, db)) else treturn (Some i))
        else treturn (Some i)))) db"

section \<open>Manual invitation searches\<close>

text \<open>
  The mutex-protected map from receiver and session type to the instant of the search, in
  seconds; \<open>elapsed\<close> saturates at zero.
\<close>

type_synonym manual_searches = "((nat \<times> nat) \<times> nat) list"

definition MANUAL_INVITATION_SEARCH_TTL :: nat where "MANUAL_INVITATION_SEARCH_TTL = 15"

definition prune_manual_invitation_searches :: "nat \<Rightarrow> manual_searches \<Rightarrow> manual_searches" where
  "prune_manual_invitation_searches now m = filter (\<lambda>e. now - snd e \<le> MANUAL_INVITATION_SEARCH_TTL) m"

definition note_manual_invitation_search :: "nat \<Rightarrow> nat \<Rightarrow> nat \<Rightarrow> manual_searches \<Rightarrow> manual_searches" where
  "note_manual_invitation_search now uid ty m =
    AList.update (uid, ty) now (prune_manual_invitation_searches now m)"

definition clear_manual_invitation_search :: "nat \<Rightarrow> nat \<Rightarrow> manual_searches \<Rightarrow> manual_searches" where
  "clear_manual_invitation_search uid ty m = AList.delete (uid, ty) m"

definition manual_invitation_search_is_active ::
    "nat \<Rightarrow> nat \<Rightarrow> nat \<Rightarrow> manual_searches \<Rightarrow> bool \<times> manual_searches" where
  "manual_invitation_search_is_active now uid ty m =
    (let m' = prune_manual_invitation_searches now m in (map_of m' (uid, ty) \<noteq> None, m'))"

section \<open>Preservation\<close>

lemma inv_cleanup_invites: "inv_except X db \<Longrightarrow> inv_except X (cleanup_invalid_invites now db)"
  unfolding cleanup_invalid_invites_def by (rule inv_delete_invites)

lemma cleanup_invites_keeps [keeps_intros]: "keeps (inv_except X) (texec (cleanup_invalid_invites now))"
  by (rule keeps_exec) (rule inv_cleanup_invites)

lemma open_manual_lane:
  "open_in_lane u (lane INVITE_KIND_PRIVATE_ROOM) i \<longleftrightarrow> open_manual u i"
  "open_in_lane u (lane INVITE_KIND_LOBBY_PARTY) i \<longleftrightarrow> open_manual u i"
  by (auto simp: open_in_lane_def open_manual_def lane_def invite_kinds)

lemma add_invite_keeps: "keeps storage_inv (add_invite now sender receiver kind ty sid)"
proof (rule keepsI)
  fix db x db' assume inv: "storage_inv db" and run: "add_invite now sender receiver kind ty sid db = Inr (x, db')"
  show "storage_inv db'"
  proof (cases "kind \<in> {INVITE_KIND_PRIVATE_ROOM, INVITE_KIND_LOBBY_PARTY}")
    case True
    obtain party a where fst: "invite_party sender kind db = Inr (party, a)"
      and rest: "(if \<not> invitable sender ty sid (delete_invites (open_manual receiver) (delete_invites (dead_invite now) a))
         then (\<lambda>_. Inr (None, db))
         else tbind (insert_invite sender receiver kind ty sid party now 300) (\<lambda>row. treturn (Some row)))
         (delete_invites (open_manual receiver) (delete_invites (dead_invite now) a)) = Inr (x, db')"
      using run True by (auto simp: add_invite_def tbind_Inr_conv simp del: insert_iff)
    define b where "b = delete_invites (open_manual receiver) (delete_invites (dead_invite now) a)"
    have "keeps (inv_except {}) (invite_party sender kind)" unfolding invite_party_def by (intro keeps_intros)
    from keepsD[OF this _ fst] inv have a: "inv_except {} a" by (simp add: storage_inv_def)
    then have b: "inv_except {} b" unfolding b_def by (intro inv_delete_invites)
    show ?thesis
    proof (cases "invitable sender ty sid b")
      case ok: True
      with rest obtain r where ins: "insert_invite sender receiver kind ty sid party now 300 b = Inr (r, db')"
        unfolding b_def[symmetric] by (auto simp: tbind_Inr_conv)
      have free: "\<forall>i\<in>set (invites b). \<not> open_in_lane receiver (lane kind) i"
        using True by (auto simp: b_def open_manual_lane)
      have "kind \<noteq> INVITE_KIND_PARTY_FOLLOW" using True by (auto simp: invite_kinds)
      with hoareD[OF inv_insert_invite _ ins, of "{}"] b free show ?thesis by (simp add: storage_inv_def)
    qed (use rest inv in \<open>simp add: b_def[symmetric]\<close>)
  qed (use run inv in \<open>simp add: add_invite_def\<close>)
qed

lemma mark_keeps:
  "keeps (inv_except X) (texec (update_invites P (mark_delivered now)))"
  "keeps (inv_except X) (texec (update_invites P (mark_accepted now)))"
  "keeps (inv_except X) (texec (\<lambda>db. update_invites (Q db) (consume now) db))"
  by (rule keeps_exec, erule inv_update_invites[rotated 5],
      simp_all add: mark_delivered_def mark_accepted_def consume_def)+

lemma take_invite_keeps: "keeps storage_inv (take_invite now uid)"
  unfolding take_invite_def storage_inv_def[abs_def] by (intro keeps_intros mark_keeps)

lemma accept_invite_keeps: "keeps storage_inv (accept_invite now uid row)"
proof (rule keepsI)
  fix db x db' assume inv: "storage_inv db" and run: "accept_invite now uid row db = Inr (x, db')"
  define a where "a = update_invites (open_invite now uid row) (mark_accepted now) (cleanup_invalid_invites now db)"
  have "keeps (inv_except {}) (texec (update_invites (open_invite now uid row) (mark_accepted now)))"
    by (rule mark_keeps)
  from keepsD[OF this inv_cleanup_invites] inv have "storage_inv a"
    by (simp add: storage_inv_def a_def)
  moreover have "db' = a \<or> db' = db"
    using run by (auto simp: accept_invite_def a_def[symmetric] split: option.splits if_splits)
  ultimately show "storage_inv db'" using inv by auto
qed

end
