(* ===== verification/Storage_Search.thy ===== *)
theory Storage_Search
  imports Storage_Invites
begin

text \<open>
  The reading operations on sessions of \<open>dedicated-server/src/storage/mod.rs\<close>: searches, the
  sessions a user hosts, all sessions, and the session of an accepted invitation with its
  attributes projected for the response. Each returns what one reading of the database gives.
\<close>

section \<open>Results\<close>

record participant =
  pa_user_id :: nat
  pa_name :: string
  pa_station_urls :: "string list"

record game_session =
  gs_type :: nat
  gs_id :: nat
  gs_creator :: nat
  gs_attributes :: string
  gs_participants :: "participant list"

record invited_game_session =
  ig_invite_id :: nat
  ig_kind :: nat
  ig_sender :: nat
  ig_session :: game_session

definition list_urls :: "nat \<Rightarrow> db \<Rightarrow> string list" where
  "list_urls uid db = map snd (filter (\<lambda>r. fst r = uid) (station_urls db))"

definition string_key :: "string \<Rightarrow> nat list" where
  "string_key s = map of_char s"

fun nats_le :: "nat list \<Rightarrow> nat list \<Rightarrow> bool" where
  "nats_le [] _ = True"
| "nats_le (x # xs) [] = False"
| "nats_le (x # xs) (y # ys) = (x < y \<or> x = y \<and> nats_le xs ys)"

text \<open>\<open>ORDER BY url\<close>: the binary collation.\<close>

fun insert_url :: "string \<Rightarrow> string list \<Rightarrow> string list" where
  "insert_url u [] = [u]"
| "insert_url u (v # vs) = (if nats_le (string_key u) (string_key v) then u # v # vs else v # insert_url u vs)"

definition sorted_urls :: "nat \<Rightarrow> db \<Rightarrow> string list" where
  "sorted_urls uid db = foldr insert_url (list_urls uid db) []"

definition user_named :: "nat \<Rightarrow> db \<Rightarrow> user_row option" where
  "user_named uid db = find (\<lambda>u. u_id u = uid) (users db)"

text \<open>
  The join of \<open>participants\<close> and \<open>users\<close>. \<open>search_sessions\<close> leaves out the URLs of the user it
  searches for, the other operations sort participants and URLs.
\<close>

definition named_participant :: "(nat \<Rightarrow> string list) \<Rightarrow> db \<Rightarrow> nat \<Rightarrow> participant option" where
  "named_participant urls db uid =
    map_option (\<lambda>u. \<lparr>pa_user_id = uid, pa_name = u_name u, pa_station_urls = urls uid\<rparr>) (user_named uid db)"

definition session_of :: "participant list \<Rightarrow> session_row \<Rightarrow> game_session" where
  "session_of ps g = \<lparr>gs_type = g_type g, gs_id = g_id g, gs_creator = g_creator g,
     gs_attributes = g_attributes g, gs_participants = ps\<rparr>"

text \<open>A joinable session has a host that takes part and has an endpoint.\<close>

definition joinable :: "game_session \<Rightarrow> bool" where
  "joinable s \<longleftrightarrow> (\<exists>p\<in>set (gs_participants s). pa_user_id p = gs_creator s \<and> pa_station_urls p \<noteq> [])"

definition table_participants :: "nat \<Rightarrow> db \<Rightarrow> nat list" where
  "table_participants sid db = map snd (filter (\<lambda>r. fst r = sid) (participants db))"

definition search_sessions :: "nat \<Rightarrow> nat option \<Rightarrow> db \<Rightarrow> game_session list" where
  "search_sessions ty exclude db =
    (let urls = (\<lambda>u. if exclude = Some u then [] else list_urls u db);
         found = filter (\<lambda>g. g_type g = ty \<and> g_destroyed g = None \<and> exclude \<noteq> Some (g_creator g)) (game_sessions db)
     in filter joinable (map (\<lambda>g. session_of
          (List.map_filter (named_participant urls db) (table_participants (g_id g) db)) g) found))"

definition sorted_session :: "db \<Rightarrow> session_row \<Rightarrow> game_session" where
  "sorted_session db g = session_of
     (List.map_filter (named_participant (\<lambda>u. sorted_urls u db) db) (participant_ids (g_id g) db)) g"

definition by_session_id :: "session_row list \<Rightarrow> session_row list" where
  "by_session_id gs = sort_key g_id gs"

definition search_sessions_with_participants :: "nat \<Rightarrow> nat list \<Rightarrow> db \<Rightarrow> game_session list" where
  "search_sessions_with_participants ty uids db =
    filter joinable (map (sorted_session db) (by_session_id (filter (\<lambda>g. g_type g = ty \<and> g_destroyed g = None
      \<and> (uids = [] \<or> (\<exists>u\<in>set uids. is_participant (g_id g) u db))) (game_sessions db))))"

definition list_game_sessions :: "db \<Rightarrow> game_session list" where
  "list_game_sessions db = map (\<lambda>g. session_of
     (List.map_filter (named_participant (\<lambda>u. list_urls u db) db) (table_participants (g_id g) db)) g)
     (filter (\<lambda>g. g_destroyed g = None) (game_sessions db))"

definition find_host_sessions :: "nat \<Rightarrow> db \<Rightarrow> game_session list" where
  "find_host_sessions uid db =
    map (session_of []) (rev (by_session_id (filter (hosted_by uid db) (game_sessions db))))"

definition game_session_diagnostics :: "nat \<Rightarrow> nat \<Rightarrow> db \<Rightarrow> (nat \<times> string \<times> nat list) option" where
  "game_session_diagnostics ty sid db =
    map_option (\<lambda>g. (g_creator g, g_attributes g, participant_ids sid db)) (find_active ty sid db)"

section \<open>The session of an accepted invitation\<close>

definition accepted_invite :: "nat \<Rightarrow> nat \<Rightarrow> nat \<Rightarrow> bool \<Rightarrow> db \<Rightarrow> invite_row \<Rightarrow> bool" where
  "accepted_invite now uid ty manual_only db i \<longleftrightarrow> i_receiver i = uid \<and> i_type i = ty
     \<and> (\<not> manual_only \<or> i_kind i \<in> {INVITE_KIND_PRIVATE_ROOM, INVITE_KIND_LOBBY_PARTY, INVITE_KIND_LOBBY_RESTORE})
     \<and> i_accepted i \<noteq> None \<and> i_consumed i = None \<and> i_expires i > now \<and> invite_target_ok db i"

definition find_accepted_invited_session_filtered ::
    "nat \<Rightarrow> nat \<Rightarrow> nat \<Rightarrow> bool \<Rightarrow> db \<Rightarrow> invited_game_session option" where
  "find_accepted_invited_session_filtered now uid ty manual_only db =
    (case latest newer_invite (filter (accepted_invite now uid ty manual_only db) (invites db)) of
       None \<Rightarrow> None
     | Some i \<Rightarrow>
        (case find_active (i_type i) (i_session i) db of
           None \<Rightarrow> None
         | Some g \<Rightarrow>
            let s = sorted_session db g in
            Some \<lparr>ig_invite_id = i_rowid i, ig_kind = i_kind i, ig_sender = i_sender i,
              ig_session = (if i_kind i = INVITE_KIND_PRIVATE_ROOM
                then s\<lparr>gs_attributes := project_private_invite_session_class_only (gs_attributes s)\<rparr> else s)\<rparr>))"

definition find_accepted_invited_session :: "nat \<Rightarrow> nat \<Rightarrow> nat \<Rightarrow> db \<Rightarrow> invited_game_session option" where
  "find_accepted_invited_session now uid ty db = find_accepted_invited_session_filtered now uid ty False db"

definition find_accepted_manual_invited_session ::
    "nat \<Rightarrow> nat \<Rightarrow> nat \<Rightarrow> db \<Rightarrow> invited_game_session option" where
  "find_accepted_manual_invited_session now uid ty db =
    find_accepted_invited_session_filtered now uid ty True db"

end
