(* ===== verification/Storage_Users.thy ===== *)
theory Storage_Users
  imports Storage_Search
begin

text \<open>
  Users: login, registration, presence, the lookups and the deletion of an account, from
  \<open>dedicated-server/src/storage/mod.rs\<close>. The Argon2 library is the pair of parameters
  \<open>verify\<close> and \<open>hash\<close>: \<open>verify hash password\<close> is \<open>None\<close> when the stored hash cannot be parsed,
  and \<open>hash salt password\<close> is \<open>None\<close> when hashing fails.
\<close>

datatype login_error = UserNotFound | InvalidPassword

definition update_login :: "nat \<Rightarrow> nat \<Rightarrow> db \<Rightarrow> db" where
  "update_login now uid = update_users (\<lambda>u. u_id u = uid)
     (\<lambda>u. u\<lparr>u_last_login := Some now, u_is_online := True\<rparr>)"

definition check_password ::
    "(string \<Rightarrow> string \<Rightarrow> bool option) \<Rightarrow> string \<Rightarrow> user_row \<Rightarrow> db_error + (login_error + nat)" where
  "check_password verify password u =
    (case (u_password u, u_password_hash u) of
       (None, None) \<Rightarrow> Inl StateError
     | (Some _, Some _) \<Rightarrow> Inl StateError
     | (Some p, None) \<Rightarrow> Inr (if p = password then Inr (u_id u) else Inl InvalidPassword)
     | (None, Some h) \<Rightarrow>
        (case verify h password of
           None \<Rightarrow> Inl StateError
         | Some ok \<Rightarrow> Inr (if ok then Inr (u_id u) else Inl InvalidPassword)))"

definition login_user ::
    "(string \<Rightarrow> string \<Rightarrow> bool option) \<Rightarrow> nat \<Rightarrow> string \<Rightarrow> string \<Rightarrow> (login_error + nat) txn" where
  "login_user verify now username password =
    tbind (tread (\<lambda>db. find (\<lambda>u. u_name u = username) (users db))) (\<lambda>row.
    case row of
      None \<Rightarrow> treturn (Inl UserNotFound)
    | Some u \<Rightarrow>
        (case check_password verify password u of
           Inl e \<Rightarrow> tfail e
         | Inr (Inl e) \<Rightarrow> treturn (Inl e)
         | Inr (Inr uid) \<Rightarrow> tbind (texec (update_login now uid)) (\<lambda>_. treturn (Inr uid))))"

definition touch_api_presence :: "nat \<Rightarrow> nat \<Rightarrow> unit txn" where
  "touch_api_presence now uid = texec (update_users (\<lambda>u. u_id u = uid) (\<lambda>u. u\<lparr>u_last_api_seen := Some now\<rparr>))"

definition register_user_unsafe :: "string \<Rightarrow> string \<Rightarrow> string option \<Rightarrow> unit txn" where
  "register_user_unsafe username password ubi_id = (\<lambda>db.
     if username \<in> u_name ` set (users db) then Inl UniqueViolation
     else if ubi_id \<noteq> None \<and> ubi_id \<in> u_ubi_id ` set (users db) then Inl UniqueViolation
     else Inr ((), db\<lparr>users := users db @ [\<lparr>u_id = next_rowid (user_ids db), u_name = username,
       u_password = None, u_password_hash = Some password, u_ubi_id = ubi_id, u_last_login = None,
       u_is_online = False, u_last_api_seen = None\<rparr>]\<rparr>))"

definition register_user ::
    "(string \<Rightarrow> string option) \<Rightarrow> string \<Rightarrow> string \<Rightarrow> string option \<Rightarrow> unit txn" where
  "register_user hash username password ubi_id =
    (case hash password of None \<Rightarrow> tfail StateError | Some h \<Rightarrow> register_user_unsafe username h ubi_id)"

definition hex_digit :: "nat \<Rightarrow> char" where
  "hex_digit n = ''0123456789ABCDEF'' ! n"

definition hex_key :: "bytes \<Rightarrow> string" where
  "hex_key key = concat (map (\<lambda>b. [hex_digit (unat b div 16), hex_digit (unat b mod 16)]) key)"

definition create_user_session :: "nat \<Rightarrow> bytes \<Rightarrow> unit txn" where
  "create_user_session uid key =
    tbind (\<lambda>db. if hex_key key \<in> fst ` set (user_sessions db) then Inl UniqueViolation
      else if uid \<notin> set (user_ids db) then Inl ForeignKeyViolation
      else Inr ((), db\<lparr>user_sessions := user_sessions db @ [(hex_key key, uid)]\<rparr>)) (\<lambda>_.
    texec (update_users (\<lambda>u. u_id u = uid) (\<lambda>u. u\<lparr>u_is_online := True\<rparr>)))"

section \<open>Lookups\<close>

record user =
  us_id :: nat
  us_name :: string
  us_ubi_id :: string
  us_is_online :: bool

text \<open>Decoding a row whose \<open>ubi_id\<close> is null fails.\<close>

definition user_of :: "bool \<Rightarrow> user_row \<Rightarrow> db_error + user" where
  "user_of online u = (case u_ubi_id u of
     None \<Rightarrow> Inl DecodeError
   | Some i \<Rightarrow> Inr \<lparr>us_id = u_id u, us_name = u_name u, us_ubi_id = i, us_is_online = online\<rparr>)"

definition fetch_user :: "(user_row \<Rightarrow> bool) \<Rightarrow> db \<Rightarrow> db_error + user option" where
  "fetch_user P db = (case find P (users db) of
     None \<Rightarrow> Inr None
   | Some u \<Rightarrow> (case user_of (u_is_online u) u of Inl e \<Rightarrow> Inl e | Inr x \<Rightarrow> Inr (Some x)))"

definition find_user_by_ubi_id :: "string \<Rightarrow> db \<Rightarrow> db_error + user option" where
  "find_user_by_ubi_id i db = fetch_user (\<lambda>u. u_ubi_id u = Some i) db"

definition find_user_by_id :: "nat \<Rightarrow> db \<Rightarrow> db_error + user option" where
  "find_user_by_id uid db = fetch_user (\<lambda>u. u_id u = uid) db"

definition find_password_for_user :: "nat \<Rightarrow> db \<Rightarrow> string option" where
  "find_password_for_user uid db = Option.bind (user_named uid db) u_password"

definition find_user_id_by_name :: "string \<Rightarrow> db \<Rightarrow> nat option" where
  "find_user_id_by_name name db = map_option u_id (find (\<lambda>u. u_name u = name) (users db))"

definition find_ubi_id_by_user_id :: "nat \<Rightarrow> db \<Rightarrow> string option" where
  "find_ubi_id_by_user_id uid db = Option.bind (user_named uid db) u_ubi_id"

definition find_username_by_user_id :: "nat \<Rightarrow> db \<Rightarrow> string option" where
  "find_username_by_user_id uid db = map_option u_name (user_named uid db)"

definition find_user_id_by_ubi_id :: "string \<Rightarrow> db \<Rightarrow> nat option" where
  "find_user_id_by_ubi_id i db = map_option u_id (find (\<lambda>u. u_ubi_id u = Some i) (users db))"

definition online_user :: "nat \<Rightarrow> user_row \<Rightarrow> user option" where
  "online_user now u = (case user_of (u_is_online u \<or> recent_api now u) u of Inl _ \<Rightarrow> None | Inr x \<Rightarrow> Some x)"

definition list_users :: "nat \<Rightarrow> user list txn" where
  "list_users now = tbind (cleanup_stale_api_sessions now) (\<lambda>_.
     tread (\<lambda>db. List.map_filter (online_user now) (filter (\<lambda>u. u_ubi_id u \<noteq> None) (users db))))"

text \<open>
  Deleting an account deletes what refers to it with \<open>ON DELETE CASCADE\<close>; an invitation
  refers to its users without, so that one left over makes the deletion fail.
\<close>

definition delete_user :: "nat \<Rightarrow> unit txn" where
  "delete_user uid = (\<lambda>db.
     if \<exists>i\<in>set (invites db). i_sender i = uid \<or> i_receiver i = uid then
       (if uid \<in> set (user_ids db) then Inl ForeignKeyViolation else Inr ((), db))
     else
       let gone = map g_id (filter (\<lambda>g. g_creator g = uid) (game_sessions db));
           db = drop_party uid db
       in Inr ((), db\<lparr>users := filter (\<lambda>u. u_id u \<noteq> uid) (users db),
            game_sessions := filter (\<lambda>g. g_creator g \<noteq> uid) (game_sessions db),
            participants := filter (\<lambda>r. snd r \<noteq> uid \<and> fst r \<notin> set gone) (participants db),
            station_urls := filter (\<lambda>r. fst r \<noteq> uid) (station_urls db),
            user_sessions := filter (\<lambda>r. snd r \<noteq> uid) (user_sessions db)\<rparr>))"

section \<open>Preservation\<close>

lemma update_users_keeps:
  "(\<And>u. u_id (f u) = u_id u) \<Longrightarrow> keeps (inv_except X) (texec (update_users P f))"
  by (rule keeps_exec, rule inv_update_users)

lemma login_keeps: "keeps storage_inv (login_user verify now username password)"
proof -
  have "keeps (inv_except {}) (texec (update_login now uid))" for uid
    unfolding update_login_def by (rule update_users_keeps) simp
  then have "keeps (inv_except {}) (case check_password verify password u of
      Inl e \<Rightarrow> tfail e | Inr (Inl e) \<Rightarrow> treturn (Inl e)
    | Inr (Inr uid) \<Rightarrow> tbind (texec (update_login now uid)) (\<lambda>_. treturn (Inr uid)))" for u
    by (auto split: sum.split intro: keeps_intros)
  then show ?thesis unfolding login_user_def storage_inv_def[abs_def] by (intro keeps_intros)
qed

lemma touch_keeps: "keeps storage_inv (touch_api_presence now uid)"
  unfolding touch_api_presence_def storage_inv_def[abs_def] by (rule update_users_keeps) simp

lemma inv_insert_user:
  assumes "inv_except X db" "u_id u \<notin> set (user_ids db)"
  shows "inv_except X (db\<lparr>users := users db @ [u]\<rparr>)"
  using assms unfolding inv_except_def db_refs_def parties_ok_def lanes_ok_def hosts_except_def
    is_participant_def user_ids_def session_ids_def party_ids_def by simp

lemma register_user_keeps: "keeps storage_inv (register_user hash username password ubi_id)"
proof -
  have "keeps (inv_except {}) (register_user_unsafe username h ubi_id)" for h
    by (rule keepsI) (auto simp: register_user_unsafe_def next_rowid_fresh intro!: inv_insert_user split: if_splits)
  then show ?thesis
    unfolding register_user_def storage_inv_def[abs_def] by (intro keeps_intros)
qed

lemma inv_insert_user_session:
  assumes "inv_except X db" "uid \<in> set (user_ids db)"
  shows "inv_except X (db\<lparr>user_sessions := user_sessions db @ [(k, uid)]\<rparr>)"
  using assms unfolding inv_except_def db_refs_def parties_ok_def lanes_ok_def hosts_except_def
    is_participant_def user_ids_def session_ids_def party_ids_def by simp

lemma create_user_session_keeps: "keeps storage_inv (create_user_session uid key)"
proof -
  have "keeps (inv_except {}) (\<lambda>db. if hex_key key \<in> fst ` set (user_sessions db) then Inl UniqueViolation
      else if uid \<notin> set (user_ids db) then Inl ForeignKeyViolation
      else Inr ((), db\<lparr>user_sessions := user_sessions db @ [(hex_key key, uid)]\<rparr>))"
    by (rule keepsI) (auto intro: inv_insert_user_session split: if_splits)
  then show ?thesis
    unfolding create_user_session_def storage_inv_def[abs_def]
    by (intro keeps_bind update_users_keeps) simp_all
qed

lemma list_users_keeps: "keeps storage_inv (list_users now)"
  unfolding list_users_def by (intro keeps_bind end_of_connection_keeps keeps_read)

lemma delete_user_keeps: "keeps storage_inv (delete_user uid)"
proof (rule keepsI)
  fix db x db' assume inv: "storage_inv db" and run: "delete_user uid db = Inr (x, db')"
  have inv0: "inv_except {} db" using inv by (simp add: storage_inv_def)
  show "storage_inv db'"
  proof (cases "\<exists>i\<in>set (invites db). i_sender i = uid \<or> i_receiver i = uid")
    case True
    then show ?thesis using run inv by (auto simp: delete_user_def split: if_splits)
  next
    case False
    define d where "d = drop_party uid db"
    have d: "inv_except {} d" unfolding d_def by (rule inv_drop_party[OF inv0])
    have same: "same_but_parties db d"
      unfolding d_def by (rule drop_party_tables(3)[OF inv_party_tables[OF inv0] inv_parties_ok[OF inv0]])
    have nop: "\<forall>p\<in>set (parties d). pt_leader p \<noteq> uid" "\<forall>m\<in>set (party_members d). fst m \<noteq> uid"
      by (auto simp: d_def drop_party_def delete_party_member_def delete_parties_def Let_def)
    have noi: "\<forall>i\<in>set (invites d). i_sender i \<noteq> uid \<and> i_receiver i \<noteq> uid"
      using False same by (simp add: same_but_parties_def)
    have db': "db' = d\<lparr>users := filter (\<lambda>u. u_id u \<noteq> uid) (users d),
        game_sessions := filter (\<lambda>g. g_creator g \<noteq> uid) (game_sessions d),
        participants := filter (\<lambda>r. snd r \<noteq> uid
          \<and> fst r \<notin> set (map g_id (filter (\<lambda>g. g_creator g = uid) (game_sessions d)))) (participants d),
        station_urls := filter (\<lambda>r. fst r \<noteq> uid) (station_urls d),
        user_sessions := filter (\<lambda>r. snd r \<noteq> uid) (user_sessions d)\<rparr>"
      using run False same by (auto simp: delete_user_def d_def[symmetric] Let_def same_but_parties_def)
    have others: "\<And>u. u \<in> set (user_ids d) \<Longrightarrow> u \<noteq> uid \<Longrightarrow> u \<in> u_id ` {x \<in> set (users d). u_id x \<noteq> uid}"
      by (force simp: user_ids_def)
    have kept: "\<And>s. s \<in> set (session_ids d) \<Longrightarrow> s \<notin> g_id ` {g \<in> set (game_sessions d). g_creator g = uid}
      \<Longrightarrow> s \<in> g_id ` {g \<in> set (game_sessions d). g_creator g \<noteq> uid}"
      by (force simp: session_ids_def)
    have "db_refs db'"
      using d nop noi others kept unfolding db' inv_except_def db_refs_def
      by (simp add: user_ids_def session_ids_def party_ids_def distinct_map_filter)
    moreover have "parties_ok db'" "lanes_ok db'"
      using d unfolding db' inv_except_def by (simp_all add: parties_ok_def lanes_ok_def)
    moreover have "hosts_except {} db'"
      unfolding hosts_except_def
    proof (intro ballI impI)
      fix g assume g: "g \<in> set (game_sessions db')" "g_destroyed g = None"
      then have gd: "g \<in> set (game_sessions d)" "g_creator g \<noteq> uid" unfolding db' by auto
      then have "is_participant (g_id g) (g_creator g) d"
        using d g(2) by (simp add: inv_except_def hosts_except_def)
      moreover have "g_id g \<notin> g_id ` {h \<in> set (game_sessions d). g_creator h = uid}"
        using session_unique[OF d gd(1)] gd(2) by auto
      ultimately show "is_participant (g_id g) (g_creator g) db'"
        using gd(2) unfolding db' is_participant_def by simp
    qed
    ultimately show ?thesis by (simp add: storage_inv_def inv_except_def)
  qed
qed

end
