(* ===== verification/Storage_Reachable.thy ===== *)
theory Storage_Reachable
  imports Storage_Users
begin

text \<open>
  The operations of the storage as one type, their execution, and the databases that can be
  reached by them: every operation keeps the invariant, with the one exception that
  \<open>remove_participants\<close> does not check the type of the session it removes from.
\<close>

datatype storage_op =
    CreateSession nat nat string
  | JoinSession nat nat nat
  | LeaveSession nat nat nat
  | MigrateHost nat nat nat
  | RestoreAbandoned nat nat nat
  | UpdateSession nat nat string
  | DeleteSession nat nat nat
  | DeleteSessionById nat
  | AddParticipants nat nat nat "nat list" "nat list"
  | RemoveParticipants nat nat "nat list"
  | RegisterUrls nat "string list"
  | CloseSecureSession nat
  | DeleteUserSession nat
  | CleanupStale
  | Invalidate
  | AddInvite nat nat nat nat nat
  | TakeInvite nat
  | AcceptInvite nat nat
  | Login string string
  | TouchApiPresence nat
  | RegisterUser string string "string option"
  | CreateUserSession nat bytes
  | ListUsers
  | DeleteUser nat

definition after :: "'a txn \<Rightarrow> db \<Rightarrow> db_error + db" where
  "after m db = (case m db of Inl e \<Rightarrow> Inl e | Inr (_, db') \<Rightarrow> Inr db')"

fun run_op :: "(string \<Rightarrow> string \<Rightarrow> bool option) \<Rightarrow> (string \<Rightarrow> string option) \<Rightarrow> nat
    \<Rightarrow> storage_op \<Rightarrow> db \<Rightarrow> db_error + db" where
  "run_op verify hash now (CreateSession u ty a) = after (create_game_session now u ty a)"
| "run_op verify hash now (JoinSession u ty s) = after (join_game_session_unbounded now u ty s)"
| "run_op verify hash now (LeaveSession u ty s) = after (leave_game_session now u ty s)"
| "run_op verify hash now (MigrateHost u ty s) = after (migrate_game_session_host u ty s)"
| "run_op verify hash now (RestoreAbandoned u ty s) = after (restore_abandoned_game_session_for_split u ty s)"
| "run_op verify hash now (UpdateSession ty s a) = after (update_game_session ty s a)"
| "run_op verify hash now (DeleteSession u ty s) = after (delete_game_session now u ty s)"
| "run_op verify hash now (DeleteSessionById s) = after (delete_game_session_by_id now s)"
| "run_op verify hash now (AddParticipants c ty s ps qs) = after (add_participants now c ty s ps qs)"
| "run_op verify hash now (RemoveParticipants ty s us) = after (remove_participants now ty s us)"
| "run_op verify hash now (RegisterUrls u ls) = after (register_urls u ls)"
| "run_op verify hash now (CloseSecureSession u) = after (close_secure_session now u)"
| "run_op verify hash now (DeleteUserSession u) = after (delete_user_session now u)"
| "run_op verify hash now CleanupStale = after (cleanup_stale_api_sessions now)"
| "run_op verify hash now Invalidate = after (invalidate_sessions now)"
| "run_op verify hash now (AddInvite s r k ty g) = after (add_invite now s r k ty g)"
| "run_op verify hash now (TakeInvite u) = after (take_invite now u)"
| "run_op verify hash now (AcceptInvite u i) = after (accept_invite now u i)"
| "run_op verify hash now (Login n p) = after (login_user verify now n p)"
| "run_op verify hash now (TouchApiPresence u) = after (touch_api_presence now u)"
| "run_op verify hash now (RegisterUser n p i) = after (register_user hash n p i)"
| "run_op verify hash now (CreateUserSession u k) = after (create_user_session u k)"
| "run_op verify hash now ListUsers = after (list_users now)"
| "run_op verify hash now (DeleteUser u) = after (delete_user u)"

text \<open>The removals whose session, if it is active, has the type they name.\<close>

definition typed_removal :: "storage_op \<Rightarrow> db \<Rightarrow> bool" where
  "typed_removal op db \<longleftrightarrow> (\<forall>ty sid us. op = RemoveParticipants ty sid us \<longrightarrow>
     (\<forall>g\<in>set (game_sessions db). g_id g = sid \<longrightarrow> g_destroyed g = None \<longrightarrow> g_type g = ty))"

definition initial_db :: "user_row list \<Rightarrow> db" where
  "initial_db us = \<lparr>users = us, game_sessions = [], participants = [], station_urls = [],
     user_sessions = [], parties = [], party_seq = 0, party_members = [], invites = []\<rparr>"

inductive storage_reachable for verify hash where
  start: "distinct (map u_id us) \<Longrightarrow> storage_reachable verify hash (initial_db us)"
| step: "storage_reachable verify hash db \<Longrightarrow> typed_removal op db
    \<Longrightarrow> run_op verify hash now op db = Inr db' \<Longrightarrow> storage_reachable verify hash db'"

lemma after_keeps: "keeps storage_inv m \<Longrightarrow> storage_inv db \<Longrightarrow> after m db = Inr db' \<Longrightarrow> storage_inv db'"
  by (auto simp: after_def split: sum.splits dest: keepsD)

lemma initial_inv: "distinct (map u_id us) \<Longrightarrow> storage_inv (initial_db us)"
  by (simp add: storage_inv_def inv_except_def db_refs_def parties_ok_def lanes_ok_def hosts_except_def
      initial_db_def user_ids_def session_ids_def party_ids_def)

lemmas operation_keeps = create_keeps join_keeps leave_keeps migrate_keeps restore_abandoned_keeps
  update_session_keeps delete_session_keeps delete_by_id_keeps add_participants_keeps register_urls_keeps
  end_of_connection_keeps invalidate_keeps add_invite_keeps take_invite_keeps accept_invite_keeps
  login_keeps touch_keeps register_user_keeps create_user_session_keeps list_users_keeps delete_user_keeps

lemma run_op_keeps:
  assumes "storage_inv db" "typed_removal op db" "run_op verify hash now op db = Inr db'"
  shows "storage_inv db'"
proof (cases "\<exists>ty sid us. op = RemoveParticipants ty sid us")
  case True
  then obtain ty sid us where op: "op = RemoveParticipants ty sid us" by blast
  then obtain x where "remove_participants now ty sid us db = Inr (x, db')"
    using assms(3) by (auto simp: after_def split: sum.splits)
  then show ?thesis
    using remove_participants_keeps[OF assms(1)] assms(2) by (simp add: typed_removal_def op)
next
  case False
  then show ?thesis
    using assms(3) by (cases op) (auto elim!: after_keeps[OF _ assms(1), rotated] intro: operation_keeps)
qed

lemma storage_reachable_inv: "storage_reachable verify hash db \<Longrightarrow> storage_inv db"
  by (induction rule: storage_reachable.induct) (blast intro: initial_inv run_op_keeps)+

section \<open>Properties\<close>


definition sample_user :: "nat \<Rightarrow> string \<Rightarrow> user_row" where
  "sample_user uid name = \<lparr>u_id = uid, u_name = name, u_password = Some ''pw'', u_password_hash = None,
     u_ubi_id = Some name, u_last_login = None, u_is_online = False, u_last_api_seen = None\<rparr>"

definition sample_users :: "user_row list" where
  "sample_users = [sample_user 1000 ''sam'', sample_user 1001 ''archer'', sample_user 1002 ''kestrel'']"

lemma sample_trim: "trim ''113 '' = ''113''" "trim '' 1'' = ''1''" "trim '' 0'' = ''0''"
  by (simp_all add: trim_def trim_start_def trim_end_def whitespace_def)

lemma sample_class: "session_attribute_value ''113 => 1'' 113 = Some 1"
  "session_attribute_value ''113 => 0'' 113 = Some 0"
  by (simp_all add: session_attribute_value_def attribute_entry_def sample_trim parse_uint_def char_digit_def)

lemma sample_lobby: "\<not> is_game_room_attributes ''113 => 1''" "is_lobby_session_attributes ''113 => 1''"
  "is_game_room_attributes ''113 => 0''" "\<not> is_lobby_session_attributes ''113 => 0''"
  by (simp_all add: is_game_room_attributes_def is_lobby_session_attributes_def sample_class)

definition hosted_db :: db where
  "hosted_db = (initial_db sample_users)\<lparr>
     game_sessions := [\<lparr>g_id = 1, g_type = 1, g_attributes = ''113 => 1'', g_creator = 1000, g_destroyed = None\<rparr>],
     participants := [(1, 1000)]\<rparr>"

lemma sample_ids: "user_ids (initial_db sample_users) = [1000, 1001, 1002]"
  "user_ids hosted_db = [1000, 1001, 1002]" "session_ids hosted_db = [1]"
  by (simp_all add: user_ids_def session_ids_def initial_db_def sample_users_def sample_user_def hosted_db_def)

lemma hosted_reachable: "storage_reachable verify hash hosted_db"
proof (rule storage_reachable.step)
  show "storage_reachable verify hash (initial_db sample_users)"
    by (rule storage_reachable.start) (simp add: sample_users_def sample_user_def)
  show "typed_removal (CreateSession 1000 1 ''113 => 1'') (initial_db sample_users)"
    by (simp add: typed_removal_def)
  show "run_op verify hash 0 (CreateSession 1000 1 ''113 => 1'') (initial_db sample_users) = Inr hosted_db"
    by (simp add: after_def create_game_session_def insert_session_def insert_participant_def tbind_def
        sample_lobby sample_ids Let_def next_rowid_def user_ids_def session_ids_def)
      (simp add: initial_db_def sample_users_def sample_user_def hosted_db_def)
qed


lemma remove_one:
  assumes "remove_participants now ty sid [u] db = Inr (x, db')" "inv_except X db"
    and "\<forall>h\<in>set (game_sessions db). \<not> active_session ty sid h"
  shows "game_sessions db' = game_sessions db \<and> participants db' = filter (\<lambda>r. r \<noteq> (sid, u)) (participants db)"
proof -
  let ?d = "delete_participants (\<lambda>r. r = (sid, u)) db"
  note frame = delete_participants_frame[OF assms(2), of "\<lambda>r. r = (sid, u)"]
  have "find_active ty sid ?d = None" using assms(3) by (simp add: find_active_None frame)
  then have "db' = ?d"
    using assms(1) by (simp add: remove_participants_def reconcile_game_session_def tbind_assoc)
  then show ?thesis using frame by simp
qed

text \<open>Removing the host of an active session under another type
  removes it from the participants and leaves the session active with the absent host: the
  sessions of the database and the reconciled one need not be the same.\<close>

lemma removal_with_wrong_type:
  assumes "storage_inv db" and "g \<in> set (game_sessions db)" and "g_destroyed g = None"
    and "g_type g \<noteq> ty"
  shows "\<exists>db'. remove_participants now ty (g_id g) [g_creator g] db = Inr ((), db')
    \<and> g \<in> set (game_sessions db') \<and> \<not> is_participant (g_id g) (g_creator g) db'"
proof -
  have inv: "inv_except {} db" using assms(1) by (simp add: storage_inv_def)
  have no: "\<forall>h\<in>set (game_sessions db). \<not> active_session ty (g_id g) h"
  proof -
    have "\<forall>h\<in>set (game_sessions db). g_id h = g_id g \<longrightarrow> h = g" using session_unique[OF inv] assms(2) by blast
    then show ?thesis using assms(4) unfolding active_session_def by blast
  qed
  let ?d = "delete_participants (\<lambda>r. r = (g_id g, g_creator g)) db"
  have "find_active ty (g_id g) ?d = None"
    using no by (simp add: find_active_None delete_participants_frame(2)[OF inv])
  then have run: "remove_participants now ty (g_id g) [g_creator g] db = Inr ((), ?d)"
    by (simp add: remove_participants_def reconcile_game_session_def tbind_assoc)
  from remove_one[OF run inv no] have "g \<in> set (game_sessions ?d)" "\<not> is_participant (g_id g) (g_creator g) ?d"
    using assms(2) by (simp_all add: is_participant_def)
  with run show ?thesis by blast
qed

lemma removal_with_wrong_type_witness:
  "\<exists>db'. remove_participants 0 2 1 [1000] hosted_db = Inr ((), db')
    \<and> hd (game_sessions hosted_db) \<in> set (game_sessions db') \<and> \<not> is_participant 1 1000 db'"
  using removal_with_wrong_type[of hosted_db "hd (game_sessions hosted_db)" 2 0]
    storage_reachable_inv[OF hosted_reachable[of "\<lambda>_ _. None" "\<lambda>_. None"]]
  by (simp add: hosted_db_def)

end
