(* ===== verification/Session_Behaviour.thy ===== *)
theory Session_Behaviour
  imports Storage_Reachable
begin

text \<open>
  What the operations on sessions and users do, branch by branch: joining, leaving, searching,
  deleting with the recall of the players, the end of a connection, and the login.
\<close>

section \<open>Transactions that return\<close>

definition succeeds :: "(db \<Rightarrow> bool) \<Rightarrow> 'a txn \<Rightarrow> bool" where
  "succeeds I m \<longleftrightarrow> (\<forall>db. I db \<longrightarrow> (\<exists>x db'. m db = Inr (x, db') \<and> I db'))"

lemma succeedsD: "succeeds I m \<Longrightarrow> I db \<Longrightarrow> \<exists>x db'. m db = Inr (x, db') \<and> I db'"
  by (simp add: succeeds_def)

lemma succeeds_bind: "succeeds I m \<Longrightarrow> (\<And>x. succeeds I (f x)) \<Longrightarrow> succeeds I (tbind m f)"
  unfolding succeeds_def tbind_def by (metis old.sum.simps(6) prod.case)

lemma succeeds_return: "succeeds I (treturn x)"
  by (simp add: succeeds_def)

lemma succeeds_read: "succeeds I (tread f)"
  by (simp add: succeeds_def)

lemma succeeds_exec: "(\<And>db. I db \<Longrightarrow> I (f db)) \<Longrightarrow> succeeds I (texec f)"
  by (simp add: succeeds_def)

lemma succeeds_if: "succeeds I m \<Longrightarrow> succeeds I m' \<Longrightarrow> succeeds I (if b then m else m')"
  by simp

lemma succeeds_sum: "(\<And>x. x \<in> set xs \<Longrightarrow> succeeds I (f x)) \<Longrightarrow> succeeds I (tsum xs f)"
  by (induction xs) (auto intro!: succeeds_bind succeeds_return)

lemmas succeeds_intros = succeeds_bind succeeds_return succeeds_read succeeds_exec succeeds_if

lemma succeeds_insert_invite:
  "sender \<in> u_id ` set us \<Longrightarrow> receiver \<in> u_id ` set us \<Longrightarrow>
   succeeds (\<lambda>db. users db = us) (insert_invite sender receiver kind ty sid party now ttl)"
  by (simp add: succeeds_def insert_invite_def Let_def user_ids_def)

lemma succeeds_follow:
  "leader \<in> u_id ` set us \<Longrightarrow> receiver \<in> u_id ` set us \<Longrightarrow>
   succeeds (\<lambda>db. users db = us) (follow_member now leader pid ty sid receiver)"
  unfolding follow_member_def by (intro succeeds_intros succeeds_insert_invite) simp_all

lemma queue_follow_returns:
  assumes "inv_except X db" "leader \<in> set (user_ids db)"
  shows "\<exists>n db'. queue_party_follow_invites now leader ty sid db = Inr (n, db')"
proof (cases "find_party leader db")
  case (Some pid)
  have "set (party_follower_ids leader pid db) \<subseteq> u_id ` set (users db)"
    using assms(1) by (auto simp: party_follower_ids_def inv_except_def db_refs_def user_ids_def)
  then have "succeeds (\<lambda>d. users d = users db)
      (tsum (party_follower_ids leader pid db) (follow_member now leader pid ty sid))"
    using assms(2) by (intro succeeds_sum succeeds_follow) (auto simp: user_ids_def)
  from succeedsD[OF this refl] show ?thesis
    using Some by (auto simp: queue_party_follow_invites_def)
qed (simp add: queue_party_follow_invites_def)

section \<open>What queueing leaves alone\<close>

definition others_unchanged :: "db \<Rightarrow> nat \<Rightarrow> nat \<Rightarrow> nat \<Rightarrow> nat \<Rightarrow> db \<Rightarrow> bool" where
  "others_unchanged d now uid ty sid db \<longleftrightarrow> participants db = participants d
     \<and> game_sessions db = game_sessions d \<and> users db = users d
     \<and> (\<forall>i\<in>set (invites db). \<not> live_accepted now uid ty sid i)"

lemma insert_invite_unchanged:
  "keeps (others_unchanged d now uid ty sid) (insert_invite sender receiver kind ty' sid' party now' ttl)"
  by (rule keepsI) (auto simp: insert_invite_def Let_def others_unchanged_def live_accepted_def
      new_invite_def split: if_splits)

lemma queue_follow_unchanged:
  "keeps (others_unchanged d now uid ty sid) (queue_party_follow_invites now' leader ty' sid')"
proof -
  have "keeps (others_unchanged d now uid ty sid) (texec (delete_invites P))" for P
    by (rule keeps_exec) (simp add: others_unchanged_def)
  then show ?thesis
    unfolding queue_party_follow_invites_def follow_member_def
    by (intro keeps_intros insert_invite_unchanged)
qed

lemma live_consume: "\<not> live_accepted now uid ty sid (consume t i)"
  by (simp add: live_accepted_def consume_def)

section \<open>Joining\<close>

definition join_rest :: "nat \<Rightarrow> nat \<Rightarrow> nat \<Rightarrow> nat \<Rightarrow> session_row \<Rightarrow> bool txn" where
  "join_rest now uid ty sid g =
    tbind (texec (update_invites (live_accepted now uid ty sid) (consume now))) (\<lambda>_.
    tbind (if is_game_room_attributes (g_attributes g)
           then queue_party_follow_invites now uid ty sid else treturn 0) (\<lambda>_. treturn True))"

lemma join_unfold:
  "join_game_session_unbounded now uid ty sid = tbind (tread (find_active ty sid)) (\<lambda>session.
    case session of None \<Rightarrow> treturn False
    | Some g \<Rightarrow> tbind (insert_participant sid uid) (\<lambda>_.
        tbind (tread (accepted_lobby_invite now uid ty sid)) (\<lambda>invite.
        tbind (case invite of None \<Rightarrow> treturn () | Some i \<Rightarrow> join_party uid (the (i_party i))) (\<lambda>_.
        join_rest now uid ty sid g))))"
  unfolding join_game_session_unbounded_def join_rest_def ..

lemma join_party_frame:
  assumes "join_party uid pid db = Inr (x, db')"
  shows "participants db' = participants db \<and> game_sessions db' = game_sessions db
    \<and> users db' = users db \<and> invites db' = invites db"
  using assms by (auto simp: join_party_def upsert_party_member_def delete_parties_def Let_def split: if_splits)

lemma join_rest_result:
  assumes "join_rest now uid ty sid g db = Inr (b, db')"
  shows "b \<and> participants db' = participants db \<and> game_sessions db' = game_sessions db
    \<and> users db' = users db \<and> (\<forall>i\<in>set (invites db'). \<not> live_accepted now uid ty sid i)"
proof -
  define d where "d = update_invites (live_accepted now uid ty sid) (consume now) db"
  have d: "others_unchanged db now uid ty sid d"
    by (auto simp: d_def others_unchanged_def live_consume)
  have k: "keeps (others_unchanged db now uid ty sid) (if is_game_room_attributes (g_attributes g)
      then queue_party_follow_invites now uid ty sid else treturn 0)"
    by (intro keeps_intros queue_follow_unchanged)
  obtain n where "(if is_game_room_attributes (g_attributes g)
      then queue_party_follow_invites now uid ty sid else treturn 0) d = Inr (n, db')" and b
    using assms by (auto simp: join_rest_def d_def[symmetric] tbind_Inr_conv)
  from keepsD[OF k d this(1)] \<open>b\<close> show ?thesis unfolding others_unchanged_def by blast
qed

lemma join_result:
  assumes "join_game_session_unbounded now uid ty sid db = Inr (b, db')"
  shows "(b \<longleftrightarrow> find_active ty sid db \<noteq> None) \<and> (\<not> b \<longrightarrow> db' = db)
    \<and> (b \<longrightarrow> (\<forall>s u. is_participant s u db' \<longleftrightarrow> is_participant s u db \<or> (s, u) = (sid, uid))
         \<and> (\<forall>i\<in>set (invites db'). \<not> live_accepted now uid ty sid i)
         \<and> game_sessions db' = game_sessions db \<and> users db' = users db)"
proof (cases "find_active ty sid db")
  case None
  then show ?thesis using assms by (simp add: join_unfold)
next
  case (Some g)
  then obtain a c y z where a: "insert_participant sid uid db = Inr (y, a)"
    and c: "(case accepted_lobby_invite now uid ty sid a of None \<Rightarrow> treturn ()
        | Some i \<Rightarrow> join_party uid (the (i_party i))) a = Inr (z, c)"
    and r: "join_rest now uid ty sid g c = Inr (b, db')"
    using assms by (auto simp: join_unfold tbind_Inr_conv)
  have "participants c = participants a \<and> game_sessions c = game_sessions a \<and> users c = users a"
    using c join_party_frame by (auto split: option.splits)
  then show ?thesis
    using insert_participant_result[OF a] join_rest_result[OF r] Some
    by (simp add: is_participant_def)
qed

lemma join_party_returns:
  assumes "uid \<in> set (user_ids db)"
  shows "(\<exists>x db'. join_party uid pid db = Inr (x, db')) \<longleftrightarrow> pid \<in> set (party_ids db)"
proof -
  have "pid \<in> set (party_ids (delete_parties (\<lambda>p. pt_leader p = uid \<and> pt_id p \<noteq> pid) db))
      \<longleftrightarrow> pid \<in> set (party_ids db)"
    by (auto simp: party_ids_def delete_parties_def Let_def)
  moreover have "user_ids (delete_parties P db) = user_ids db" for P
    by (simp add: user_ids_def delete_parties_def Let_def)
  ultimately show ?thesis using assms by (simp add: join_party_def upsert_party_member_def)
qed

lemma join_rest_returns:
  assumes "inv_except X db" "uid \<in> set (user_ids db)"
  shows "\<exists>b db'. join_rest now uid ty sid g db = Inr (b, db')"
proof -
  let ?d = "update_invites (live_accepted now uid ty sid) (consume now) db"
  have "inv_except X ?d" by (rule inv_update_invites[OF _ _ _ _ _ assms(1)]) (simp_all add: consume_def)
  from queue_follow_returns[OF this, of uid now ty sid] assms(2) show ?thesis
    by (auto simp: join_rest_def tbind_def)
qed

lemma join_failure:
  assumes inv: "storage_inv db" and uid: "uid \<in> set (user_ids db)"
  shows "(\<exists>e. join_game_session_unbounded now uid ty sid db = Inl e) \<longleftrightarrow>
    find_active ty sid db \<noteq> None \<and> (\<exists>i. accepted_lobby_invite now uid ty sid db = Some i
      \<and> the (i_party i) \<notin> set (party_ids db))"
proof (cases "find_active ty sid db")
  case None then show ?thesis by (simp add: join_unfold)
next
  case (Some g)
  have inv0: "inv_except {} db" using inv by (simp add: storage_inv_def)
  have "sid \<in> set (session_ids db)"
    using find_active_Some[OF Some] by (auto simp: session_ids_def active_session_def)
  then have "\<exists>a. insert_participant sid uid db = Inr ((), a)"
    using uid by (simp add: insert_participant_def)
  then obtain a where a: "insert_participant sid uid db = Inr ((), a)" ..
  note af = insert_participant_result[OF a] and ai = keepsD[OF inv_insert_participant inv0 a]
  have same: "accepted_lobby_invite now uid ty sid a = accepted_lobby_invite now uid ty sid db"
    "party_ids a = party_ids db" "user_ids a = user_ids db"
    using af by (simp_all add: accepted_lobby_invite_def party_ids_def user_ids_def)
  have rest: "\<exists>b d. join_rest now uid ty sid g c = Inr (b, d)"
    if "inv_except {} c" "users c = users a" for c
  proof -
    have "user_ids c = user_ids a" using that(2) by (simp add: user_ids_def)
    then show ?thesis using join_rest_returns[OF that(1), of uid now ty sid g] uid same by simp
  qed
  show ?thesis
  proof (cases "accepted_lobby_invite now uid ty sid db")
    case None
    then show ?thesis using Some a same rest[OF ai] by (auto simp: join_unfold tbind_def)
  next
    case inv: (Some i)
    show ?thesis
    proof (cases "the (i_party i) \<in> set (party_ids db)")
      case True
      then obtain x c where c: "join_party uid (the (i_party i)) a = Inr (x, c)"
        using join_party_returns[of uid a] uid same by auto
      then show ?thesis
        using Some a same inv True rest[OF keepsD[OF join_party_keeps ai c]] join_party_frame[OF c]
        by (auto simp: join_unfold tbind_def)
    next
      case False
      then obtain e where "join_party uid (the (i_party i)) a = Inl e"
        using join_party_returns[of uid a] uid same
        by (cases "join_party uid (the (i_party i)) a") auto
      then show ?thesis using Some a same inv False by (simp add: join_unfold tbind_def)
    qed
  qed
qed

section \<open>Leaving\<close>

lemma find_update:
  "(\<And>x. P x \<Longrightarrow> P (f x)) \<Longrightarrow> find P (map (\<lambda>x. if P x then f x else x) xs) = map_option f (find P xs)"
  by (induction xs) auto

lemma find_update_gone:
  "(\<And>x. P x \<Longrightarrow> \<not> P (f x)) \<Longrightarrow> find P (map (\<lambda>x. if P x then f x else x) xs) = None"
  by (induction xs) auto

lemma find_active_set_host:
  "find_active ty sid (update_sessions (active_session ty sid) (set_host u) db)
    = map_option (set_host u) (find_active ty sid db)"
  unfolding find_active_def update_sessions_simps
  by (rule find_update) (simp add: active_session_def set_host_def)

lemma find_active_destroy:
  "find_active ty sid (update_sessions (active_session ty sid) (destroy now) db) = None"
  unfolding find_active_def update_sessions_simps
  by (rule find_update_gone) (simp add: active_session_def destroy_def)

lemma reconcile_eq:
  "reconcile_game_session now ty sid db = Inr
    (case find_active ty sid db of
       None \<Rightarrow> (None, db)
     | Some g \<Rightarrow>
        (case participant_ids sid db of
           [] \<Rightarrow> (None, update_sessions (active_session ty sid) (destroy now) db)
         | u # us \<Rightarrow> if g_creator g \<in> set (u # us) then (Some (g_creator g), db)
             else (Some u, update_sessions (active_session ty sid) (set_host u) db)))"
  by (simp add: reconcile_game_session_def split: option.split list.split)

lemma participant_ids_delete:
  assumes "inv_except X db"
  shows "participant_ids sid (delete_participants (\<lambda>r. r = (sid, uid) \<and> b) db)
    = (if b then filter (\<lambda>u. u \<noteq> uid) (participant_ids sid db) else participant_ids sid db)"
proof -
  have "map snd (filter (\<lambda>r. fst r = sid) (filter (\<lambda>r. r \<noteq> (sid, uid)) xs))
    = filter (\<lambda>u. u \<noteq> uid) (map snd (filter (\<lambda>r. fst r = sid) xs))" for xs :: "(nat \<times> nat) list"
    by (induction xs) auto
  then show ?thesis
    by (cases b) (simp_all add: participant_ids_def delete_participants_frame(6)[OF assms] filter_sort)
qed

lemma leave_result:
  assumes "storage_inv db" "find_active ty sid db = Some g"
    and "leave_game_session now uid ty sid db = Inr (x, db')"
  shows "\<not> is_participant sid uid db' \<and> find_active ty sid db' =
    (case filter (\<lambda>u. u \<noteq> uid) (participant_ids sid db) of
       [] \<Rightarrow> None
     | u # _ \<Rightarrow> Some (if g_creator g = uid then set_host u g else g))"
proof -
  have inv: "inv_except {} db" using assms(1) by (simp add: storage_inv_def)
  note g = find_active_Some[OF assms(2)]
  define d where "d = delete_participants (\<lambda>r. r = (sid, uid) \<and> True) db"
  note frame = delete_participants_frame[OF inv, of "\<lambda>r. r = (sid, uid) \<and> True", folded d_def]
  have act: "find_active ty sid d = Some g" using assms(2) by (simp add: find_active_def frame)
  have ids: "participant_ids sid d = filter (\<lambda>u. u \<noteq> uid) (participant_ids sid db)"
    unfolding d_def participant_ids_delete[OF inv] by simp
  have gone: "\<not> is_participant sid uid d" by (simp add: is_participant_def frame)
  have "is_participant sid (g_creator g) db"
    using inv g by (auto simp: inv_except_def hosts_except_def active_session_def)
  then have host: "g_creator g \<in> set (participant_ids sid d) \<longleftrightarrow> g_creator g \<noteq> uid"
    by (simp add: ids set_participant_ids)
  have "(\<exists>h\<in>set (game_sessions db). active_session ty sid h) = True" using g by blast
  then obtain y where "reconcile_game_session now ty sid d = Inr (y, db')"
    using assms(3) by (auto simp: leave_game_session_def d_def tbind_Inr_conv)
  then have r: "(y, db') = (case participant_ids sid d of
        [] \<Rightarrow> (None, update_sessions (active_session ty sid) (destroy now) d)
      | u # us \<Rightarrow> if g_creator g \<in> set (u # us) then (Some (g_creator g), d)
          else (Some u, update_sessions (active_session ty sid) (set_host u) d))"
    by (simp add: reconcile_eq act)
  then have "\<not> is_participant sid uid db'" using gone by (auto split: list.splits if_splits)
  moreover have "find_active ty sid db' = (case participant_ids sid d of
       [] \<Rightarrow> None | u # _ \<Rightarrow> Some (if g_creator g = uid then set_host u g else g))"
    using r host act by (auto simp: find_active_destroy find_active_set_host split: list.splits if_splits)
  ultimately show ?thesis by (simp add: ids)
qed

section \<open>Searching\<close>

lemma list_urls_nonempty: "list_urls u db \<noteq> [] \<longleftrightarrow> has_station_url u db"
  by (force simp: list_urls_def has_station_url_def filter_empty_conv)

lemma user_named_Some: "uid \<in> set (user_ids db) \<Longrightarrow> \<exists>u. user_named uid db = Some u"
  by (cases "user_named uid db") (auto simp: user_named_def find_None_iff user_ids_def)

lemma set_named_participants:
  "set (List.map_filter (named_participant urls db) us) =
    {p. \<exists>u\<in>set us. named_participant urls db u = Some p}"
  by (force simp: map_filter_def)

lemma joinable_session:
  assumes "inv_except X db" "is_participant (g_id g) (g_creator g) db"
  shows "joinable (session_of (List.map_filter (named_participant urls db) (table_participants (g_id g) db)) g)
    \<longleftrightarrow> urls (g_creator g) \<noteq> []"
proof -
  obtain u where u: "user_named (g_creator g) db = Some u"
    using user_named_Some participant_is_user[OF assms] by blast
  have "g_creator g \<in> set (table_participants (g_id g) db)"
    using assms(2) by (force simp: table_participants_def is_participant_def)
  moreover define p where "p = \<lparr>pa_user_id = g_creator g, pa_name = u_name u, pa_station_urls = urls (g_creator g)\<rparr>"
  ultimately have p: "p \<in> {p. \<exists>v\<in>set (table_participants (g_id g) db). named_participant urls db v = Some p}"
    using u by (auto simp: named_participant_def)
  have "pa_station_urls q = urls (pa_user_id q)" if "named_participant urls db v = Some q" for q v
    using that by (auto simp: named_participant_def)
  moreover have "pa_user_id p = g_creator g" "pa_station_urls p = urls (g_creator g)" by (simp_all add: p_def)
  ultimately show ?thesis
    using p unfolding joinable_def session_of_def set_named_participants game_session.simps by fastforce
qed

lemma search_list:
  assumes "storage_inv db"
  shows "\<exists>ps. search_sessions ty exclude db = map (\<lambda>g. session_of (ps g) g) (filter (\<lambda>g. g_type g = ty
    \<and> g_destroyed g = None \<and> exclude \<noteq> Some (g_creator g) \<and> has_station_url (g_creator g) db) (game_sessions db))"
proof -
  have inv: "inv_except {} db" using assms by (simp add: storage_inv_def)
  let ?u = "\<lambda>u. if exclude = Some u then [] else list_urls u db"
  let ?ps = "\<lambda>g. List.map_filter (named_participant ?u db) (table_participants (g_id g) db)"
  let ?P = "\<lambda>g. g_type g = ty \<and> g_destroyed g = None \<and> exclude \<noteq> Some (g_creator g)"
  have j: "joinable (session_of (?ps g) g) \<longleftrightarrow> has_station_url (g_creator g) db"
    if "g \<in> set (game_sessions db)" "?P g" for g
    using joinable_session[OF inv, of g ?u] inv that list_urls_nonempty
    by (simp add: inv_except_def hosts_except_def)
  have "filter (\<lambda>g. joinable (session_of (?ps g) g)) (filter ?P (game_sessions db))
      = filter (\<lambda>g. has_station_url (g_creator g) db) (filter ?P (game_sessions db))"
    by (rule filter_cong[OF refl]) (use j in auto)
  then have "search_sessions ty exclude db = map (\<lambda>g. session_of (?ps g) g)
      (filter (\<lambda>g. has_station_url (g_creator g) db) (filter ?P (game_sessions db)))"
    unfolding search_sessions_def Let_def filter_map comp_def by (rule arg_cong)
  then show ?thesis by (intro exI[of _ ?ps]) (simp add: conj_ac)
qed

lemma search_ids:
  assumes "storage_inv db"
  shows "map gs_id (search_sessions ty exclude db) = map g_id (filter (\<lambda>g. g_type g = ty
    \<and> g_destroyed g = None \<and> exclude \<noteq> Some (g_creator g) \<and> has_station_url (g_creator g) db) (game_sessions db))"
proof -
  have "gs_id (session_of ps g) = g_id g" for ps g by (simp add: session_of_def)
  then show ?thesis using search_list[OF assms, of ty exclude] by auto
qed

section \<open>Deleting a game room\<close>

definition open_restores :: "nat \<Rightarrow> db \<Rightarrow> invite_row list" where
  "open_restores u db = filter (\<lambda>i. i_receiver i = u \<and> i_kind i = INVITE_KIND_LOBBY_RESTORE
     \<and> i_consumed i = None) (invites db)"

definition same_tables :: "db \<Rightarrow> db \<Rightarrow> bool" where
  "same_tables db db' \<longleftrightarrow> users db' = users db \<and> participants db' = participants db
     \<and> game_sessions db' = game_sessions db \<and> parties db' = parties db
     \<and> party_members db' = party_members db"

lemma restore_member_cases:
  assumes "restore_member now host ty lobby pid v db = Inr (n, db')"
  obtains "is_participant lobby v db" "n = 0" "db' = db"
  | row where "\<not> is_participant lobby v db" "n = 1" "same_tables db db'"
    "invites db' = map (\<lambda>i. if i_receiver i = v \<and> i_kind i = INVITE_KIND_LOBBY_RESTORE \<and> i_consumed i = None
       then consume now i else i) (invites db)
       @ [new_invite row host v INVITE_KIND_LOBBY_RESTORE ty lobby (Some pid) now 60]"
  using assms by (auto simp: restore_member_def tbind_Inr_conv insert_invite_def Let_def same_tables_def
      split: if_splits)

lemma filter_consume_other:
  "u \<noteq> v \<Longrightarrow> filter (\<lambda>i. i_receiver i = u \<and> Q i)
     (map (\<lambda>i. if i_receiver i = v \<and> R i then consume now i else i) xs) = filter (\<lambda>i. i_receiver i = u \<and> Q i) xs"
  by (induction xs) (auto simp: consume_def)

lemma filter_consume_self:
  "filter (\<lambda>i. i_receiver i = u \<and> i_kind i = k \<and> i_consumed i = None)
     (map (\<lambda>i. if i_receiver i = u \<and> i_kind i = k \<and> i_consumed i = None then consume now i else i) xs) = []"
  by (induction xs) (auto simp: consume_def)

lemma restore_member_other:
  assumes "restore_member now host ty lobby pid v db = Inr (n, db')" "u \<noteq> v"
  shows "open_restores u db' = open_restores u db \<and> same_tables db db'"
  using assms(1)
proof (cases rule: restore_member_cases)
  case (2 row)
  then show ?thesis
    using assms(2) filter_consume_other[OF assms(2)] by (simp add: open_restores_def new_invite_def)
qed (simp add: same_tables_def)

lemma restore_member_self:
  assumes "restore_member now host ty lobby pid u db = Inr (n, db')" "\<not> is_participant lobby u db"
  shows "\<exists>row. open_restores u db' = [new_invite row host u INVITE_KIND_LOBBY_RESTORE ty lobby (Some pid) now 60]
    \<and> same_tables db db'"
  using assms(1)
proof (cases rule: restore_member_cases)
  case (2 row)
  then show ?thesis
    by (intro exI[of _ row]) (simp add: open_restores_def new_invite_def filter_consume_self)
qed (use assms(2) in simp)

lemma same_tables_refl: "same_tables db db"
  by (simp add: same_tables_def)

lemma same_tables_trans: "same_tables a b \<Longrightarrow> same_tables b c \<Longrightarrow> same_tables a c"
  by (simp add: same_tables_def)

lemma restore_others:
  "u \<notin> set vs \<Longrightarrow> tsum vs (restore_member now host ty lobby pid) db = Inr (n, db')
    \<Longrightarrow> open_restores u db' = open_restores u db \<and> same_tables db db'"
proof (induction vs arbitrary: db n)
  case Nil then show ?case by (simp add: same_tables_refl)
next
  case (Cons v vs)
  then obtain d k m where one: "restore_member now host ty lobby pid v db = Inr (k, d)"
    and rest: "tsum vs (restore_member now host ty lobby pid) d = Inr (m, db')"
    by (auto simp: tbind_Inr_conv)
  have "u \<noteq> v" "u \<notin> set vs" using Cons.prems(1) by auto
  then show ?case
    using restore_member_other[OF one] Cons.IH[OF _ rest] same_tables_trans by metis
qed

lemma restore_all:
  "u \<in> set vs \<Longrightarrow> distinct vs \<Longrightarrow> \<not> is_participant lobby u db
    \<Longrightarrow> tsum vs (restore_member now host ty lobby pid) db = Inr (n, db')
    \<Longrightarrow> \<exists>row. open_restores u db' = [new_invite row host u INVITE_KIND_LOBBY_RESTORE ty lobby (Some pid) now 60]
      \<and> same_tables db db'"
proof (induction vs arbitrary: db n)
  case (Cons v vs)
  then obtain d k m where one: "restore_member now host ty lobby pid v db = Inr (k, d)"
    and rest: "tsum vs (restore_member now host ty lobby pid) d = Inr (m, db')"
    by (auto simp: tbind_Inr_conv)
  show ?case
  proof (cases "u = v")
    case True
    then have "u \<notin> set vs" using Cons.prems(2) by simp
    with True show ?thesis
      using restore_member_self[of now host ty lobby pid u db k d] one Cons.prems(3) restore_others[OF _ rest]
        same_tables_trans by metis
  next
    case False
    note o = restore_member_other[OF one False]
    then have "\<not> is_participant lobby u d" using Cons.prems(3) by (simp add: same_tables_def is_participant_def)
    from Cons.IH[OF _ _ this rest] Cons.prems(1,2) False o show ?thesis
      using same_tables_trans by (metis distinct.simps(2) set_ConsD)
  qed
qed simp

lemma find_lobby_destroy:
  "find_lobby uid ty sid (update_sessions (owned_active uid ty sid) (destroy now) db) = find_lobby uid ty sid db"
proof -
  have "filter Q (map (\<lambda>g. if P g then f g else g) gs) = filter Q gs"
    if "\<And>g. P g \<Longrightarrow> \<not> Q g \<and> \<not> Q (f g)" for P Q and f :: "session_row \<Rightarrow> session_row" and gs
    using that by (induction gs) auto
  from this[of "owned_active uid ty sid"] show ?thesis
    by (simp add: find_lobby_def hosted_by_def has_station_url_def owned_active_def active_session_def destroy_def)
qed

lemma owned_unique:
  assumes "inv_except X db" "find (owned_active uid ty sid) (game_sessions db) = Some g"
  shows "length (filter (owned_active uid ty sid) (game_sessions db)) = 1"
proof -
  have "distinct (map g_id (filter (owned_active uid ty sid) (game_sessions db)))"
    using assms(1) by (simp add: inv_except_def db_refs_def session_ids_def distinct_map_filter)
  moreover have "set (map g_id (filter (owned_active uid ty sid) (game_sessions db))) = {sid}"
    using assms(2) by (force simp: find_Some_iff owned_active_def active_session_def)
  ultimately show ?thesis using distinct_card by fastforce
qed

lemma destroyed_inactive:
  assumes inv: "inv_except X db" and own: "find (owned_active uid ty sid) (game_sessions db) = Some g"
  shows "find_active ty sid (update_sessions (owned_active uid ty sid) (destroy now) db) = None"
proof -
  let ?P = "owned_active uid ty sid"
  have g: "g \<in> set (game_sessions db)" "?P g" using own by (auto simp: find_Some_iff)
  have "\<not> active_session ty sid (if ?P h then destroy now h else h)" if h: "h \<in> set (game_sessions db)" for h
  proof (cases "?P h")
    case True
    then show ?thesis by (simp add: active_session_def destroy_def)
  next
    case False
    have "h = g" if "active_session ty sid h"
      using session_unique[OF inv h g(1)] that g(2) by (simp add: owned_active_def active_session_def)
    then show ?thesis using False g(2) by auto
  qed
  then show ?thesis by (simp add: find_active_None del: if_image_distrib)
qed

lemma delete_recalls:
  assumes inv: "storage_inv db" and own: "find (owned_active uid ty sid) (game_sessions db) = Some g"
    and room: "is_game_room_attributes (g_attributes g)" and lobby: "find_lobby uid ty sid db = Some l"
    and u: "is_participant sid u db" "u \<noteq> uid" "\<not> is_participant (g_id l) u db"
    and run: "delete_game_session now uid ty sid db = Inr ((n, q), db')"
  shows "n = 1 \<and> (\<exists>row pid. find_party uid db' = Some pid
    \<and> open_restores u db' = [new_invite row uid u INVITE_KIND_LOBBY_RESTORE ty (g_id l) (Some pid) now 60])
    \<and> find_active ty sid db' = None"
proof -
  have inv0: "inv_except {} db" using inv by (simp add: storage_inv_def)
  define d where "d = update_sessions (owned_active uid ty sid) (destroy now) db"
  define vs where "vs = filter (\<lambda>u. u \<noteq> uid) (participant_ids sid db)"
  have uv: "u \<in> set vs" using u by (simp add: vs_def set_participant_ids)
  have dv: "distinct vs"
    using inv0 unfolding vs_def participant_ids_def inv_except_def db_refs_def
    by (auto intro!: distinct_filter simp: distinct_map inj_on_def)
  have ne: "vs \<noteq> []" using uv by auto
  have dinv: "inv_except {} d" unfolding d_def by (rule inv_destroy[OF inv0]) simp
  note one = owned_unique[OF inv0 own]
  obtain pid e where ens: "ensure_party_for_leader uid d = Inr (pid, e)"
    and loop: "tsum vs (restore_member now uid ty (g_id l) pid) e = Inr (q, db')" and n: "n = 1"
    using run own room lobby one ne
    by (auto simp: delete_game_session_def tbind_Inr_conv vs_def[symmetric] d_def[symmetric]
        find_lobby_destroy[of uid ty sid now db, folded d_def])
  note p = ensure_party_result[OF dinv ens]
  have "\<not> is_participant (g_id l) u e"
    using p u(3) by (simp add: same_but_parties_def is_participant_def d_def)
  from restore_all[OF uv dv this loop] obtain row where
    r: "open_restores u db' = [new_invite row uid u INVITE_KIND_LOBBY_RESTORE ty (g_id l) (Some pid) now 60]"
    and same: "same_tables e db'" by blast
  have "find_party uid db' = Some pid" using p same by (simp add: find_party_def same_tables_def)
  moreover have "find_active ty sid d = None"
    unfolding d_def by (rule destroyed_inactive[OF inv0 own])
  then have "find_active ty sid db' = None"
    using p same by (simp add: find_active_def same_tables_def same_but_parties_def)
  ultimately show ?thesis using n r by blast
qed

lemma ensure_party_returns:
  assumes "inv_except X db" "leader \<in> set (user_ids db)"
  shows "\<exists>pid db'. ensure_party_for_leader leader db = Inr (pid, db')"
proof (cases "find_party leader db")
  case (Some pid)
  then have "pid \<in> set (party_ids db)" using find_party_Some[OF Some] by (auto simp: party_ids_def)
  then show ?thesis using assms(2) Some by (simp add: ensure_party_for_leader_def tbind_def upsert_party_member_def)
next
  case None
  then have "leader \<notin> pt_leader ` set (parties db)" by (simp add: find_party_None)
  then obtain pid d where ins: "insert_party leader db = Inr (pid, d)"
    using assms(2) by (auto simp: insert_party_def Let_def)
  then have "leader \<in> set (user_ids d)" "pid \<in> set (party_ids d)"
    using assms(2) by (auto simp: insert_party_def Let_def user_ids_def party_ids_def split: if_splits)
  then show ?thesis
    using None ins by (simp add: ensure_party_for_leader_def tbind_def upsert_party_member_def)
qed

lemma succeeds_restore:
  "host \<in> u_id ` set us \<Longrightarrow> receiver \<in> u_id ` set us \<Longrightarrow>
   succeeds (\<lambda>db. users db = us) (restore_member now host ty lobby pid receiver)"
  unfolding restore_member_def by (intro succeeds_intros succeeds_insert_invite) simp_all

lemma delete_returns:
  assumes inv: "inv_except {} db"
  shows "\<exists>n q db'. delete_game_session now uid ty sid db = Inr ((n, q), db')"
proof (cases "find (owned_active uid ty sid) (game_sessions db)")
  case None then show ?thesis by (simp add: delete_game_session_def)
next
  case (Some g)
  have g: "g \<in> set (game_sessions db)" "g_creator g = uid" using Some by (auto simp: find_Some_iff owned_active_def)
  then have uid: "uid \<in> set (user_ids db)" using creator_is_user[OF inv] by blast
  define vs where "vs = filter (\<lambda>u. u \<noteq> uid) (participant_ids sid db)"
  define d where "d = update_sessions (owned_active uid ty sid) (destroy now) db"
  have d: "inv_except {} d" unfolding d_def by (rule inv_destroy[OF inv]) simp
  obtain pid e where e: "ensure_party_for_leader uid d = Inr (pid, e)"
    using ensure_party_returns[OF d, of uid] uid by (auto simp: d_def)
  then have us: "users e = users db" using ensure_party_result[OF d e] by (simp add: same_but_parties_def d_def)
  have "succeeds (\<lambda>d. users d = users db) (tsum vs (restore_member now uid ty l pid))" for l
    using uid participant_is_user[OF inv]
    by (intro succeeds_sum succeeds_restore) (auto simp: vs_def set_participant_ids user_ids_def)
  from succeedsD[OF this us] have loop: "\<exists>q db'. tsum vs (restore_member now uid ty l pid) e = Inr (q, db')" for l
    by blast
  show ?thesis
  proof (cases "find_lobby uid ty sid d")
    case None then show ?thesis
      using Some by (auto simp: delete_game_session_def vs_def[symmetric] d_def[symmetric])
  next
    case l: (Some l)
    obtain q db' where "tsum vs (restore_member now uid ty (g_id l) pid) e = Inr (q, db')" using loop by blast
    then show ?thesis
      using Some l e by (auto simp: delete_game_session_def vs_def[symmetric] d_def[symmetric] tbind_def)
  qed
qed

section \<open>The end of a connection\<close>

text \<open>What no statement of the cleanup gives back to a user once it is gone.\<close>

definition no_trace :: "nat \<Rightarrow> db \<Rightarrow> bool" where
  "no_trace uid db \<longleftrightarrow> (\<forall>m\<in>set (party_members db). fst m \<noteq> uid) \<and> (\<forall>p\<in>set (parties db). pt_leader p \<noteq> uid)"

lemma no_trace_drop: "no_trace uid (drop_party uid db)"
  by (auto simp: no_trace_def drop_party_def delete_party_member_def delete_parties_def Let_def)

lemma no_trace_drop_other: "no_trace uid db \<Longrightarrow> no_trace uid (drop_party u db)"
  by (auto simp: no_trace_def drop_party_def delete_party_member_def delete_parties_def Let_def)

lemma no_trace_row: "no_trace uid db \<Longrightarrow> no_trace uid (delete_participant_row r db)"
  using no_trace_drop_other[of uid "db\<lparr>participants := filter (\<lambda>q. q \<noteq> r) (participants db)\<rparr>" "snd r"]
  by (simp add: delete_participant_row_def Let_def no_trace_def)

lemma no_trace_delete: "no_trace uid db \<Longrightarrow> no_trace uid (delete_participants P db)"
proof -
  have "no_trace uid db \<Longrightarrow> no_trace uid (foldl (\<lambda>db r. delete_participant_row r db) db rs)" for rs
    by (induction rs arbitrary: db) (simp_all add: no_trace_row)
  then show "no_trace uid db \<Longrightarrow> ?thesis" by (simp add: delete_participants_def)
qed

definition disconnected :: "nat \<Rightarrow> db \<Rightarrow> bool" where
  "disconnected uid db \<longleftrightarrow> no_trace uid db \<and> (\<forall>r\<in>set (participants db). snd r \<noteq> uid)
     \<and> \<not> has_station_url uid db \<and> (\<forall>r\<in>set (user_sessions db). snd r \<noteq> uid)
     \<and> (\<forall>u\<in>set (users db). u_id u = uid \<longrightarrow> \<not> u_is_online u)"

lemma reconcile_disconnected: "keeps (disconnected uid) (reconcile_game_session now ty sid)"
proof -
  have "keeps (disconnected uid) (texec (update_sessions P f))" for P f
    by (rule keeps_exec) (simp add: disconnected_def no_trace_def has_station_url_def)
  then show ?thesis
    unfolding reconcile_game_session_def
    by (intro keeps_intros) (auto split: list.split intro!: keeps_intros)
qed

lemma reconcile_for: "\<exists>d. tfor ks (\<lambda>(ty, sid). tbind (reconcile_game_session now ty sid) (\<lambda>_. treturn ())) db = Inr ((), d)"
proof (induction ks arbitrary: db)
  case (Cons k ks)
  obtain ty sid where k: "k = (ty, sid)" by (cases k)
  have "\<exists>z. reconcile_game_session now ty sid db = Inr z" unfolding reconcile_eq by blast
  then obtain y e where r: "reconcile_game_session now ty sid db = Inr (y, e)" by auto
  obtain d where "tfor ks (\<lambda>(ty, sid). tbind (reconcile_game_session now ty sid) (\<lambda>_. treturn ())) e = Inr ((), d)"
    using Cons.IH by blast
  then have "tbind (tbind (reconcile_game_session now ty sid) (\<lambda>_. treturn ()))
      (\<lambda>_. tfor ks (\<lambda>(ty, sid). tbind (reconcile_game_session now ty sid) (\<lambda>_. treturn ()))) db = Inr ((), d)"
    using r by (simp add: tbind_def)
  then show ?case unfolding k tfor.simps prod.case by blast
qed simp

lemma set_offline_users: "\<forall>u\<in>set (users (set_offline uid db)). u_id u = uid \<longrightarrow> \<not> u_is_online u"
proof
  fix u assume "u \<in> set (users (set_offline uid db))"
  then have "u \<in> (\<lambda>v. if u_id v = uid then v\<lparr>u_is_online := False\<rparr> else v) ` set (users db)"
    unfolding set_offline_def update_users_def by (simp del: if_image_distrib)
  then obtain v where "u = (if u_id v = uid then v\<lparr>u_is_online := False\<rparr> else v)" by (rule imageE)
  then show "u_id u = uid \<longrightarrow> \<not> u_is_online u" by simp
qed

lemma cleanup_result:
  assumes "inv_except X db"
  shows "\<exists>d. cleanup_user_game_state now uid db = Inr ((), d) \<and> disconnected uid d"
proof -
  define a where "a = drop_party uid db"
  define b where "b = delete_participants (\<lambda>r. snd r = uid) a"
  define c where "c = set_offline uid (delete_user_sessions uid (delete_station_urls uid b))"
  have a: "inv_except X a" unfolding a_def by (rule inv_drop_party[OF assms])
  have "no_trace uid b" unfolding b_def a_def by (intro no_trace_delete no_trace_drop)
  moreover have "\<forall>r\<in>set (participants b). snd r \<noteq> uid"
    unfolding b_def delete_participants_frame(6)[OF a] by simp
  moreover have "\<forall>u\<in>set (users c). u_id u = uid \<longrightarrow> \<not> u_is_online u"
    unfolding c_def by (rule set_offline_users)
  ultimately have c: "disconnected uid c"
    unfolding disconnected_def no_trace_def has_station_url_def c_def set_offline_def update_users_simps
    by (auto simp: delete_user_sessions_def delete_station_urls_def)
  let ?loop = "tfor (affected_sessions uid db)
      (\<lambda>(ty, sid). tbind (reconcile_game_session now ty sid) (\<lambda>_. treturn ()))"
  obtain d where d: "?loop c = Inr ((), d)" using reconcile_for by blast
  have "keeps (disconnected uid) ?loop" by (intro keeps_intros reconcile_disconnected)
  from keepsD[OF this c d] show ?thesis
    using d by (simp add: cleanup_user_game_state_def a_def b_def c_def)
qed

lemma inv_online_part:
  "inv_except X db \<Longrightarrow> inv_except X (set_offline uid (delete_user_sessions uid db))"
  by (intro inv_set_offline inv_delete_user_sessions)

lemma close_result:
  assumes "storage_inv db"
  shows "close_secure_session now uid db =
    (if \<exists>u\<in>set (users db). u_id u = uid \<and> recent_api now u
     then Inr (True, set_offline uid (delete_user_sessions uid db))
     else map_sum id (\<lambda>(_, d). (False, d))
       (cleanup_user_game_state now uid (set_offline uid (delete_user_sessions uid db))))"
proof -
  let ?d = "set_offline uid (delete_user_sessions uid db)"
  obtain d where "cleanup_user_game_state now uid ?d = Inr ((), d)"
    using cleanup_result[OF inv_online_part] assms unfolding storage_inv_def by blast
  then show ?thesis by (simp add: close_secure_session_def tbind_def)
qed

section \<open>Properties\<close>

text \<open>Samples: the lobby of user 1000 with a second player, and its game room next to it.\<close>

definition joined_db :: db where
  "joined_db = hosted_db\<lparr>participants := [(1, 1000), (1, 1001)]\<rparr>"

definition sample_session :: "nat \<Rightarrow> string \<Rightarrow> session_row" where
  "sample_session sid a = \<lparr>g_id = sid, g_type = 1, g_attributes = a, g_creator = 1000, g_destroyed = None\<rparr>"

definition room_db :: db where
  "room_db = hosted_db\<lparr>game_sessions := [sample_session 1 ''113 => 1'', sample_session 2 ''113 => 0''],
     participants := [(1, 1000), (2, 1000), (2, 1001)], station_urls := [(1000, ''prudp:/address=10.0.0.1'')]\<rparr>"

definition stale_db :: db where
  "stale_db = hosted_db\<lparr>invites := [(new_invite 1 1000 1001 INVITE_KIND_LOBBY_PARTY 1 1 (Some 5) 0 300)
     \<lparr>i_accepted := Some 1\<rparr>]\<rparr>"

lemmas sample_defs = hosted_db_def joined_db_def room_db_def stale_db_def sample_session_def initial_db_def
  sample_users_def sample_user_def

lemma sample_storage: "storage_inv joined_db" "storage_inv room_db" "storage_inv stale_db"
  by (simp_all add: storage_inv_def inv_except_def db_refs_def parties_ok_def lanes_ok_def hosts_except_def
      sample_defs new_invite_def invite_kinds user_ids_def session_ids_def party_ids_def is_participant_def)

lemma hosted_inv: "storage_inv hosted_db"
  by (rule storage_reachable_inv[OF hosted_reachable[of "\<lambda>_ _. None" "\<lambda>_. None"]])

lemma sample_active:
  "find_active 1 1 hosted_db = Some (sample_session 1 ''113 => 1'')"
  "find_active 1 1 joined_db = Some (sample_session 1 ''113 => 1'')"
  "find_active 1 1 stale_db = Some (sample_session 1 ''113 => 1'')"
  by (simp_all add: find_active_def active_session_def sample_defs)

lemma sample_join: "join_game_session_unbounded 0 1001 1 1 hosted_db = Inr (True, joined_db)"
proof -
  have "insert_participant 1 1001 hosted_db = Inr ((), joined_db)"
    by (simp add: insert_participant_def sample_ids) (simp add: sample_defs)
  moreover have "accepted_lobby_invite 0 1001 1 1 joined_db = None"
    by (simp add: accepted_lobby_invite_def joined_db_def hosted_db_def initial_db_def)
  moreover have "update_invites P f joined_db = joined_db" for P f
    by (simp add: update_invites_def sample_defs)
  ultimately show ?thesis
    by (simp add: join_unfold sample_active join_rest_def tbind_Inr sample_lobby sample_session_def
        del: One_nat_def)
qed



text \<open>For a known user joining fails in the database exactly when the
  newest live accepted lobby invitation names a party that no longer exists.\<close>

lemma join_fails_iff:
  assumes "storage_inv db" and "uid \<in> set (user_ids db)"
  shows "(\<exists>e. join_game_session_unbounded now uid ty sid db = Inl e) \<longleftrightarrow>
    find_active ty sid db \<noteq> None \<and> (\<exists>i. accepted_lobby_invite now uid ty sid db = Some i
      \<and> the (i_party i) \<notin> set (party_ids db))"
  using assms by (rule join_failure)

lemma join_fails_iff_witness: "\<exists>e. join_game_session_unbounded 2 1001 1 1 stale_db = Inl e"
  using join_fails_iff[OF sample_storage(3), of 1001 2 1 1] sample_active(3)
  by (simp add: accepted_lobby_invite_def live_accepted_def stale_db_def new_invite_def invite_kinds
      user_ids_def party_ids_def hosted_db_def initial_db_def sample_users_def sample_user_def)

text \<open>Leaving an active session always succeeds and takes the user out of it;
  the session is destroyed with its last participant, and a leaving host is replaced by the
  participant with the smallest id.\<close>

lemma leave_session:
  assumes "storage_inv db" and "find_active ty sid db = Some g"
  shows "\<exists>db'. leave_game_session now uid ty sid db = Inr ((), db') \<and> \<not> is_participant sid uid db'
    \<and> find_active ty sid db' = (case filter (\<lambda>u. u \<noteq> uid) (participant_ids sid db) of
         [] \<Rightarrow> None
       | u # _ \<Rightarrow> Some (if g_creator g = uid then set_host u g else g))"
proof -
  obtain db' where "leave_game_session now uid ty sid db = Inr ((), db')"
    by (simp add: leave_game_session_def tbind_def reconcile_eq split_beta)
  with leave_result[OF assms this] show ?thesis by blast
qed

lemma leave_session_witness:
  "\<exists>db'. leave_game_session 0 1000 1 1 joined_db = Inr ((), db') \<and> \<not> is_participant 1 1000 db'
    \<and> find_active 1 1 db' = Some (set_host 1001 (sample_session 1 ''113 => 1''))"
  using leave_session[OF sample_storage(1) sample_active(2), of 0 1000]
  by (simp add: participant_ids_def joined_db_def sample_session_def)



text \<open>C5 (deletion_recalls_players). When a host with a live lobby deletes its game room, the
  room ends and every other player that is not in the lobby holds exactly one open restore
  invitation: to the lobby, in the party the host leads, for a minute.\<close>

theorem deletion_recalls_players:
  assumes "storage_inv db" and "find (owned_active uid ty sid) (game_sessions db) = Some g"
    and "is_game_room_attributes (g_attributes g)" and "find_lobby uid ty sid db = Some l"
    and "is_participant sid u db" and "u \<noteq> uid" and "\<not> is_participant (g_id l) u db"
  shows "\<exists>q db'. delete_game_session now uid ty sid db = Inr ((1, q), db') \<and> find_active ty sid db' = None
    \<and> (\<exists>row pid. find_party uid db' = Some pid
      \<and> filter (\<lambda>i. i_receiver i = u \<and> i_kind i = INVITE_KIND_LOBBY_RESTORE \<and> i_consumed i = None) (invites db')
        = [new_invite row uid u INVITE_KIND_LOBBY_RESTORE ty (g_id l) (Some pid) now 60])"
proof -
  obtain n q db' where "delete_game_session now uid ty sid db = Inr ((n, q), db')"
    using delete_returns assms(1) unfolding storage_inv_def by blast
  with delete_recalls[OF assms this] show ?thesis unfolding open_restores_def by blast
qed

theorem deletion_recalls_players_witness:
  "\<exists>q db'. delete_game_session 7 1000 1 2 room_db = Inr ((1, q), db') \<and> find_active 1 2 db' = None
    \<and> (\<exists>row pid. find_party 1000 db' = Some pid
      \<and> filter (\<lambda>i. i_receiver i = 1001 \<and> i_kind i = INVITE_KIND_LOBBY_RESTORE \<and> i_consumed i = None) (invites db')
        = [new_invite row 1000 1001 INVITE_KIND_LOBBY_RESTORE 1 1 (Some pid) 7 60])"
  using deletion_recalls_players[OF sample_storage(2), of 1000 1 2 "sample_session 2 ''113 => 0''"
      "sample_session 1 ''113 => 1''" 1001 7]
  by (simp add: room_db_def sample_session_def owned_active_def active_session_def sample_lobby
      find_lobby_def hosted_by_def is_participant_def has_station_url_def)

text \<open>C4 (close_connection). Closing the secure connection of a user who was seen by the API within
  fifteen seconds keeps sessions, parties and URLs; otherwise the user is offline, in no session,
  party or session key afterwards, has no station URL and hosts no active session.\<close>

theorem close_connection:
  assumes "storage_inv db"
  shows "\<exists>db'. close_secure_session now uid db
      = Inr (\<exists>u\<in>set (users db). u_id u = uid \<and> recent_api now u, db')
    \<and> (if \<exists>u\<in>set (users db). u_id u = uid \<and> recent_api now u
       then participants db' = participants db \<and> game_sessions db' = game_sessions db
         \<and> station_urls db' = station_urls db \<and> parties db' = parties db
         \<and> party_members db' = party_members db \<and> invites db' = invites db
       else (\<forall>m\<in>set (party_members db'). fst m \<noteq> uid) \<and> (\<forall>p\<in>set (parties db'). pt_leader p \<noteq> uid)
         \<and> (\<forall>r\<in>set (participants db'). snd r \<noteq> uid) \<and> \<not> has_station_url uid db'
         \<and> (\<forall>r\<in>set (user_sessions db'). snd r \<noteq> uid)
         \<and> (\<forall>u\<in>set (users db'). u_id u = uid \<longrightarrow> \<not> u_is_online u)
         \<and> (\<forall>g\<in>set (game_sessions db'). g_destroyed g = None \<longrightarrow> g_creator g \<noteq> uid))"
proof (cases "\<exists>u\<in>set (users db). u_id u = uid \<and> recent_api now u")
  case True
  then show ?thesis
    by (simp add: close_result[OF assms] set_offline_def delete_user_sessions_def)
next
  case False
  let ?d = "set_offline uid (delete_user_sessions uid db)"
  have inv: "inv_except {} ?d" using inv_online_part assms unfolding storage_inv_def .
  obtain d where d: "cleanup_user_game_state now uid ?d = Inr ((), d)" and gone: "disconnected uid d"
    using cleanup_result[OF inv] by blast
  have "inv_except {} d" using keepsD[OF cleanup_keeps inv d] .
  then have "\<forall>g\<in>set (game_sessions d). g_destroyed g = None \<longrightarrow> g_creator g \<noteq> uid"
    using gone by (force simp: inv_except_def hosts_except_def disconnected_def is_participant_def)
  moreover have no: "(\<exists>u\<in>set (users db). u_id u = uid \<and> recent_api now u) = False" using False by simp
  ultimately show ?thesis
    using d gone unfolding close_result[OF assms] disconnected_def no_trace_def no by simp
qed

theorem close_connection_witness:
  "\<exists>db'. close_secure_session 0 1000 joined_db = Inr (False, db') \<and> \<not> has_station_url 1000 db'
    \<and> filter (\<lambda>g. g_destroyed g = None \<and> g_creator g = 1000) (game_sessions db') = []"
proof -
  have "(\<exists>u\<in>set (users joined_db). u_id u = 1000 \<and> recent_api 0 u) = False"
    by (simp add: sample_defs recent_api_def)
  then show ?thesis
    using close_connection[OF sample_storage(1), of 0 1000] by (auto simp: filter_empty_conv)
qed



end
