(* ===== verification/Invite_Behaviour.thy ===== *)
theory Invite_Behaviour
  imports Session_Behaviour
begin

text \<open>
  The life of an invitation, from its creation through delivery and acceptance to the join
  that consumes it, and the window in which a manual invitation search counts as running.
\<close>

section \<open>Accepting\<close>

lemma target_ok_frame:
  "game_sessions d = game_sessions db \<Longrightarrow> participants d = participants db
    \<Longrightarrow> station_urls d = station_urls db \<Longrightarrow> invite_target_ok d i = invite_target_ok db i"
  by (simp add: invite_target_ok_def valid_target_def is_participant_def has_station_url_def)

lemma find_filter: "find P (filter Q xs) = find (\<lambda>x. Q x \<and> P x) xs"
  by (induction xs) auto

lemma find_map_if:
  "(\<And>x. P (f x) = P x) \<Longrightarrow> (\<And>x. P x \<Longrightarrow> Q (f x)) \<Longrightarrow>
   find (\<lambda>x. P x \<and> Q x) (map (\<lambda>x. if P x then f x else x) xs) = map_option f (find P xs)"
  by (induction xs) auto

lemma open_mark: "open_invite now uid row (mark_accepted t i) = open_invite now uid row i"
  by (simp add: open_invite_def mark_accepted_def)

lemma accepted_mark: "i_accepted (mark_accepted now i) \<noteq> None"
  by (simp add: mark_accepted_def split: option.split)

lemma target_mark: "invite_target_ok db (mark_accepted now i) = invite_target_ok db i"
  by (simp add: invite_target_ok_def mark_accepted_def)

lemma accept_closed:
  "accept_invite now uid row db = Inr
    (map_option (mark_accepted now) (find (\<lambda>i. \<not> dead_invite now i \<and> invite_target_ok db i
        \<and> i_rowid i = row \<and> i_receiver i = uid) (invites db)),
     update_invites (open_invite now uid row) (mark_accepted now) (cleanup_invalid_invites now db))"
proof -
  define c where "c = cleanup_invalid_invites now db"
  define d where "d = update_invites (open_invite now uid row) (mark_accepted now) c"
  have ok: "invite_target_ok d i = invite_target_ok db i" for i
    by (rule target_ok_frame) (simp_all add: d_def c_def cleanup_invalid_invites_def)
  have "find (open_invite now uid row) (invites c) = find (\<lambda>i. \<not> dead_invite now i \<and> invite_target_ok db i
      \<and> i_rowid i = row \<and> i_receiver i = uid) (invites db)"
    unfolding c_def cleanup_invalid_invites_def delete_invites_simps find_filter
    by (rule find_cong) (auto simp: open_invite_def dead_invite_def)
  moreover have "find (\<lambda>i. open_invite now uid row i \<and> i_accepted i \<noteq> None) (invites d)
      = map_option (mark_accepted now) (find (open_invite now uid row) (invites c))"
    unfolding d_def update_invites_simps
    by (rule find_map_if) (simp_all only: open_mark accepted_mark simp_thms)
  ultimately have found: "find (\<lambda>i. open_invite now uid row i \<and> i_accepted i \<noteq> None) (invites d)
      = map_option (mark_accepted now) (find (\<lambda>i. \<not> dead_invite now i \<and> invite_target_ok db i
        \<and> i_rowid i = row \<and> i_receiver i = uid) (invites db))" by simp
  have good: "invite_target_ok d (mark_accepted now i)"
    if "find (\<lambda>i. \<not> dead_invite now i \<and> invite_target_ok db i
        \<and> i_rowid i = row \<and> i_receiver i = uid) (invites db) = Some i" for i
    using that by (auto simp: find_Some_iff ok target_mark)
  have "accept_invite now uid row db = (case find (\<lambda>i. open_invite now uid row i \<and> i_accepted i \<noteq> None) (invites d) of
      None \<Rightarrow> Inr (None, d)
    | Some i \<Rightarrow> if i_kind i \<in> {INVITE_KIND_PRIVATE_ROOM, INVITE_KIND_PARTY_FOLLOW} \<and> \<not> invite_target_ok d i
        then Inr (None, db) else Inr (Some i, d))"
    by (simp add: accept_invite_def c_def[symmetric] d_def[symmetric] split: option.split)
  then show ?thesis
    using good unfolding found c_def[symmetric] d_def[symmetric] by (simp split: option.split)
qed

section \<open>Delivery\<close>

text \<open>What the code looks for: due, with a valid target, and no superfluous follow invitation.\<close>

definition deliverable :: "nat \<Rightarrow> nat \<Rightarrow> db \<Rightarrow> invite_row \<Rightarrow> bool" where
  "deliverable now uid db i \<longleftrightarrow> due_invite now uid i \<and> invite_target_ok db i \<and> \<not> redundant_follow now uid db i"

lemma due_consume: "\<not> due_invite now uid (consume t i)"
  by (simp add: due_invite_def consume_def)

lemma filter_update_gone:
  "(\<And>x. \<not> Q (f x)) \<Longrightarrow> filter Q (map (\<lambda>x. if P x then f x else x) xs) = filter (\<lambda>x. Q x \<and> \<not> P x) xs"
  by (induction xs) auto

lemma redundant_frame:
  "participants d = participants db \<Longrightarrow> redundant_follow now uid d i = redundant_follow now uid db i"
  by (simp add: redundant_follow_def is_participant_def)

lemma cleanup_frame: "participants (cleanup_invalid_invites now db) = participants db"
  by (simp add: cleanup_invalid_invites_def)

definition after_sweep :: "nat \<Rightarrow> nat \<Rightarrow> db \<Rightarrow> db" where
  "after_sweep now uid db = update_invites (redundant_follow now uid db) (consume now) (cleanup_invalid_invites now db)"

lemma due_after_sweep:
  "filter (due_invite now uid) (invites (after_sweep now uid db)) = filter (deliverable now uid db) (invites db)"
proof -
  have "(due_invite now uid i \<and> \<not> redundant_follow now uid db i \<and> \<not> (dead_invite now i \<or> \<not> invite_target_ok db i))
      = deliverable now uid db i" for i
    by (auto simp: deliverable_def due_invite_def dead_invite_def)
  then show ?thesis
    unfolding after_sweep_def update_invites_simps cleanup_invalid_invites_def delete_invites_simps
      filter_update_gone[where Q = "due_invite now uid" and f = "consume now", OF due_consume] filter_filter
    by (simp add: conj_ac)
qed

lemma take_closed:
  "take_invite now uid db = Inr (case latest newer_invite (filter (deliverable now uid db) (invites db)) of
     None \<Rightarrow> (None, after_sweep now uid db)
   | Some i \<Rightarrow> (Some (i\<lparr>i_delivery_count := i_delivery_count i + 1\<rparr>),
       update_invites (\<lambda>j. i_rowid j = i_rowid i) (mark_delivered now) (after_sweep now uid db)))"
proof -
  have "redundant_follow now uid (cleanup_invalid_invites now db) = redundant_follow now uid db"
    by (rule ext) (rule redundant_frame[OF cleanup_frame])
  then show ?thesis
    by (simp add: take_invite_def after_sweep_def[symmetric] due_after_sweep split: option.split)
qed

lemma delivered_not_due:
  assumes "\<forall>i\<in>set (invites db). i_rowid i = row \<longrightarrow> i_delivered i = Some now" and "t < now + 3"
    and "take_invite t uid db = Inr (Some j, d)"
  shows "i_rowid j \<noteq> row"
proof
  assume row: "i_rowid j = row"
  obtain i where "latest newer_invite (filter (deliverable t uid db) (invites db)) = Some i" "i_rowid i = row"
    using assms(3) row unfolding take_closed by (auto split: option.splits)
  then have "i \<in> set (invites db)" "due_invite t uid i"
    using latest_in[of newer_invite "filter (deliverable t uid db) (invites db)" i] by (auto simp: deliverable_def)
  with assms(1,2) \<open>i_rowid i = row\<close> show False by (simp add: due_invite_def)
qed

lemma delivered_marked:
  assumes "take_invite now uid db = Inr (Some i, db')" "j \<in> set (invites db')" "i_rowid j = i_rowid i"
  shows "i_delivered j = Some now"
proof -
  define s where "s = after_sweep now uid db"
  have "db' = update_invites (\<lambda>k. i_rowid k = i_rowid i) (mark_delivered now) s"
    using assms(1) unfolding take_closed s_def by (auto split: option.splits)
  then have "j \<in> (\<lambda>k. if i_rowid k = i_rowid i then mark_delivered now k else k) ` set (invites s)"
    using assms(2) by (simp del: if_image_distrib)
  then obtain k where "j = (if i_rowid k = i_rowid i then mark_delivered now k else k)" by (rule imageE)
  then show ?thesis using assms(3) by (simp add: mark_delivered_def split: if_splits)
qed

section \<open>The life of an invitation\<close>

lemma add_private_invite:
  assumes "invitable sender ty sid db" "sender \<in> set (user_ids db)" "receiver \<in> set (user_ids db)"
  shows "\<exists>row d. add_invite now sender receiver INVITE_KIND_PRIVATE_ROOM ty sid db = Inr (Some row, d)
    \<and> d = db\<lparr>invites := filter (\<lambda>i. \<not> dead_invite now i \<and> \<not> open_manual receiver i) (invites db)
        @ [new_invite row sender receiver INVITE_KIND_PRIVATE_ROOM ty sid None now 300]\<rparr>
    \<and> row \<notin> i_rowid ` set (filter (\<lambda>i. \<not> dead_invite now i \<and> \<not> open_manual receiver i) (invites db))"
proof -
  define b where "b = delete_invites (open_manual receiver) (delete_invites (dead_invite now) db)"
  have b: "invites b = filter (\<lambda>i. \<not> dead_invite now i \<and> \<not> open_manual receiver i) (invites db)"
    by (simp add: b_def)
  have ok: "invitable sender ty sid b"
    using assms(1) unfolding invitable_def is_participant_def has_station_url_def b_def delete_invites_simps .
  have ids: "user_ids b = user_ids db" by (simp add: b_def)
  have eq: "b\<lparr>invites := xs\<rparr> = db\<lparr>invites := xs\<rparr>" for xs by (simp add: b_def delete_invites_def)
  define row where "row = next_rowid (map i_rowid (invites b))"
  have "add_invite now sender receiver INVITE_KIND_PRIVATE_ROOM ty sid db
      = tbind (insert_invite sender receiver INVITE_KIND_PRIVATE_ROOM ty sid None now 300) (\<lambda>row. treturn (Some row)) b"
    using ok by (simp add: add_invite_def invite_party_def invite_kinds b_def[symmetric])
  also have "\<dots> = Inr (Some row, db\<lparr>invites := invites b @
      [new_invite row sender receiver INVITE_KIND_PRIVATE_ROOM ty sid None now 300]\<rparr>)"
    using assms(2,3) by (simp add: insert_invite_def ids tbind_def Let_def row_def[symmetric] eq)
  finally have add: "add_invite now sender receiver INVITE_KIND_PRIVATE_ROOM ty sid db = Inr (Some row,
      db\<lparr>invites := invites b @ [new_invite row sender receiver INVITE_KIND_PRIVATE_ROOM ty sid None now 300]\<rparr>)" .
  have "row \<notin> i_rowid ` set (invites b)"
    using next_rowid_fresh[of "map i_rowid (invites b)"] by (simp add: row_def)
  with add show ?thesis unfolding b by blast
qed

lemma life_steps:
  assumes inv: "storage_inv db" and host: "invitable sender ty sid db"
    and rcv: "receiver \<in> set (user_ids db)"
    and fresh: "\<forall>i\<in>set (invites db). i_receiver i = receiver \<longrightarrow> i_consumed i \<noteq> None"
    and t: "t < now + 300"
  shows "\<exists>row d ks. add_invite now sender receiver INVITE_KIND_PRIVATE_ROOM ty sid db = Inr (Some row, d)
    \<and> d = db\<lparr>invites := ks @ [new_invite row sender receiver INVITE_KIND_PRIVATE_ROOM ty sid None now 300]\<rparr>
    \<and> row \<notin> i_rowid ` set ks \<and> (\<forall>k\<in>set ks. i_receiver k \<noteq> receiver)
    \<and> invite_target_ok d (new_invite row sender receiver INVITE_KIND_PRIVATE_ROOM ty sid None now 300)"
proof -
  have "sender \<in> set (user_ids db)"
    using host creator_is_user[of "{}" db] inv by (auto simp: invitable_def storage_inv_def)
  from add_private_invite[OF host this rcv, of now] obtain row d where
    add: "add_invite now sender receiver INVITE_KIND_PRIVATE_ROOM ty sid db = Inr (Some row, d)"
    and d: "d = db\<lparr>invites := filter (\<lambda>i. \<not> dead_invite now i \<and> \<not> open_manual receiver i) (invites db)
        @ [new_invite row sender receiver INVITE_KIND_PRIVATE_ROOM ty sid None now 300]\<rparr>"
    and row: "row \<notin> i_rowid ` set (filter (\<lambda>i. \<not> dead_invite now i \<and> \<not> open_manual receiver i) (invites db))"
    by blast
  have "\<forall>k\<in>set (filter (\<lambda>i. \<not> dead_invite now i \<and> \<not> open_manual receiver i) (invites db)). i_receiver k \<noteq> receiver"
    using fresh by (auto simp: dead_invite_def)
  moreover have "invite_target_ok d (new_invite row sender receiver INVITE_KIND_PRIVATE_ROOM ty sid None now 300)"
    using host unfolding d invite_target_ok_def valid_target_def invitable_def is_participant_def has_station_url_def
    by (auto simp: new_invite_def)
  ultimately show ?thesis using add d row by blast
qed

lemma accept_new:
  assumes d: "d = db\<lparr>invites := ks @ [n]\<rparr>" and n: "i_rowid n = row" "i_receiver n = uid" "i_consumed n = None"
    and t: "t < i_expires n" and ok: "invite_target_ok d n" and ks: "\<forall>k\<in>set ks. i_receiver k \<noteq> uid"
  shows "\<exists>d2 js. accept_invite t uid row d = Inr (Some (mark_accepted t n), d2)
    \<and> d2 = db\<lparr>invites := js @ [mark_accepted t n]\<rparr> \<and> (\<forall>k\<in>set js. i_receiver k \<noteq> uid)"
proof -
  define js where "js = filter (\<lambda>i. \<not> (dead_invite t i \<or> \<not> invite_target_ok d i)) ks"
  have alive: "\<not> dead_invite t n" using n t by (simp add: dead_invite_def)
  have "find (\<lambda>i. \<not> dead_invite t i \<and> invite_target_ok d i \<and> i_rowid i = row \<and> i_receiver i = uid) (ks @ [n]) = Some n"
    using ks alive ok n(1,2) by (induction ks) auto
  moreover have "map (\<lambda>i. if open_invite t uid row i then mark_accepted t i else i) js = js"
    using ks by (auto simp: js_def open_invite_def intro!: map_idI)
  moreover have "open_invite t uid row n" using n t by (simp add: open_invite_def)
  ultimately have "accept_invite t uid row d = Inr (Some (mark_accepted t n), db\<lparr>invites := js @ [mark_accepted t n]\<rparr>)"
    using alive ok unfolding accept_closed
    by (simp add: d update_invites_def cleanup_invalid_invites_def delete_invites_def js_def)
  moreover have "\<forall>k\<in>set js. i_receiver k \<noteq> uid" using ks by (simp add: js_def)
  ultimately show ?thesis by blast
qed

lemma accepted_session:
  assumes d: "d = db\<lparr>invites := js @ [m]\<rparr>" and js: "\<forall>k\<in>set js. i_receiver k \<noteq> uid"
    and m: "accepted_invite t uid ty True d m" and g: "find_active (i_type m) (i_session m) d = Some g"
  shows "\<exists>s. find_accepted_manual_invited_session t uid ty d = Some s \<and> ig_invite_id s = i_rowid m
    \<and> ig_kind s = i_kind m \<and> gs_id (ig_session s) = i_session m \<and> gs_type (ig_session s) = i_type m
    \<and> gs_attributes (ig_session s) = (if i_kind m = INVITE_KIND_PRIVATE_ROOM
        then project_private_invite_session_class_only (g_attributes g) else g_attributes g)"
proof -
  have "filter (accepted_invite t uid ty True d) (invites d) = [m]"
    using js m by (simp add: d filter_empty_conv) (auto simp: accepted_invite_def)
  then show ?thesis
    using g find_active_Some[OF g]
    by (simp add: find_accepted_manual_invited_session_def find_accepted_invited_session_filtered_def
        sorted_session_def session_of_def active_session_def Let_def)
qed

lemma join_returns:
  assumes "storage_inv db" "uid \<in> set (user_ids db)" "find_active ty sid db = Some g"
    and "accepted_lobby_invite now uid ty sid db = None"
  shows "\<exists>db'. join_game_session_unbounded now uid ty sid db = Inr (True, db')"
proof -
  have "\<not> (\<exists>e. join_game_session_unbounded now uid ty sid db = Inl e)"
    unfolding join_failure[OF assms(1,2)] using assms(4) by simp
  then obtain b db' where "join_game_session_unbounded now uid ty sid db = Inr (b, db')"
    by (cases "join_game_session_unbounded now uid ty sid db") auto
  then show ?thesis using join_result[of now uid ty sid db b db'] assms(3) by auto
qed

lemma life_of_invite:
  assumes "storage_inv db" and "invitable sender ty sid db" and "receiver \<in> set (user_ids db)"
    and "\<forall>i\<in>set (invites db). i_receiver i = receiver \<longrightarrow> i_consumed i \<noteq> None" and "t < now + 300"
  shows "\<exists>row d i d2 g s d3. add_invite now sender receiver INVITE_KIND_PRIVATE_ROOM ty sid db = Inr (Some row, d)
    \<and> (\<forall>u. u \<noteq> receiver \<longrightarrow> (\<exists>e. accept_invite t u row d = Inr (None, e)))
    \<and> accept_invite t receiver row d = Inr (Some i, d2) \<and> i_sender i = sender
    \<and> find_active ty sid db = Some g
    \<and> find_accepted_manual_invited_session t receiver ty d2 = Some s \<and> ig_invite_id s = row
    \<and> ig_kind s = INVITE_KIND_PRIVATE_ROOM \<and> gs_id (ig_session s) = sid \<and> gs_type (ig_session s) = ty
    \<and> gs_attributes (ig_session s) = project_private_invite_session_class_only (g_attributes g)
    \<and> storage_inv d2
    \<and> join_game_session_unbounded t receiver ty sid d2 = Inr (True, d3) \<and> is_participant sid receiver d3
    \<and> (\<forall>i\<in>set (invites d3). \<not> live_accepted t receiver ty sid i)"
proof -
  define inv where "inv row = new_invite row sender receiver INVITE_KIND_PRIVATE_ROOM ty sid None now 300" for row
  obtain row d ks where add: "add_invite now sender receiver INVITE_KIND_PRIVATE_ROOM ty sid db = Inr (Some row, d)"
    and d: "d = db\<lparr>invites := ks @ [inv row]\<rparr>" and row: "row \<notin> i_rowid ` set ks"
    and ks: "\<forall>k\<in>set ks. i_receiver k \<noteq> receiver" and ok: "invite_target_ok d (inv row)"
    using life_steps[OF assms] unfolding inv_def by blast
  have n: "i_rowid (inv row) = row" "i_receiver (inv row) = receiver" "i_consumed (inv row) = None"
    "t < i_expires (inv row)" "i_sender (inv row) = sender" "i_type (inv row) = ty" "i_session (inv row) = sid"
    "i_kind (inv row) = INVITE_KIND_PRIVATE_ROOM"
    using assms(5) by (simp_all add: inv_def new_invite_def)
  define m where "m = mark_accepted t (inv row)"
  obtain d2 js where acc: "accept_invite t receiver row d = Inr (Some m, d2)"
    and d2: "d2 = db\<lparr>invites := js @ [m]\<rparr>" and js: "\<forall>k\<in>set js. i_receiver k \<noteq> receiver"
    using accept_new[OF d n(1-4) ok ks] unfolding m_def by blast
  have m: "i_rowid m = row" "i_receiver m = receiver" "i_consumed m = None" "t < i_expires m" "i_sender m = sender"
    "i_type m = ty" "i_session m = sid" "i_kind m = INVITE_KIND_PRIVATE_ROOM" "i_accepted m \<noteq> None"
    using n accepted_mark[of t "inv row"] by (simp_all add: m_def mark_accepted_def)
  have others: "\<forall>u. u \<noteq> receiver \<longrightarrow> (\<exists>e. accept_invite t u row d = Inr (None, e))"
    using row n(2) unfolding accept_closed by (auto simp: find_None_iff d)
  obtain g where g: "find_active ty sid db = Some g"
    using assms(2) find_active_None[of ty sid db] unfolding invitable_def by fastforce
  have g2: "find_active ty sid d2 = Some g" using g by (simp add: d2 find_active_def)
  have "invite_target_ok d2 m"
    using ok target_ok_frame[of d2 d] by (simp add: m_def target_mark d d2)
  then have "accepted_invite t receiver ty True d2 m" using m by (simp add: accepted_invite_def)
  from accepted_session[OF d2 js this, unfolded m(1,6,7,8), OF g2] obtain s where
    s: "find_accepted_manual_invited_session t receiver ty d2 = Some s \<and> ig_invite_id s = row
      \<and> ig_kind s = INVITE_KIND_PRIVATE_ROOM \<and> gs_id (ig_session s) = sid \<and> gs_type (ig_session s) = ty
      \<and> gs_attributes (ig_session s) = project_private_invite_session_class_only (g_attributes g)" by auto
  have inv2: "storage_inv d2"
    using keepsD[OF accept_invite_keeps keepsD[OF add_invite_keeps assms(1) add] acc] .
  have "accepted_lobby_invite t receiver ty sid d2 = None"
    using js m by (auto simp: accepted_lobby_invite_def d2 live_accepted_def invite_kinds filter_empty_conv)
  then obtain d3 where join: "join_game_session_unbounded t receiver ty sid d2 = Inr (True, d3)"
    using join_returns[OF inv2 _ g2, of receiver t] assms(3) by (auto simp: d2 user_ids_def)
  have "is_participant sid receiver d3 \<and> (\<forall>i\<in>set (invites d3). \<not> live_accepted t receiver ty sid i)"
    using join_result[OF join] by simp
  with add others acc m(5) g s inv2 join show ?thesis by blast
qed

section \<open>Manual invitation searches\<close>

datatype search_event =
    NoteSearch nat nat nat
  | ClearSearch nat nat nat
  | AskSearch nat nat nat

fun event_time :: "search_event \<Rightarrow> nat" where
  "event_time (NoteSearch t _ _) = t"
| "event_time (ClearSearch t _ _) = t"
| "event_time (AskSearch t _ _) = t"

fun run_event :: "search_event \<Rightarrow> manual_searches \<Rightarrow> manual_searches" where
  "run_event (NoteSearch t uid ty) m = note_manual_invitation_search t uid ty m"
| "run_event (ClearSearch t uid ty) m = clear_manual_invitation_search uid ty m"
| "run_event (AskSearch t uid ty) m = snd (manual_invitation_search_is_active t uid ty m)"

text \<open>The specification: the instant of the last search that nothing has cleared since.\<close>

fun last_search :: "nat \<times> nat \<Rightarrow> search_event list \<Rightarrow> nat option" where
  "last_search k [] = None"
| "last_search k (NoteSearch t uid ty # es) = (if (uid, ty) = k then Some t else last_search k es)"
| "last_search k (ClearSearch t uid ty # es) = (if (uid, ty) = k then None else last_search k es)"
| "last_search k (AskSearch t uid ty # es) = last_search k es"

definition run_events :: "search_event list \<Rightarrow> manual_searches" where
  "run_events es = foldr run_event es []"

definition entry_ok :: "nat \<Rightarrow> nat option \<Rightarrow> nat option \<Rightarrow> bool" where
  "entry_ok now l e \<longleftrightarrow> (case e of
     Some s \<Rightarrow> l = Some s
   | None \<Rightarrow> (case l of None \<Rightarrow> True | Some s \<Rightarrow> s + 15 < now))"

definition agrees :: "nat \<Rightarrow> manual_searches \<Rightarrow> search_event list \<Rightarrow> bool" where
  "agrees now m es \<longleftrightarrow> distinct (map fst m) \<and> (\<forall>k. entry_ok now (last_search k es) (map_of m k))"

lemma map_of_prune:
  "distinct (map fst m) \<Longrightarrow> map_of (prune_manual_invitation_searches now m) k =
    (case map_of m k of None \<Rightarrow> None | Some s \<Rightarrow> if now - s \<le> 15 then Some s else None)"
proof (induction m)
  case (Cons e m)
  have "map_of (prune_manual_invitation_searches now m) (fst e) = None"
    using Cons.prems by (auto simp: prune_manual_invitation_searches_def map_of_eq_None_iff)
  with Cons show ?case
    by (cases e) (auto simp: prune_manual_invitation_searches_def MANUAL_INVITATION_SEARCH_TTL_def)
qed (simp add: prune_manual_invitation_searches_def)

lemma distinct_prune: "distinct (map fst m) \<Longrightarrow> distinct (map fst (prune_manual_invitation_searches now m))"
  by (simp add: prune_manual_invitation_searches_def distinct_map_filter)

lemma entry_ok_later: "entry_ok now l e \<Longrightarrow> now \<le> t \<Longrightarrow> entry_ok t l e"
  by (auto simp: entry_ok_def split: option.splits)

lemma entry_ok_prune:
  "entry_ok now l e \<Longrightarrow> now \<le> t \<Longrightarrow>
    entry_ok t l (case e of None \<Rightarrow> None | Some s \<Rightarrow> if t - s \<le> 15 then Some s else None)"
  by (auto simp: entry_ok_def split: option.splits)

lemma agrees_prune: "agrees now m es \<Longrightarrow> now \<le> t \<Longrightarrow> agrees t (prune_manual_invitation_searches t m) es"
  unfolding agrees_def by (auto simp: map_of_prune distinct_prune intro: entry_ok_prune)

lemma agrees_event:
  assumes "agrees now m es" "now \<le> event_time e"
  shows "agrees (event_time e) (run_event e m) (e # es)"
proof (cases e)
  case (NoteSearch t uid ty)
  then have p: "agrees t (prune_manual_invitation_searches t m) es" using agrees_prune assms by simp
  have "entry_ok t (last_search k (NoteSearch t uid ty # es))
      (map_of (AList.update (uid, ty) t (prune_manual_invitation_searches t m)) k)" for k
    using p by (cases "k = (uid, ty)") (auto simp: agrees_def update_conv' entry_ok_def simp del: split_paired_All)
  then show ?thesis
    using p by (simp add: agrees_def NoteSearch note_manual_invitation_search_def distinct_update
        del: last_search.simps)
next
  case (ClearSearch t uid ty)
  then have "entry_ok t (last_search k es) (map_of m k)" for k
    using assms unfolding agrees_def by (auto intro: entry_ok_later simp del: split_paired_All)
  then have "entry_ok t (last_search k (ClearSearch t uid ty # es)) (map_of (AList.delete (uid, ty) m) k)" for k
    by (cases "k = (uid, ty)") (auto simp: delete_conv' entry_ok_def)
  then show ?thesis
    using assms(1) by (simp add: agrees_def ClearSearch clear_manual_invitation_search_def distinct_delete
        del: last_search.simps)
next
  case (AskSearch t uid ty)
  then show ?thesis
    using agrees_prune[OF assms(1), of t] assms(2)
    by (simp add: agrees_def manual_invitation_search_is_active_def Let_def)
qed

lemma agrees_run:
  "sorted_wrt (\<ge>) (map event_time es) \<Longrightarrow> (\<forall>e\<in>set es. event_time e \<le> now) \<Longrightarrow> agrees now (run_events es) es"
proof (induction es arbitrary: now)
  case Nil
  show ?case by (simp add: agrees_def run_events_def entry_ok_def)
next
  case (Cons e es)
  have "agrees (event_time e) (run_events es) es" using Cons by (intro Cons.IH) auto
  from agrees_event[OF this order_refl] have "agrees (event_time e) (run_events (e # es)) (e # es)"
    by (simp add: run_events_def)
  then show ?case using Cons.prems(2) unfolding agrees_def by (auto intro: entry_ok_later simp del: last_search.simps)
qed

lemma ask_result:
  assumes "agrees now m es"
  shows "fst (manual_invitation_search_is_active now uid ty m) \<longleftrightarrow>
    (\<exists>s. last_search (uid, ty) es = Some s \<and> now \<le> s + 15)"
proof -
  have "entry_ok now (last_search (uid, ty) es) (map_of (prune_manual_invitation_searches now m) (uid, ty))"
    and p: "map_of (prune_manual_invitation_searches now m) (uid, ty) =
      (case map_of m (uid, ty) of None \<Rightarrow> None | Some s \<Rightarrow> if now - s \<le> 15 then Some s else None)"
    using agrees_prune[OF assms order_refl] assms by (simp_all add: agrees_def map_of_prune)
  then show ?thesis
    unfolding manual_invitation_search_is_active_def Let_def fst_conv
    by (auto simp: entry_ok_def split: option.splits if_splits)
qed

section \<open>Properties\<close>

text \<open>Accepting returns the receiver's own invitation with the row id if it is
  live and its target still valid, and marks it, else nothing; the sweep of dead and invalid
  invitations is kept in both cases, so the rollback of the code never runs.\<close>

lemma accept_exact:
  "accept_invite now uid row db = Inr
    (map_option (mark_accepted now) (find (\<lambda>i. \<not> dead_invite now i \<and> invite_target_ok db i
        \<and> i_rowid i = row \<and> i_receiver i = uid) (invites db)),
     update_invites (open_invite now uid row) (mark_accepted now) (cleanup_invalid_invites now db))"
  by (rule accept_closed)

text \<open>Polling delivers the newest invitation that is due, has a valid
  target and is no superfluous follow invitation, and says so if there is none; no poll within
  three seconds delivers the same invitation again.\<close>

lemma delivery_throttled:
  assumes "take_invite now uid db = Inr (x, db')"
  shows "x = map_option (\<lambda>i. i\<lparr>i_delivery_count := i_delivery_count i + 1\<rparr>)
      (latest newer_invite (filter (\<lambda>i. due_invite now uid i \<and> invite_target_ok db i
         \<and> \<not> redundant_follow now uid db i) (invites db)))
    \<and> (\<forall>i t u j d. x = Some i \<longrightarrow> t < now + 3 \<longrightarrow> take_invite t u db' = Inr (Some j, d) \<longrightarrow> i_rowid j \<noteq> i_rowid i)"
proof
  show "x = map_option (\<lambda>i. i\<lparr>i_delivery_count := i_delivery_count i + 1\<rparr>)
      (latest newer_invite (filter (\<lambda>i. due_invite now uid i \<and> invite_target_ok db i
         \<and> \<not> redundant_follow now uid db i) (invites db)))"
    using assms unfolding take_closed deliverable_def[abs_def] by (auto split: option.splits)
  show "\<forall>i t u j d. x = Some i \<longrightarrow> t < now + 3 \<longrightarrow> take_invite t u db' = Inr (Some j, d) \<longrightarrow> i_rowid j \<noteq> i_rowid i"
    using delivered_not_due delivered_marked assms by blast
qed

definition invited_db :: db where
  "invited_db = room_db\<lparr>invites := [new_invite 1 1000 1002 INVITE_KIND_PRIVATE_ROOM 1 2 None 10 300]\<rparr>"

lemma delivery_throttled_witness:
  "\<exists>i d. take_invite 20 1002 invited_db = Inr (Some i, d) \<and> i_rowid i = 1
    \<and> \<not> (\<exists>j e. take_invite 22 1002 d = Inr (Some j, e) \<and> i_rowid j = 1)"
proof -
  have "\<exists>z. take_invite 20 1002 invited_db = Inr z" unfolding take_closed by blast
  then obtain x d where run: "take_invite 20 1002 invited_db = Inr (x, d)" by auto
  define i where "i = new_invite 1 1000 1002 INVITE_KIND_PRIVATE_ROOM 1 2 None 10 300\<lparr>i_delivery_count := 1\<rparr>"
  have row: "i_rowid i = 1" by (simp add: i_def new_invite_def)
  have x: "x = Some i"
    using delivery_throttled[OF run, THEN conjunct1]
    by (simp add: i_def invited_db_def room_db_def sample_session_def new_invite_def invite_kinds due_invite_def
        invite_target_ok_def valid_target_def active_session_def is_participant_def has_station_url_def
        redundant_follow_def)
  have "i_rowid j \<noteq> 1" if "take_invite 22 1002 d = Inr (Some j, e)" for j e
    using delivery_throttled[OF run, THEN conjunct2, rule_format, OF x _ that] row by simp
  with run x row show ?thesis by blast
qed


lemma room_invitable: "invitable 1000 1 2 room_db"
  by (simp add: invitable_def room_db_def sample_session_def active_session_def is_participant_def has_station_url_def)


text \<open>After any sequence of searches, clearings and questions in the
  order of time (the newest first in the list), a manual search counts as running exactly if the
  last search that nothing has cleared since is at most fifteen seconds old.\<close>

lemma manual_search_window:
  assumes "sorted_wrt (\<ge>) (map event_time es)" and "\<forall>e\<in>set es. event_time e \<le> now"
  shows "fst (manual_invitation_search_is_active now uid ty (run_events es)) \<longleftrightarrow>
    (\<exists>s. last_search (uid, ty) es = Some s \<and> now \<le> s + 15)"
  using agrees_run[OF assms] by (rule ask_result)

lemma manual_search_window_witness:
  "fst (manual_invitation_search_is_active 30 1001 1
     (run_events [AskSearch 29 1001 1, NoteSearch 15 1001 1, ClearSearch 9 1001 1, NoteSearch 2 1001 1]))"
  using manual_search_window[of "[AskSearch 29 1001 1, NoteSearch 15 1001 1, ClearSearch 9 1001 1, NoteSearch 2 1001 1]"
      30 1001 1] by simp

end
