(* ===== verification/Wire_Stream.thy ===== *)
theory Wire_Stream
  imports Prelude
begin

text \<open>
  The Quazal stream encoding, \<open>server/quazal/src/rmc/basic.rs\<close>. A \<open>ReadStream\<close> over a
  cursor is the list of bytes not read yet, a reader returns the value and the rest or the
  error that \<open>?\<close> propagates. A \<open>WriteStream\<close> into a vector is the list of bytes it emits;
  the byte count a writer returns is the length of that list. Bounded allocations
  (\<open>try_reserve\<close>) are taken to succeed.

  The locale \<open>wire_codec\<close> states the contract between a \<open>ToStream\<close> and a \<open>FromStream\<close>
  implementation; it is interpreted on every implementation of this file.
\<close>

section \<open>Errors and readers\<close>

datatype station_url_error =
    MissingScheme | MissingAddress | MissingPort | InvalidParameters | InvalidPort

datatype from_stream_error =
    IoEof
  | IoInvalidData
  | MissingBytes nat
  | ParseStationURL station_url_error
  | ParseCString
  | Utf8
  | LengthLimitExceeded nat nat

type_synonym 'a reader = "bytes \<Rightarrow> from_stream_error + 'a \<times> bytes"

definition rreturn :: "'a \<Rightarrow> 'a reader" where
  "rreturn x = (\<lambda>bs. Inr (x, bs))"

definition rfail :: "from_stream_error \<Rightarrow> 'a reader" where
  "rfail e = (\<lambda>bs. Inl e)"

definition rbind :: "'a reader \<Rightarrow> ('a \<Rightarrow> 'b reader) \<Rightarrow> 'b reader" where
  "rbind m f = (\<lambda>bs. case m bs of Inl e \<Rightarrow> Inl e | Inr (x, r) \<Rightarrow> f x r)"

definition rmap :: "('a \<Rightarrow> 'b) \<Rightarrow> 'a reader \<Rightarrow> 'b reader" where
  "rmap g m = rbind m (\<lambda>x. rreturn (g x))"

declare rreturn_def [reader_defs] rfail_def [reader_defs] rmap_def [reader_defs]

lemma rbind_Inr: "m bs = Inr (x, r) \<Longrightarrow> rbind m f bs = f x r"
  by (simp add: rbind_def)

lemma rbind_Inl: "m bs = Inl e \<Longrightarrow> rbind m f bs = Inl e"
  by (simp add: rbind_def)

lemma rbind_eq_Inr_conv:
  "rbind m f bs = Inr z \<longleftrightarrow> (\<exists>x r. m bs = Inr (x, r) \<and> f x r = Inr z)"
  by (auto simp: rbind_def split: sum.splits prod.splits)

section \<open>Numbers and buffers\<close>

definition MAX_LENGTH_PREFIXED_BYTES :: nat where
  "MAX_LENGTH_PREFIXED_BYTES = 1024 * 1024"

definition MAX_COLLECTION_ITEMS :: nat where
  "MAX_COLLECTION_ITEMS = 65536"

text \<open>A little-endian number of \<open>n\<close> bytes; reading past the end is \<open>UnexpectedEof\<close>.\<close>

definition rd_le :: "nat \<Rightarrow> nat reader" where
  "rd_le n = (\<lambda>bs. if length bs < n then Inl IoEof
                   else Inr (nat_of_le (take n bs), drop n bs))"

definition rd_u8 :: "u8 reader" where "rd_u8 = rmap of_nat (rd_le 1)"
definition rd_u16 :: "u16 reader" where "rd_u16 = rmap of_nat (rd_le 2)"
definition rd_u32 :: "u32 reader" where "rd_u32 = rmap of_nat (rd_le 4)"
definition rd_u64 :: "u64 reader" where "rd_u64 = rmap of_nat (rd_le 8)"

text \<open>
  Signed integers are the same words read as two's complement, and an \<open>f64\<close> is its 64-bit
  representation: \<open>to_le_bytes\<close> and \<open>from_le_bytes\<close> move the bits unchanged.
\<close>

definition rd_i64 :: "64 word reader" where "rd_i64 = rd_u64"
definition rd_f64 :: "64 word reader" where "rd_f64 = rd_u64"

definition rd_bool :: "bool reader" where
  "rd_bool = rmap (\<lambda>b. b \<noteq> 0) rd_u8"

definition wr_bool :: "bool \<Rightarrow> bytes" where
  "wr_bool b = le8 (if b then 1 else 0)"

definition read_n_bytes :: "nat \<Rightarrow> bytes reader" where
  "read_n_bytes l = (\<lambda>bs.
     if l > MAX_LENGTH_PREFIXED_BYTES then Inl (LengthLimitExceeded l MAX_LENGTH_PREFIXED_BYTES)
     else if length bs < l then Inl (MissingBytes l)
     else Inr (take l bs, drop l bs))"

definition rd_buf_u8 :: "bytes reader" where
  "rd_buf_u8 = rbind rd_u8 (\<lambda>l. read_n_bytes (unat l))"

definition rd_buf_u16 :: "bytes reader" where
  "rd_buf_u16 = rbind rd_u16 (\<lambda>l. read_n_bytes (unat l))"

definition rd_buf_u32 :: "bytes reader" where
  "rd_buf_u32 = rbind rd_u32 (\<lambda>l. read_n_bytes (unat l))"

definition wr_buf_u8 :: "bytes \<Rightarrow> bytes" where
  "wr_buf_u8 d = le8 (of_nat (length d)) @ d"

definition wr_buf_u16 :: "bytes \<Rightarrow> bytes" where
  "wr_buf_u16 d = le16 (of_nat (length d)) @ d"

definition wr_buf_u32 :: "bytes \<Rightarrow> bytes" where
  "wr_buf_u32 d = le32 (of_nat (length d)) @ d"

definition read_all :: "bytes reader" where
  "read_all = (\<lambda>bs. Inr (bs, []))"

text \<open>\<open>FromStream for [u8; N]\<close>: exactly \<open>N\<close> bytes.\<close>

definition rd_array :: "nat \<Rightarrow> bytes reader" where
  "rd_array n = rbind (read_n_bytes n)
     (\<lambda>buf. if length buf = n then rreturn buf else rfail IoEof)"

section \<open>Tuples, vectors and maps\<close>

definition rd_pair :: "'a reader \<Rightarrow> 'b reader \<Rightarrow> ('a \<times> 'b) reader" where
  "rd_pair ra rb = rbind ra (\<lambda>a. rbind rb (\<lambda>b. rreturn (a, b)))"

definition wr_pair :: "('a \<Rightarrow> bytes) \<Rightarrow> ('b \<Rightarrow> bytes) \<Rightarrow> 'a \<times> 'b \<Rightarrow> bytes" where
  "wr_pair wa wb p = wa (fst p) @ wb (snd p)"

text \<open>The loop \<open>for _ in 0..len { res.push(stream.read()?) }\<close>.\<close>

fun rd_many :: "nat \<Rightarrow> 'a reader \<Rightarrow> 'a list reader" where
  "rd_many 0 d = rreturn []"
| "rd_many (Suc n) d = rbind d (\<lambda>x. rbind (rd_many n d) (\<lambda>xs. rreturn (x # xs)))"

definition rd_vec :: "'a reader \<Rightarrow> 'a list reader" where
  "rd_vec d = rbind rd_u32 (\<lambda>len.
     if unat len > MAX_COLLECTION_ITEMS
     then rfail (LengthLimitExceeded (unat len) MAX_COLLECTION_ITEMS)
     else rd_many (unat len) d)"

definition wr_vec :: "('a \<Rightarrow> bytes) \<Rightarrow> 'a list \<Rightarrow> bytes" where
  "wr_vec w xs = le32 (of_nat (length xs)) @ concat (map w xs)"

text \<open>
  A \<open>HashMap\<close> is written in its iteration order, which the library leaves open: the writer
  takes the entries in that order. Reading inserts the entries one by one.
\<close>

definition wr_hashmap :: "('k \<Rightarrow> bytes) \<Rightarrow> ('v \<Rightarrow> bytes) \<Rightarrow> ('k \<times> 'v) list \<Rightarrow> bytes" where
  "wr_hashmap wk wv kvs = le32 (of_nat (length kvs)) @ concat (map (wr_pair wk wv) kvs)"

definition insert_all :: "('k \<times> 'v) list \<Rightarrow> ('k \<rightharpoonup> 'v)" where
  "insert_all kvs = foldl (\<lambda>m (k, v). m(k \<mapsto> v)) Map.empty kvs"

definition rd_hashmap :: "'k reader \<Rightarrow> 'v reader \<Rightarrow> ('k \<rightharpoonup> 'v) reader" where
  "rd_hashmap rk rv = rbind rd_u32 (\<lambda>n.
     if unat n > MAX_COLLECTION_ITEMS
     then rfail (LengthLimitExceeded (unat n) MAX_COLLECTION_ITEMS)
     else rmap insert_all (rd_many (unat n) (rd_pair rk rv)))"

section \<open>Strings\<close>

text \<open>
  \<open>CString::from_vec_with_nul\<close> accepts a vector whose only zero byte is its last one. A
  \<open>CString\<close> is the list of its bytes without the terminator.
\<close>

definition from_vec_with_nul :: "bytes \<Rightarrow> bytes option" where
  "from_vec_with_nul d =
     (if d \<noteq> [] \<and> last d = 0 \<and> 0 \<notin> set (butlast d) then Some (butlast d) else None)"

definition rd_cstring :: "bytes reader" where
  "rd_cstring = rbind rd_u16 (\<lambda>len.
     if len = 0 then rreturn []
     else rbind (read_n_bytes (unat len)) (\<lambda>data.
       case from_vec_with_nul data of None \<Rightarrow> rfail ParseCString | Some s \<Rightarrow> rreturn s))"

definition wr_cstring :: "bytes \<Rightarrow> bytes" where
  "wr_cstring s = (if s = [] then le16 0 else le16 (of_nat (length (s @ [0]))) @ s @ [0])"

definition rd_string :: "string reader" where
  "rd_string = rbind rd_cstring (\<lambda>c.
     if utf8_valid c then rreturn (bytes_str c) else rfail Utf8)"

definition wr_string :: "string \<Rightarrow> bytes" where
  "wr_string s = (if s = [] then le16 0
                  else le16 (of_nat (length s) + 1) @ str_bytes s @ le8 0)"

text \<open>The strings that survive: valid UTF-8 without zero bytes, whose length fits the prefix.\<close>

definition string_ok :: "string \<Rightarrow> bool" where
  "string_ok s \<longleftrightarrow> utf8_valid (str_bytes s) \<and> 0 \<notin> set (str_bytes s) \<and> length s < 65535"

definition cstring_ok :: "bytes \<Rightarrow> bool" where
  "cstring_ok s \<longleftrightarrow> 0 \<notin> set s \<and> length s < 65535"

section \<open>The codec contract\<close>

locale wire_codec =
  fixes enc :: "'a \<Rightarrow> bytes" and dec :: "'a reader" and ok :: "'a \<Rightarrow> bool"
  assumes dec_enc: "ok x \<Longrightarrow> dec (enc x @ rest) = Inr (x, rest)"
begin

lemma dec_enc_all: "ok x \<Longrightarrow> dec (enc x) = Inr (x, [])"
  using dec_enc [of x "[]"] by simp

lemma enc_prefix_free:
  "ok x \<Longrightarrow> ok y \<Longrightarrow> enc x @ r = enc y @ s \<Longrightarrow> x = y \<and> r = s"
  by (metis dec_enc Pair_inject sum.inject(2))

lemma rbind_dec_enc: "ok x \<Longrightarrow> rbind dec f (enc x @ rest) = f x rest"
  by (simp add: rbind_def dec_enc)

lemma rd_many_enc:
  "list_all ok xs \<Longrightarrow> rd_many (length xs) dec (concat (map enc xs) @ rest) = Inr (xs, rest)"
  by (induction xs) (simp_all add: rbind_def dec_enc rreturn_def)

lemma rd_vec_enc:
  assumes "list_all ok xs" and "length xs \<le> MAX_COLLECTION_ITEMS"
  shows "rd_vec dec (wr_vec enc xs @ rest) = Inr (xs, rest)"
proof -
  have len: "unat (of_nat (length xs) :: u32) = length xs"
    using assms(2) by (simp add: MAX_COLLECTION_ITEMS_def unat_of_nat_small)
  have "rd_u32 (wr_vec enc xs @ rest)
      = Inr (of_nat (length xs), concat (map enc xs) @ rest)"
    by (simp add: rd_u32_def rd_le_def rmap_def rbind_def rreturn_def wr_vec_def)
  with assms len show ?thesis
    by (simp add: rd_vec_def rbind_def rd_many_enc)
qed

end

text \<open>A codec whose decoder accepts nothing but encodings: what it reads can be rebuilt.\<close>

locale canonical_codec = wire_codec +
  assumes enc_dec: "dec bs = Inr (x, r) \<Longrightarrow> ok x \<and> bs = enc x @ r"
begin

lemma dec_iff: "dec bs = Inr (x, r) \<longleftrightarrow> ok x \<and> bs = enc x @ r"
  using enc_dec dec_enc by blast

lemma dec_consumes: "dec bs = Inr (x, r) \<Longrightarrow> length bs = length (enc x) + length r"
  using enc_dec [of bs x r] by simp

end


section \<open>The implementations satisfy the contract\<close>

lemma rd_le_append: "length bs = n \<Longrightarrow> rd_le n (bs @ rest) = Inr (nat_of_le bs, rest)"
  by (simp add: rd_le_def)

lemma rd_le_Inr_conv:
  "rd_le n bs = Inr (x, r) \<longleftrightarrow> (\<exists>p. length p = n \<and> bs = p @ r \<and> x = nat_of_le p)"
proof
  assume "rd_le n bs = Inr (x, r)"
  then have "length (take n bs) = n \<and> bs = take n bs @ r \<and> x = nat_of_le (take n bs)"
    by (auto simp: rd_le_def split: if_splits)
  then show "\<exists>p. length p = n \<and> bs = p @ r \<and> x = nat_of_le p" by blast
qed (auto simp: rd_le_def)

lemma rd_num_enc [codec_rt, simp]:
  "rd_u8 (le8 a @ rest) = Inr (a, rest)"
  "rd_u16 (le16 b @ rest) = Inr (b, rest)"
  "rd_u32 (le32 c @ rest) = Inr (c, rest)"
  "rd_u64 (le64 d @ rest) = Inr (d, rest)"
  by (simp_all add: rd_u8_def rd_u16_def rd_u32_def rd_u64_def rmap_def rbind_def rreturn_def
      rd_le_append)

lemma rd_num_dec:
  "rd_u8 bs = Inr (a, r) \<Longrightarrow> bs = le8 a @ r"
  "rd_u16 bs = Inr (b, r) \<Longrightarrow> bs = le16 b @ r"
  "rd_u32 bs = Inr (c, r) \<Longrightarrow> bs = le32 c @ r"
  "rd_u64 bs = Inr (d, r) \<Longrightarrow> bs = le64 d @ r"
  by (auto simp: rd_u8_def rd_u16_def rd_u32_def rd_u64_def rmap_def rreturn_def
      rbind_eq_Inr_conv rd_le_Inr_conv of_nat_nat_of_le_inj)

lemma rd_num_short:
  "bs = [] \<Longrightarrow> rd_u8 bs = Inl IoEof"
  "length bs < 2 \<Longrightarrow> rd_u16 bs = Inl IoEof"
  "length bs < 4 \<Longrightarrow> rd_u32 bs = Inl IoEof"
  "length bs < 8 \<Longrightarrow> rd_u64 bs = Inl IoEof"
  by (simp_all add: rd_u8_def rd_u16_def rd_u32_def rd_u64_def rmap_def rbind_def rd_le_def)

lemma rd_u8_Cons [simp]: "rd_u8 (b # bs) = Inr (b, bs)"
  using rd_num_enc(1) [of b bs] by (simp add: le8_eq)

interpretation u8c: canonical_codec le8 rd_u8 "\<lambda>_. True"
  by unfold_locales (auto dest: rd_num_dec)

interpretation u16c: canonical_codec le16 rd_u16 "\<lambda>_. True"
  by unfold_locales (auto dest: rd_num_dec)

interpretation u32c: canonical_codec le32 rd_u32 "\<lambda>_. True"
  by unfold_locales (auto dest: rd_num_dec)

interpretation u64c: canonical_codec le64 rd_u64 "\<lambda>_. True"
  by unfold_locales (auto dest: rd_num_dec)

interpretation boolc: wire_codec wr_bool rd_bool "\<lambda>_. True"
  by unfold_locales (simp add: wr_bool_def rd_bool_def rmap_def rbind_def rreturn_def)

lemma read_n_bytes_append [codec_rt]:
  "length d \<le> MAX_LENGTH_PREFIXED_BYTES \<Longrightarrow> read_n_bytes (length d) (d @ rest) = Inr (d, rest)"
  by (simp add: read_n_bytes_def)

lemma read_n_bytes_Inr_conv:
  "read_n_bytes n bs = Inr (x, r)
    \<longleftrightarrow> n \<le> MAX_LENGTH_PREFIXED_BYTES \<and> length x = n \<and> bs = x @ r"
  by (auto simp: read_n_bytes_def split: if_splits)

lemma rd_array_Inr_conv:
  "rd_array n bs = Inr (x, r)
    \<longleftrightarrow> n \<le> MAX_LENGTH_PREFIXED_BYTES \<and> length x = n \<and> bs = x @ r"
  unfolding rd_array_def rbind_eq_Inr_conv read_n_bytes_Inr_conv
  by (auto simp: rreturn_def)

interpretation arrayc: canonical_codec id "rd_array n"
    "\<lambda>b. length b = n \<and> n \<le> MAX_LENGTH_PREFIXED_BYTES"
  by unfold_locales (simp_all add: rd_array_Inr_conv)

lemma from_vec_with_nul_app: "0 \<notin> set s \<Longrightarrow> from_vec_with_nul (s @ [0]) = Some s"
  by (simp add: from_vec_with_nul_def)

lemma from_vec_with_nul_Some: "from_vec_with_nul d = Some s \<Longrightarrow> d = s @ [0] \<and> 0 \<notin> set s"
  by (auto simp: from_vec_with_nul_def split: if_splits) (metis append_butlast_last_id)

lemma rd_cstring_enc:
  assumes "cstring_ok s"
  shows "rd_cstring (wr_cstring s @ rest) = Inr (s, rest)"
proof (cases "s = []")
  case True
  then show ?thesis by (simp add: rd_cstring_def wr_cstring_def rbind_def rreturn_def)
next
  case False
  have len: "unat (of_nat (length (s @ [0])) :: u16) = length (s @ [0])"
    using assms by (simp add: cstring_ok_def unat_of_nat_small del: of_nat_Suc)
  then have nz: "(of_nat (length (s @ [0])) :: u16) \<noteq> 0" by force
  have small: "length (s @ [0]) \<le> MAX_LENGTH_PREFIXED_BYTES"
    using assms by (simp add: cstring_ok_def MAX_LENGTH_PREFIXED_BYTES_def)
  have "rd_cstring (wr_cstring s @ rest)
      = rbind (read_n_bytes (length (s @ [0]))) (\<lambda>data.
          case from_vec_with_nul data of None \<Rightarrow> rfail ParseCString | Some s \<Rightarrow> rreturn s)
          ((s @ [0]) @ rest)"
    using False nz len
    by (simp add: rd_cstring_def wr_cstring_def rbind_def del: of_nat_Suc length_append)
  also have "\<dots> = Inr (s, rest)"
    using assms read_n_bytes_append [OF small, of rest]
    by (simp add: rbind_def from_vec_with_nul_app cstring_ok_def rreturn_def)
  finally show ?thesis .
qed

interpretation cstringc: wire_codec wr_cstring rd_cstring cstring_ok
  by unfold_locales (rule rd_cstring_enc)

lemma wr_string_cstring: "length s < 65535 \<Longrightarrow> wr_string s = wr_cstring (str_bytes s)"
  by (simp add: wr_string_def wr_cstring_def le8_eq add.commute)

interpretation stringc: wire_codec wr_string rd_string string_ok
proof
  fix x rest assume "string_ok x"
  then show "rd_string (wr_string x @ rest) = Inr (x, rest)"
    by (simp add: rd_string_def string_ok_def wr_string_cstring rbind_def rreturn_def
        cstringc.dec_enc cstring_ok_def)
qed

text \<open>Products of codecs: the tuple implementations and the derive macro chain them.\<close>

lemma wire_codec_pair:
  assumes "wire_codec ea da oa" and "wire_codec eb db ob"
  shows "wire_codec (wr_pair ea eb) (rd_pair da db) (\<lambda>p. oa (fst p) \<and> ob (snd p))"
proof
  fix x rest assume "oa (fst x) \<and> ob (snd x)"
  then show "rd_pair da db (wr_pair ea eb x @ rest) = Inr (x, rest)"
    by (simp add: rd_pair_def wr_pair_def rbind_def rreturn_def
        wire_codec.dec_enc [OF assms(1)] wire_codec.dec_enc [OF assms(2)])
qed

lemma wire_codec_vec:
  assumes "wire_codec e d ok"
  shows "wire_codec (wr_vec e) (rd_vec d)
    (\<lambda>xs. list_all ok xs \<and> length xs \<le> MAX_COLLECTION_ITEMS)"
  by unfold_locales (simp add: wire_codec.rd_vec_enc [OF assms])

interpretation bytesc: wire_codec "wr_vec le8" "rd_vec rd_u8"
    "\<lambda>xs. list_all (\<lambda>_. True) xs \<and> length xs \<le> MAX_COLLECTION_ITEMS"
  by (rule wire_codec_vec) (rule u8c.wire_codec_axioms)

lemma concat_map_le8 [simp]: "concat (map le8 bs) = bs"
  by (induction bs) (simp_all add: le8_eq)

text \<open>Inserting the entries of a map one by one, later entries winning.\<close>

lemma insert_all_snoc: "insert_all (kvs @ [(k, v)]) = (insert_all kvs)(k \<mapsto> v)"
  by (simp add: insert_all_def)

lemma insert_all_rev: "insert_all kvs = map_of (rev kvs)"
proof (induction kvs rule: rev_induct)
  case Nil
  then show ?case by (simp add: insert_all_def)
next
  case (snoc kv kvs)
  then show ?case by (cases kv) (simp add: insert_all_snoc)
qed

lemma map_of_rev_distinct: "distinct (map fst kvs) \<Longrightarrow> map_of (rev kvs) = map_of kvs"
proof (induction kvs)
  case Nil
  then show ?case by simp
next
  case (Cons kv kvs)
  then have "map_of kvs (fst kv) = None" by (simp add: map_of_eq_None_iff)
  with Cons show ?case
    by (cases kv) (auto simp: map_add_def fun_eq_iff split: option.splits)
qed

lemma insert_all_distinct: "distinct (map fst kvs) \<Longrightarrow> insert_all kvs = map_of kvs"
  by (simp add: insert_all_rev map_of_rev_distinct)

lemma rd_hashmap_enc:
  assumes "wire_codec ek dk okk" and "wire_codec ev dv okv"
    and "\<forall>(k, v)\<in>set kvs. okk k \<and> okv v" and "length kvs \<le> MAX_COLLECTION_ITEMS"
  shows "rd_hashmap dk dv (wr_hashmap ek ev kvs @ rest) = Inr (insert_all kvs, rest)"
proof -
  have p: "wire_codec (wr_pair ek ev) (rd_pair dk dv) (\<lambda>p. okk (fst p) \<and> okv (snd p))"
    by (rule wire_codec_pair [OF assms(1,2)])
  have len: "unat (of_nat (length kvs) :: u32) = length kvs"
    using assms(4) by (simp add: MAX_COLLECTION_ITEMS_def unat_of_nat_small)
  have ok: "list_all (\<lambda>p. okk (fst p) \<and> okv (snd p)) kvs"
    using assms(3) by (auto simp: list_all_iff)
  from wire_codec.rd_many_enc [OF p ok, of rest] assms(4) len show ?thesis
    by (simp add: rd_hashmap_def wr_hashmap_def rbind_def rmap_def rreturn_def)
qed

section \<open>Rejections\<close>

lemma read_n_bytes_limit:
  "l > MAX_LENGTH_PREFIXED_BYTES \<Longrightarrow>
    read_n_bytes l bs = Inl (LengthLimitExceeded l MAX_LENGTH_PREFIXED_BYTES)"
  by (simp add: read_n_bytes_def)

lemma rd_many_length: "rd_many n d bs = Inr (xs, r) \<Longrightarrow> length xs = n"
  by (induction n arbitrary: bs xs r)
    (auto simp: rreturn_def rbind_def split: sum.splits prod.splits)

lemma rd_vec_length: "rd_vec d bs = Inr (xs, r) \<Longrightarrow> length xs \<le> MAX_COLLECTION_ITEMS"
  by (auto simp: rd_vec_def rfail_def rbind_eq_Inr_conv dest!: rd_many_length split: if_splits)

end
