(* ===== verification/Rmc.thy ===== *)
theory Rmc
  imports Wire_Stream
begin

text \<open>
  The remote method call layer, \<open>server/quazal/src/rmc.rs\<close>: requests, responses, the error
  codes that cross the wire, and the dispatch of \<open>RVSecHandler\<close>.
\<close>

section \<open>Errors\<close>

datatype rmc_error =
    MissingData nat nat
  | ParsingError
  | UnknownProtocol
  | UnknownMethod
  | UnimplementedMethod
  | InvalidPacketType
  | InternalError
  | AccessDenied
  | RmcIO
  | FromStream from_stream_error

primrec to_error_code :: "rmc_error \<Rightarrow> u32" where
  "to_error_code (MissingData _ _) = 0x00010009 OR 0x80000000"
| "to_error_code ParsingError = 0x0001000A OR 0x80000000"
| "to_error_code UnknownProtocol = 0x00010001 OR 0x80000000"
| "to_error_code UnknownMethod = 0x00010001 OR 0x80000000"
| "to_error_code UnimplementedMethod = 0x00010002 OR 0x80000000"
| "to_error_code InvalidPacketType = 0x0001000A OR 0x80000000"
| "to_error_code InternalError = 0x00010012 OR 0x80000000"
| "to_error_code AccessDenied = 0x00010006 OR 0x80000000"
| "to_error_code RmcIO = 0x0001000A OR 0x80000000"
| "to_error_code (FromStream _) = 0x0001000A OR 0x80000000"

definition from_error_code :: "u32 \<Rightarrow> u32 + rmc_error" where
  "from_error_code code =
    (if code AND 0x80000000 \<noteq> 0 then
       (let c = code AND NOT 0x80000000 in
        if c = 0x00010001 then Inr UnknownProtocol
        else if c = 0x00010002 then Inr UnimplementedMethod
        else if c = 0x00010006 then Inr AccessDenied
        else if c = 0x00010009 then Inr (MissingData 0 0)
        else if c = 0x0001000A then Inr ParsingError
        else if c = 0x00010012 then Inr InternalError
        else Inl c)
     else Inl code)"

text \<open>The representative that decoding gives back for an error.\<close>

primrec error_class :: "rmc_error \<Rightarrow> rmc_error" where
  "error_class (MissingData _ _) = MissingData 0 0"
| "error_class ParsingError = ParsingError"
| "error_class UnknownProtocol = UnknownProtocol"
| "error_class UnknownMethod = UnknownProtocol"
| "error_class UnimplementedMethod = UnimplementedMethod"
| "error_class InvalidPacketType = ParsingError"
| "error_class InternalError = InternalError"
| "error_class AccessDenied = AccessDenied"
| "error_class RmcIO = ParsingError"
| "error_class (FromStream _) = ParsingError"

lemma from_to_error_code: "from_error_code (to_error_code e) = Inr (error_class e)"
  by (cases e) (simp_all add: from_error_code_def)

section \<open>Requests\<close>

text \<open>\<open>byteorder\<close> reads fail with an I/O error, which \<open>?\<close> turns into \<open>Error::IO\<close>.\<close>

definition io :: "from_stream_error + 'a \<Rightarrow> rmc_error + 'a" where
  "io m = (case m of Inl _ \<Rightarrow> Inl RmcIO | Inr x \<Rightarrow> Inr x)"

lemma io_simps [simp]: "io (Inl e) = Inl RmcIO" "io (Inr x) = Inr x"
  by (simp_all add: io_def)

record request =
  req_protocol_id :: u16
  req_call_id :: u32
  req_method_id :: u32
  req_parameters :: bytes

text \<open>
  \<open>data.len() - 4\<close> follows a successful read of four bytes, so it does not underflow.
\<close>

definition request_from_bytes :: "bytes \<Rightarrow> rmc_error + request" where
  "request_from_bytes data =
    ebind (io (rd_u32 data)) (\<lambda>(size, r).
    if unat size < length data - 4 then Inl (MissingData (unat size) (length data - 4))
    else ebind (io (rd_u8 r)) (\<lambda>(pid, r).
    ebind (if pid = 0xff then io (rd_u16 r) else Inr (ucast (pid AND NOT 0x80), r)) (\<lambda>(protocol_id, r).
    ebind (io (rd_u32 r)) (\<lambda>(call_id, r).
    ebind (io (rd_u32 r)) (\<lambda>(method_id, r).
    Inr \<lparr>req_protocol_id = protocol_id, req_call_id = call_id, req_method_id = method_id,
         req_parameters = r\<rparr>)))))"

definition request_header :: "u16 \<Rightarrow> bytes" where
  "request_header p = (if p < 0xff then le8 (ucast p OR 0x80) else le8 0xff @ le16 p)"

definition request_body :: "request \<Rightarrow> bytes" where
  "request_body r = request_header (req_protocol_id r) @ le32 (req_call_id r)
     @ le32 (req_method_id r) @ req_parameters r"

definition request_to_bytes :: "request \<Rightarrow> bytes" where
  "request_to_bytes r = le32 (of_nat (length (request_body r))) @ request_body r"

section \<open>Responses\<close>

record response_data =
  rsp_call_id :: u32
  rsp_method_id :: u32
  rsp_data :: bytes

record response_error =
  err_code :: u32
  err_call_id :: u32

record response =
  rsp_protocol_id :: u16
  rsp_result :: "response_error + response_data"

definition response_data_from_reader :: "bytes \<Rightarrow> rmc_error + response_data" where
  "response_data_from_reader bs =
    ebind (io (rd_u32 bs)) (\<lambda>(call_id, r).
    ebind (io (rd_u32 r)) (\<lambda>(m, r).
    Inr \<lparr>rsp_call_id = call_id, rsp_method_id = m AND NOT 0x8000, rsp_data = r\<rparr>))"

definition response_data_to_bytes :: "response_data \<Rightarrow> bytes" where
  "response_data_to_bytes d = le32 (rsp_call_id d) @ le32 (rsp_method_id d OR 0x8000) @ rsp_data d"

definition response_error_from_reader :: "bytes \<Rightarrow> rmc_error + response_error" where
  "response_error_from_reader bs =
    ebind (io (rd_u32 bs)) (\<lambda>(code, r).
    ebind (io (rd_u32 r)) (\<lambda>(call_id, r).
    Inr \<lparr>err_code = code, err_call_id = call_id\<rparr>))"

definition response_error_to_bytes :: "response_error \<Rightarrow> bytes" where
  "response_error_to_bytes e = le32 (err_code e) @ le32 (err_call_id e)"

text \<open>The three parts of \<open>Response::from_bytes\<close> after the size, which it does not check.\<close>

definition response_pid :: "bytes \<Rightarrow> rmc_error + u16 \<times> bytes" where
  "response_pid bs =
    ebind (io (rd_u8 bs)) (\<lambda>(pid, r).
    if pid = 0x7f then io (rd_u16 r) else Inr (ucast pid, r))"

definition response_status :: "bytes \<Rightarrow> rmc_error + (response_error + response_data)" where
  "response_status bs =
    ebind (io (rd_u8 bs)) (\<lambda>(status, r).
    if status = 0 then ebind (response_error_from_reader r) (\<lambda>e. Inr (Inl e))
    else if status = 1 then ebind (response_data_from_reader r) (\<lambda>d. Inr (Inr d))
    else Inl InvalidPacketType)"

definition response_from_bytes :: "bytes \<Rightarrow> rmc_error + response" where
  "response_from_bytes data =
    ebind (io (rd_u32 data)) (\<lambda>(_, r).
    ebind (response_pid r) (\<lambda>(protocol_id, r).
    ebind (response_status r) (\<lambda>result.
    Inr \<lparr>rsp_protocol_id = protocol_id, rsp_result = result\<rparr>)))"

definition response_header :: "u16 \<Rightarrow> bytes" where
  "response_header p =
    (if p < 0x7f then [ucast p] else [0x7f, ucast (p AND 0xff), ucast (drop_bit 8 p)])"

definition response_body :: "response \<Rightarrow> bytes" where
  "response_body r = response_header (rsp_protocol_id r)
     @ (case rsp_result r of
          Inr d \<Rightarrow> [1] @ response_data_to_bytes d
        | Inl e \<Rightarrow> [0] @ response_error_to_bytes e)"

definition response_to_bytes :: "response \<Rightarrow> bytes" where
  "response_to_bytes r = le32 (of_nat (length (response_body r))) @ response_body r"

section \<open>Packets\<close>

datatype rmc_packet = PRequest request | PResponse response

definition rmc_packet_from_bytes :: "bytes \<Rightarrow> rmc_error + rmc_packet" where
  "rmc_packet_from_bytes data =
    (if length data < 5 then Inl (MissingData 5 (length data))
     else if data ! 4 AND 0x80 = 0 then ebind (response_from_bytes data) (\<lambda>r. Inr (PResponse r))
     else ebind (request_from_bytes data) (\<lambda>r. Inr (PRequest r)))"

primrec rmc_packet_to_bytes :: "rmc_packet \<Rightarrow> bytes" where
  "rmc_packet_to_bytes (PRequest r) = request_to_bytes r"
| "rmc_packet_to_bytes (PResponse r) = response_to_bytes r"

section \<open>Round trips\<close>

text \<open>
  The requests whose protocol identifier survives: below \<open>0x7f\<close> it is carried in one byte
  with the request bit, from \<open>0xff\<close> on in two more bytes. The identifiers between are not
  representable.
\<close>

definition request_ok :: "request \<Rightarrow> bool" where
  "request_ok r \<longleftrightarrow> (req_protocol_id r < 0x7f \<or> 0xff \<le> req_protocol_id r)
     \<and> length (request_body r) < 2 ^ 32"

definition response_ok :: "response \<Rightarrow> bool" where
  "response_ok r \<longleftrightarrow> length (response_body r) < 2 ^ 32 \<and>
     (case rsp_result r of Inr d \<Rightarrow> \<not> bit (rsp_method_id d) 15 | Inl _ \<Rightarrow> True)"

text \<open>The one-byte form: checked for each of the 127 identifiers.\<close>

lemma short_id_table: "list_all (\<lambda>n. let p = (of_nat n :: u16) in
    ucast ((ucast p OR (0x80 :: u8)) AND NOT 0x80) = p \<and> ucast p OR (0x80 :: u8) \<noteq> 0xff
    \<and> (ucast p OR (0x80 :: u8)) AND 0x80 \<noteq> 0
    \<and> ucast (ucast p :: u8) = p \<and> (ucast p :: u8) \<noteq> 0x7f \<and> (ucast p :: u8) AND 0x80 = 0)
   [0..<127]"
  by code_simp

lemma short_id:
  fixes p :: u16
  assumes "p < 0x7f"
  shows "ucast ((ucast p OR (0x80 :: u8)) AND NOT 0x80) = p"
    and "ucast p OR (0x80 :: u8) \<noteq> 0xff"
    and "(ucast p OR (0x80 :: u8)) AND 0x80 \<noteq> 0"
    and "ucast (ucast p :: u8) = p"
    and "(ucast p :: u8) \<noteq> 0x7f"
    and "(ucast p :: u8) AND 0x80 = 0"
proof -
  have "unat p \<in> set [0..<127]" using assms by (simp add: word_less_nat_alt)
  with short_id_table have "(\<lambda>n. let p = (of_nat n :: u16) in
    ucast ((ucast p OR (0x80 :: u8)) AND NOT 0x80) = p \<and> ucast p OR (0x80 :: u8) \<noteq> 0xff
    \<and> (ucast p OR (0x80 :: u8)) AND 0x80 \<noteq> 0
    \<and> ucast (ucast p :: u8) = p \<and> (ucast p :: u8) \<noteq> 0x7f \<and> (ucast p :: u8) AND 0x80 = 0) (unat p)"
    unfolding list_all_iff by (rule bspec)
  then show "ucast ((ucast p OR (0x80 :: u8)) AND NOT 0x80) = p"
    and "ucast p OR (0x80 :: u8) \<noteq> 0xff"
    and "(ucast p OR (0x80 :: u8)) AND 0x80 \<noteq> 0"
    and "ucast (ucast p :: u8) = p"
    and "(ucast p :: u8) \<noteq> 0x7f"
    and "(ucast p :: u8) AND 0x80 = 0"
    unfolding Let_def of_nat_unat ucast_id by blast+
qed

lemma request_from_to_bytes:
  assumes "request_ok r"
  shows "request_from_bytes (request_to_bytes r) = Inr r"
proof -
  have len: "unat (of_nat (length (request_body r)) :: u32) = length (request_body r)"
    using assms by (simp add: request_ok_def unat_of_nat_small)
  show ?thesis
  proof (cases "req_protocol_id r < 0x7f")
    case True
    then have "req_protocol_id r < 0xff" by (simp add: word_less_nat_alt)
    with True len show ?thesis
      by (simp add: request_from_bytes_def request_to_bytes_def request_body_def
          request_header_def le8_eq short_id [simplified] del: of_nat_add of_nat_Suc)
  next
    case False
    then have "0xff \<le> req_protocol_id r" using assms by (simp add: request_ok_def)
    then have "\<not> req_protocol_id r < 0xff" by simp
    with len show ?thesis
      by (simp add: request_from_bytes_def request_to_bytes_def request_body_def
          request_header_def le8_eq del: of_nat_add of_nat_Suc)
  qed
qed

lemma response_data_from_to_bytes:
  assumes "\<not> bit (rsp_method_id d) 15"
  shows "response_data_from_reader (response_data_to_bytes d) = Inr d"
proof -
  have "(rsp_method_id d OR 0x8000) AND NOT 0x8000 = rsp_method_id d"
    using and_not_clear [OF assms] unfolding or_and_not by simp
  then show ?thesis
    by (simp add: response_data_from_reader_def response_data_to_bytes_def)
qed

lemma response_error_from_to_bytes:
  "response_error_from_reader (response_error_to_bytes e) = Inr e"
  using rd_num_enc(3) [of "err_call_id e" "[]"]
  by (simp add: response_error_from_reader_def response_error_to_bytes_def)

lemma response_header_long: "0x7f \<le> p \<Longrightarrow> response_header p = le8 0x7f @ le16 p"
  by (auto simp: response_header_def le16_eq le8_eq)

lemma response_status_enc:
  assumes "response_ok r"
  shows "response_status (case rsp_result r of Inr d \<Rightarrow> [1] @ response_data_to_bytes d
            | Inl e \<Rightarrow> [0] @ response_error_to_bytes e) = Inr (rsp_result r)"
  using assms by (cases "rsp_result r")
    (simp_all add: response_status_def response_ok_def response_data_from_to_bytes
      response_error_from_to_bytes)

lemma response_pid_enc: "response_pid (response_header p @ rest) = Inr (p, rest)"
proof (cases "p < 0x7f")
  case True
  then show ?thesis by (simp add: response_pid_def response_header_def short_id)
next
  case False
  then have "response_header p = le8 0x7f @ le16 p" by (simp add: response_header_long)
  then show ?thesis by (simp add: response_pid_def le8_eq)
qed

lemma response_from_to_bytes:
  "response_ok r \<Longrightarrow> response_from_bytes (response_to_bytes r) = Inr r"
  using response_status_enc [of r]
  by (simp add: response_from_bytes_def response_to_bytes_def response_body_def
      response_pid_enc)


lemma request_header_marked:
  assumes "p < 0x7f \<or> 0xff \<le> p"
  shows "\<exists>b rest. request_header p = b # rest \<and> b AND 0x80 \<noteq> 0"
proof (cases "p < 0x7f")
  case True
  then have "p < 0xff" by (simp add: word_less_nat_alt)
  then have "request_header p = [ucast p OR 0x80]" by (simp add: request_header_def le8_eq)
  with short_id(3) [OF True] show ?thesis by blast
next
  case False
  then have "\<not> p < 0xff" using assms by auto
  then have "request_header p = 0xff # le16 p" by (simp add: request_header_def le8_eq)
  moreover have "(0xff :: u8) AND 0x80 \<noteq> 0" by simp
  ultimately show ?thesis by blast
qed

lemma le32_nth: "length (le32 w) = 4" by simp

lemma rmc_packet_request:
  assumes "request_ok r"
  shows "rmc_packet_from_bytes (request_to_bytes r) = Inr (PRequest r)"
proof -
  obtain b rest where h: "request_header (req_protocol_id r) = b # rest" and b: "b AND 0x80 \<noteq> 0"
    using request_header_marked assms unfolding request_ok_def by blast
  have "request_to_bytes r = le32 (of_nat (length (request_body r))) @ b # rest
      @ le32 (req_call_id r) @ le32 (req_method_id r) @ req_parameters r"
    by (simp add: request_to_bytes_def request_body_def h)
  then have "request_to_bytes r ! 4 = b" and "\<not> length (request_to_bytes r) < 5"
    by (simp_all add: nth_append)
  with b request_from_to_bytes [OF assms] show ?thesis
    by (simp add: rmc_packet_from_bytes_def)
qed

lemma response_header_unmarked: "\<exists>b rest. response_header p = b # rest \<and> b AND 0x80 = 0"
proof (cases "p < 0x7f")
  case True
  then show ?thesis using short_id(6) [OF True] by (simp add: response_header_def)
next
  case False
  then have "response_header p = 0x7f # tl (response_header p)" by (simp add: response_header_def)
  moreover have "(0x7f :: u8) AND 0x80 = 0" by simp
  ultimately show ?thesis by blast
qed

lemma rmc_packet_response:
  assumes "response_ok r"
  shows "rmc_packet_from_bytes (response_to_bytes r) = Inr (PResponse r)"
proof -
  obtain b rest where h: "response_header (rsp_protocol_id r) = b # rest" and b: "b AND 0x80 = 0"
    using response_header_unmarked by blast
  obtain tail where "response_to_bytes r = le32 (of_nat (length (response_body r))) @ b # tail"
    by (auto simp: response_to_bytes_def response_body_def h)
  then have "response_to_bytes r ! 4 = b" and "\<not> length (response_to_bytes r) < 5"
    by (simp_all add: nth_append)
  with b response_from_to_bytes [OF assms] show ?thesis
    by (simp add: rmc_packet_from_bytes_def)
qed


text \<open>The identifiers between: the request bit swallows bit 7.\<close>

lemma middle_id_table: "list_all (\<lambda>n. let p = (of_nat n :: u16) in
    ucast ((ucast p OR (0x80 :: u8)) AND NOT 0x80) = p AND NOT 0x80 \<and> ucast p OR (0x80 :: u8) \<noteq> 0xff)
   [128..<255]"
  by code_simp

lemma middle_id:
  fixes p :: u16
  assumes "0x80 \<le> p" and "p < 0xff"
  shows "ucast ((ucast p OR (0x80 :: u8)) AND NOT 0x80) = p AND NOT 0x80"
    and "ucast p OR (0x80 :: u8) \<noteq> 0xff"
proof -
  have "128 \<le> unat p" "unat p < 255" using assms by (simp_all add: word_less_nat_alt word_le_nat_alt)
  then have "unat p \<in> set [128..<255]" by (simp only: atLeastLessThan_upt [symmetric] atLeastLessThan_iff)
  with middle_id_table have "(\<lambda>n. let p = (of_nat n :: u16) in
    ucast ((ucast p OR (0x80 :: u8)) AND NOT 0x80) = p AND NOT 0x80 \<and> ucast p OR (0x80 :: u8) \<noteq> 0xff)
    (unat p)"
    unfolding list_all_iff by (rule bspec)
  then show "ucast ((ucast p OR (0x80 :: u8)) AND NOT 0x80) = p AND NOT 0x80"
    and "ucast p OR (0x80 :: u8) \<noteq> 0xff"
    unfolding Let_def of_nat_unat ucast_id by blast+
qed

lemma request_middle_id:
  assumes "0x80 \<le> req_protocol_id r" and "req_protocol_id r < 0xff"
    and "length (request_body r) < 2 ^ 32"
  shows "request_from_bytes (request_to_bytes r)
    = Inr (r\<lparr>req_protocol_id := req_protocol_id r AND NOT 0x80\<rparr>)"
proof -
  have len: "unat (of_nat (length (request_body r)) :: u32) = length (request_body r)"
    using assms(3) by (simp add: unat_of_nat_small)
  then show ?thesis
    using assms(2) middle_id [OF assms(1,2)]
    by (simp add: request_from_bytes_def request_to_bytes_def request_body_def
        request_header_def le8_eq del: of_nat_add of_nat_Suc)
qed

section \<open>Properties\<close>

text \<open>The packets that can be read back.\<close>

definition rmc_packet_ok :: "rmc_packet \<Rightarrow> bool" where
  "rmc_packet_ok p = (case p of PRequest r \<Rightarrow> request_ok r | PResponse r \<Rightarrow> response_ok r)"

text \<open>Requests and responses are told apart by the fifth byte and read
  back unchanged: protocol, call and method ids, parameters, data and error codes.\<close>

lemma rmc_packet_roundtrip:
  assumes "rmc_packet_ok p"
  shows "rmc_packet_from_bytes (rmc_packet_to_bytes p) = Inr p"
  using assms rmc_packet_request rmc_packet_response
  by (cases p) (simp_all add: rmc_packet_ok_def)

lemma rmc_packet_roundtrip_witness:
  "rmc_packet_from_bytes (rmc_packet_to_bytes (PResponse \<lparr>rsp_protocol_id = 300,
      rsp_result = Inr \<lparr>rsp_call_id = 2, rsp_method_id = 3, rsp_data = [72, 105]\<rparr>\<rparr>))
    = Inr (PResponse \<lparr>rsp_protocol_id = 300,
      rsp_result = Inr \<lparr>rsp_call_id = 2, rsp_method_id = 3, rsp_data = [72, 105]\<rparr>\<rparr>)"
  by (rule rmc_packet_roundtrip)
    (simp add: rmc_packet_ok_def response_ok_def response_body_def response_header_def
      response_data_to_bytes_def bit_numeral_rec(2))

text \<open>A request for a protocol id from 128 to 254 is read back
  as a request for the id without bit 7: the two are not distinguished on the wire.\<close>

lemma request_protocol_id_collapse:
  assumes "0x80 \<le> req_protocol_id r" and "req_protocol_id r < 0xff"
    and "length (request_body r) < 2 ^ 32"
  shows "request_from_bytes (request_to_bytes r)
    = Inr (r\<lparr>req_protocol_id := req_protocol_id r AND NOT 0x80\<rparr>)"
  using assms by (rule request_middle_id)

lemma request_protocol_id_collapse_witness:
  "request_from_bytes (request_to_bytes
      \<lparr>req_protocol_id = 0x8a, req_call_id = 1, req_method_id = 2, req_parameters = [7]\<rparr>)
    = Inr \<lparr>req_protocol_id = 0x0a, req_call_id = 1, req_method_id = 2, req_parameters = [7]\<rparr>"
  using request_protocol_id_collapse [of "\<lparr>req_protocol_id = 0x8a, req_call_id = 1,
      req_method_id = 2, req_parameters = [7]\<rparr>"]
  by (simp add: request_body_def request_header_def)

text \<open>Every error has the error bit set in its code, and decoding the
  code gives the error of the same class: the conversion loses only what several errors
  share.\<close>

lemma error_code_roundtrip:
  "from_error_code (to_error_code e) = Inr (error_class e)
    \<and> to_error_code (error_class e) = to_error_code e \<and> to_error_code e AND 0x80000000 \<noteq> 0"
  by (cases e) (simp_all add: from_error_code_def)

end
