(* ===== verification/Result_Codes.thy ===== *)
theory Result_Codes
  imports Prelude
begin

text \<open>
  The Quazal result codes, \<open>server/quazal/src/rmc/result.rs\<close>: eighteen enumerations with
  16-bit codes and the 32-bit code that packs a category, a code and the error bit. The
  derived conversions \<open>IntoPrimitive\<close> and \<open>TryFromPrimitive\<close> of an enumeration are its code
  function and the search of its constructors for a code; the locale \<open>code_enum\<close> states what
  that search needs, and is interpreted on every enumeration.
\<close>

section \<open>The enumerations\<close>

datatype core_error =
    CoreError_Unknown | CoreError_NotImplemented | CoreError_InvalidPointer |
    CoreError_OperationAborted | CoreError_Exception | CoreError_AccessDenied |
    CoreError_InvalidHandle | CoreError_InvalidIndex | CoreError_OutOfMemory |
    CoreError_InvalidArgument | CoreError_Timeout | CoreError_InitializationFailure |
    CoreError_CallInitiationFailure | CoreError_RegistrationError |
    CoreError_BufferOverflow | CoreError_InvalidLockState | CoreError_InvalidSequence |
    CoreError_SystemError | CoreError_Cancelled

primrec core_error_code :: "core_error \<Rightarrow> u16" where
  "core_error_code CoreError_Unknown = 1"
| "core_error_code CoreError_NotImplemented = 2"
| "core_error_code CoreError_InvalidPointer = 3"
| "core_error_code CoreError_OperationAborted = 4"
| "core_error_code CoreError_Exception = 5"
| "core_error_code CoreError_AccessDenied = 6"
| "core_error_code CoreError_InvalidHandle = 7"
| "core_error_code CoreError_InvalidIndex = 8"
| "core_error_code CoreError_OutOfMemory = 9"
| "core_error_code CoreError_InvalidArgument = 10"
| "core_error_code CoreError_Timeout = 11"
| "core_error_code CoreError_InitializationFailure = 12"
| "core_error_code CoreError_CallInitiationFailure = 13"
| "core_error_code CoreError_RegistrationError = 14"
| "core_error_code CoreError_BufferOverflow = 15"
| "core_error_code CoreError_InvalidLockState = 16"
| "core_error_code CoreError_InvalidSequence = 17"
| "core_error_code CoreError_SystemError = 18"
| "core_error_code CoreError_Cancelled = 19"

definition core_errors :: "core_error list" where
  "core_errors =
    [CoreError_Unknown, CoreError_NotImplemented, CoreError_InvalidPointer,
    CoreError_OperationAborted, CoreError_Exception, CoreError_AccessDenied,
    CoreError_InvalidHandle, CoreError_InvalidIndex, CoreError_OutOfMemory,
    CoreError_InvalidArgument, CoreError_Timeout, CoreError_InitializationFailure,
    CoreError_CallInitiationFailure, CoreError_RegistrationError, CoreError_BufferOverflow,
    CoreError_InvalidLockState, CoreError_InvalidSequence, CoreError_SystemError,
    CoreError_Cancelled]"

interpretation core_error_enum: code_enum core_error_code core_errors
proof
  fix e show "e \<in> set core_errors" by (cases e) (simp_all add: core_errors_def)
qed (simp add: core_errors_def)

datatype ddlerror =
    DDLError_InvalidSignature | DDLError_IncorrectVersion

primrec ddlerror_code :: "ddlerror \<Rightarrow> u16" where
  "ddlerror_code DDLError_InvalidSignature = 1"
| "ddlerror_code DDLError_IncorrectVersion = 2"

definition ddlerrors :: "ddlerror list" where
  "ddlerrors =
    [DDLError_InvalidSignature, DDLError_IncorrectVersion]"

interpretation ddlerror_enum: code_enum ddlerror_code ddlerrors
proof
  fix e show "e \<in> set ddlerrors" by (cases e) (simp_all add: ddlerrors_def)
qed (simp add: ddlerrors_def)

datatype rendez_vous_error =
    RendezVousError_ConnectionFailure | RendezVousError_NotAuthenticated |
    RendezVousError_InvalidUsername | RendezVousError_InvalidPassword |
    RendezVousError_UsernameAlreadyExists | RendezVousError_AccountDisabled |
    RendezVousError_AccountExpired | RendezVousError_ConcurrentLoginDenied |
    RendezVousError_EncryptionFailure | RendezVousError_InvalidPID |
    RendezVousError_MaxConnectionsReached | RendezVousError_InvalidGID |
    RendezVousError_InvalidControlScriptID |
    RendezVousError_InvalidOperationInLiveEnvironment | RendezVousError_DuplicateEntry |
    RendezVousError_ControlScriptFailure | RendezVousError_ClassNotFound |
    RendezVousError_SessionVoid | RendezVousError_DDLMismatch |
    RendezVousError_InvalidConfiguration | RendezVousError_SessionFull |
    RendezVousError_InvalidGatheringPassword | RendezVousError_WithoutParticipationPeriod |
    RendezVousError_PersistentGatheringCreationMax |
    RendezVousError_PersistentGatheringParticipationMax |
    RendezVousError_DeniedByParticipants | RendezVousError_ParticipantInBlackList |
    RendezVousError_GameServerMaintenance | RendezVousError_OperationPostpone |
    RendezVousError_OutOfRatingRange | RendezVousError_ConnectionDisconnected |
    RendezVousError_InvalidOperation | RendezVousError_NotParticipatedGathering |
    RendezVousError_MatchmakeSessionUserPasswordUnmatch |
    RendezVousError_MatchmakeSessionSystemPasswordUnmatch | RendezVousError_UserIsOffline |
    RendezVousError_AlreadyParticipatedGathering | RendezVousError_PermissionDenied |
    RendezVousError_NotFriend | RendezVousError_SessionClosed |
    RendezVousError_DatabaseTemporarilyUnavailable | RendezVousError_InvalidUniqueId |
    RendezVousError_MatchmakingWithdrawn | RendezVousError_LimitExceeded |
    RendezVousError_AccountTemporarilyDisabled | RendezVousError_PartiallyServiceClosed |
    RendezVousError_ConnectionDisconnectedForConcurrentLogin

primrec rendez_vous_error_code :: "rendez_vous_error \<Rightarrow> u16" where
  "rendez_vous_error_code RendezVousError_ConnectionFailure = 1"
| "rendez_vous_error_code RendezVousError_NotAuthenticated = 2"
| "rendez_vous_error_code RendezVousError_InvalidUsername = 100"
| "rendez_vous_error_code RendezVousError_InvalidPassword = 101"
| "rendez_vous_error_code RendezVousError_UsernameAlreadyExists = 102"
| "rendez_vous_error_code RendezVousError_AccountDisabled = 103"
| "rendez_vous_error_code RendezVousError_AccountExpired = 104"
| "rendez_vous_error_code RendezVousError_ConcurrentLoginDenied = 105"
| "rendez_vous_error_code RendezVousError_EncryptionFailure = 106"
| "rendez_vous_error_code RendezVousError_InvalidPID = 107"
| "rendez_vous_error_code RendezVousError_MaxConnectionsReached = 108"
| "rendez_vous_error_code RendezVousError_InvalidGID = 109"
| "rendez_vous_error_code RendezVousError_InvalidControlScriptID = 110"
| "rendez_vous_error_code RendezVousError_InvalidOperationInLiveEnvironment = 111"
| "rendez_vous_error_code RendezVousError_DuplicateEntry = 112"
| "rendez_vous_error_code RendezVousError_ControlScriptFailure = 113"
| "rendez_vous_error_code RendezVousError_ClassNotFound = 114"
| "rendez_vous_error_code RendezVousError_SessionVoid = 115"
| "rendez_vous_error_code RendezVousError_DDLMismatch = 117"
| "rendez_vous_error_code RendezVousError_InvalidConfiguration = 118"
| "rendez_vous_error_code RendezVousError_SessionFull = 200"
| "rendez_vous_error_code RendezVousError_InvalidGatheringPassword = 201"
| "rendez_vous_error_code RendezVousError_WithoutParticipationPeriod = 202"
| "rendez_vous_error_code RendezVousError_PersistentGatheringCreationMax = 203"
| "rendez_vous_error_code RendezVousError_PersistentGatheringParticipationMax = 204"
| "rendez_vous_error_code RendezVousError_DeniedByParticipants = 205"
| "rendez_vous_error_code RendezVousError_ParticipantInBlackList = 206"
| "rendez_vous_error_code RendezVousError_GameServerMaintenance = 207"
| "rendez_vous_error_code RendezVousError_OperationPostpone = 208"
| "rendez_vous_error_code RendezVousError_OutOfRatingRange = 209"
| "rendez_vous_error_code RendezVousError_ConnectionDisconnected = 210"
| "rendez_vous_error_code RendezVousError_InvalidOperation = 211"
| "rendez_vous_error_code RendezVousError_NotParticipatedGathering = 212"
| "rendez_vous_error_code RendezVousError_MatchmakeSessionUserPasswordUnmatch = 213"
| "rendez_vous_error_code RendezVousError_MatchmakeSessionSystemPasswordUnmatch = 214"
| "rendez_vous_error_code RendezVousError_UserIsOffline = 215"
| "rendez_vous_error_code RendezVousError_AlreadyParticipatedGathering = 216"
| "rendez_vous_error_code RendezVousError_PermissionDenied = 217"
| "rendez_vous_error_code RendezVousError_NotFriend = 218"
| "rendez_vous_error_code RendezVousError_SessionClosed = 219"
| "rendez_vous_error_code RendezVousError_DatabaseTemporarilyUnavailable = 220"
| "rendez_vous_error_code RendezVousError_InvalidUniqueId = 221"
| "rendez_vous_error_code RendezVousError_MatchmakingWithdrawn = 222"
| "rendez_vous_error_code RendezVousError_LimitExceeded = 223"
| "rendez_vous_error_code RendezVousError_AccountTemporarilyDisabled = 224"
| "rendez_vous_error_code RendezVousError_PartiallyServiceClosed = 225"
| "rendez_vous_error_code RendezVousError_ConnectionDisconnectedForConcurrentLogin = 226"

definition rendez_vous_errors :: "rendez_vous_error list" where
  "rendez_vous_errors =
    [RendezVousError_ConnectionFailure, RendezVousError_NotAuthenticated,
    RendezVousError_InvalidUsername, RendezVousError_InvalidPassword,
    RendezVousError_UsernameAlreadyExists, RendezVousError_AccountDisabled,
    RendezVousError_AccountExpired, RendezVousError_ConcurrentLoginDenied,
    RendezVousError_EncryptionFailure, RendezVousError_InvalidPID,
    RendezVousError_MaxConnectionsReached, RendezVousError_InvalidGID,
    RendezVousError_InvalidControlScriptID,
    RendezVousError_InvalidOperationInLiveEnvironment, RendezVousError_DuplicateEntry,
    RendezVousError_ControlScriptFailure, RendezVousError_ClassNotFound,
    RendezVousError_SessionVoid, RendezVousError_DDLMismatch,
    RendezVousError_InvalidConfiguration, RendezVousError_SessionFull,
    RendezVousError_InvalidGatheringPassword, RendezVousError_WithoutParticipationPeriod,
    RendezVousError_PersistentGatheringCreationMax,
    RendezVousError_PersistentGatheringParticipationMax,
    RendezVousError_DeniedByParticipants, RendezVousError_ParticipantInBlackList,
    RendezVousError_GameServerMaintenance, RendezVousError_OperationPostpone,
    RendezVousError_OutOfRatingRange, RendezVousError_ConnectionDisconnected,
    RendezVousError_InvalidOperation, RendezVousError_NotParticipatedGathering,
    RendezVousError_MatchmakeSessionUserPasswordUnmatch,
    RendezVousError_MatchmakeSessionSystemPasswordUnmatch, RendezVousError_UserIsOffline,
    RendezVousError_AlreadyParticipatedGathering, RendezVousError_PermissionDenied,
    RendezVousError_NotFriend, RendezVousError_SessionClosed,
    RendezVousError_DatabaseTemporarilyUnavailable, RendezVousError_InvalidUniqueId,
    RendezVousError_MatchmakingWithdrawn, RendezVousError_LimitExceeded,
    RendezVousError_AccountTemporarilyDisabled, RendezVousError_PartiallyServiceClosed,
    RendezVousError_ConnectionDisconnectedForConcurrentLogin]"

interpretation rendez_vous_error_enum: code_enum rendez_vous_error_code rendez_vous_errors
proof
  fix e show "e \<in> set rendez_vous_errors" by (cases e) (simp_all add: rendez_vous_errors_def)
qed (simp add: rendez_vous_errors_def)

datatype python_core_error =
    PythonCoreError_Exception | PythonCoreError_TypeError | PythonCoreError_IndexError |
    PythonCoreError_InvalidReference | PythonCoreError_CallFailure |
    PythonCoreError_MemoryError | PythonCoreError_KeyError |
    PythonCoreError_OperationError | PythonCoreError_ConversionError |
    PythonCoreError_ValidationError

primrec python_core_error_code :: "python_core_error \<Rightarrow> u16" where
  "python_core_error_code PythonCoreError_Exception = 1"
| "python_core_error_code PythonCoreError_TypeError = 2"
| "python_core_error_code PythonCoreError_IndexError = 3"
| "python_core_error_code PythonCoreError_InvalidReference = 4"
| "python_core_error_code PythonCoreError_CallFailure = 5"
| "python_core_error_code PythonCoreError_MemoryError = 6"
| "python_core_error_code PythonCoreError_KeyError = 7"
| "python_core_error_code PythonCoreError_OperationError = 8"
| "python_core_error_code PythonCoreError_ConversionError = 9"
| "python_core_error_code PythonCoreError_ValidationError = 10"

definition python_core_errors :: "python_core_error list" where
  "python_core_errors =
    [PythonCoreError_Exception, PythonCoreError_TypeError, PythonCoreError_IndexError,
    PythonCoreError_InvalidReference, PythonCoreError_CallFailure,
    PythonCoreError_MemoryError, PythonCoreError_KeyError, PythonCoreError_OperationError,
    PythonCoreError_ConversionError, PythonCoreError_ValidationError]"

interpretation python_core_error_enum: code_enum python_core_error_code python_core_errors
proof
  fix e show "e \<in> set python_core_errors" by (cases e) (simp_all add: python_core_errors_def)
qed (simp add: python_core_errors_def)

datatype transport_error =
    TransportError_Unknown | TransportError_ConnectionFailure | TransportError_InvalidUrl |
    TransportError_InvalidKey | TransportError_InvalidURLType |
    TransportError_DuplicateEndpoint | TransportError_IOError | TransportError_Timeout |
    TransportError_ConnectionReset | TransportError_IncorrectRemoteAuthentication |
    TransportError_ServerRequestError | TransportError_DecompressionFailure |
    TransportError_ReliableSendBufferFullFatal | TransportError_UPnPCannotInit |
    TransportError_UPnPCannotAddMapping | TransportError_NatPMPCannotInit |
    TransportError_NatPMPCannotAddMapping | TransportError_UnsupportedNAT |
    TransportError_DnsError | TransportError_ProxyError | TransportError_DataRemaining |
    TransportError_NoBuffer | TransportError_NotFound |
    TransportError_TemporaryServerError | TransportError_PermanentServerError |
    TransportError_ServiceUnavailable | TransportError_ReliableSendBufferFull |
    TransportError_InvalidStation | TransportError_InvalidSubStreamID |
    TransportError_PacketBufferFull | TransportError_NatTraversalError |
    TransportError_NatCheckError

primrec transport_error_code :: "transport_error \<Rightarrow> u16" where
  "transport_error_code TransportError_Unknown = 1"
| "transport_error_code TransportError_ConnectionFailure = 2"
| "transport_error_code TransportError_InvalidUrl = 3"
| "transport_error_code TransportError_InvalidKey = 4"
| "transport_error_code TransportError_InvalidURLType = 5"
| "transport_error_code TransportError_DuplicateEndpoint = 6"
| "transport_error_code TransportError_IOError = 7"
| "transport_error_code TransportError_Timeout = 8"
| "transport_error_code TransportError_ConnectionReset = 9"
| "transport_error_code TransportError_IncorrectRemoteAuthentication = 10"
| "transport_error_code TransportError_ServerRequestError = 11"
| "transport_error_code TransportError_DecompressionFailure = 12"
| "transport_error_code TransportError_ReliableSendBufferFullFatal = 13"
| "transport_error_code TransportError_UPnPCannotInit = 14"
| "transport_error_code TransportError_UPnPCannotAddMapping = 15"
| "transport_error_code TransportError_NatPMPCannotInit = 16"
| "transport_error_code TransportError_NatPMPCannotAddMapping = 17"
| "transport_error_code TransportError_UnsupportedNAT = 19"
| "transport_error_code TransportError_DnsError = 20"
| "transport_error_code TransportError_ProxyError = 21"
| "transport_error_code TransportError_DataRemaining = 22"
| "transport_error_code TransportError_NoBuffer = 23"
| "transport_error_code TransportError_NotFound = 24"
| "transport_error_code TransportError_TemporaryServerError = 25"
| "transport_error_code TransportError_PermanentServerError = 26"
| "transport_error_code TransportError_ServiceUnavailable = 27"
| "transport_error_code TransportError_ReliableSendBufferFull = 28"
| "transport_error_code TransportError_InvalidStation = 29"
| "transport_error_code TransportError_InvalidSubStreamID = 30"
| "transport_error_code TransportError_PacketBufferFull = 31"
| "transport_error_code TransportError_NatTraversalError = 32"
| "transport_error_code TransportError_NatCheckError = 33"

definition transport_errors :: "transport_error list" where
  "transport_errors =
    [TransportError_Unknown, TransportError_ConnectionFailure, TransportError_InvalidUrl,
    TransportError_InvalidKey, TransportError_InvalidURLType,
    TransportError_DuplicateEndpoint, TransportError_IOError, TransportError_Timeout,
    TransportError_ConnectionReset, TransportError_IncorrectRemoteAuthentication,
    TransportError_ServerRequestError, TransportError_DecompressionFailure,
    TransportError_ReliableSendBufferFullFatal, TransportError_UPnPCannotInit,
    TransportError_UPnPCannotAddMapping, TransportError_NatPMPCannotInit,
    TransportError_NatPMPCannotAddMapping, TransportError_UnsupportedNAT,
    TransportError_DnsError, TransportError_ProxyError, TransportError_DataRemaining,
    TransportError_NoBuffer, TransportError_NotFound, TransportError_TemporaryServerError,
    TransportError_PermanentServerError, TransportError_ServiceUnavailable,
    TransportError_ReliableSendBufferFull, TransportError_InvalidStation,
    TransportError_InvalidSubStreamID, TransportError_PacketBufferFull,
    TransportError_NatTraversalError, TransportError_NatCheckError]"

interpretation transport_error_enum: code_enum transport_error_code transport_errors
proof
  fix e show "e \<in> set transport_errors" by (cases e) (simp_all add: transport_errors_def)
qed (simp add: transport_errors_def)

datatype docore_error =
    DOCoreError_StationNotReached | DOCoreError_TargetStationDisconnect |
    DOCoreError_LocalStationLeaving | DOCoreError_ObjectNotFound | DOCoreError_InvalidRole |
    DOCoreError_CallTimeout | DOCoreError_RMCDispatchFailed |
    DOCoreError_MigrationInProgress | DOCoreError_NoAuthority |
    DOCoreError_NoTargetStationSpecified | DOCoreError_JoinFailed | DOCoreError_JoinDenied |
    DOCoreError_ConnectivityTestFailed | DOCoreError_Unknown |
    DOCoreError_UnfreedReferences | DOCoreError_JobTerminationFailed |
    DOCoreError_InvalidState | DOCoreError_FaultRecoveryFatal |
    DOCoreError_FaultRecoveryJobProcessFailed | DOCoreError_StationInconsitency |
    DOCoreError_AbnormalMasterState | DOCoreError_VersionMismatch

primrec docore_error_code :: "docore_error \<Rightarrow> u16" where
  "docore_error_code DOCoreError_StationNotReached = 1"
| "docore_error_code DOCoreError_TargetStationDisconnect = 2"
| "docore_error_code DOCoreError_LocalStationLeaving = 3"
| "docore_error_code DOCoreError_ObjectNotFound = 4"
| "docore_error_code DOCoreError_InvalidRole = 5"
| "docore_error_code DOCoreError_CallTimeout = 6"
| "docore_error_code DOCoreError_RMCDispatchFailed = 7"
| "docore_error_code DOCoreError_MigrationInProgress = 8"
| "docore_error_code DOCoreError_NoAuthority = 9"
| "docore_error_code DOCoreError_NoTargetStationSpecified = 10"
| "docore_error_code DOCoreError_JoinFailed = 11"
| "docore_error_code DOCoreError_JoinDenied = 12"
| "docore_error_code DOCoreError_ConnectivityTestFailed = 13"
| "docore_error_code DOCoreError_Unknown = 14"
| "docore_error_code DOCoreError_UnfreedReferences = 15"
| "docore_error_code DOCoreError_JobTerminationFailed = 16"
| "docore_error_code DOCoreError_InvalidState = 17"
| "docore_error_code DOCoreError_FaultRecoveryFatal = 18"
| "docore_error_code DOCoreError_FaultRecoveryJobProcessFailed = 19"
| "docore_error_code DOCoreError_StationInconsitency = 20"
| "docore_error_code DOCoreError_AbnormalMasterState = 21"
| "docore_error_code DOCoreError_VersionMismatch = 22"

definition docore_errors :: "docore_error list" where
  "docore_errors =
    [DOCoreError_StationNotReached, DOCoreError_TargetStationDisconnect,
    DOCoreError_LocalStationLeaving, DOCoreError_ObjectNotFound, DOCoreError_InvalidRole,
    DOCoreError_CallTimeout, DOCoreError_RMCDispatchFailed, DOCoreError_MigrationInProgress,
    DOCoreError_NoAuthority, DOCoreError_NoTargetStationSpecified, DOCoreError_JoinFailed,
    DOCoreError_JoinDenied, DOCoreError_ConnectivityTestFailed, DOCoreError_Unknown,
    DOCoreError_UnfreedReferences, DOCoreError_JobTerminationFailed,
    DOCoreError_InvalidState, DOCoreError_FaultRecoveryFatal,
    DOCoreError_FaultRecoveryJobProcessFailed, DOCoreError_StationInconsitency,
    DOCoreError_AbnormalMasterState, DOCoreError_VersionMismatch]"

interpretation docore_error_enum: code_enum docore_error_code docore_errors
proof
  fix e show "e \<in> set docore_errors" by (cases e) (simp_all add: docore_errors_def)
qed (simp add: docore_errors_def)

datatype fpderror =
    FPDError_NotInitialized | FPDError_AlreadyInitialized | FPDError_NotConnected |
    FPDError_Connected | FPDError_InitializationFailure | FPDError_OutOfMemory |
    FPDError_RmcFailed | FPDError_InvalidArgument | FPDError_InvalidLocalAccountID |
    FPDError_InvalidPrincipalID | FPDError_InvalidLocalFriendCode |
    FPDError_LocalAccountNotExists | FPDError_LocalAccountNotLoaded |
    FPDError_LocalAccountAlreadyLoaded | FPDError_FriendAlreadyExists |
    FPDError_FriendNotExists | FPDError_FriendNumMax | FPDError_NotFriend |
    FPDError_FileIO | FPDError_P2PInternetProhibited | FPDError_Unknown |
    FPDError_InvalidState | FPDError_AddFriendProhibited | FPDError_InvalidAccount |
    FPDError_BlacklistedByMe | FPDError_FriendAlreadyAdded |
    FPDError_MyFriendListLimitExceed | FPDError_RequestLimitExceed |
    FPDError_InvalidMessageID | FPDError_MessageIsNotMine | FPDError_MessageIsNotForMe |
    FPDError_FriendRequestBlocked | FPDError_NotInMyFriendList | FPDError_FriendListedByMe |
    FPDError_NotInMyBlacklist | FPDError_IncompatibleAccount |
    FPDError_BlockSettingChangeNotAllowed | FPDError_SizeLimitExceeded |
    FPDError_OperationNotAllowed | FPDError_NotNetworkAccount |
    FPDError_NotificationNotFound | FPDError_PreferenceNotInitialized |
    FPDError_FriendRequestNotAllowed

primrec fpderror_code :: "fpderror \<Rightarrow> u16" where
  "fpderror_code FPDError_NotInitialized = 0"
| "fpderror_code FPDError_AlreadyInitialized = 1"
| "fpderror_code FPDError_NotConnected = 2"
| "fpderror_code FPDError_Connected = 3"
| "fpderror_code FPDError_InitializationFailure = 4"
| "fpderror_code FPDError_OutOfMemory = 5"
| "fpderror_code FPDError_RmcFailed = 6"
| "fpderror_code FPDError_InvalidArgument = 7"
| "fpderror_code FPDError_InvalidLocalAccountID = 8"
| "fpderror_code FPDError_InvalidPrincipalID = 9"
| "fpderror_code FPDError_InvalidLocalFriendCode = 10"
| "fpderror_code FPDError_LocalAccountNotExists = 11"
| "fpderror_code FPDError_LocalAccountNotLoaded = 12"
| "fpderror_code FPDError_LocalAccountAlreadyLoaded = 13"
| "fpderror_code FPDError_FriendAlreadyExists = 14"
| "fpderror_code FPDError_FriendNotExists = 15"
| "fpderror_code FPDError_FriendNumMax = 16"
| "fpderror_code FPDError_NotFriend = 17"
| "fpderror_code FPDError_FileIO = 18"
| "fpderror_code FPDError_P2PInternetProhibited = 19"
| "fpderror_code FPDError_Unknown = 20"
| "fpderror_code FPDError_InvalidState = 21"
| "fpderror_code FPDError_AddFriendProhibited = 23"
| "fpderror_code FPDError_InvalidAccount = 25"
| "fpderror_code FPDError_BlacklistedByMe = 26"
| "fpderror_code FPDError_FriendAlreadyAdded = 28"
| "fpderror_code FPDError_MyFriendListLimitExceed = 29"
| "fpderror_code FPDError_RequestLimitExceed = 30"
| "fpderror_code FPDError_InvalidMessageID = 31"
| "fpderror_code FPDError_MessageIsNotMine = 32"
| "fpderror_code FPDError_MessageIsNotForMe = 33"
| "fpderror_code FPDError_FriendRequestBlocked = 34"
| "fpderror_code FPDError_NotInMyFriendList = 35"
| "fpderror_code FPDError_FriendListedByMe = 36"
| "fpderror_code FPDError_NotInMyBlacklist = 37"
| "fpderror_code FPDError_IncompatibleAccount = 38"
| "fpderror_code FPDError_BlockSettingChangeNotAllowed = 39"
| "fpderror_code FPDError_SizeLimitExceeded = 40"
| "fpderror_code FPDError_OperationNotAllowed = 41"
| "fpderror_code FPDError_NotNetworkAccount = 42"
| "fpderror_code FPDError_NotificationNotFound = 43"
| "fpderror_code FPDError_PreferenceNotInitialized = 44"
| "fpderror_code FPDError_FriendRequestNotAllowed = 45"

definition fpderrors :: "fpderror list" where
  "fpderrors =
    [FPDError_NotInitialized, FPDError_AlreadyInitialized, FPDError_NotConnected,
    FPDError_Connected, FPDError_InitializationFailure, FPDError_OutOfMemory,
    FPDError_RmcFailed, FPDError_InvalidArgument, FPDError_InvalidLocalAccountID,
    FPDError_InvalidPrincipalID, FPDError_InvalidLocalFriendCode,
    FPDError_LocalAccountNotExists, FPDError_LocalAccountNotLoaded,
    FPDError_LocalAccountAlreadyLoaded, FPDError_FriendAlreadyExists,
    FPDError_FriendNotExists, FPDError_FriendNumMax, FPDError_NotFriend, FPDError_FileIO,
    FPDError_P2PInternetProhibited, FPDError_Unknown, FPDError_InvalidState,
    FPDError_AddFriendProhibited, FPDError_InvalidAccount, FPDError_BlacklistedByMe,
    FPDError_FriendAlreadyAdded, FPDError_MyFriendListLimitExceed,
    FPDError_RequestLimitExceed, FPDError_InvalidMessageID, FPDError_MessageIsNotMine,
    FPDError_MessageIsNotForMe, FPDError_FriendRequestBlocked, FPDError_NotInMyFriendList,
    FPDError_FriendListedByMe, FPDError_NotInMyBlacklist, FPDError_IncompatibleAccount,
    FPDError_BlockSettingChangeNotAllowed, FPDError_SizeLimitExceeded,
    FPDError_OperationNotAllowed, FPDError_NotNetworkAccount, FPDError_NotificationNotFound,
    FPDError_PreferenceNotInitialized, FPDError_FriendRequestNotAllowed]"

interpretation fpderror_enum: code_enum fpderror_code fpderrors
proof
  fix e show "e \<in> set fpderrors" by (cases e) (simp_all add: fpderrors_def)
qed (simp add: fpderrors_def)

datatype ranking_error =
    RankingError_NotInitialized | RankingError_InvalidArgument |
    RankingError_RegistrationError | RankingError_NotFound | RankingError_InvalidScore |
    RankingError_InvalidDataSize | RankingError_PermissionDenied | RankingError_Unknown |
    RankingError_NotImplemented

primrec ranking_error_code :: "ranking_error \<Rightarrow> u16" where
  "ranking_error_code RankingError_NotInitialized = 1"
| "ranking_error_code RankingError_InvalidArgument = 2"
| "ranking_error_code RankingError_RegistrationError = 3"
| "ranking_error_code RankingError_NotFound = 5"
| "ranking_error_code RankingError_InvalidScore = 6"
| "ranking_error_code RankingError_InvalidDataSize = 7"
| "ranking_error_code RankingError_PermissionDenied = 9"
| "ranking_error_code RankingError_Unknown = 10"
| "ranking_error_code RankingError_NotImplemented = 11"

definition ranking_errors :: "ranking_error list" where
  "ranking_errors =
    [RankingError_NotInitialized, RankingError_InvalidArgument,
    RankingError_RegistrationError, RankingError_NotFound, RankingError_InvalidScore,
    RankingError_InvalidDataSize, RankingError_PermissionDenied, RankingError_Unknown,
    RankingError_NotImplemented]"

interpretation ranking_error_enum: code_enum ranking_error_code ranking_errors
proof
  fix e show "e \<in> set ranking_errors" by (cases e) (simp_all add: ranking_errors_def)
qed (simp add: ranking_errors_def)

datatype authentication_error =
    AuthenticationError_NASAuthenticateError | AuthenticationError_TokenParseError |
    AuthenticationError_HttpConnectionError | AuthenticationError_HttpDNSError |
    AuthenticationError_HttpGetProxySetting | AuthenticationError_TokenExpired |
    AuthenticationError_ValidationFailed | AuthenticationError_InvalidParam |
    AuthenticationError_PrincipalIdUnmatched | AuthenticationError_MoveCountUnmatch |
    AuthenticationError_UnderMaintenance | AuthenticationError_UnsupportedVersion |
    AuthenticationError_ServerVersionIsOld | AuthenticationError_Unknown |
    AuthenticationError_ClientVersionIsOld | AuthenticationError_AccountLibraryError |
    AuthenticationError_ServiceNoLongerAvailable | AuthenticationError_UnknownApplication |
    AuthenticationError_ApplicationVersionIsOld | AuthenticationError_OutOfService |
    AuthenticationError_NetworkServiceLicenseRequired |
    AuthenticationError_NetworkServiceLicenseSystemError |
    AuthenticationError_NetworkServiceLicenseError3 |
    AuthenticationError_NetworkServiceLicenseError4

primrec authentication_error_code :: "authentication_error \<Rightarrow> u16" where
  "authentication_error_code AuthenticationError_NASAuthenticateError = 1"
| "authentication_error_code AuthenticationError_TokenParseError = 2"
| "authentication_error_code AuthenticationError_HttpConnectionError = 3"
| "authentication_error_code AuthenticationError_HttpDNSError = 4"
| "authentication_error_code AuthenticationError_HttpGetProxySetting = 5"
| "authentication_error_code AuthenticationError_TokenExpired = 6"
| "authentication_error_code AuthenticationError_ValidationFailed = 7"
| "authentication_error_code AuthenticationError_InvalidParam = 8"
| "authentication_error_code AuthenticationError_PrincipalIdUnmatched = 9"
| "authentication_error_code AuthenticationError_MoveCountUnmatch = 10"
| "authentication_error_code AuthenticationError_UnderMaintenance = 11"
| "authentication_error_code AuthenticationError_UnsupportedVersion = 12"
| "authentication_error_code AuthenticationError_ServerVersionIsOld = 13"
| "authentication_error_code AuthenticationError_Unknown = 14"
| "authentication_error_code AuthenticationError_ClientVersionIsOld = 15"
| "authentication_error_code AuthenticationError_AccountLibraryError = 16"
| "authentication_error_code AuthenticationError_ServiceNoLongerAvailable = 17"
| "authentication_error_code AuthenticationError_UnknownApplication = 18"
| "authentication_error_code AuthenticationError_ApplicationVersionIsOld = 19"
| "authentication_error_code AuthenticationError_OutOfService = 20"
| "authentication_error_code AuthenticationError_NetworkServiceLicenseRequired = 21"
| "authentication_error_code AuthenticationError_NetworkServiceLicenseSystemError = 22"
| "authentication_error_code AuthenticationError_NetworkServiceLicenseError3 = 23"
| "authentication_error_code AuthenticationError_NetworkServiceLicenseError4 = 24"

definition authentication_errors :: "authentication_error list" where
  "authentication_errors =
    [AuthenticationError_NASAuthenticateError, AuthenticationError_TokenParseError,
    AuthenticationError_HttpConnectionError, AuthenticationError_HttpDNSError,
    AuthenticationError_HttpGetProxySetting, AuthenticationError_TokenExpired,
    AuthenticationError_ValidationFailed, AuthenticationError_InvalidParam,
    AuthenticationError_PrincipalIdUnmatched, AuthenticationError_MoveCountUnmatch,
    AuthenticationError_UnderMaintenance, AuthenticationError_UnsupportedVersion,
    AuthenticationError_ServerVersionIsOld, AuthenticationError_Unknown,
    AuthenticationError_ClientVersionIsOld, AuthenticationError_AccountLibraryError,
    AuthenticationError_ServiceNoLongerAvailable, AuthenticationError_UnknownApplication,
    AuthenticationError_ApplicationVersionIsOld, AuthenticationError_OutOfService,
    AuthenticationError_NetworkServiceLicenseRequired,
    AuthenticationError_NetworkServiceLicenseSystemError,
    AuthenticationError_NetworkServiceLicenseError3,
    AuthenticationError_NetworkServiceLicenseError4]"

interpretation authentication_error_enum: code_enum authentication_error_code authentication_errors
proof
  fix e show "e \<in> set authentication_errors" by (cases e) (simp_all add: authentication_errors_def)
qed (simp add: authentication_errors_def)

datatype data_store_error =
    DataStoreError_Unknown | DataStoreError_InvalidArgument |
    DataStoreError_PermissionDenied | DataStoreError_NotFound |
    DataStoreError_AlreadyLocked | DataStoreError_UnderReviewing | DataStoreError_Expired |
    DataStoreError_InvalidCheckToken | DataStoreError_SystemFileError |
    DataStoreError_OverCapacity | DataStoreError_OperationNotAllowed |
    DataStoreError_InvalidPassword | DataStoreError_ValueNotEqual

primrec data_store_error_code :: "data_store_error \<Rightarrow> u16" where
  "data_store_error_code DataStoreError_Unknown = 1"
| "data_store_error_code DataStoreError_InvalidArgument = 2"
| "data_store_error_code DataStoreError_PermissionDenied = 3"
| "data_store_error_code DataStoreError_NotFound = 4"
| "data_store_error_code DataStoreError_AlreadyLocked = 5"
| "data_store_error_code DataStoreError_UnderReviewing = 6"
| "data_store_error_code DataStoreError_Expired = 7"
| "data_store_error_code DataStoreError_InvalidCheckToken = 8"
| "data_store_error_code DataStoreError_SystemFileError = 9"
| "data_store_error_code DataStoreError_OverCapacity = 10"
| "data_store_error_code DataStoreError_OperationNotAllowed = 11"
| "data_store_error_code DataStoreError_InvalidPassword = 12"
| "data_store_error_code DataStoreError_ValueNotEqual = 13"

definition data_store_errors :: "data_store_error list" where
  "data_store_errors =
    [DataStoreError_Unknown, DataStoreError_InvalidArgument,
    DataStoreError_PermissionDenied, DataStoreError_NotFound, DataStoreError_AlreadyLocked,
    DataStoreError_UnderReviewing, DataStoreError_Expired, DataStoreError_InvalidCheckToken,
    DataStoreError_SystemFileError, DataStoreError_OverCapacity,
    DataStoreError_OperationNotAllowed, DataStoreError_InvalidPassword,
    DataStoreError_ValueNotEqual]"

interpretation data_store_error_enum: code_enum data_store_error_code data_store_errors
proof
  fix e show "e \<in> set data_store_errors" by (cases e) (simp_all add: data_store_errors_def)
qed (simp add: data_store_errors_def)

datatype service_item_error =
    ServiceItemError_Unknown | ServiceItemError_InvalidArgument |
    ServiceItemError_EShopUnknownHttpError | ServiceItemError_EShopResponseParseError |
    ServiceItemError_NotOwned | ServiceItemError_InvalidLimitationType |
    ServiceItemError_ConsumptionRightShortage

primrec service_item_error_code :: "service_item_error \<Rightarrow> u16" where
  "service_item_error_code ServiceItemError_Unknown = 1"
| "service_item_error_code ServiceItemError_InvalidArgument = 2"
| "service_item_error_code ServiceItemError_EShopUnknownHttpError = 3"
| "service_item_error_code ServiceItemError_EShopResponseParseError = 4"
| "service_item_error_code ServiceItemError_NotOwned = 5"
| "service_item_error_code ServiceItemError_InvalidLimitationType = 6"
| "service_item_error_code ServiceItemError_ConsumptionRightShortage = 7"

definition service_item_errors :: "service_item_error list" where
  "service_item_errors =
    [ServiceItemError_Unknown, ServiceItemError_InvalidArgument,
    ServiceItemError_EShopUnknownHttpError, ServiceItemError_EShopResponseParseError,
    ServiceItemError_NotOwned, ServiceItemError_InvalidLimitationType,
    ServiceItemError_ConsumptionRightShortage]"

interpretation service_item_error_enum: code_enum service_item_error_code service_item_errors
proof
  fix e show "e \<in> set service_item_errors" by (cases e) (simp_all add: service_item_errors_def)
qed (simp add: service_item_errors_def)

datatype matchmake_referee_error =
    MatchmakeRefereeError_Unknown | MatchmakeRefereeError_InvalidArgument |
    MatchmakeRefereeError_AlreadyExists | MatchmakeRefereeError_NotParticipatedGathering |
    MatchmakeRefereeError_NotParticipatedRound | MatchmakeRefereeError_StatsNotFound |
    MatchmakeRefereeError_RoundNotFound | MatchmakeRefereeError_RoundArbitrated |
    MatchmakeRefereeError_RoundNotArbitrated

primrec matchmake_referee_error_code :: "matchmake_referee_error \<Rightarrow> u16" where
  "matchmake_referee_error_code MatchmakeRefereeError_Unknown = 1"
| "matchmake_referee_error_code MatchmakeRefereeError_InvalidArgument = 2"
| "matchmake_referee_error_code MatchmakeRefereeError_AlreadyExists = 3"
| "matchmake_referee_error_code MatchmakeRefereeError_NotParticipatedGathering = 4"
| "matchmake_referee_error_code MatchmakeRefereeError_NotParticipatedRound = 5"
| "matchmake_referee_error_code MatchmakeRefereeError_StatsNotFound = 6"
| "matchmake_referee_error_code MatchmakeRefereeError_RoundNotFound = 7"
| "matchmake_referee_error_code MatchmakeRefereeError_RoundArbitrated = 8"
| "matchmake_referee_error_code MatchmakeRefereeError_RoundNotArbitrated = 9"

definition matchmake_referee_errors :: "matchmake_referee_error list" where
  "matchmake_referee_errors =
    [MatchmakeRefereeError_Unknown, MatchmakeRefereeError_InvalidArgument,
    MatchmakeRefereeError_AlreadyExists, MatchmakeRefereeError_NotParticipatedGathering,
    MatchmakeRefereeError_NotParticipatedRound, MatchmakeRefereeError_StatsNotFound,
    MatchmakeRefereeError_RoundNotFound, MatchmakeRefereeError_RoundArbitrated,
    MatchmakeRefereeError_RoundNotArbitrated]"

interpretation matchmake_referee_error_enum: code_enum matchmake_referee_error_code matchmake_referee_errors
proof
  fix e show "e \<in> set matchmake_referee_errors" by (cases e) (simp_all add: matchmake_referee_errors_def)
qed (simp add: matchmake_referee_errors_def)

datatype subscriber_error =
    SubscriberError_Unknown | SubscriberError_InvalidArgument | SubscriberError_OverLimit |
    SubscriberError_PermissionDenied

primrec subscriber_error_code :: "subscriber_error \<Rightarrow> u16" where
  "subscriber_error_code SubscriberError_Unknown = 1"
| "subscriber_error_code SubscriberError_InvalidArgument = 2"
| "subscriber_error_code SubscriberError_OverLimit = 3"
| "subscriber_error_code SubscriberError_PermissionDenied = 4"

definition subscriber_errors :: "subscriber_error list" where
  "subscriber_errors =
    [SubscriberError_Unknown, SubscriberError_InvalidArgument, SubscriberError_OverLimit,
    SubscriberError_PermissionDenied]"

interpretation subscriber_error_enum: code_enum subscriber_error_code subscriber_errors
proof
  fix e show "e \<in> set subscriber_errors" by (cases e) (simp_all add: subscriber_errors_def)
qed (simp add: subscriber_errors_def)

datatype ranking2_error =
    Ranking2Error_Unknown | Ranking2Error_InvalidArgument | Ranking2Error_InvalidScore

primrec ranking2_error_code :: "ranking2_error \<Rightarrow> u16" where
  "ranking2_error_code Ranking2Error_Unknown = 1"
| "ranking2_error_code Ranking2Error_InvalidArgument = 2"
| "ranking2_error_code Ranking2Error_InvalidScore = 3"

definition ranking2_errors :: "ranking2_error list" where
  "ranking2_errors =
    [Ranking2Error_Unknown, Ranking2Error_InvalidArgument, Ranking2Error_InvalidScore]"

interpretation ranking2_error_enum: code_enum ranking2_error_code ranking2_errors
proof
  fix e show "e \<in> set ranking2_errors" by (cases e) (simp_all add: ranking2_errors_def)
qed (simp add: ranking2_errors_def)

datatype smart_device_voice_chat_error =
    SmartDeviceVoiceChatError_Unknown | SmartDeviceVoiceChatError_InvalidArgument |
    SmartDeviceVoiceChatError_InvalidResponse |
    SmartDeviceVoiceChatError_InvalidAccessToken | SmartDeviceVoiceChatError_Unauthorized |
    SmartDeviceVoiceChatError_AccessError | SmartDeviceVoiceChatError_UserNotFound |
    SmartDeviceVoiceChatError_RoomNotFound | SmartDeviceVoiceChatError_RoomNotActivated |
    SmartDeviceVoiceChatError_ApplicationNotSupported |
    SmartDeviceVoiceChatError_InternalServerError |
    SmartDeviceVoiceChatError_ServiceUnavailable |
    SmartDeviceVoiceChatError_UnexpectedError | SmartDeviceVoiceChatError_UnderMaintenance |
    SmartDeviceVoiceChatError_ServiceNoLongerAvailable |
    SmartDeviceVoiceChatError_AccountTemporarilyDisabled |
    SmartDeviceVoiceChatError_PermissionDenied |
    SmartDeviceVoiceChatError_NetworkServiceLicenseRequired |
    SmartDeviceVoiceChatError_AccountLibraryError |
    SmartDeviceVoiceChatError_GameModeNotFound

primrec smart_device_voice_chat_error_code :: "smart_device_voice_chat_error \<Rightarrow> u16" where
  "smart_device_voice_chat_error_code SmartDeviceVoiceChatError_Unknown = 1"
| "smart_device_voice_chat_error_code SmartDeviceVoiceChatError_InvalidArgument = 2"
| "smart_device_voice_chat_error_code SmartDeviceVoiceChatError_InvalidResponse = 3"
| "smart_device_voice_chat_error_code SmartDeviceVoiceChatError_InvalidAccessToken = 4"
| "smart_device_voice_chat_error_code SmartDeviceVoiceChatError_Unauthorized = 5"
| "smart_device_voice_chat_error_code SmartDeviceVoiceChatError_AccessError = 6"
| "smart_device_voice_chat_error_code SmartDeviceVoiceChatError_UserNotFound = 7"
| "smart_device_voice_chat_error_code SmartDeviceVoiceChatError_RoomNotFound = 8"
| "smart_device_voice_chat_error_code SmartDeviceVoiceChatError_RoomNotActivated = 9"
| "smart_device_voice_chat_error_code SmartDeviceVoiceChatError_ApplicationNotSupported = 10"
| "smart_device_voice_chat_error_code SmartDeviceVoiceChatError_InternalServerError = 11"
| "smart_device_voice_chat_error_code SmartDeviceVoiceChatError_ServiceUnavailable = 12"
| "smart_device_voice_chat_error_code SmartDeviceVoiceChatError_UnexpectedError = 13"
| "smart_device_voice_chat_error_code SmartDeviceVoiceChatError_UnderMaintenance = 14"
| "smart_device_voice_chat_error_code SmartDeviceVoiceChatError_ServiceNoLongerAvailable = 15"
| "smart_device_voice_chat_error_code SmartDeviceVoiceChatError_AccountTemporarilyDisabled = 16"
| "smart_device_voice_chat_error_code SmartDeviceVoiceChatError_PermissionDenied = 17"
| "smart_device_voice_chat_error_code SmartDeviceVoiceChatError_NetworkServiceLicenseRequired = 18"
| "smart_device_voice_chat_error_code SmartDeviceVoiceChatError_AccountLibraryError = 19"
| "smart_device_voice_chat_error_code SmartDeviceVoiceChatError_GameModeNotFound = 20"

definition smart_device_voice_chat_errors :: "smart_device_voice_chat_error list" where
  "smart_device_voice_chat_errors =
    [SmartDeviceVoiceChatError_Unknown, SmartDeviceVoiceChatError_InvalidArgument,
    SmartDeviceVoiceChatError_InvalidResponse, SmartDeviceVoiceChatError_InvalidAccessToken,
    SmartDeviceVoiceChatError_Unauthorized, SmartDeviceVoiceChatError_AccessError,
    SmartDeviceVoiceChatError_UserNotFound, SmartDeviceVoiceChatError_RoomNotFound,
    SmartDeviceVoiceChatError_RoomNotActivated,
    SmartDeviceVoiceChatError_ApplicationNotSupported,
    SmartDeviceVoiceChatError_InternalServerError,
    SmartDeviceVoiceChatError_ServiceUnavailable, SmartDeviceVoiceChatError_UnexpectedError,
    SmartDeviceVoiceChatError_UnderMaintenance,
    SmartDeviceVoiceChatError_ServiceNoLongerAvailable,
    SmartDeviceVoiceChatError_AccountTemporarilyDisabled,
    SmartDeviceVoiceChatError_PermissionDenied,
    SmartDeviceVoiceChatError_NetworkServiceLicenseRequired,
    SmartDeviceVoiceChatError_AccountLibraryError,
    SmartDeviceVoiceChatError_GameModeNotFound]"

interpretation smart_device_voice_chat_error_enum: code_enum smart_device_voice_chat_error_code smart_device_voice_chat_errors
proof
  fix e show "e \<in> set smart_device_voice_chat_errors" by (cases e) (simp_all add: smart_device_voice_chat_errors_def)
qed (simp add: smart_device_voice_chat_errors_def)

datatype screening_error =
    ScreeningError_Unknown | ScreeningError_InvalidArgument | ScreeningError_NotFound

primrec screening_error_code :: "screening_error \<Rightarrow> u16" where
  "screening_error_code ScreeningError_Unknown = 1"
| "screening_error_code ScreeningError_InvalidArgument = 2"
| "screening_error_code ScreeningError_NotFound = 3"

definition screening_errors :: "screening_error list" where
  "screening_errors =
    [ScreeningError_Unknown, ScreeningError_InvalidArgument, ScreeningError_NotFound]"

interpretation screening_error_enum: code_enum screening_error_code screening_errors
proof
  fix e show "e \<in> set screening_errors" by (cases e) (simp_all add: screening_errors_def)
qed (simp add: screening_errors_def)

datatype custom_error =
    CustomError_Unknown

primrec custom_error_code :: "custom_error \<Rightarrow> u16" where
  "custom_error_code CustomError_Unknown = 1"

definition custom_errors :: "custom_error list" where
  "custom_errors =
    [CustomError_Unknown]"

interpretation custom_error_enum: code_enum custom_error_code custom_errors
proof
  fix e show "e \<in> set custom_errors" by (cases e) (simp_all add: custom_errors_def)
qed (simp add: custom_errors_def)

datatype ess_error =
    EssError_Unknown | EssError_GameSessionError | EssError_GameSessionMaintenance

primrec ess_error_code :: "ess_error \<Rightarrow> u16" where
  "ess_error_code EssError_Unknown = 1"
| "ess_error_code EssError_GameSessionError = 2"
| "ess_error_code EssError_GameSessionMaintenance = 3"

definition ess_errors :: "ess_error list" where
  "ess_errors =
    [EssError_Unknown, EssError_GameSessionError, EssError_GameSessionMaintenance]"

interpretation ess_error_enum: code_enum ess_error_code ess_errors
proof
  fix e show "e \<in> set ess_errors" by (cases e) (simp_all add: ess_errors_def)
qed (simp add: ess_errors_def)

section \<open>The packed code\<close>

datatype result_error =
    ErrCore core_error
  | ErrDDL ddlerror
  | ErrRendezVous rendez_vous_error
  | ErrPythonCore python_core_error
  | ErrTransport transport_error
  | ErrDOCore docore_error
  | ErrFPD fpderror
  | ErrRanking ranking_error
  | ErrAuthentication authentication_error
  | ErrDataStore data_store_error
  | ErrServiceItem service_item_error
  | ErrMatchmakeReferee matchmake_referee_error
  | ErrSubscriber subscriber_error
  | ErrRanking2 ranking2_error
  | ErrSmartDeviceVoiceChat smart_device_voice_chat_error
  | ErrScreening screening_error
  | ErrCustom custom_error
  | ErrEss ess_error

text \<open>The error bit, the category in bits 16 to 30 and the code in the low 16 bits.\<close>

definition error_bit :: u32 where
  "error_bit = 0x80000000"

definition pack_code :: "u32 \<Rightarrow> u16 \<Rightarrow> u32" where
  "pack_code cat c = (push_bit 16 cat OR ucast c) OR error_bit"

primrec result_error_to_u32 :: "result_error \<Rightarrow> u32" where
  "result_error_to_u32 (ErrCore inner) = pack_code 0x1 (core_error_code inner)"
| "result_error_to_u32 (ErrDDL inner) = pack_code 0x2 (ddlerror_code inner)"
| "result_error_to_u32 (ErrRendezVous inner) = pack_code 0x3 (rendez_vous_error_code inner)"
| "result_error_to_u32 (ErrPythonCore inner) = pack_code 0x4 (python_core_error_code inner)"
| "result_error_to_u32 (ErrTransport inner) = pack_code 0x5 (transport_error_code inner)"
| "result_error_to_u32 (ErrDOCore inner) = pack_code 0x6 (docore_error_code inner)"
| "result_error_to_u32 (ErrFPD inner) = pack_code 0x65 (fpderror_code inner)"
| "result_error_to_u32 (ErrRanking inner) = pack_code 0x67 (ranking_error_code inner)"
| "result_error_to_u32 (ErrAuthentication inner) = pack_code 0x68 (authentication_error_code inner)"
| "result_error_to_u32 (ErrDataStore inner) = pack_code 0x69 (data_store_error_code inner)"
| "result_error_to_u32 (ErrServiceItem inner) = pack_code 0x6c (service_item_error_code inner)"
| "result_error_to_u32 (ErrMatchmakeReferee inner) = pack_code 0x6f (matchmake_referee_error_code inner)"
| "result_error_to_u32 (ErrSubscriber inner) = pack_code 0x70 (subscriber_error_code inner)"
| "result_error_to_u32 (ErrRanking2 inner) = pack_code 0x71 (ranking2_error_code inner)"
| "result_error_to_u32 (ErrSmartDeviceVoiceChat inner) = pack_code 0x72 (smart_device_voice_chat_error_code inner)"
| "result_error_to_u32 (ErrScreening inner) = pack_code 0x73 (screening_error_code inner)"
| "result_error_to_u32 (ErrCustom inner) = pack_code 0x74 (custom_error_code inner)"
| "result_error_to_u32 (ErrEss inner) = pack_code 0x75 (ess_error_code inner)"

text \<open>\<open>TryFrom<u32>\<close>: the arms of the match on the category, then the masking around them. A failure returns the value it was given.\<close>

definition result_error_of_category :: "u32 \<Rightarrow> u16 \<Rightarrow> result_error option" where
  "result_error_of_category cat c =
    (if cat = 0x1 then map_option ErrCore (enum_of_code core_error_code core_errors c)
     else if cat = 0x2 then map_option ErrDDL (enum_of_code ddlerror_code ddlerrors c)
     else if cat = 0x3 then map_option ErrRendezVous (enum_of_code rendez_vous_error_code rendez_vous_errors c)
     else if cat = 0x4 then map_option ErrPythonCore (enum_of_code python_core_error_code python_core_errors c)
     else if cat = 0x5 then map_option ErrTransport (enum_of_code transport_error_code transport_errors c)
     else if cat = 0x6 then map_option ErrDOCore (enum_of_code docore_error_code docore_errors c)
     else if cat = 0x65 then map_option ErrFPD (enum_of_code fpderror_code fpderrors c)
     else if cat = 0x67 then map_option ErrRanking (enum_of_code ranking_error_code ranking_errors c)
     else if cat = 0x68 then map_option ErrAuthentication (enum_of_code authentication_error_code authentication_errors c)
     else if cat = 0x69 then map_option ErrDataStore (enum_of_code data_store_error_code data_store_errors c)
     else if cat = 0x6c then map_option ErrServiceItem (enum_of_code service_item_error_code service_item_errors c)
     else if cat = 0x6f then map_option ErrMatchmakeReferee (enum_of_code matchmake_referee_error_code matchmake_referee_errors c)
     else if cat = 0x70 then map_option ErrSubscriber (enum_of_code subscriber_error_code subscriber_errors c)
     else if cat = 0x71 then map_option ErrRanking2 (enum_of_code ranking2_error_code ranking2_errors c)
     else if cat = 0x72 then map_option ErrSmartDeviceVoiceChat (enum_of_code smart_device_voice_chat_error_code smart_device_voice_chat_errors c)
     else if cat = 0x73 then map_option ErrScreening (enum_of_code screening_error_code screening_errors c)
     else if cat = 0x74 then map_option ErrCustom (enum_of_code custom_error_code custom_errors c)
     else if cat = 0x75 then map_option ErrEss (enum_of_code ess_error_code ess_errors c)
     else None)"

definition result_error_of_u32 :: "u32 \<Rightarrow> u32 + result_error" where
  "result_error_of_u32 value =
    (if value AND error_bit = 0 then Inl value
     else let v = value XOR error_bit
          in case result_error_of_category (drop_bit 16 v) (ucast v) of
               None \<Rightarrow> Inl value | Some e \<Rightarrow> Inr e)"

text \<open>The two halves of a packed code.\<close>

primrec result_error_category :: "result_error \<Rightarrow> u32" where
  "result_error_category (ErrCore _) = 0x1"
| "result_error_category (ErrDDL _) = 0x2"
| "result_error_category (ErrRendezVous _) = 0x3"
| "result_error_category (ErrPythonCore _) = 0x4"
| "result_error_category (ErrTransport _) = 0x5"
| "result_error_category (ErrDOCore _) = 0x6"
| "result_error_category (ErrFPD _) = 0x65"
| "result_error_category (ErrRanking _) = 0x67"
| "result_error_category (ErrAuthentication _) = 0x68"
| "result_error_category (ErrDataStore _) = 0x69"
| "result_error_category (ErrServiceItem _) = 0x6c"
| "result_error_category (ErrMatchmakeReferee _) = 0x6f"
| "result_error_category (ErrSubscriber _) = 0x70"
| "result_error_category (ErrRanking2 _) = 0x71"
| "result_error_category (ErrSmartDeviceVoiceChat _) = 0x72"
| "result_error_category (ErrScreening _) = 0x73"
| "result_error_category (ErrCustom _) = 0x74"
| "result_error_category (ErrEss _) = 0x75"

primrec result_error_code :: "result_error \<Rightarrow> u16" where
  "result_error_code (ErrCore inner) = core_error_code inner"
| "result_error_code (ErrDDL inner) = ddlerror_code inner"
| "result_error_code (ErrRendezVous inner) = rendez_vous_error_code inner"
| "result_error_code (ErrPythonCore inner) = python_core_error_code inner"
| "result_error_code (ErrTransport inner) = transport_error_code inner"
| "result_error_code (ErrDOCore inner) = docore_error_code inner"
| "result_error_code (ErrFPD inner) = fpderror_code inner"
| "result_error_code (ErrRanking inner) = ranking_error_code inner"
| "result_error_code (ErrAuthentication inner) = authentication_error_code inner"
| "result_error_code (ErrDataStore inner) = data_store_error_code inner"
| "result_error_code (ErrServiceItem inner) = service_item_error_code inner"
| "result_error_code (ErrMatchmakeReferee inner) = matchmake_referee_error_code inner"
| "result_error_code (ErrSubscriber inner) = subscriber_error_code inner"
| "result_error_code (ErrRanking2 inner) = ranking2_error_code inner"
| "result_error_code (ErrSmartDeviceVoiceChat inner) = smart_device_voice_chat_error_code inner"
| "result_error_code (ErrScreening inner) = screening_error_code inner"
| "result_error_code (ErrCustom inner) = custom_error_code inner"
| "result_error_code (ErrEss inner) = ess_error_code inner"

lemma result_error_to_u32_pack:
  "result_error_to_u32 e = pack_code (result_error_category e) (result_error_code e)"
  by (cases e) simp_all

lemma result_error_category_less: "result_error_category e < 0x8000"
  by (cases e) simp_all

lemma error_bit_push: "error_bit = push_bit 31 1"
  by (simp add: error_bit_def)

lemma msb_bit: "bit error_bit n \<longleftrightarrow> n = 31"
  unfolding error_bit_push bit_push_bit_iff bit_1_iff by auto

lemma no_high_bit: "cat < 0x8000 \<Longrightarrow> 15 \<le> n \<Longrightarrow> \<not> bit (cat :: u32) n"
proof -
  assume "cat < 0x8000" and n: "15 \<le> n"
  then have "unat cat < 2 ^ 15" by (simp add: word_less_nat_alt)
  also have "(2 :: nat) ^ 15 \<le> 2 ^ n" using n by (rule power_increasing) simp
  finally have "\<not> bit (unat cat) n" by (simp add: bit_iff_odd)
  then show ?thesis by (auto simp: bit_unsigned_iff dest: bit_imp_le_length)
qed

lemma pack_code_bits:
  assumes "cat < 0x8000"
  shows "pack_code cat c AND error_bit \<noteq> 0"
    and "drop_bit 16 (pack_code cat c XOR error_bit) = cat"
    and "ucast (pack_code cat c XOR error_bit) = c"
proof -
  show "pack_code cat c AND error_bit \<noteq> 0"
  proof
    assume "pack_code cat c AND error_bit = 0"
    then have "\<not> bit (pack_code cat c AND error_bit) 31" by simp
    then show False by (simp add: pack_code_def bit_or_iff bit_and_iff msb_bit)
  qed
  show "drop_bit 16 (pack_code cat c XOR error_bit) = cat"
    using no_high_bit [OF assms]
    by (intro bit_word_eqI) (auto simp: pack_code_def bit_drop_bit_eq bit_or_iff bit_xor_iff
        bit_push_bit_iff bit_unsigned_iff msb_bit dest: bit_imp_le_length)
  show "ucast (pack_code cat c XOR error_bit) = c"
    by (intro bit_word_eqI) (auto simp: pack_code_def bit_or_iff bit_xor_iff
        bit_push_bit_iff bit_unsigned_iff msb_bit)
qed

lemma pack_code_unpack:
  assumes "value AND error_bit \<noteq> 0"
  shows "pack_code (drop_bit 16 (value XOR error_bit)) (ucast (value XOR error_bit)) = value"
proof -
  have "bit value 31"
  proof (rule ccontr)
    assume "\<not> bit value 31"
    then have "value AND error_bit = 0"
      by (intro bit_word_eqI) (auto simp: bit_and_iff msb_bit)
    with assms show False ..
  qed
  then show ?thesis
    by (intro bit_word_eqI) (auto simp: pack_code_def bit_drop_bit_eq bit_or_iff bit_xor_iff
        bit_push_bit_iff bit_unsigned_iff msb_bit)
qed

lemmas code_enum_iffs =
  core_error_enum.of_code_iff
  ddlerror_enum.of_code_iff
  rendez_vous_error_enum.of_code_iff
  python_core_error_enum.of_code_iff
  transport_error_enum.of_code_iff
  docore_error_enum.of_code_iff
  fpderror_enum.of_code_iff
  ranking_error_enum.of_code_iff
  authentication_error_enum.of_code_iff
  data_store_error_enum.of_code_iff
  service_item_error_enum.of_code_iff
  matchmake_referee_error_enum.of_code_iff
  subscriber_error_enum.of_code_iff
  ranking2_error_enum.of_code_iff
  smart_device_voice_chat_error_enum.of_code_iff
  screening_error_enum.of_code_iff
  custom_error_enum.of_code_iff
  ess_error_enum.of_code_iff

lemma result_error_of_category_iff:
  "result_error_of_category cat c = Some e
    \<longleftrightarrow> result_error_category e = cat \<and> result_error_code e = c"
  by (cases e) (auto simp: result_error_of_category_def code_enum_iffs split: if_splits)

text \<open>Decoding is exactly the inverse of encoding.\<close>

lemma result_error_of_to: "result_error_of_u32 (result_error_to_u32 e) = Inr e"
proof -
  have "result_error_of_category (result_error_category e) (result_error_code e) = Some e"
    by (simp add: result_error_of_category_iff)
  with pack_code_bits [OF result_error_category_less, of e "result_error_code e"] show ?thesis
    by (simp only: result_error_of_u32_def result_error_to_u32_pack Let_def if_False
        option.case refl)
qed

lemma result_error_to_of:
  assumes "result_error_of_u32 v = Inr e"
  shows "result_error_to_u32 e = v"
proof -
  let ?v = "v XOR error_bit"
  have nz: "v AND error_bit \<noteq> 0"
    using assms by (auto simp: result_error_of_u32_def)
  then have "result_error_of_category (drop_bit 16 ?v) (ucast ?v) = Some e"
    using assms by (auto simp: result_error_of_u32_def Let_def split: option.splits)
  then have "result_error_to_u32 e = pack_code (drop_bit 16 ?v) (ucast ?v)"
    by (simp only: result_error_of_category_iff result_error_to_u32_pack)
  also have "\<dots> = v" by (rule pack_code_unpack [OF nz])
  finally show ?thesis .
qed

end
