(* ===== verification/Rmc_Types.thy ===== *)
theory Rmc_Types
  imports Wire_Stream Result_Codes
begin

text \<open>
  The value types of the RMC layer, \<open>server/quazal/src/rmc/types.rs\<close>: station URLs,
  properties and their text forms, result codes on the wire, variants, and the
  \<open>Any\<close> container with its class registry.
\<close>

section \<open>Station URLs\<close>

record station_url =
  scheme :: string
  address :: string
  port :: nat
  params :: "string \<rightharpoonup> string"

text \<open>
  The parameters are split at semicolons and equals signs and collected into a map; one
  without an equals sign fails the whole URL. Address and port are then taken out of the map.
\<close>

fun collect_params :: "string list \<Rightarrow> (string \<times> string) list option" where
  "collect_params [] = Some []"
| "collect_params (p # ps) =
    (case split_once ''='' p of
       None \<Rightarrow> None
     | Some kv \<Rightarrow> map_option (Cons kv) (collect_params ps))"

definition parse_station_url :: "string \<Rightarrow> station_url_error + station_url" where
  "parse_station_url value =
    (case split_once '':/'' value of
       None \<Rightarrow> Inl MissingScheme
     | Some (sch, rest) \<Rightarrow>
        (case collect_params (split_char (CHR '';'') rest) of
           None \<Rightarrow> Inl InvalidParameters
         | Some kvs \<Rightarrow>
            (let m = insert_all kvs in
             case m ''address'' of
               None \<Rightarrow> Inl MissingAddress
             | Some a \<Rightarrow>
                (case m ''port'' of
                   None \<Rightarrow> Inl MissingPort
                 | Some p \<Rightarrow>
                    (case parse_uint 65536 p of
                       None \<Rightarrow> Inl InvalidPort
                     | Some n \<Rightarrow> Inr \<lparr>scheme = sch, address = a, port = n,
                         params = m(''address'' := None, ''port'' := None)\<rparr>)))))"

text \<open>
  \<open>Display\<close> writes the address, the port and then the other parameters in the iteration
  order of the map, which is the list \<open>order\<close>.
\<close>

definition show_param :: "string \<times> string \<Rightarrow> string" where
  "show_param kv = fst kv @ ''='' @ snd kv"

definition show_station_url :: "(string \<times> string) list \<Rightarrow> station_url \<Rightarrow> string" where
  "show_station_url order u =
    scheme u @ '':/'' @ join_char (CHR '';'')
      (map show_param ([(''address'', address u), (''port'', show_nat (port u))] @ order))"

definition iteration_order :: "(string \<times> string) list \<Rightarrow> (string \<rightharpoonup> string) \<Rightarrow> bool" where
  "iteration_order order m \<longleftrightarrow> distinct (map fst order) \<and> map_of order = m"

text \<open>The URLs whose text can be read back.\<close>

definition station_url_ok :: "station_url \<Rightarrow> bool" where
  "station_url_ok u \<longleftrightarrow>
     CHR '':'' \<notin> set (scheme u) \<and> CHR '';'' \<notin> set (address u) \<and> port u < 65536
     \<and> ''address'' \<notin> dom (params u) \<and> ''port'' \<notin> dom (params u)
     \<and> (\<forall>k v. params u k = Some v \<longrightarrow>
          CHR ''='' \<notin> set k \<and> CHR '';'' \<notin> set k \<and> CHR '';'' \<notin> set v)"

lemma split_once_scheme:
  "CHR '':'' \<notin> set s \<Longrightarrow> split_once '':/'' (s @ '':/'' @ rest) = Some (s, rest)"
  by (induction s) auto

lemma split_once_show_param:
  "CHR ''='' \<notin> set (fst kv) \<Longrightarrow> split_once ''='' (show_param kv) = Some kv"
  by (cases kv) (simp add: show_param_def split_once_char)

lemma collect_show_params:
  "\<forall>kv\<in>set kvs. CHR ''='' \<notin> set (fst kv) \<Longrightarrow> collect_params (map show_param kvs) = Some kvs"
  by (induction kvs) (auto simp: split_once_show_param)

lemma show_nat_no_sep: "CHR '';'' \<notin> set (show_nat n)"
  using show_nat_digits [of "CHR '';''" n] by auto

lemma station_url_parse_show:
  assumes "station_url_ok u" and "iteration_order order (params u)"
  shows "parse_station_url (show_station_url order u) = Inr u"
proof -
  let ?kvs = "[(''address'', address u), (''port'', show_nat (port u))] @ order"
  have mem: "params u k = Some v" if "(k, v) \<in> set order" for k v
    using that assms(2) by (metis iteration_order_def map_of_eq_Some_iff)
  have no_sep: "\<forall>kv\<in>set order. CHR ''='' \<notin> set (fst kv) \<and> CHR '';'' \<notin> set (fst kv)
      \<and> CHR '';'' \<notin> set (snd kv)"
  proof
    fix kv assume "kv \<in> set order"
    then have "params u (fst kv) = Some (snd kv)" using mem [of "fst kv" "snd kv"] by simp
    then show "CHR ''='' \<notin> set (fst kv) \<and> CHR '';'' \<notin> set (fst kv) \<and> CHR '';'' \<notin> set (snd kv)"
      using assms(1) unfolding station_url_ok_def by blast
  qed
  then have keys: "\<forall>kv\<in>set ?kvs. CHR ''='' \<notin> set (fst kv)"
    by auto
  have seps: "\<forall>w\<in>set (map show_param ?kvs). CHR '';'' \<notin> set w"
    using no_sep assms(1) show_nat_no_sep by (auto simp: station_url_ok_def show_param_def)
  have split: "split_char (CHR '';'') (join_char (CHR '';'') (map show_param ?kvs))
      = map show_param ?kvs"
    by (rule split_join_char [OF _ seps]) simp
  have fresh: "''address'' \<notin> fst ` set order" "''port'' \<notin> fst ` set order"
    using assms mem by (force simp: station_url_ok_def dom_def)+
  then have "distinct (map fst ?kvs)"
    using assms(2) by (auto simp: iteration_order_def)
  then have ins: "insert_all ?kvs = map_of ?kvs" by (rule insert_all_distinct)
  have par: "(map_of ?kvs)(''address'' := None, ''port'' := None) = params u"
  proof
    fix k
    have "map_of order = params u" using assms(2) by (simp add: iteration_order_def)
    moreover have "params u ''address'' = None" "params u ''port'' = None"
      using assms(1) by (auto simp: station_url_ok_def)
    ultimately show "((map_of ?kvs)(''address'' := None, ''port'' := None)) k = params u k"
      by simp
  qed
  have pt: "parse_uint 65536 (show_nat (port u)) = Some (port u)"
    using assms(1) by (simp add: station_url_ok_def)
  have so: "split_once '':/'' (show_station_url order u)
      = Some (scheme u, join_char (CHR '';'') (map show_param ?kvs))"
    using assms(1) unfolding show_station_url_def
    by (intro split_once_scheme) (simp add: station_url_ok_def)
  have cp: "collect_params (split_char (CHR '';'') (join_char (CHR '';'') (map show_param ?kvs)))
      = Some ?kvs"
    unfolding split by (rule collect_show_params [OF keys])
  have ad: "map_of ?kvs ''address'' = Some (address u)"
    and po: "map_of ?kvs ''port'' = Some (show_nat (port u))" by simp_all
  show ?thesis
    unfolding parse_station_url_def so option.case prod.case cp Let_def ins ad po pt par
    by simp
qed

definition rd_station_url :: "station_url reader" where
  "rd_station_url = rbind rd_string (\<lambda>s. case parse_station_url s of
     Inl e \<Rightarrow> rfail (ParseStationURL e) | Inr u \<Rightarrow> rreturn u)"

definition wr_station_url :: "(string \<times> string) list \<Rightarrow> station_url \<Rightarrow> bytes" where
  "wr_station_url order u = wr_string (show_station_url order u)"

lemma rd_station_url_enc:
  assumes "station_url_ok u" and "iteration_order order (params u)"
    and "string_ok (show_station_url order u)"
  shows "rd_station_url (wr_station_url order u @ rest) = Inr (u, rest)"
  using assms by (simp add: rd_station_url_def wr_station_url_def rbind_def rreturn_def
      stringc.dec_enc station_url_parse_show)

section \<open>Properties\<close>

record property =
  prop_id :: u32
  prop_value :: u32

definition show_property :: "property \<Rightarrow> string" where
  "show_property p = show_nat (unat (prop_id p)) @ '' => '' @ show_nat (unat (prop_value p))"

definition parse_property :: "string \<Rightarrow> property option" where
  "parse_property s =
    (case split_once '' => '' s of
       None \<Rightarrow> None
     | Some (i, v) \<Rightarrow>
        (case parse_uint (2 ^ 32) i of
           None \<Rightarrow> None
         | Some n \<Rightarrow>
            (case parse_uint (2 ^ 32) v of
               None \<Rightarrow> None
             | Some m \<Rightarrow> Some \<lparr>prop_id = of_nat n, prop_value = of_nat m\<rparr>)))"

text \<open>\<open>collect::<Result<Vec<_>, _>>\<close>: the first failure fails the list.\<close>

fun collect_options :: "'a option list \<Rightarrow> 'a list option" where
  "collect_options [] = Some []"
| "collect_options (x # xs) =
    (case x of None \<Rightarrow> None | Some a \<Rightarrow> map_option (Cons a) (collect_options xs))"

definition parse_properties :: "string \<Rightarrow> property list option" where
  "parse_properties s = collect_options (map parse_property (split_char (CHR '';'') s))"

definition show_properties :: "property list \<Rightarrow> string" where
  "show_properties ps = join_char (CHR '';'') (map show_property ps)"

lemma split_once_arrow:
  "CHR '' '' \<notin> set s \<Longrightarrow> split_once '' => '' (s @ '' => '' @ rest) = Some (s, rest)"
  by (induction s) auto

lemma show_nat_no_blank: "CHR '' '' \<notin> set (show_nat n)"
  using show_nat_digits [of "CHR '' ''" n] by auto

lemma parse_show_property: "parse_property (show_property p) = Some p"
  by (simp add: parse_property_def show_property_def
      split_once_arrow [OF show_nat_no_blank, simplified])

lemma show_property_no_sep: "CHR '';'' \<notin> set (show_property p)"
  using show_nat_no_sep by (simp add: show_property_def)

lemma collect_options_map_Some: "collect_options (map Some xs) = Some xs"
  by (induction xs) auto

lemma parse_show_properties: "ps \<noteq> [] \<Longrightarrow> parse_properties (show_properties ps) = Some ps"
proof -
  assume "ps \<noteq> []"
  then have "split_char (CHR '';'') (show_properties ps) = map show_property ps"
    unfolding show_properties_def by (intro split_join_char) (auto simp: show_property_no_sep)
  then show ?thesis
    by (simp add: parse_properties_def parse_show_property comp_def collect_options_map_Some)
qed

lemma parse_properties_empty: "parse_properties (show_properties []) = None"
  by (simp add: parse_properties_def show_properties_def parse_property_def)

definition rd_property :: "property reader" where
  "rd_property = rbind rd_u32 (\<lambda>i. rbind rd_u32 (\<lambda>v.
     rreturn \<lparr>prop_id = i, prop_value = v\<rparr>))"

definition wr_property :: "property \<Rightarrow> bytes" where
  "wr_property p = le32 (prop_id p) @ le32 (prop_value p)"

interpretation propertyc: canonical_codec wr_property rd_property "\<lambda>_. True"
proof
  fix x rest show "rd_property (wr_property x @ rest) = Inr (x, rest)"
    by (simp add: rd_property_def wr_property_def rbind_def rreturn_def)
next
  fix bs x r assume "rd_property bs = Inr (x, r)"
  then show "True \<and> bs = wr_property x @ r"
    by (auto simp: rd_property_def wr_property_def rbind_eq_Inr_conv rreturn_def
        dest!: rd_num_dec)
qed

section \<open>Results on the wire\<close>

datatype qresult = QOk | QError result_error | QUnknown u32

primrec qresult_code :: "qresult \<Rightarrow> u32" where
  "qresult_code QOk = 0x10001"
| "qresult_code (QError e) = result_error_to_u32 e"
| "qresult_code (QUnknown c) = c"

definition qresult_of_code :: "u32 \<Rightarrow> qresult" where
  "qresult_of_code c =
    (if c = 0x10001 then QOk
     else case result_error_of_u32 c of Inl _ \<Rightarrow> QUnknown c | Inr e \<Rightarrow> QError e)"

definition wr_qresult :: "qresult \<Rightarrow> bytes" where
  "wr_qresult q = le32 (qresult_code q)"

definition rd_qresult :: "qresult reader" where
  "rd_qresult = rmap qresult_of_code rd_u32"

text \<open>A value of \<open>Unknown\<close> is canonical when no other constructor claims its code.\<close>

definition qresult_ok :: "qresult \<Rightarrow> bool" where
  "qresult_ok q = (case q of QUnknown c \<Rightarrow> qresult_of_code c = QUnknown c | _ \<Rightarrow> True)"

lemma qresult_code_of_code: "qresult_code (qresult_of_code c) = c"
  by (auto simp: qresult_of_code_def dest: result_error_to_of split: sum.splits)

lemma result_code_not_ok: "result_error_to_u32 e \<noteq> 0x10001"
proof
  assume "result_error_to_u32 e = 0x10001"
  then have "result_error_of_u32 0x10001 = Inr e"
    by (metis result_error_of_to)
  then show False
    by (simp add: result_error_of_u32_def error_bit_def)
qed

lemma qresult_of_code_code: "qresult_ok q \<Longrightarrow> qresult_of_code (qresult_code q) = q"
  by (cases q)
    (auto simp: qresult_ok_def qresult_of_code_def result_error_of_to result_code_not_ok)

interpretation qresultc: canonical_codec wr_qresult rd_qresult qresult_ok
proof
  fix x rest assume "qresult_ok x"
  then show "rd_qresult (wr_qresult x @ rest) = Inr (x, rest)"
    by (simp add: rd_qresult_def wr_qresult_def rmap_def rbind_def rreturn_def
        qresult_of_code_code)
next
  fix bs x r assume "rd_qresult bs = Inr (x, r)"
  then obtain c where "rd_u32 bs = Inr (c, r)" and x: "x = qresult_of_code c"
    by (auto simp: rd_qresult_def rmap_def rbind_eq_Inr_conv rreturn_def)
  moreover have "qresult_ok (qresult_of_code c)"
    by (auto simp: qresult_ok_def qresult_of_code_def split: sum.splits)
  ultimately show "qresult_ok x \<and> bs = wr_qresult x @ r"
    by (auto simp: wr_qresult_def qresult_code_of_code dest: rd_num_dec)
qed

section \<open>Times and variants\<close>

type_synonym date_time = u64

text \<open>The fields that the \<open>Debug\<close> implementation of \<open>DateTime\<close> prints: year, month, day, hour, minute, second.\<close>

definition datetime_debug :: "date_time \<Rightarrow> nat \<times> nat \<times> nat \<times> nat \<times> nat \<times> nat" where
  "datetime_debug t =
    (unat (drop_bit 26 t),
     unat (drop_bit 22 t AND 7),
     unat (drop_bit 17 t AND 15),
     unat (drop_bit 12 t AND 15),
     unat (drop_bit 6 t AND 31),
     unat (t AND 31))"

datatype variant =
    VNone
  | VI64 "64 word"
  | VF64 "64 word"
  | VBool bool
  | VString string
  | VDateTime date_time
  | VU64 u64

definition rd_variant :: "variant reader" where
  "rd_variant = rbind rd_u8 (\<lambda>t.
     if t = 0 then rreturn VNone
     else if t = 1 then rmap VI64 rd_i64
     else if t = 2 then rmap VF64 rd_f64
     else if t = 3 then rmap VBool rd_bool
     else if t = 4 then rmap VString rd_string
     else if t = 5 then rmap VDateTime rd_u64
     else if t = 6 then rmap VU64 rd_u64
     else rfail IoInvalidData)"

primrec wr_variant :: "variant \<Rightarrow> bytes" where
  "wr_variant VNone = le8 0"
| "wr_variant (VI64 v) = le8 1 @ le64 v"
| "wr_variant (VF64 v) = le8 2 @ le64 v"
| "wr_variant (VBool v) = le8 3 @ wr_bool v"
| "wr_variant (VString v) = le8 4 @ wr_string v"
| "wr_variant (VDateTime v) = le8 5 @ le64 v"
| "wr_variant (VU64 v) = le8 6 @ le64 v"

definition variant_ok :: "variant \<Rightarrow> bool" where
  "variant_ok v = (case v of VString s \<Rightarrow> string_ok s | _ \<Rightarrow> True)"

interpretation variantc: wire_codec wr_variant rd_variant variant_ok
proof
  fix x rest assume "variant_ok x"
  then show "rd_variant (wr_variant x @ rest) = Inr (x, rest)"
    by (cases x) (simp_all add: variant_ok_def rd_variant_def rbind_def rmap_def rreturn_def
        le8_eq rd_i64_def rd_f64_def boolc.dec_enc stringc.dec_enc)
qed

lemma rd_variant_bad_tag: "6 < t \<Longrightarrow> rd_variant (t # bs) = Inl IoInvalidData"
  by (auto simp: rd_variant_def rbind_def rfail_def)

record property_variant =
  pv_id :: u32
  pv_value :: variant

definition rd_property_variant :: "property_variant reader" where
  "rd_property_variant = rbind rd_u32 (\<lambda>i. rbind rd_variant (\<lambda>v.
     rreturn \<lparr>pv_id = i, pv_value = v\<rparr>))"

definition wr_property_variant :: "property_variant \<Rightarrow> bytes" where
  "wr_property_variant p = le32 (pv_id p) @ wr_variant (pv_value p)"

interpretation property_variantc:
  wire_codec wr_property_variant rd_property_variant "\<lambda>p. variant_ok (pv_value p)"
  by unfold_locales (simp add: rd_property_variant_def wr_property_variant_def rbind_def
      rreturn_def variantc.dec_enc)

record result_range =
  rr_offset :: u32
  rr_size :: u32

definition rd_result_range :: "result_range reader" where
  "rd_result_range = rbind rd_u32 (\<lambda>off. rbind rd_u32 (\<lambda>n.
     rreturn \<lparr>rr_offset = off, rr_size = n\<rparr>))"

definition wr_result_range :: "result_range \<Rightarrow> bytes" where
  "wr_result_range p = le32 (rr_offset p) @ le32 (rr_size p)"

interpretation result_rangec: wire_codec wr_result_range rd_result_range "\<lambda>_. True"
  by unfold_locales (simp add: rd_result_range_def wr_result_range_def rbind_def rreturn_def)

section \<open>Lists\<close>

text \<open>
  \<open>QList\<close> has the same wire form as \<open>Vec\<close>, but its reader has no limit on the count; it
  reserves room for \<open>len\<close> entries before it reads the first.
\<close>

definition rd_qlist :: "'a reader \<Rightarrow> 'a list reader" where
  "rd_qlist d = rbind rd_u32 (\<lambda>len. rd_many (unat len) d)"

definition qlist_reserved :: "bytes \<Rightarrow> nat" where
  "qlist_reserved bs = (case rd_u32 bs of Inl _ \<Rightarrow> 0 | Inr (len, _) \<Rightarrow> unat len)"

definition vec_reserved :: "bytes \<Rightarrow> nat" where
  "vec_reserved bs =
    (case rd_u32 bs of Inl _ \<Rightarrow> 0
     | Inr (len, _) \<Rightarrow> if unat len > MAX_COLLECTION_ITEMS then 0 else unat len)"

definition wr_qlist :: "('a \<Rightarrow> bytes) \<Rightarrow> 'a list \<Rightarrow> bytes" where
  "wr_qlist w xs = le32 (of_nat (length xs)) @ concat (map w xs)"

lemma wire_codec_qlist:
  assumes "wire_codec e d ok"
  shows "wire_codec (wr_qlist e) (rd_qlist d) (\<lambda>xs. list_all ok xs \<and> length xs < 2 ^ 32)"
proof
  fix xs rest assume "list_all ok xs \<and> length xs < 2 ^ 32"
  then show "rd_qlist d (wr_qlist e xs @ rest) = Inr (xs, rest)"
    by (simp add: rd_qlist_def wr_qlist_def rbind_def unat_of_nat_small
        wire_codec.rd_many_enc [OF assms])
qed

interpretation qpropertyc: wire_codec "wr_qlist wr_property" "rd_qlist rd_property"
    "\<lambda>xs. list_all (\<lambda>_. True) xs \<and> length xs < 2 ^ 32"
  by (rule wire_codec_qlist) (rule propertyc.wire_codec_axioms)

lemma vec_reserved_bounded: "vec_reserved bs \<le> MAX_COLLECTION_ITEMS"
  by (auto simp: vec_reserved_def split: sum.splits prod.splits)

lemma qlist_reserved_unbounded: "qlist_reserved (le32 0xFFFFFFFF) = 2 ^ 32 - 1"
  using rd_num_enc(3) [of "0xFFFFFFFF" "[]"] by (simp add: qlist_reserved_def)

section \<open>Any\<close>

record any_value =
  type_name :: string
  any_data :: bytes

definition wr_any :: "any_value \<Rightarrow> bytes" where
  "wr_any a = wr_string (type_name a) @ wr_vec le8 (wr_vec le8 (any_data a))"

definition rd_any :: "any_value reader" where
  "rd_any = rbind rd_string (\<lambda>n. rbind (rd_vec rd_u8) (\<lambda>outer.
     case rd_vec rd_u8 outer of
       Inl e \<Rightarrow> rfail e
     | Inr (inner, _) \<Rightarrow> rreturn \<lparr>type_name = n, any_data = inner\<rparr>))"

definition any_ok :: "any_value \<Rightarrow> bool" where
  "any_ok a \<longleftrightarrow> string_ok (type_name a) \<and> length (any_data a) + 4 \<le> MAX_COLLECTION_ITEMS"

interpretation anyc: wire_codec wr_any rd_any any_ok
proof
  fix x rest assume ok: "any_ok x"
  then have "rd_vec rd_u8 (wr_vec le8 (any_data x)) = Inr (any_data x, [])"
    by (intro bytesc.dec_enc_all) (simp add: any_ok_def list_all_iff)
  moreover have "rd_vec rd_u8 (wr_vec le8 (wr_vec le8 (any_data x)) @ rest)
      = Inr (wr_vec le8 (any_data x), rest)"
    using ok by (intro bytesc.dec_enc) (simp add: any_ok_def list_all_iff wr_vec_def)
  ultimately show "rd_any (wr_any x @ rest) = Inr (x, rest)"
    using ok by (simp add: rd_any_def wr_any_def any_ok_def rbind_def rreturn_def
        stringc.dec_enc)
qed

text \<open>
  A class registry maps class names to factories. \<open>Any::into_inner\<close> instantiates the named
  class and panics when the registry does not know it.
\<close>

type_synonym 'c class_registry = "string \<rightharpoonup> (bytes \<Rightarrow> from_stream_error + 'c)"

datatype class_error = UnknownClass string | ParsingFailed from_stream_error

definition register_class ::
    "string \<Rightarrow> 'c reader \<Rightarrow> 'c class_registry \<Rightarrow> 'c class_registry" where
  "register_class n d reg =
    reg(n \<mapsto> (\<lambda>data. case d data of Inl e \<Rightarrow> Inl e | Inr (v, _) \<Rightarrow> Inr v))"

definition instantiate :: "'c class_registry \<Rightarrow> string \<Rightarrow> bytes \<Rightarrow> class_error + 'c" where
  "instantiate reg n data =
    (case reg n of
       None \<Rightarrow> Inl (UnknownClass n)
     | Some f \<Rightarrow> (case f data of Inl e \<Rightarrow> Inl (ParsingFailed e) | Inr v \<Rightarrow> Inr v))"

definition into_inner :: "'c class_registry \<Rightarrow> any_value \<Rightarrow> (from_stream_error, 'c) outcome" where
  "into_inner reg a =
    (case instantiate reg (type_name a) (any_data a) of
       Inr v \<Rightarrow> Value v
     | Inl (ParsingFailed e) \<Rightarrow> Fails e
     | Inl (UnknownClass _) \<Rightarrow> Panics)"

lemma into_inner_panics_iff: "into_inner reg a = Panics \<longleftrightarrow> reg (type_name a) = None"
  by (auto simp: into_inner_def instantiate_def split: option.splits sum.splits)

lemma into_inner_registered:
  "into_inner (register_class n d reg) \<lparr>type_name = n, any_data = bs\<rparr>
    = (case d bs of Inl e \<Rightarrow> Fails e | Inr (v, _) \<Rightarrow> Value v)"
  by (auto simp: into_inner_def instantiate_def register_class_def split: sum.splits prod.splits)


section \<open>Properties\<close>

text \<open>A station URL written to the stream, its parameters in any
  iteration order, is read back as the same URL, and the bytes after it are left.\<close>

lemma station_url_roundtrip:
  assumes "station_url_ok u" and "iteration_order order (params u)"
    and "string_ok (show_station_url order u)"
  shows "rd_station_url (wr_station_url order u @ rest) = Inr (u, rest)"
  using assms by (rule rd_station_url_enc)

definition sample_url :: station_url where
  "sample_url = \<lparr>scheme = ''prudp'', address = ''10.0.0.1'', port = 3074, params = [''sid'' \<mapsto> ''14'']\<rparr>"

lemma station_url_roundtrip_witness:
  "rd_station_url (wr_station_url [(''sid'', ''14'')] sample_url @ [1, 2]) = Inr (sample_url, [1, 2])"
proof (rule station_url_roundtrip)
  show "station_url_ok sample_url"
    by (simp add: station_url_ok_def sample_url_def)
  show "iteration_order [(''sid'', ''14'')] (params sample_url)"
    by (simp add: iteration_order_def sample_url_def)
  have "show_nat 3074 = ''3074''"
    by (simp add: show_nat.simps digit_char_def char_of_def bit_Suc_0_iff)
  then have "show_station_url [(''sid'', ''14'')] sample_url = ''prudp:/address=10.0.0.1;port=3074;sid=14''"
    by (simp add: show_station_url_def sample_url_def show_param_def)
  then show "string_ok (show_station_url [(''sid'', ''14'')] sample_url)"
    by (simp add: string_ok_def str_bytes_def byte_of_char_def utf8_valid_ascii)
qed

text \<open>Instantiating a received polymorphic value panics exactly
  when the peer names a class the registry does not hold; for a registered class the result
  is that of its parser.\<close>

lemma any_into_inner_panics_iff:
  "(into_inner reg a = Panics \<longleftrightarrow> reg (type_name a) = None)
    \<and> into_inner (register_class n d reg) \<lparr>type_name = n, any_data = bs\<rparr>
      = (case d bs of Inl e \<Rightarrow> Fails e | Inr (v, _) \<Rightarrow> Value v)"
  by (simp add: into_inner_panics_iff into_inner_registered)

text \<open>Result codes are read totally and without loss: every 32-bit code is
  read as one result and written back as the same code.\<close>

lemma qresult_canonical:
  "rd_qresult bs = Inr (q, r) \<longleftrightarrow> qresult_ok q \<and> bs = wr_qresult q @ r"
  by (rule qresultc.dec_iff)


text \<open>A 32-bit word decodes to an error exactly when it is that
  error's code, so no two errors share a code and none has the code of success.\<close>

lemma result_code_bijective:
  "(result_error_of_u32 c = Inr e \<longleftrightarrow> c = result_error_to_u32 e) \<and> result_error_to_u32 e \<noteq> 0x10001"
  using result_error_of_to result_error_to_of result_code_not_ok by metis

end
