(* ===== verification/Rc4.thy ===== *)
theory Rc4
  imports Prelude "HOL-Library.Multiset"
begin

text \<open>
  The RC4 cipher of \<open>server/quazal/src/prudp/packet.rs\<close> (\<open>Rc4::new\<close>, its \<open>Iterator\<close> and
  \<open>crypt_key\<close>). The S-box is a list of 256 bytes; the key check of \<open>Rc4::new\<close> is the
  \<open>None\<close> result, since the assertion panics. The locale \<open>stream_cipher\<close> is the interface
  the packet and ticket encryption relies on.
\<close>

section \<open>Stream ciphers\<close>

fun xor_stream :: "('s \<Rightarrow> u8 \<times> 's) \<Rightarrow> 's \<Rightarrow> bytes \<Rightarrow> bytes" where
  "xor_stream step s [] = []"
| "xor_stream step s (b # bs) = (let (k, s') = step s in (k XOR b) # xor_stream step s' bs)"

fun stream_state :: "('s \<Rightarrow> u8 \<times> 's) \<Rightarrow> 's \<Rightarrow> nat \<Rightarrow> 's" where
  "stream_state step s 0 = s"
| "stream_state step s (Suc n) = stream_state step (snd (step s)) n"

lemma length_xor_stream [simp]: "length (xor_stream step s bs) = length bs"
  by (induction bs arbitrary: s) (auto split: prod.splits)

lemma xor_stream_twice [simp]: "xor_stream step s (xor_stream step s bs) = bs"
  by (induction bs arbitrary: s) (auto split: prod.splits simp flip: xor.assoc)

lemma xor_stream_append:
  "xor_stream step s (xs @ ys)
    = xor_stream step s xs @ xor_stream step (stream_state step s (length xs)) ys"
  by (induction xs arbitrary: s) (auto split: prod.splits)

locale stream_cipher =
  fixes init :: "bytes \<Rightarrow> 's option" and step :: "'s \<Rightarrow> u8 \<times> 's" and inv :: "'s \<Rightarrow> bool"
  assumes init_inv: "init key = Some s \<Longrightarrow> inv s"
    and step_inv: "inv s \<Longrightarrow> inv (snd (step s))"
begin

lemma state_inv: "inv s \<Longrightarrow> inv (stream_state step s n)"
  by (induction n arbitrary: s) (auto intro: step_inv)

lemma reachable_inv: "init key = Some s \<Longrightarrow> inv (stream_state step s n)"
  by (rule state_inv) (rule init_inv)

lemma crypt_involution:
  "map_option (\<lambda>s. xor_stream step s bs) (init key) = Some c \<Longrightarrow>
    map_option (\<lambda>s. xor_stream step s c) (init key) = Some bs"
  by (cases "init key") auto

lemma crypt_length:
  "map_option (\<lambda>s. xor_stream step s bs) (init key) = Some c \<Longrightarrow> length c = length bs"
  by (cases "init key") auto

end

section \<open>The cipher\<close>

record rc4 =
  rc4_i :: u8
  rc4_j :: u8
  rc4_state :: "u8 list"

definition swap_at :: "'a list \<Rightarrow> nat \<Rightarrow> nat \<Rightarrow> 'a list" where
  "swap_at xs i j = xs[i := xs ! j, j := xs ! i]"

text \<open>One round of the key schedule: the pair is the state array and \<open>j\<close>.\<close>

definition ksa_round :: "bytes \<Rightarrow> u8 list \<times> u8 \<Rightarrow> nat \<Rightarrow> u8 list \<times> u8" where
  "ksa_round key sj i =
    (let j = snd sj + fst sj ! i + key ! (i mod length key)
     in (swap_at (fst sj) i (unat j), j))"

definition rc4_new :: "bytes \<Rightarrow> rc4 option" where
  "rc4_new key =
    (if key \<noteq> [] \<and> length key \<le> 256
     then Some \<lparr>rc4_i = 0, rc4_j = 0,
           rc4_state = fst (foldl (ksa_round key) (map of_nat [0..<256], 0) [0..<256])\<rparr>
     else None)"

definition rc4_next :: "rc4 \<Rightarrow> u8 \<times> rc4" where
  "rc4_next r =
    (let i = rc4_i r + 1;
         j = rc4_j r + rc4_state r ! unat i;
         st = swap_at (rc4_state r) (unat i) (unat j);
         k = st ! unat (st ! unat i + st ! unat j)
     in (k, \<lparr>rc4_i = i, rc4_j = j, rc4_state = st\<rparr>))"

text \<open>\<open>crypt_key\<close>: \<open>None\<close> is the panic of \<open>Rc4::new\<close> on an unusable key.\<close>

definition crypt_key :: "bytes \<Rightarrow> bytes \<Rightarrow> bytes option" where
  "crypt_key key data = map_option (\<lambda>r. xor_stream rc4_next r data) (rc4_new key)"

section \<open>The S-box stays a permutation\<close>

definition sbox_ok :: "u8 list \<Rightarrow> bool" where
  "sbox_ok st \<longleftrightarrow> mset st = mset (map of_nat [0..<256])"

lemma sbox_length: "sbox_ok st \<Longrightarrow> length st = 256"
  unfolding sbox_ok_def by (drule mset_eq_length) simp

lemma sbox_ok_swap:
  assumes "sbox_ok st" and "i < 256" and "j < 256"
  shows "sbox_ok (swap_at st i j)"
proof -
  have "mset (st[i := st ! j, j := st ! i]) = mset st"
    using assms sbox_length [OF assms(1)] by (intro mset_swap) simp_all
  with assms(1) show ?thesis by (simp add: sbox_ok_def swap_at_def)
qed

lemma sbox_indices_bound:
  "unat (w :: u8) < 256" "i \<in> set [0..<256] \<Longrightarrow> i < (256 :: nat)"
  by simp_all

lemma ksa_round_ok:
  "sbox_ok (fst sj) \<Longrightarrow> i < 256 \<Longrightarrow> sbox_ok (fst (ksa_round key sj i))"
  by (simp add: ksa_round_def Let_def sbox_ok_swap)

lemma ksa_ok:
  "\<forall>i\<in>set is. i < 256 \<Longrightarrow> sbox_ok (fst sj) \<Longrightarrow> sbox_ok (fst (foldl (ksa_round key) sj is))"
  by (induction "is" arbitrary: sj) (simp_all add: ksa_round_ok)

interpretation rc4c: stream_cipher rc4_new rc4_next "\<lambda>r. sbox_ok (rc4_state r)"
proof
  fix key and s :: rc4 assume "rc4_new key = Some s"
  then have "rc4_state s = fst (foldl (ksa_round key) (map of_nat [0..<256], 0) [0..<256])"
    by (auto simp: rc4_new_def split: if_splits)
  moreover have "sbox_ok (fst (foldl (ksa_round key) (map of_nat [0..<256], 0) [0..<256]))"
    by (rule ksa_ok) (simp_all add: sbox_ok_def)
  ultimately show "sbox_ok (rc4_state s)" by simp
next
  fix s :: rc4 assume "sbox_ok (rc4_state s)"
  then show "sbox_ok (rc4_state (snd (rc4_next s)))"
    by (simp add: rc4_next_def Let_def sbox_ok_swap)
qed

text \<open>Every byte occurs exactly once in the S-box, so no index is out of range.\<close>

lemma sbox_bij: "sbox_ok st \<Longrightarrow> distinct st \<and> set st = UNIV"
proof -
  assume ok: "sbox_ok st"
  then have s: "set st = set (map of_nat [0..<256])"
    unfolding sbox_ok_def by (rule mset_eq_setD)
  have "w \<in> set (map of_nat [0..<256])" for w :: u8
  proof -
    have "of_nat (unat w) \<in> set (map (of_nat :: nat \<Rightarrow> u8) [0..<256])"
      unfolding set_map by (rule imageI) simp
    then show ?thesis by simp
  qed
  then have "set (map of_nat [0..<256]) = (UNIV :: u8 set)" by blast
  moreover have "inj_on (of_nat :: nat \<Rightarrow> u8) {0..<256}"
    by (rule inj_on_inverseI [where g = unat]) (simp add: unat_of_nat)
  then have "distinct (map (of_nat :: nat \<Rightarrow> u8) [0..<256])"
    by (simp add: distinct_map del: of_nat_numeral)
  then have "distinct st" using ok mset_eq_imp_distinct_iff unfolding sbox_ok_def by blast
  ultimately show ?thesis using s by simp
qed

lemma crypt_key_None_iff: "crypt_key key data = None \<longleftrightarrow> key = [] \<or> 256 < length key"
  by (auto simp: crypt_key_def rc4_new_def)

lemma crypt_key_total: "key \<noteq> [] \<Longrightarrow> length key \<le> 256 \<Longrightarrow> \<exists>c. crypt_key key data = Some c"
  by (simp add: crypt_key_def rc4_new_def)

lemma rc4_new_total: "key \<noteq> [] \<Longrightarrow> length key \<le> 256 \<Longrightarrow> \<exists>r. rc4_new key = Some r"
  by (simp add: rc4_new_def)

lemma crypt_key_involution: "crypt_key key d = Some c \<Longrightarrow> crypt_key key c = Some d"
  unfolding crypt_key_def by (rule rc4c.crypt_involution)

lemma crypt_key_length: "crypt_key key d = Some c \<Longrightarrow> length c = length d"
  unfolding crypt_key_def by (rule rc4c.crypt_length)

lemma crypt_key_Nil: "key \<noteq> [] \<Longrightarrow> length key \<le> 256 \<Longrightarrow> crypt_key key [] = Some []"
  by (simp add: crypt_key_def rc4_new_def)


section \<open>Properties\<close>

text \<open>With a key of 1 to 256 bytes the cipher never panics: encryption
  has a result of the same length, decrypting it with the same key gives the data back, and
  after any number of output bytes the S-box is a permutation of the 256 bytes, so that no
  index is out of range. Any other key panics.\<close>

lemma rc4_inverse_total:
  "(key \<noteq> [] \<and> length key \<le> 256 \<and>
     (\<exists>c r. crypt_key key d = Some c \<and> length c = length d \<and> crypt_key key c = Some d
       \<and> rc4_new key = Some r
       \<and> (\<forall>n. let st = rc4_state (stream_state rc4_next r n)
             in distinct st \<and> set st = UNIV \<and> length st = 256)))
   \<or> ((key = [] \<or> 256 < length key) \<and> crypt_key key d = None)"
proof (cases "key \<noteq> [] \<and> length key \<le> 256")
  case True
  then obtain c r where c: "crypt_key key d = Some c" and r: "rc4_new key = Some r"
    using crypt_key_total rc4_new_total by blast
  have "let st = rc4_state (stream_state rc4_next r n)
      in distinct st \<and> set st = UNIV \<and> length st = 256" for n
    using rc4c.reachable_inv [OF r, of n] by (simp add: sbox_bij sbox_length)
  with True c r crypt_key_involution [OF c] crypt_key_length [OF c] show ?thesis by blast
next
  case False
  then show ?thesis by (auto simp: crypt_key_None_iff)
qed

end
