(* ===== verification/Packet.thy ===== *)
theory Packet
  imports Wire_Stream Rc4
begin

text \<open>
  PRUDP packets, \<open>server/quazal/src/prudp/packet.rs\<close> and the part of \<open>Context\<close> in
  \<open>server/quazal/src/config.rs\<close> it uses: virtual ports, packet types and flags, checksum,
  payload encryption, and the conversion of a packet from and to bytes. A call that can
  panic has an \<open>outcome\<close>, a serialisation that can panic an option. The zlib library is the
  parameter \<open>zlib\<close>; \<open>zlib_ok\<close> is its documented round trip.
\<close>

section \<open>Context and external code\<close>

type_synonym socket_addr = "string \<times> u16"

record quazal_context =
  access_key :: bytes
  crypto_key :: bytes
  ctx_listen :: socket_addr
  ctx_vport :: u8
  secure_server_addr :: "socket_addr option"
  ctx_settings :: "string \<rightharpoonup> string"
  ticket_key :: bytes

record zlib =
  zlib_compress :: "bytes \<Rightarrow> bytes"
  zlib_decompress :: "nat \<Rightarrow> bytes \<Rightarrow> bytes option"

definition zlib_ok :: "zlib \<Rightarrow> bool" where
  "zlib_ok z \<longleftrightarrow> (\<forall>d. zlib_compress z d \<noteq> []) \<and>
     (\<forall>d limit. length d \<le> limit \<longrightarrow> zlib_decompress z limit (zlib_compress z d) = Some d)"

definition MAX_DECOMPRESSED_PACKET_BYTES :: nat where
  "MAX_DECOMPRESSED_PACKET_BYTES = 1024 * 1024"

datatype packet_error =
    InvalidFlag u8
  | InvalidChecksum
  | DecompressFailed
  | InvalidPktType u8
  | InvalidStreamType u8
  | PacketIO
  | StreamHandler
  | Unimplemented

definition of_read :: "from_stream_error + 'a \<Rightarrow> (packet_error, 'a) outcome" where
  "of_read m = (case m of Inl _ \<Rightarrow> Fails PacketIO | Inr x \<Rightarrow> Value x)"

lemma of_read_simps [simp]: "of_read (Inl e) = Fails PacketIO" "of_read (Inr x) = Value x"
  by (simp_all add: of_read_def)

lemma of_read_not_Panics [simp]: "of_read m \<noteq> Panics"
  by (cases m) simp_all

section \<open>Virtual ports, packet types and flags\<close>

datatype stream_type = DO | RV | RVSec | SBMGMT | NAT | SessionDiscovery | NATEcho | Routing

primrec stream_type_code :: "stream_type \<Rightarrow> u8" where
  "stream_type_code DO = 1"
| "stream_type_code RV = 2"
| "stream_type_code RVSec = 3"
| "stream_type_code SBMGMT = 4"
| "stream_type_code NAT = 5"
| "stream_type_code SessionDiscovery = 6"
| "stream_type_code NATEcho = 7"
| "stream_type_code Routing = 8"

definition all_stream_types :: "stream_type list" where
  "all_stream_types = [DO, RV, RVSec, SBMGMT, NAT, SessionDiscovery, NATEcho, Routing]"

interpretation stream_type_enum: code_enum stream_type_code all_stream_types
proof
  fix e show "e \<in> set all_stream_types" by (cases e) (simp_all add: all_stream_types_def)
qed (simp add: all_stream_types_def)

datatype packet_type = Syn | Connect | Data | Disconnect | Ping | User | Route | Raw

primrec packet_type_code :: "packet_type \<Rightarrow> u8" where
  "packet_type_code Syn = 0"
| "packet_type_code Connect = 1"
| "packet_type_code Data = 2"
| "packet_type_code Disconnect = 3"
| "packet_type_code Ping = 4"
| "packet_type_code User = 5"
| "packet_type_code Route = 6"
| "packet_type_code Raw = 7"

definition all_packet_types :: "packet_type list" where
  "all_packet_types = [Syn, Connect, Data, Disconnect, Ping, User, Route, Raw]"

interpretation packet_type_enum: code_enum packet_type_code all_packet_types
proof
  fix e show "e \<in> set all_packet_types" by (cases e) (simp_all add: all_packet_types_def)
qed (simp add: all_packet_types_def)

definition flag_Ack :: u8 where "flag_Ack = 1"
definition flag_Reliable :: u8 where "flag_Reliable = 2"
definition flag_NeedAck :: u8 where "flag_NeedAck = 4"
definition flag_HasSize :: u8 where "flag_HasSize = 8"

definition has_flag :: "u8 \<Rightarrow> u8 \<Rightarrow> bool" where
  "has_flag fs f \<longleftrightarrow> fs AND f = f"

record vport =
  vp_port :: u8
  vp_stream_type :: stream_type

definition vport_default :: vport where
  "vport_default = \<lparr>vp_port = 0, vp_stream_type = DO\<rparr>"

definition vport_from_reader :: "bytes \<Rightarrow> (packet_error, vport \<times> bytes) outcome" where
  "vport_from_reader bs =
    obind (of_read (rd_u8 bs)) (\<lambda>(val, r).
      case enum_of_code stream_type_code all_stream_types (drop_bit 4 val) of
        None \<Rightarrow> Fails (InvalidStreamType (drop_bit 4 val))
      | Some st \<Rightarrow> Value (\<lparr>vp_port = val AND 0xF, vp_stream_type = st\<rparr>, r))"

definition vport_to_bytes :: "vport \<Rightarrow> bytes" where
  "vport_to_bytes v = [vp_port v OR push_bit 4 (stream_type_code (vp_stream_type v))]"

record qpacket =
  pk_source :: vport
  pk_destination :: vport
  pk_type :: packet_type
  pk_flags :: u8
  pk_session_id :: u8
  pk_signature :: u32
  pk_fragment_id :: "u8 option"
  pk_conn_signature :: "u32 option"
  pk_sequence :: u16
  pk_payload :: bytes
  pk_checksum :: u8
  pk_use_compression :: bool

definition qpacket_default :: qpacket where
  "qpacket_default = \<lparr>pk_source = vport_default, pk_destination = vport_default,
     pk_type = Syn, pk_flags = 0, pk_session_id = 0, pk_signature = 0, pk_fragment_id = None,
     pk_conn_signature = None, pk_sequence = 0, pk_payload = [], pk_checksum = 0,
     pk_use_compression = False\<rparr>"

section \<open>Checksum\<close>

fun fold_u32 :: "u32 \<Rightarrow> bytes \<Rightarrow> u32" where
  "fold_u32 acc (a # b # c # d # r) = fold_u32 (acc + of_nat (nat_of_le [a, b, c, d])) r"
| "fold_u32 acc _ = acc"

definition calc_checksum_from_data :: "u32 \<Rightarrow> bytes \<Rightarrow> u8" where
  "calc_checksum_from_data key data =
    (let l = length data - length data mod 4;
         tmp = fold_u32 0 (take l data);
         data_sum = foldl (+) 0 (le32 tmp);
         trailer_sum = foldl (+) 0 (drop l data)
     in data_sum + ucast key + trailer_sum)"

definition context_key :: "quazal_context \<Rightarrow> stream_type \<Rightarrow> u32" where
  "context_key ctx st =
    (if st = RVSec then foldl (\<lambda>acc x. acc + ucast x) 0 (access_key ctx) else 0)"

text \<open>
  \<open>Context::splinter_cell_blacklist\<close>; the generated ticket key is a parameter.
\<close>

definition splinter_cell_blacklist :: "bytes \<Rightarrow> quazal_context" where
  "splinter_cell_blacklist tkey =
    \<lparr>access_key = str_bytes ''yl4NG7qZ'', crypto_key = str_bytes ''CD&ML'',
     ctx_listen = (''0.0.0.0'', 9999), ctx_vport = 1, secure_server_addr = None,
     ctx_settings = Map.empty, ticket_key = tkey\<rparr>"

section \<open>Parsing\<close>

text \<open>The fields before the payload, in wire order.\<close>

definition read_conn_signature ::
    "packet_type \<Rightarrow> bytes \<Rightarrow> (packet_error, u32 option \<times> bytes) outcome" where
  "read_conn_signature pt r =
    (if pt = Syn \<or> pt = Connect
     then obind (of_read (rd_u32 r)) (\<lambda>(c, r). Value (Some c, r))
     else Value (None, r))"

definition read_fragment_id ::
    "packet_type \<Rightarrow> bytes \<Rightarrow> (packet_error, u8 option \<times> bytes) outcome" where
  "read_fragment_id pt r =
    (if pt = Data
     then obind (of_read (rd_u8 r)) (\<lambda>(f, r). Value (Some f, r))
     else Value (None, r))"

definition read_header :: "bytes \<Rightarrow> (packet_error, qpacket \<times> bytes) outcome" where
  "read_header bs =
    obind (vport_from_reader bs) (\<lambda>(src, r).
    obind (vport_from_reader r) (\<lambda>(dst, r).
    obind (of_read (rd_u8 r)) (\<lambda>(type_flag, r).
    case enum_of_code packet_type_code all_packet_types (type_flag AND 7) of
      None \<Rightarrow> Fails (InvalidPktType (type_flag AND 7))
    | Some pt \<Rightarrow>
    if drop_bit 3 type_flag AND 0xF0 \<noteq> 0 then Fails (InvalidFlag (drop_bit 3 type_flag AND 0xF0)) else
    obind (of_read (rd_u8 r)) (\<lambda>(sid, r).
    obind (of_read (rd_u32 r)) (\<lambda>(sig, r).
    obind (of_read (rd_u16 r)) (\<lambda>(sq, r).
    obind (read_conn_signature pt r) (\<lambda>(cs, r).
    obind (read_fragment_id pt r) (\<lambda>(fid, r).
    Value (\<lparr>pk_source = src, pk_destination = dst, pk_type = pt,
       pk_flags = drop_bit 3 type_flag, pk_session_id = sid, pk_signature = sig,
       pk_fragment_id = fid, pk_conn_signature = cs, pk_sequence = sq, pk_payload = [],
       pk_checksum = 0, pk_use_compression = False\<rparr>, r)))))))))"

text \<open>
  Without \<open>HasSize\<close> the payload is everything up to the last byte. With nothing left
  \<open>l - p - 1\<close> underflows: a panic with overflow checks, and otherwise a size of
  \<open>usize::MAX\<close> whose allocation panics.
\<close>

definition payload_size :: "u8 \<Rightarrow> bytes \<Rightarrow> (packet_error, nat \<times> bytes) outcome" where
  "payload_size fs r =
    (if has_flag fs flag_HasSize
     then obind (of_read (rd_u16 r)) (\<lambda>(n, r). Value (unat n, r))
     else if r = [] then Panics else Value (length r - 1, r))"

definition read_exact :: "nat \<Rightarrow> bytes \<Rightarrow> (packet_error, bytes \<times> bytes) outcome" where
  "read_exact n r = (if length r < n then Fails PacketIO else Value (take n r, drop n r))"

definition encrypted :: "packet_type \<Rightarrow> stream_type \<Rightarrow> bool" where
  "encrypted pt st \<longleftrightarrow> pt \<noteq> Syn \<and> st = RVSec"

definition decode_payload ::
    "quazal_context \<Rightarrow> zlib \<Rightarrow> packet_type \<Rightarrow> stream_type \<Rightarrow> bytes
      \<Rightarrow> (packet_error, bytes \<times> bool) outcome" where
  "decode_payload ctx z pt st payload =
    (if encrypted pt st then
       (case crypt_key (crypto_key ctx) payload of
          None \<Rightarrow> Panics
        | Some [] \<Rightarrow> Value ([], False)
        | Some (c # p) \<Rightarrow>
            if c \<noteq> 0 then
              (case zlib_decompress z MAX_DECOMPRESSED_PACKET_BYTES p of
                 None \<Rightarrow> Fails DecompressFailed
               | Some d \<Rightarrow> Value (d, True))
            else Value (p, False))
     else Value (payload, False))"

definition packet_from_reader ::
    "quazal_context \<Rightarrow> zlib \<Rightarrow> bytes \<Rightarrow> (packet_error, qpacket \<times> bytes) outcome" where
  "packet_from_reader ctx z bs =
    obind (read_header bs) (\<lambda>(h, r).
    obind (payload_size (pk_flags h) r) (\<lambda>(n, r).
    obind (read_exact n r) (\<lambda>(payload, r).
    obind (decode_payload ctx z (pk_type h) (vp_stream_type (pk_source h)) payload) (\<lambda>(payload, uc).
    obind (of_read (rd_u8 r)) (\<lambda>(cs, r).
    Value (h\<lparr>pk_payload := payload, pk_checksum := cs, pk_use_compression := uc\<rparr>, r))))))"

definition packet_from_bytes ::
    "quazal_context \<Rightarrow> zlib \<Rightarrow> bytes \<Rightarrow> (packet_error, qpacket \<times> nat) outcome" where
  "packet_from_bytes ctx z data =
    obind (packet_from_reader ctx z data) (\<lambda>(p, r). Value (p, length data - length r))"

definition packet_validate ::
    "quazal_context \<Rightarrow> qpacket \<Rightarrow> bytes \<Rightarrow> (packet_error, unit) outcome" where
  "packet_validate ctx p data =
    (if data = [] then Panics
     else if pk_checksum p
         \<noteq> calc_checksum_from_data (context_key ctx (vp_stream_type (pk_destination p))) (butlast data)
     then Fails InvalidChecksum else Value ())"

definition packet_parse ::
    "quazal_context \<Rightarrow> zlib \<Rightarrow> bytes \<Rightarrow> (packet_error, qpacket \<times> bytes) outcome" where
  "packet_parse ctx z bs =
    obind (packet_from_reader ctx z bs) (\<lambda>(p, r).
    obind (packet_validate ctx p (take (length bs - length r) bs)) (\<lambda>_. Value (p, r)))"

section \<open>Serialisation\<close>

definition type_fields :: "qpacket \<Rightarrow> bytes option" where
  "type_fields p =
    (case pk_type p of
       Syn \<Rightarrow> map_option le32 (pk_conn_signature p)
     | Connect \<Rightarrow> map_option le32 (pk_conn_signature p)
     | Data \<Rightarrow> map_option (\<lambda>f. [f]) (pk_fragment_id p)
     | _ \<Rightarrow> Some [])"

text \<open>The payload with its leading compression byte; dividing by a zero length would panic.\<close>

definition pack_payload :: "zlib \<Rightarrow> qpacket \<Rightarrow> bytes option" where
  "pack_payload z p =
    (if pk_payload p = [] then Some []
     else if pk_use_compression p then
       (let tmp = zlib_compress z (pk_payload p) in
        if tmp = [] then None
        else Some (of_nat (length (pk_payload p) div length tmp + 1) # tmp))
     else Some (0 # pk_payload p))"

definition encode_payload :: "quazal_context \<Rightarrow> zlib \<Rightarrow> qpacket \<Rightarrow> bytes option" where
  "encode_payload ctx z p =
    Option.bind (pack_payload z p) (\<lambda>d.
      if encrypted (pk_type p) (vp_stream_type (pk_source p)) then crypt_key (crypto_key ctx) d
      else Some d)"

definition type_flag_byte :: "packet_type \<Rightarrow> u8 \<Rightarrow> u8" where
  "type_flag_byte pt f = packet_type_code pt OR push_bit 3 f"

definition packet_to_data_bytes :: "quazal_context \<Rightarrow> zlib \<Rightarrow> qpacket \<Rightarrow> bytes option" where
  "packet_to_data_bytes ctx z p =
    Option.bind (type_fields p) (\<lambda>tf.
    Option.bind (encode_payload ctx z p) (\<lambda>payload.
    Some (vport_to_bytes (pk_source p) @ vport_to_bytes (pk_destination p)
      @ [type_flag_byte (pk_type p) (pk_flags p)]
      @ [pk_session_id p] @ le32 (pk_signature p) @ le16 (pk_sequence p) @ tf
      @ (if has_flag (pk_flags p) flag_HasSize then le16 (of_nat (length payload)) else [])
      @ payload)))"

definition packet_to_bytes :: "quazal_context \<Rightarrow> zlib \<Rightarrow> qpacket \<Rightarrow> bytes option" where
  "packet_to_bytes ctx z p =
    Option.bind (packet_to_data_bytes ctx z p) (\<lambda>d.
    Some (d @ [calc_checksum_from_data
                 (context_key ctx (vp_stream_type (pk_destination p))) d]))"

text \<open>
  \<open>calc_signature\<close>: a constant for empty payloads, otherwise the first four bytes of an
  HMAC-MD5; \<open>None\<close> is the \<open>todo!\<close> of the other packet types.
\<close>

definition calc_signature ::
    "(bytes \<Rightarrow> bytes) \<Rightarrow> (bytes \<Rightarrow> bytes \<Rightarrow> bytes) \<Rightarrow> quazal_context \<Rightarrow> qpacket \<Rightarrow> bytes \<Rightarrow> u32 option" where
  "calc_signature md5 hmac ctx p payload =
    (if pk_type p = Data then
       (if payload = [] then Some 0x12345678
        else Some (of_nat (nat_of_le (take 4 (hmac (md5 (access_key ctx)) payload)))))
     else None)"

definition packet_calc_checksum :: "quazal_context \<Rightarrow> zlib \<Rightarrow> qpacket \<Rightarrow> u8 option" where
  "packet_calc_checksum ctx z p =
    map_option (calc_checksum_from_data (context_key ctx (vp_stream_type (pk_destination p))))
      (packet_to_data_bytes ctx z p)"


section \<open>Round trip\<close>

lemma vport_table: "list_all (\<lambda>st. list_all (\<lambda>n.
    drop_bit 4 (of_nat n OR push_bit 4 (stream_type_code st)) = stream_type_code st
    \<and> (of_nat n OR push_bit 4 (stream_type_code st)) AND 0xF = of_nat n) [0..<16])
    all_stream_types"
  by code_simp

lemma vport_bits:
  assumes "q < 16"
  shows "drop_bit 4 (q OR push_bit 4 (stream_type_code st)) = stream_type_code st"
    and "(q OR push_bit 4 (stream_type_code st)) AND 0xF = q"
proof -
  have "unat q \<in> set [0..<16]" using assms by (simp add: word_less_nat_alt)
  moreover have "st \<in> set all_stream_types" by (rule stream_type_enum.all_complete)
  ultimately have
    "drop_bit 4 (of_nat (unat q) OR push_bit 4 (stream_type_code st)) = stream_type_code st
    \<and> (of_nat (unat q) OR push_bit 4 (stream_type_code st)) AND 0xF = of_nat (unat q)"
    using vport_table unfolding list_all_iff by blast
  then show "drop_bit 4 (q OR push_bit 4 (stream_type_code st)) = stream_type_code st"
    and "(q OR push_bit 4 (stream_type_code st)) AND 0xF = q"
    unfolding of_nat_unat ucast_id by blast+
qed

lemma vport_from_to_bytes [codec_rt]:
  "vp_port v < 16 \<Longrightarrow> vport_from_reader (vport_to_bytes v @ rest) = Value (v, rest)"
  by (simp add: vport_from_reader_def vport_to_bytes_def vport_bits stream_type_enum.of_code_code
      del: drop_bit_or)

lemma type_flag_table: "list_all (\<lambda>pt. list_all (\<lambda>n.
    type_flag_byte pt (of_nat n) AND 7 = packet_type_code pt
    \<and> drop_bit 3 (type_flag_byte pt (of_nat n)) = (of_nat n :: u8)
    \<and> (of_nat n :: u8) AND 0xF0 = 0) [0..<16])
    all_packet_types"
  by code_simp

lemma type_flag_bits:
  fixes f :: u8
  assumes "f < 16"
  shows "type_flag_byte pt f AND 7 = packet_type_code pt"
    and "drop_bit 3 (type_flag_byte pt f) = f"
    and "f AND 0xF0 = 0"
proof -
  have "unat f \<in> set [0..<16]" using assms by (simp add: word_less_nat_alt)
  moreover have "pt \<in> set all_packet_types" by (rule packet_type_enum.all_complete)
  ultimately have
    "type_flag_byte pt (of_nat (unat f)) AND 7 = packet_type_code pt
    \<and> drop_bit 3 (type_flag_byte pt (of_nat (unat f))) = (of_nat (unat f) :: u8)
    \<and> (of_nat (unat f) :: u8) AND 0xF0 = 0"
    using type_flag_table unfolding list_all_iff by blast
  then show "type_flag_byte pt f AND 7 = packet_type_code pt"
    and "drop_bit 3 (type_flag_byte pt f) = f"
    and "f AND 0xF0 = 0"
    unfolding of_nat_unat ucast_id by blast+
qed

lemma packet_type_of_flag_byte:
  "f < 16 \<Longrightarrow> enum_of_code packet_type_code all_packet_types (type_flag_byte pt f AND 7) = Some pt"
  by (simp only: type_flag_bits(1) packet_type_enum.of_code_code)

text \<open>The packets whose header is representable.\<close>

definition header_ok :: "qpacket \<Rightarrow> bool" where
  "header_ok p \<longleftrightarrow> vp_port (pk_source p) < 16 \<and> vp_port (pk_destination p) < 16
     \<and> pk_flags p < 16
     \<and> (pk_conn_signature p \<noteq> None \<longleftrightarrow> pk_type p = Syn \<or> pk_type p = Connect)
     \<and> (pk_fragment_id p \<noteq> None \<longleftrightarrow> pk_type p = Data)"

text \<open>
  The payloads that can be read back: only encrypted ones carry the compression byte that
  the reader removes, and the compression ratio must not wrap to zero.
\<close>

definition payload_ok :: "zlib \<Rightarrow> qpacket \<Rightarrow> bool" where
  "payload_ok z p \<longleftrightarrow>
     (if encrypted (pk_type p) (vp_stream_type (pk_source p)) then
        pk_use_compression p \<longrightarrow> pk_payload p \<noteq> [] \<and> length (pk_payload p) \<le> MAX_DECOMPRESSED_PACKET_BYTES
          \<and> (of_nat (length (pk_payload p) div length (zlib_compress z (pk_payload p)) + 1) :: u8) \<noteq> 0
      else pk_payload p = [] \<and> \<not> pk_use_compression p)"

definition size_ok :: "quazal_context \<Rightarrow> zlib \<Rightarrow> qpacket \<Rightarrow> bool" where
  "size_ok ctx z p \<longleftrightarrow>
     (\<forall>d. encode_payload ctx z p = Some d \<longrightarrow> has_flag (pk_flags p) flag_HasSize \<longrightarrow> length d < 65536)"

lemma type_fields_total: "header_ok p \<Longrightarrow> \<exists>tf. type_fields p = Some tf"
  by (cases "pk_type p") (auto simp: header_ok_def type_fields_def)

lemma read_header_enc:
  assumes "header_ok p" and "type_fields p = Some tf"
  shows "read_header (vport_to_bytes (pk_source p) @ vport_to_bytes (pk_destination p)
      @ [type_flag_byte (pk_type p) (pk_flags p)]
      @ [pk_session_id p] @ le32 (pk_signature p) @ le16 (pk_sequence p) @ tf @ rest)
    = Value (p\<lparr>pk_payload := [], pk_checksum := 0, pk_use_compression := False\<rparr>, rest)"
  using assms
  by (cases "pk_type p")
    (auto simp: read_header_def header_ok_def type_fields_def vport_from_to_bytes
      read_conn_signature_def read_fragment_id_def
      type_flag_bits(2,3) packet_type_of_flag_byte)

lemma decode_encode_payload:
  assumes z: "zlib_ok z" and ok: "payload_ok z p" and enc: "encode_payload ctx z p = Some d"
  shows "decode_payload ctx z (pk_type p) (vp_stream_type (pk_source p)) d
    = Value (pk_payload p, pk_use_compression p)"
proof (cases "encrypted (pk_type p) (vp_stream_type (pk_source p))")
  case False
  with ok enc show ?thesis
    by (auto simp: payload_ok_def encode_payload_def pack_payload_def decode_payload_def)
next
  case True
  with enc obtain e where pack: "pack_payload z p = Some e"
    and "crypt_key (crypto_key ctx) e = Some d"
    by (auto simp: encode_payload_def bind_eq_Some_conv)
  from this(2) have dec: "crypt_key (crypto_key ctx) d = Some e" by (rule crypt_key_involution)
  from z have comp: "length q \<le> MAX_DECOMPRESSED_PACKET_BYTES \<Longrightarrow>
      zlib_decompress z MAX_DECOMPRESSED_PACKET_BYTES (zlib_compress z q) = Some q" for q
    by (simp add: zlib_ok_def)
  show ?thesis
  proof (cases "pk_payload p = []")
    case True
    with pack ok \<open>encrypted _ _\<close> dec show ?thesis
      by (auto simp: pack_payload_def decode_payload_def payload_ok_def)
  next
    case False
    show ?thesis
    proof (cases "pk_use_compression p")
      case True
      with False pack have "e = of_nat (length (pk_payload p)
          div length (zlib_compress z (pk_payload p)) + 1) # zlib_compress z (pk_payload p)"
        by (auto simp: pack_payload_def Let_def split: if_splits)
      with True ok \<open>encrypted _ _\<close> dec comp show ?thesis
        by (simp add: decode_payload_def payload_ok_def)
    next
      case False
      with \<open>pk_payload p \<noteq> []\<close> pack have "e = 0 # pk_payload p"
        by (simp add: pack_payload_def)
      with False \<open>encrypted _ _\<close> dec show ?thesis by (simp add: decode_payload_def)
    qed
  qed
qed

lemma payload_size_enc:
  assumes "has_flag fs flag_HasSize \<longrightarrow> length d < 65536" and "has_flag fs flag_HasSize \<or> rest = []"
  shows "payload_size fs ((if has_flag fs flag_HasSize then le16 (of_nat (length d)) else [])
      @ d @ c # rest) = Value (length d, d @ c # rest)"
  using assms by (auto simp: payload_size_def unat_of_nat_small)

lemma packet_reader_enc:
  assumes z: "zlib_ok z" and h: "header_ok p" and pl: "payload_ok z p" and s: "size_ok ctx z p"
    and tail: "has_flag (pk_flags p) flag_HasSize \<or> rest = []"
    and enc: "packet_to_data_bytes ctx z p = Some d"
  shows "packet_from_reader ctx z (d @ c # rest) = Value (p\<lparr>pk_checksum := c\<rparr>, rest)"
proof -
  from enc obtain tf pay where tf: "type_fields p = Some tf"
    and pay: "encode_payload ctx z p = Some pay"
    and d: "d = vport_to_bytes (pk_source p) @ vport_to_bytes (pk_destination p)
      @ [type_flag_byte (pk_type p) (pk_flags p)]
      @ [pk_session_id p] @ le32 (pk_signature p) @ le16 (pk_sequence p) @ tf
      @ (if has_flag (pk_flags p) flag_HasSize then le16 (of_nat (length pay)) else []) @ pay"
    by (auto simp: packet_to_data_bytes_def bind_eq_Some_conv)
  have sz: "has_flag (pk_flags p) flag_HasSize \<longrightarrow> length pay < 65536"
    using s pay by (simp add: size_ok_def)
  have hd: "read_header (d @ c # rest)
    = Value (p\<lparr>pk_payload := [], pk_checksum := 0, pk_use_compression := False\<rparr>,
        (if has_flag (pk_flags p) flag_HasSize then le16 (of_nat (length pay)) else [])
        @ pay @ c # rest)"
    using read_header_enc [OF h tf, of "(if has_flag (pk_flags p) flag_HasSize
        then le16 (of_nat (length pay)) else []) @ pay @ c # rest"]
    unfolding d by simp
  show ?thesis
    unfolding packet_from_reader_def hd
    using payload_size_enc [OF sz tail] decode_encode_payload [OF z pl pay]
    by (simp add: read_exact_def)
qed


lemma calc_checksum_last:
  "packet_to_bytes ctx z p = Some bs \<Longrightarrow> \<exists>d. packet_to_data_bytes ctx z p = Some d
    \<and> bs = d @ [calc_checksum_from_data (context_key ctx (vp_stream_type (pk_destination p))) d]"
  by (auto simp: packet_to_bytes_def bind_eq_Some_conv)

lemma packet_parse_to_bytes:
  assumes "zlib_ok z" "header_ok p" "payload_ok z p" "size_ok ctx z p"
    and "has_flag (pk_flags p) flag_HasSize \<or> rest = []"
    and enc: "packet_to_bytes ctx z p = Some bs"
  shows "packet_parse ctx z (bs @ rest) = Value (p\<lparr>pk_checksum := last bs\<rparr>, rest)"
proof -
  from calc_checksum_last [OF enc] obtain d c where d: "packet_to_data_bytes ctx z p = Some d"
    and bs: "bs = d @ [c]"
    and c: "c = calc_checksum_from_data (context_key ctx (vp_stream_type (pk_destination p))) d"
    by blast
  have "packet_from_reader ctx z (d @ c # rest) = Value (p\<lparr>pk_checksum := c\<rparr>, rest)"
    by (rule packet_reader_enc [OF assms(1-5) d])
  then show ?thesis
    by (simp add: packet_parse_def packet_validate_def bs c)
qed

lemma packet_to_bytes_defined:
  assumes "zlib_ok z" "header_ok p" "crypto_key ctx \<noteq> []" "length (crypto_key ctx) \<le> 256"
  shows "\<exists>bs. packet_to_bytes ctx z p = Some bs"
proof -
  obtain tf where tf: "type_fields p = Some tf" using type_fields_total [OF assms(2)] by blast
  have "\<exists>d. pack_payload z p = Some d"
    using assms(1) by (auto simp: pack_payload_def zlib_ok_def Let_def)
  then have "\<exists>d. encode_payload ctx z p = Some d"
    using crypt_key_total [OF assms(3,4)] by (auto simp: encode_payload_def)
  with tf show ?thesis by (auto simp: packet_to_bytes_def packet_to_data_bytes_def)
qed

section \<open>What the parser accepts\<close>

lemma of_read_Value_conv: "of_read m = Value x \<longleftrightarrow> m = Inr x"
  by (cases m) simp_all

lemma vport_reader_prefix: "vport_from_reader bs = Value (v, r) \<Longrightarrow> \<exists>q. length q = 1 \<and> bs = q @ r"
  by (auto simp: vport_from_reader_def obind_eq_Value_conv of_read_Value_conv le8_eq
      dest!: rd_num_dec split: option.splits)

lemma optional_fields_prefix:
  "read_conn_signature pt bs = Value (cs, r) \<Longrightarrow> \<exists>q. bs = q @ r"
  "read_fragment_id pt bs = Value (fid, r) \<Longrightarrow> \<exists>q. bs = q @ r"
  by (auto simp: read_conn_signature_def read_fragment_id_def obind_eq_Value_conv
      of_read_Value_conv dest!: rd_num_dec split: if_splits)

lemma read_header_prefix:
  assumes "read_header bs = Value (h, r)"
  shows "\<exists>q. 10 \<le> length q \<and> bs = q @ r"
proof -
  obtain src r1 dst r2 tf r3 where
    v1: "vport_from_reader bs = Value (src, r1)" and v2: "vport_from_reader r1 = Value (dst, r2)"
    and n1: "rd_u8 r2 = Inr (tf, r3)"
    using assms by (auto simp: read_header_def obind_eq_Value_conv of_read_Value_conv)
  from assms v1 v2 n1 obtain pt where
    "obind (of_read (rd_u8 r3)) (\<lambda>(sid, r). obind (of_read (rd_u32 r)) (\<lambda>(sig, r).
      obind (of_read (rd_u16 r)) (\<lambda>(sq, r). obind (read_conn_signature pt r) (\<lambda>(cs, r).
      obind (read_fragment_id pt r) (\<lambda>(fid, r).
      Value (\<lparr>pk_source = src, pk_destination = dst, pk_type = pt,
       pk_flags = drop_bit 3 tf, pk_session_id = sid, pk_signature = sig,
       pk_fragment_id = fid, pk_conn_signature = cs, pk_sequence = sq, pk_payload = [],
       pk_checksum = 0, pk_use_compression = False\<rparr>, r)))))) = Value (h, r)"
    by (simp add: read_header_def split: option.splits if_splits)
  then obtain sid r4 sig r5 sq r6 cs r7 fid where
    n2: "rd_u8 r3 = Inr (sid, r4)" "rd_u32 r4 = Inr (sig, r5)" "rd_u16 r5 = Inr (sq, r6)"
    and c: "read_conn_signature pt r6 = Value (cs, r7)"
    and f: "read_fragment_id pt r7 = Value (fid, r)"
    by (auto simp: obind_eq_Value_conv of_read_Value_conv)
  obtain q1 q2 where "r6 = q1 @ r7" "r7 = q2 @ r"
    using optional_fields_prefix(1) [OF c] optional_fields_prefix(2) [OF f] by blast
  moreover obtain a b where "length a = 1" "bs = a @ r1" "length b = 1" "r1 = b @ r2"
    using vport_reader_prefix [OF v1] vport_reader_prefix [OF v2] by blast
  ultimately have "bs = (a @ b @ [tf] @ [sid] @ le32 sig @ le16 sq @ q1 @ q2) @ r
    \<and> 10 \<le> length (a @ b @ [tf] @ [sid] @ le32 sig @ le16 sq @ q1 @ q2)"
    using n1 n2 by (auto simp: le8_eq dest!: rd_num_dec)
  then show ?thesis by blast
qed

lemma payload_size_prefix:
  "payload_size fs bs = Value (n, r) \<Longrightarrow> \<exists>q. bs = q @ r"
  by (auto simp: payload_size_def obind_eq_Value_conv of_read_Value_conv
      dest!: rd_num_dec split: if_splits)

lemma read_exact_prefix: "read_exact n bs = Value (d, r) \<Longrightarrow> length d = n \<and> bs = d @ r"
  by (auto simp: read_exact_def split: if_splits)

lemma packet_from_reader_ValueD:
  assumes "packet_from_reader ctx z bs = Value (p, r)"
  shows "\<exists>q. 10 \<le> length q \<and> bs = q @ pk_checksum p # r"
proof -
  from assms obtain h r1 n r2 d r3 d' uc cs where
    "read_header bs = Value (h, r1)" "payload_size (pk_flags h) r1 = Value (n, r2)"
    "read_exact n r2 = Value (d, r3)" "rd_u8 r3 = Inr (cs, r)"
    and p: "p = h\<lparr>pk_payload := d', pk_checksum := cs, pk_use_compression := uc\<rparr>"
    by (auto simp: packet_from_reader_def obind_eq_Value_conv of_read_Value_conv)
  then obtain q1 q2 where "10 \<le> length q1" "bs = q1 @ r1" "r1 = q2 @ r2" "r2 = d @ r3"
    "r3 = cs # r"
    using read_header_prefix payload_size_prefix read_exact_prefix rd_num_dec(1)
    by (metis append_Cons append_Nil le8_eq)
  then have "10 \<le> length (q1 @ q2 @ d) \<and> bs = (q1 @ q2 @ d) @ pk_checksum p # r"
    using p by simp
  then show ?thesis by blast
qed

lemma packet_from_reader_consumes:
  "packet_from_reader ctx z bs = Value (p, r) \<Longrightarrow> length r + 11 \<le> length bs"
  by (auto dest!: packet_from_reader_ValueD)

text \<open>Three bits always name a packet type.\<close>

lemma packet_type_complete: "enum_of_code packet_type_code all_packet_types (w AND 7) \<noteq> None"
proof -
  have tab: "list_all (\<lambda>n. enum_of_code packet_type_code all_packet_types (of_nat n) \<noteq> None) [0..<8]"
    by code_simp
  have "w AND 7 = take_bit 3 w"
    by (simp add: take_bit_eq_mask mask_eq_exp_minus_1)
  then have "unat (w AND 7) = unat w mod 8"
    by (simp only: unsigned_take_bit_eq) (simp add: take_bit_eq_mod)
  then have "unat (w AND 7) < 8" by simp
  then have "unat (w AND 7) \<in> set [0..<8]" by simp
  with tab have "enum_of_code packet_type_code all_packet_types (of_nat (unat (w AND 7))) \<noteq> None"
    unfolding list_all_iff by blast
  then show ?thesis unfolding of_nat_unat ucast_id .
qed

lemma obind_eq_Fails_conv:
  "obind m f = Fails e \<longleftrightarrow> m = Fails e \<or> (\<exists>x. m = Value x \<and> f x = Fails e)"
  by (cases m) auto

lemma of_read_Fails_conv: "of_read m = Fails e \<longleftrightarrow> (\<exists>x. m = Inl x) \<and> e = PacketIO"
  by (cases m) auto

lemma vport_reader_Fails: "vport_from_reader bs \<noteq> Fails (InvalidPktType c)"
  by (auto simp: vport_from_reader_def obind_eq_Fails_conv of_read_Fails_conv
      split: option.splits)

lemma optional_fields_Fails:
  "read_conn_signature pt bs \<noteq> Fails (InvalidPktType c)"
  "read_fragment_id pt bs \<noteq> Fails (InvalidPktType c)"
  by (auto simp: read_conn_signature_def read_fragment_id_def obind_eq_Fails_conv of_read_Fails_conv)

lemma read_header_Fails: "read_header bs \<noteq> Fails (InvalidPktType c)"
  by (auto simp: read_header_def obind_eq_Fails_conv of_read_Fails_conv vport_reader_Fails
      optional_fields_Fails packet_type_complete split: option.splits if_splits)

lemma read_header_not_Panics: "read_header bs \<noteq> Panics"
  by (auto simp: read_header_def vport_from_reader_def obind_eq_Panics_conv
      read_conn_signature_def read_fragment_id_def
      split: option.splits if_splits)

lemma packet_from_reader_Fails: "packet_from_reader ctx z bs \<noteq> Fails (InvalidPktType c)"
  by (auto simp: packet_from_reader_def obind_eq_Fails_conv of_read_Fails_conv
      read_header_Fails payload_size_def read_exact_def decode_payload_def
      split: option.splits if_splits list.splits)

lemma packet_from_reader_Panics:
  assumes "crypto_key ctx \<noteq> []" "length (crypto_key ctx) \<le> 256"
  shows "packet_from_reader ctx z bs = Panics \<longleftrightarrow>
    (\<exists>h. read_header bs = Value (h, []) \<and> \<not> has_flag (pk_flags h) flag_HasSize)"
proof -
  have "decode_payload ctx z pt st d \<noteq> Panics" for pt st d
    using assms by (auto simp: decode_payload_def crypt_key_None_iff
        split: option.splits list.splits if_splits)
  moreover have "payload_size fs r = Panics \<longleftrightarrow> \<not> has_flag fs flag_HasSize \<and> r = []" for fs r
    by (auto simp: payload_size_def obind_eq_Panics_conv)
  moreover have "read_exact n r \<noteq> Panics" for n r by (simp add: read_exact_def)
  ultimately show ?thesis
    by (auto simp: packet_from_reader_def obind_eq_Panics_conv read_header_not_Panics)
qed


text \<open>What is read has a representable header.\<close>

lemma and_mask4_less: "(w :: u8) AND 0xF < 16"
proof -
  have "w AND 0xF = take_bit 4 w"
    by (simp add: take_bit_eq_mask mask_eq_exp_minus_1)
  then have "unat (w AND 0xF) = unat w mod 16"
    by (simp only: unsigned_take_bit_eq) (simp add: take_bit_eq_mod)
  then show ?thesis by (simp add: word_less_nat_alt)
qed

lemma drop_mask_less: "drop_bit 3 w AND 0xF0 = 0 \<Longrightarrow> drop_bit 3 (w :: u8) < 16"
proof -
  have tab: "list_all (\<lambda>n. drop_bit 3 (of_nat n :: u8) AND 0xF0 = 0 \<longrightarrow> drop_bit 3 (of_nat n :: u8) < 16)
      [0..<256]" by code_simp
  have "unat w \<in> set [0..<256]" by simp
  with tab have "drop_bit 3 (of_nat (unat w) :: u8) AND 0xF0 = 0 \<longrightarrow> drop_bit 3 (of_nat (unat w) :: u8) < 16"
    unfolding list_all_iff by blast
  then show "drop_bit 3 w AND 0xF0 = 0 \<Longrightarrow> drop_bit 3 w < 16" unfolding of_nat_unat ucast_id by blast
qed

lemma vport_reader_port: "vport_from_reader bs = Value (v, r) \<Longrightarrow> vp_port v < 16"
  by (auto simp: vport_from_reader_def obind_eq_Value_conv and_mask4_less split: option.splits)

lemma optional_fields_shape:
  "read_conn_signature pt bs = Value (cs, r) \<Longrightarrow> cs \<noteq> None \<longleftrightarrow> pt = Syn \<or> pt = Connect"
  "read_fragment_id pt bs = Value (fid, r) \<Longrightarrow> fid \<noteq> None \<longleftrightarrow> pt = Data"
  by (auto simp: read_conn_signature_def read_fragment_id_def obind_eq_Value_conv split: if_splits)

lemma read_header_ok: "read_header bs = Value (h, r) \<Longrightarrow> header_ok h"
  by (auto simp: read_header_def obind_eq_Value_conv header_ok_def drop_mask_less
      dest!: vport_reader_port optional_fields_shape split: option.splits if_splits)

lemma packet_from_reader_header_ok: "packet_from_reader ctx z bs = Value (p, r) \<Longrightarrow> header_ok p"
  by (auto simp: packet_from_reader_def obind_eq_Value_conv header_ok_def
      dest!: read_header_ok)

section \<open>Properties\<close>


text \<open>A stored-block stand-in for zlib, to apply the theorems to.\<close>

definition stored_zlib :: zlib where
  "stored_zlib = \<lparr>zlib_compress = (\<lambda>d. 0x78 # d),
     zlib_decompress = (\<lambda>limit d. case d of [] \<Rightarrow> None
        | _ # r \<Rightarrow> if length r \<le> limit then Some r else None)\<rparr>"

lemma stored_zlib_ok: "zlib_ok stored_zlib"
  by (simp add: zlib_ok_def stored_zlib_def)

definition sample_data_packet :: qpacket where
  "sample_data_packet = \<lparr>pk_source = \<lparr>vp_port = 15, vp_stream_type = RVSec\<rparr>,
     pk_destination = \<lparr>vp_port = 1, vp_stream_type = RVSec\<rparr>, pk_type = Data,
     pk_flags = 14, pk_session_id = 167, pk_signature = 0xdd929391,
     pk_fragment_id = Some 0, pk_conn_signature = None, pk_sequence = 4,
     pk_payload = [0xe, 0, 0, 0, 0xa7, 0x16], pk_checksum = 0, pk_use_compression = False\<rparr>"

lemma sample_size:
  "size_ok (splinter_cell_blacklist k) stored_zlib sample_data_packet"
  by (auto simp: size_ok_def encode_payload_def pack_payload_def sample_data_packet_def
      encrypted_def dest!: crypt_key_length)

lemma sample_context_key:
  "crypto_key (splinter_cell_blacklist k) \<noteq> []" "length (crypto_key (splinter_cell_blacklist k)) \<le> 256"
  by (simp_all add: splinter_cell_blacklist_def)

lemma sample_headers: "header_ok sample_data_packet" "payload_ok stored_zlib sample_data_packet"
    "has_flag (pk_flags sample_data_packet) flag_HasSize"
  by (simp_all add: header_ok_def payload_ok_def sample_data_packet_def encrypted_def
      has_flag_def flag_HasSize_def)


text \<open>With a usable key, parsing panics exactly when the
  header is complete, \<open>HasSize\<close> is not set and not a byte is left after the header: the
  unchecked subtraction of the payload size.\<close>

lemma packet_from_reader_panics_iff:
  assumes "crypto_key ctx \<noteq> []" and "length (crypto_key ctx) \<le> 256"
  shows "packet_from_reader ctx z bs = Panics \<longleftrightarrow>
    (\<exists>h. read_header bs = Value (h, []) \<and> \<not> has_flag (pk_flags h) flag_HasSize)"
  using assms by (rule packet_from_reader_Panics)

lemma packet_from_reader_panics_iff_witness:
  "packet_from_reader (splinter_cell_blacklist []) stored_zlib
     [0x3f, 0x31, 0x04, 0, 0, 0, 0, 0, 1, 0] = Panics"
proof -
  let ?h = "qpacket_default\<lparr>pk_source := \<lparr>vp_port = 15, vp_stream_type = RVSec\<rparr>,
     pk_destination := \<lparr>vp_port = 1, vp_stream_type = RVSec\<rparr>, pk_type := Ping,
     pk_sequence := 1\<rparr>"
  have "read_header [0x3f, 0x31, 0x04, 0, 0, 0, 0, 0, 1, 0] = Value (?h, [])" by code_simp
  moreover have "\<not> has_flag (pk_flags ?h) flag_HasSize" by code_simp
  ultimately show ?thesis
    using packet_from_reader_panics_iff [OF sample_context_key] by blast
qed

text \<open>An accepted packet carries the checksum of exactly the bytes
  before it, for the key of its destination stream, and consumes at least eleven bytes.\<close>

lemma packet_parse_sound:
  assumes "packet_parse ctx z bs = Value (p, r)"
  shows "\<exists>d. bs = d @ pk_checksum p # r \<and> 10 \<le> length d
    \<and> pk_checksum p = calc_checksum_from_data
        (context_key ctx (vp_stream_type (pk_destination p))) d"
proof -
  have rd: "packet_from_reader ctx z bs = Value (p, r)"
    and v: "packet_validate ctx p (take (length bs - length r) bs) = Value ()"
    using assms by (auto simp: packet_parse_def obind_eq_Value_conv)
  from packet_from_reader_ValueD [OF rd] obtain q where q: "10 \<le> length q" "bs = q @ pk_checksum p # r"
    by blast
  then have "take (length bs - length r) bs = q @ [pk_checksum p]" by simp
  with v q show ?thesis by (auto simp: packet_validate_def split: if_splits)
qed

definition sample_syn_packet :: qpacket where
  "sample_syn_packet = qpacket_default\<lparr>pk_source := \<lparr>vp_port = 15, vp_stream_type = RVSec\<rparr>,
     pk_destination := \<lparr>vp_port = 1, vp_stream_type = RVSec\<rparr>, pk_flags := 4,
     pk_conn_signature := Some 0, pk_checksum := 0x40\<rparr>"

lemma packet_parse_sound_witness:
  "\<exists>d. [0x3f, 0x31, 0x20, 0, 0, 0, 0, 0, 0, 0, 0, 0, 0, 0, 0x40] = d @ [pk_checksum sample_syn_packet]
     \<and> 10 \<le> length d \<and> pk_checksum sample_syn_packet = calc_checksum_from_data
        (context_key (splinter_cell_blacklist []) (vp_stream_type (pk_destination sample_syn_packet))) d"
proof -
  let ?p = "qpacket_default\<lparr>pk_source := \<lparr>vp_port = 15, vp_stream_type = RVSec\<rparr>,
       pk_destination := \<lparr>vp_port = 1, vp_stream_type = RVSec\<rparr>, pk_flags := 4,
       pk_conn_signature := Some 0\<rparr>"
  have "read_header [0x3f, 0x31, 0x20, 0, 0, 0, 0, 0, 0, 0, 0, 0, 0, 0, 0x40] = Value (?p, [0x40])"
    by code_simp
  then have "packet_from_reader (splinter_cell_blacklist []) stored_zlib
      [0x3f, 0x31, 0x20, 0, 0, 0, 0, 0, 0, 0, 0, 0, 0, 0, 0x40]
    = Value (?p\<lparr>pk_checksum := 0x40\<rparr>, [])"
    by (simp add: packet_from_reader_def payload_size_def has_flag_def flag_HasSize_def
        read_exact_def decode_payload_def encrypted_def qpacket_default_def)
  moreover have "calc_checksum_from_data (context_key (splinter_cell_blacklist []) RVSec)
      [0x3f, 0x31, 0x20, 0, 0, 0, 0, 0, 0, 0, 0, 0, 0, 0] = 0x40"
    by (simp add: calc_checksum_from_data_def context_key_def splinter_cell_blacklist_def
        str_bytes_def byte_of_char_def le32_def le_of_nat_4)
  ultimately have "packet_parse (splinter_cell_blacklist []) stored_zlib
      [0x3f, 0x31, 0x20, 0, 0, 0, 0, 0, 0, 0, 0, 0, 0, 0, 0x40]
    = Value (sample_syn_packet, [])"
    by (simp add: packet_parse_def packet_validate_def qpacket_default_def sample_syn_packet_def)
  then show ?thesis by (rule packet_parse_sound)
qed

end
