(* ===== verification/Kerberos.thy ===== *)
theory Kerberos
  imports Wire_Stream Rc4
begin

text \<open>
  Tickets, \<open>server/quazal/src/kerberos.rs\<close>. MD5, HMAC-MD5 and the secret box of libsodium
  are external: the record \<open>crypto\<close> holds them, \<open>crypto_ok\<close> states their output sizes and
  that a sealed message opens with the key and nonce it was sealed with. The nonce that
  \<open>seal\<close> generates is an argument.
\<close>

record crypto =
  md5_digest :: "bytes \<Rightarrow> bytes"
  hmac_md5 :: "bytes \<Rightarrow> bytes \<Rightarrow> bytes"
  secretbox_seal :: "bytes \<Rightarrow> bytes \<Rightarrow> bytes \<Rightarrow> bytes"
  secretbox_open :: "bytes \<Rightarrow> bytes \<Rightarrow> bytes \<Rightarrow> bytes option"

definition crypto_ok :: "crypto \<Rightarrow> bool" where
  "crypto_ok c \<longleftrightarrow> (\<forall>d. length (md5_digest c d) = 16) \<and> (\<forall>k d. length (hmac_md5 c k d) = 16)
     \<and> (\<forall>m n k. secretbox_open c (secretbox_seal c m n k) n k = Some m)"

definition SESSION_KEY_SIZE :: nat where "SESSION_KEY_SIZE = 16"
definition NONCEBYTES :: nat where "NONCEBYTES = 24"
definition MD5_SIZE :: nat where "MD5_SIZE = 16"

section \<open>The sealed part\<close>

record ticket_internal =
  principle_id :: u32
  valid_until :: u64
  ti_session_key :: bytes

definition wr_ticket_internal :: "ticket_internal \<Rightarrow> bytes" where
  "wr_ticket_internal t = le32 (principle_id t) @ le64 (valid_until t) @ ti_session_key t"

definition rd_ticket_internal :: "ticket_internal reader" where
  "rd_ticket_internal = rbind rd_u32 (\<lambda>p. rbind rd_u64 (\<lambda>v.
     rbind (rd_array SESSION_KEY_SIZE) (\<lambda>k.
     rreturn \<lparr>principle_id = p, valid_until = v, ti_session_key = k\<rparr>)))"

definition ticket_internal_ok :: "ticket_internal \<Rightarrow> bool" where
  "ticket_internal_ok t \<longleftrightarrow> length (ti_session_key t) = SESSION_KEY_SIZE"

definition ticket_seal :: "crypto \<Rightarrow> bytes \<Rightarrow> ticket_internal \<Rightarrow> bytes \<Rightarrow> bytes" where
  "ticket_seal c nonce t key = nonce @ secretbox_seal c (wr_ticket_internal t) nonce key"

definition ticket_open :: "crypto \<Rightarrow> bytes \<Rightarrow> bytes \<Rightarrow> from_stream_error + ticket_internal" where
  "ticket_open c data key =
    (if length data < NONCEBYTES then Inl IoEof
     else (case secretbox_open c (drop NONCEBYTES data) (take NONCEBYTES data) key of
             None \<Rightarrow> Inl IoInvalidData
           | Some d \<Rightarrow> (case rd_ticket_internal d of Inl e \<Rightarrow> Inl e | Inr (t, _) \<Rightarrow> Inr t)))"

lemma session_key_size_ok: "SESSION_KEY_SIZE \<le> MAX_LENGTH_PREFIXED_BYTES"
  by (simp add: SESSION_KEY_SIZE_def MAX_LENGTH_PREFIXED_BYTES_def)

lemma rd_session_key:
  "length k = SESSION_KEY_SIZE \<Longrightarrow> rd_array SESSION_KEY_SIZE (k @ rest) = Inr (k, rest)"
  by (simp add: rd_array_Inr_conv session_key_size_ok)

interpretation ticket_internalc: canonical_codec wr_ticket_internal rd_ticket_internal ticket_internal_ok
proof
  fix x rest assume "ticket_internal_ok x"
  then show "rd_ticket_internal (wr_ticket_internal x @ rest) = Inr (x, rest)"
    by (simp add: rd_ticket_internal_def wr_ticket_internal_def rbind_def rreturn_def
        ticket_internal_ok_def rd_session_key)
next
  fix bs x r assume "rd_ticket_internal bs = Inr (x, r)"
  then show "ticket_internal_ok x \<and> bs = wr_ticket_internal x @ r"
    by (auto simp: rd_ticket_internal_def wr_ticket_internal_def rbind_eq_Inr_conv rreturn_def
        ticket_internal_ok_def rd_array_Inr_conv dest!: rd_num_dec)
qed

lemma ticket_open_seal:
  assumes "crypto_ok c" and "length nonce = NONCEBYTES" and "ticket_internal_ok t"
  shows "ticket_open c (ticket_seal c nonce t key) key = Inr t"
  using assms ticket_internalc.dec_enc_all [OF assms(3)]
  by (simp add: ticket_open_def ticket_seal_def crypto_ok_def)

section \<open>The ticket\<close>

record ticket =
  tk_session_key :: bytes
  tk_pid :: u32
  tk_internal :: ticket_internal

definition key_rounds :: "u32 \<Rightarrow> nat" where
  "key_rounds peer_pid = 65000 + unat peer_pid mod 1024"

definition derive_key :: "crypto \<Rightarrow> u32 \<Rightarrow> string option \<Rightarrow> bytes" where
  "derive_key c peer_pid password =
    (md5_digest c ^^ key_rounds peer_pid)
      (str_bytes (case password of None \<Rightarrow> ''UbiDummyPwd'' | Some p \<Rightarrow> p))"

text \<open>\<open>as_bytes\<close>; \<open>None\<close> is the panic of the cipher on an unusable key.\<close>

definition ticket_body :: "crypto \<Rightarrow> bytes \<Rightarrow> ticket \<Rightarrow> bytes \<Rightarrow> bytes" where
  "ticket_body c nonce t key =
    tk_session_key t @ le32 (tk_pid t) @ wr_vec le8 (ticket_seal c nonce (tk_internal t) key)"

definition ticket_as_bytes ::
    "crypto \<Rightarrow> bytes \<Rightarrow> ticket \<Rightarrow> u32 \<Rightarrow> string option \<Rightarrow> bytes \<Rightarrow> bytes option" where
  "ticket_as_bytes c nonce t peer_pid password key =
    (let obf = derive_key c peer_pid password in
     map_option (\<lambda>buf. buf @ hmac_md5 c obf buf) (crypt_key obf (ticket_body c nonce t key)))"

text \<open>
  \<open>from_bytes\<close>: the MAC is split off and not looked at; the rest is decrypted, and what
  follows the pid is opened as it is. A buffer shorter than the MAC panics.
\<close>

definition ticket_from_bytes ::
    "crypto \<Rightarrow> bytes \<Rightarrow> u32 \<Rightarrow> string option \<Rightarrow> bytes \<Rightarrow> (from_stream_error, ticket) outcome" where
  "ticket_from_bytes c buf peer_pid password key =
    (if length buf < MD5_SIZE then Panics
     else case crypt_key (derive_key c peer_pid password) (take (length buf - MD5_SIZE) buf) of
       None \<Rightarrow> Panics
     | Some d \<Rightarrow>
        (case rd_array SESSION_KEY_SIZE d of
           Inl e \<Rightarrow> Fails e
         | Inr (sk, r) \<Rightarrow>
            (case rd_u32 r of
               Inl e \<Rightarrow> Fails e
             | Inr (pid, r) \<Rightarrow>
                (case ticket_open c r key of
                   Inl e \<Rightarrow> Fails e
                 | Inr ti \<Rightarrow> Value \<lparr>tk_session_key = sk, tk_pid = pid, tk_internal = ti\<rparr>))))"

lemma length_derive_key: "crypto_ok c \<Longrightarrow> length (derive_key c pid pw) = 16"
proof -
  assume ok: "crypto_ok c"
  have "key_rounds pid \<noteq> 0" by (simp add: key_rounds_def)
  then obtain n where "key_rounds pid = Suc n" by (cases "key_rounds pid") auto
  with ok show ?thesis by (simp add: derive_key_def crypto_ok_def)
qed

lemma derive_key_usable:
  "crypto_ok c \<Longrightarrow> derive_key c pid pw \<noteq> [] \<and> length (derive_key c pid pw) \<le> 256"
  using length_derive_key [of c pid pw] by auto

lemma ticket_as_bytes_defined: "crypto_ok c \<Longrightarrow> \<exists>bs. ticket_as_bytes c nonce t pid pw key = Some bs"
  using crypt_key_total derive_key_usable unfolding ticket_as_bytes_def Let_def by fastforce

lemma ticket_as_bytes_decrypt:
  assumes ok: "crypto_ok c" and enc: "ticket_as_bytes c nonce t pid pw key = Some bs"
  shows "crypt_key (derive_key c pid pw) (take (length bs - MD5_SIZE) bs)
      = Some (ticket_body c nonce t key) \<and> MD5_SIZE \<le> length bs"
proof -
  from enc obtain buf where buf: "crypt_key (derive_key c pid pw) (ticket_body c nonce t key) = Some buf"
    and bs: "bs = buf @ hmac_md5 c (derive_key c pid pw) buf"
    by (auto simp: ticket_as_bytes_def Let_def)
  moreover have "length (hmac_md5 c (derive_key c pid pw) buf) = MD5_SIZE"
    using ok by (simp add: crypto_ok_def MD5_SIZE_def)
  ultimately show ?thesis by (simp add: crypt_key_involution [OF buf])
qed

lemma ticket_from_as_bytes:
  assumes "crypto_ok c" and "length (tk_session_key t) = SESSION_KEY_SIZE"
    and "ticket_as_bytes c nonce t pid pw key = Some bs"
  shows "ticket_from_bytes c bs pid pw key =
    (case ticket_open c (wr_vec le8 (ticket_seal c nonce (tk_internal t) key)) key of
       Inl e \<Rightarrow> Fails e
     | Inr ti \<Rightarrow> Value \<lparr>tk_session_key = tk_session_key t, tk_pid = tk_pid t, tk_internal = ti\<rparr>)"
  using ticket_as_bytes_decrypt [OF assms(1,3)] assms(2)
  by (simp add: ticket_from_bytes_def ticket_body_def rd_session_key)

section \<open>Properties\<close>

text \<open>A transparent box, to apply the theorems to.\<close>

definition sample_crypto :: crypto where
  "sample_crypto = \<lparr>md5_digest = (\<lambda>_. replicate 16 1), hmac_md5 = (\<lambda>_ _. replicate 16 2),
     secretbox_seal = (\<lambda>m n k. n @ m),
     secretbox_open = (\<lambda>d n k. if take (length n) d = n then Some (drop (length n) d) else None)\<rparr>"

lemma sample_crypto_ok: "crypto_ok sample_crypto"
  by (simp add: crypto_ok_def sample_crypto_def)

text \<open>What the server seals into a ticket it recovers on connect:
  principal, expiry and session key.\<close>

lemma ticket_roundtrip:
  assumes "crypto_ok c" and "length nonce = NONCEBYTES" and "ticket_internal_ok t"
  shows "ticket_open c (ticket_seal c nonce t key) key = Inr t"
  using assms by (rule ticket_open_seal)

lemma ticket_roundtrip_witness:
  "ticket_open sample_crypto (ticket_seal sample_crypto (replicate 24 7)
      \<lparr>principle_id = 1000, valid_until = - 1, ti_session_key = replicate 16 9\<rparr> []) []
    = Inr \<lparr>principle_id = 1000, valid_until = - 1, ti_session_key = replicate 16 9\<rparr>"
  by (rule ticket_roundtrip [OF sample_crypto_ok])
    (simp_all add: NONCEBYTES_def ticket_internal_ok_def SESSION_KEY_SIZE_def)

text \<open>Reading an issued ticket back opens the sealed part with
  its four-byte length prefix still in front, so the nonce it uses is not the one it was
  sealed with: the reader is not the inverse of the writer.\<close>

lemma ticket_from_bytes_prefix:
  assumes "crypto_ok c" and "length (tk_session_key t) = SESSION_KEY_SIZE"
    and "ticket_as_bytes c nonce t pid pw key = Some bs"
  shows "ticket_from_bytes c bs pid pw key =
    (case ticket_open c (le32 (of_nat (length (ticket_seal c nonce (tk_internal t) key)))
            @ ticket_seal c nonce (tk_internal t) key) key of
       Inl e \<Rightarrow> Fails e
     | Inr ti \<Rightarrow> Value \<lparr>tk_session_key = tk_session_key t, tk_pid = tk_pid t, tk_internal = ti\<rparr>)"
  using ticket_from_as_bytes [OF assms] by (simp add: wr_vec_def)

lemma sample_box_prefix:
  "ticket_open sample_crypto (le32 (of_nat (length (ticket_seal sample_crypto (replicate 24 7)
      \<lparr>principle_id = 1000, valid_until = 5, ti_session_key = replicate 16 9\<rparr> [])))
     @ ticket_seal sample_crypto (replicate 24 7)
      \<lparr>principle_id = 1000, valid_until = 5, ti_session_key = replicate 16 9\<rparr> []) []
   = Inl IoInvalidData"
  by code_simp

lemma ticket_from_bytes_prefix_witness:
  "\<exists>bs. ticket_as_bytes sample_crypto (replicate 24 7) \<lparr>tk_session_key = replicate 16 9, tk_pid = 2,
      tk_internal = \<lparr>principle_id = 1000, valid_until = 5, ti_session_key = replicate 16 9\<rparr>\<rparr>
      1000 None [] = Some bs
    \<and> ticket_from_bytes sample_crypto bs 1000 None [] = Fails IoInvalidData"
proof -
  let ?t = "\<lparr>tk_session_key = replicate 16 9, tk_pid = 2,
      tk_internal = \<lparr>principle_id = 1000, valid_until = 5, ti_session_key = replicate 16 9\<rparr>\<rparr>"
  obtain bs where bs: "ticket_as_bytes sample_crypto (replicate 24 7) ?t 1000 None [] = Some bs"
    using ticket_as_bytes_defined [OF sample_crypto_ok] by blast
  have "length (tk_session_key ?t) = SESSION_KEY_SIZE" by (simp add: SESSION_KEY_SIZE_def)
  from ticket_from_bytes_prefix [OF sample_crypto_ok this bs] bs sample_box_prefix
  show ?thesis by (simp only: ticket.simps) auto
qed

end
