(* ===== verification/Fragments.thy ===== *)
theory Fragments
  imports Prelude "HOL-Library.AList"
begin

text \<open>
  The state of a client connection, \<open>ClientInfo\<close> of \<open>server/quazal/src/lib.rs\<close>, and the
  assembly of fragmented messages, the first functions of \<open>server/quazal/src/prudp.rs\<close>.
  An \<open>Instant\<close> is a number of nanoseconds; the clock reading of a call is its argument
  \<open>now\<close>. The fragment map is an association list without duplicate keys.
\<close>

section \<open>Connections\<close>

type_synonym instant = nat

record 'a client_info =
  server_sequence_id :: u16
  client_sequence_id :: u16
  client_signature :: "u32 option"
  server_signature :: u32
  client_session :: u8
  server_session :: u8
  packet_fragments :: "(u8 \<times> bytes) list"
  packet_fragment_bytes :: nat
  packet_fragment_final_sequence :: "u16 option"
  packet_fragment_started_at :: "instant option"
  ci_address :: "string \<times> u16"
  last_seen :: instant
  connection_id :: "u32 option"
  user_id :: "u32 option"
  additional :: 'a

text \<open>\<open>ClientInfo::new\<close>: the random signature and the default of \<open>T\<close> are arguments.\<close>

definition client_info_new ::
    "instant \<Rightarrow> u32 \<Rightarrow> 'a \<Rightarrow> string \<times> u16 \<Rightarrow> 'a client_info" where
  "client_info_new now sig dflt addr =
    \<lparr>server_sequence_id = 1, client_sequence_id = 1, client_signature = None,
     server_signature = sig, client_session = 0, server_session = 0, packet_fragments = [],
     packet_fragment_bytes = 0, packet_fragment_final_sequence = None,
     packet_fragment_started_at = None, ci_address = addr, last_seen = now,
     connection_id = None, user_id = None, additional = dflt\<rparr>"

definition seen :: "instant \<Rightarrow> 'a client_info \<Rightarrow> 'a client_info" where
  "seen now ci = ci\<lparr>last_seen := now\<rparr>"

section \<open>Fragments\<close>

definition MAX_PAYLOAD_SIZE :: nat where "MAX_PAYLOAD_SIZE = 1000"
definition MAX_INBOUND_MESSAGE_BYTES :: nat where "MAX_INBOUND_MESSAGE_BYTES = 256 * 1024"
definition MAX_INBOUND_FRAGMENTS :: nat where "MAX_INBOUND_FRAGMENTS = 255"
definition USIZE_LIMIT :: nat where "USIZE_LIMIT = 2 ^ 64"
definition seconds :: "nat \<Rightarrow> instant" where "seconds n = n * 1000000000"
definition FRAGMENT_ASSEMBLY_TIMEOUT :: instant where "FRAGMENT_ASSEMBLY_TIMEOUT = seconds 10"
definition SESSION_TIMEOUT :: instant where "SESSION_TIMEOUT = seconds 60"

datatype fragment_error =
    FragmentIdOutsideLimit
  | ConflictingDuplicate
  | ByteCountOverflow
  | MessageExceedsLimit
  | FinalExceedsLimit
  | GroupSequenceMismatch
  | EmptyGroup
  | GroupMissingId
  | ReassembledOverflow
  | ReassembledExceedsLimit

definition reset_fragment_state :: "'a client_info \<Rightarrow> 'a client_info" where
  "reset_fragment_state ci = ci\<lparr>packet_fragments := [], packet_fragment_bytes := 0,
     packet_fragment_final_sequence := None, packet_fragment_started_at := None\<rparr>"

text \<open>\<open>elapsed()\<close> saturates at zero, like the subtraction here.\<close>

definition expire_fragment_state :: "instant \<Rightarrow> 'a client_info \<Rightarrow> 'a client_info" where
  "expire_fragment_state now ci =
    (case packet_fragment_started_at ci of
       None \<Rightarrow> ci
     | Some started \<Rightarrow> if now - started > FRAGMENT_ASSEMBLY_TIMEOUT then reset_fragment_state ci else ci)"

text \<open>A fragment opens a new group when its final sequence is not the one being assembled.\<close>

definition select_group :: "instant \<Rightarrow> u16 \<Rightarrow> 'a client_info \<Rightarrow> 'a client_info" where
  "select_group now final ci =
    (if packet_fragment_final_sequence ci \<noteq> Some final
     then (reset_fragment_state ci)\<lparr>packet_fragment_final_sequence := Some final,
            packet_fragment_started_at := Some now\<rparr>
     else ci)"

definition cache_fragment ::
    "instant \<Rightarrow> 'a client_info \<Rightarrow> u8 \<Rightarrow> u16 \<Rightarrow> bytes \<Rightarrow> (fragment_error + bool) \<times> 'a client_info" where
  "cache_fragment now ci0 fid sq payload =
    (let ci = expire_fragment_state now ci0 in
     if fid = 0 \<or> unat fid > MAX_INBOUND_FRAGMENTS then (Inl FragmentIdOutsideLimit, ci)
     else
       let ci = select_group now (sq + ucast fid) ci in
       case map_of (packet_fragments ci) fid of
         Some existing \<Rightarrow> (if existing = payload then Inr False else Inl ConflictingDuplicate, ci)
       | None \<Rightarrow>
          let total = packet_fragment_bytes ci + length payload in
          if total \<ge> USIZE_LIMIT then (Inl ByteCountOverflow, ci)
          else if total > MAX_INBOUND_MESSAGE_BYTES then (Inl MessageExceedsLimit, ci)
          else (Inr True, ci\<lparr>packet_fragments := AList.update fid payload (packet_fragments ci),
                             packet_fragment_bytes := total\<rparr>))"

definition max_key :: "(u8 \<times> bytes) list \<Rightarrow> nat" where
  "max_key frs = foldr (\<lambda>p m. max (unat (fst p)) m) frs 0"

text \<open>The loop over \<open>(1..=highest).rev()\<close>.\<close>

fun gather :: "(u8 \<times> bytes) list \<Rightarrow> nat \<Rightarrow> bytes option" where
  "gather frs 0 = Some []"
| "gather frs (Suc i) =
    (case map_of frs (of_nat (Suc i)) of
       None \<Rightarrow> None
     | Some p \<Rightarrow> map_option (append p) (gather frs i))"

definition finish_fragmented_payload ::
    "instant \<Rightarrow> 'a client_info \<Rightarrow> u16 \<Rightarrow> bytes \<Rightarrow> (fragment_error + bytes) \<times> 'a client_info" where
  "finish_fragmented_payload now ci0 sq final =
    (let ci = expire_fragment_state now ci0 in
     if length final > MAX_INBOUND_MESSAGE_BYTES then (Inl FinalExceedsLimit, ci)
     else if packet_fragments ci = [] then (Inr final, ci)
     else if packet_fragment_final_sequence ci \<noteq> Some sq then (Inl GroupSequenceMismatch, ci)
     else
       let highest = max_key (packet_fragments ci) in
       if highest > MAX_INBOUND_FRAGMENTS \<or> length (packet_fragments ci) \<noteq> highest
       then (Inl GroupMissingId, ci)
       else
         let total = packet_fragment_bytes ci + length final in
         if total \<ge> USIZE_LIMIT then (Inl ReassembledOverflow, ci)
         else if total > MAX_INBOUND_MESSAGE_BYTES then (Inl ReassembledExceedsLimit, ci)
         else (case gather (packet_fragments ci) highest of
                 None \<Rightarrow> Inl GroupMissingId
               | Some d \<Rightarrow> Inr (d @ final),
               reset_fragment_state ci))"

text \<open>\<open>payload.chunks(MAX_PAYLOAD_SIZE)\<close>.\<close>

fun chunks :: "nat \<Rightarrow> bytes \<Rightarrow> bytes list" where
  "chunks n [] = []"
| "chunks n (b # bs) = (if n = 0 then [] else take n (b # bs) # chunks n (drop n (b # bs)))"

definition numbered_chunks :: "bytes \<Rightarrow> (nat \<times> bytes) list" where
  "numbered_chunks payload =
    (let cs = chunks MAX_PAYLOAD_SIZE payload in zip (rev [0..<length cs]) cs)"

section \<open>The assembly invariant\<close>

definition fragment_total :: "(u8 \<times> bytes) list \<Rightarrow> nat" where
  "fragment_total frs = sum_list (map (length \<circ> snd) frs)"

definition fragments_inv :: "'a client_info \<Rightarrow> bool" where
  "fragments_inv ci \<longleftrightarrow>
     distinct (map fst (packet_fragments ci)) \<and> 0 \<notin> fst ` set (packet_fragments ci)
     \<and> packet_fragment_bytes ci = fragment_total (packet_fragments ci)
     \<and> packet_fragment_bytes ci \<le> MAX_INBOUND_MESSAGE_BYTES
     \<and> (packet_fragments ci \<noteq> [] \<longrightarrow> packet_fragment_final_sequence ci \<noteq> None)
     \<and> (packet_fragment_final_sequence ci \<noteq> None \<longleftrightarrow> packet_fragment_started_at ci \<noteq> None)"

lemma update_fresh: "map_of xs k = None \<Longrightarrow> AList.update k v xs = xs @ [(k, v)]"
  by (induction xs) (auto split: if_splits)

lemma fragments_inv_new: "fragments_inv (client_info_new now sig d addr)"
  by (simp add: fragments_inv_def client_info_new_def fragment_total_def)

lemma fragments_inv_reset [simp]: "fragments_inv (reset_fragment_state ci)"
  by (simp add: fragments_inv_def reset_fragment_state_def fragment_total_def)

lemma fragments_inv_expire: "fragments_inv ci \<Longrightarrow> fragments_inv (expire_fragment_state now ci)"
  by (auto simp: expire_fragment_state_def split: option.splits)

lemma fragments_inv_select: "fragments_inv ci \<Longrightarrow> fragments_inv (select_group now f ci)"
  by (auto simp: select_group_def fragments_inv_def reset_fragment_state_def fragment_total_def)

lemma fragments_inv_insert:
  assumes "fragments_inv ci" and "packet_fragment_final_sequence ci \<noteq> None"
    and "map_of (packet_fragments ci) fid = None" and "fid \<noteq> 0"
    and "packet_fragment_bytes ci + length d \<le> MAX_INBOUND_MESSAGE_BYTES"
  shows "fragments_inv (ci\<lparr>packet_fragments := AList.update fid d (packet_fragments ci),
    packet_fragment_bytes := packet_fragment_bytes ci + length d\<rparr>)"
  using assms
  by (auto simp: fragments_inv_def update_fresh fragment_total_def map_of_eq_None_iff)

lemma select_group_final [simp]: "packet_fragment_final_sequence (select_group now f ci) = Some f"
  by (simp add: select_group_def)

lemma fragments_inv_cache:
  assumes "fragments_inv ci"
  shows "fragments_inv (snd (cache_fragment now ci fid sq d))"
proof -
  let ?ci = "expire_fragment_state now ci"
  let ?g = "select_group now (sq + ucast fid) ?ci"
  have e: "fragments_inv ?ci" using assms by (rule fragments_inv_expire)
  have g: "fragments_inv ?g" using e by (rule fragments_inv_select)
  show ?thesis
    using e g fragments_inv_insert [OF g, of fid d]
    by (auto simp: cache_fragment_def Let_def split: option.splits)
qed

lemma fragments_inv_finish:
  "fragments_inv ci \<Longrightarrow> fragments_inv (snd (finish_fragmented_payload now ci sq d))"
  by (simp add: finish_fragmented_payload_def Let_def fragments_inv_expire)

text \<open>Nothing but the four assembly fields changes.\<close>

definition same_connection :: "'a client_info \<Rightarrow> 'a client_info \<Rightarrow> bool" where
  "same_connection ci ci' \<longleftrightarrow> (\<exists>frs n f s. ci' = ci\<lparr>packet_fragments := frs,
     packet_fragment_bytes := n, packet_fragment_final_sequence := f,
     packet_fragment_started_at := s\<rparr>)"

lemma same_connection_refl: "same_connection ci ci"
proof -
  have "ci = ci\<lparr>packet_fragments := packet_fragments ci, packet_fragment_bytes := packet_fragment_bytes ci,
    packet_fragment_final_sequence := packet_fragment_final_sequence ci,
    packet_fragment_started_at := packet_fragment_started_at ci\<rparr>" by simp
  then show ?thesis unfolding same_connection_def by blast
qed


section \<open>Reassembly\<close>

text \<open>
  A message is cut into pieces; piece \<open>i\<close> of \<open>Suc m\<close> travels with fragment id \<open>m - i\<close> and
  sequence \<open>s + i\<close>. \<open>assembled\<close> says which fragments a connection holds.
\<close>

definition frag_id :: "bytes list \<Rightarrow> nat \<Rightarrow> u8" where
  "frag_id ps i = of_nat (length ps - 1 - i)"

definition fragment :: "u16 \<Rightarrow> bytes list \<Rightarrow> nat \<Rightarrow> u8 \<times> u16 \<times> bytes" where
  "fragment s ps i = (frag_id ps i, s + of_nat i, ps ! i)"

definition deliver :: "'a client_info \<Rightarrow> instant \<times> u8 \<times> u16 \<times> bytes \<Rightarrow> 'a client_info" where
  "deliver ci e = (case e of (t, fid, sq, d) \<Rightarrow> snd (cache_fragment t ci fid sq d))"

definition clean :: "'a client_info \<Rightarrow> bool" where
  "clean ci \<longleftrightarrow> packet_fragments ci = [] \<and> packet_fragment_bytes ci = 0
     \<and> packet_fragment_final_sequence ci = None \<and> packet_fragment_started_at ci = None"

definition assembled ::
    "u16 \<Rightarrow> bytes list \<Rightarrow> instant \<Rightarrow> nat set \<Rightarrow> 'a client_info \<Rightarrow> bool" where
  "assembled s ps t0 S ci \<longleftrightarrow>
     distinct (map fst (packet_fragments ci))
     \<and> fst ` set (packet_fragments ci) = frag_id ps ` S
     \<and> (\<forall>i\<in>S. map_of (packet_fragments ci) (frag_id ps i) = Some (ps ! i))
     \<and> packet_fragment_bytes ci = (\<Sum>i\<in>S. length (ps ! i))
     \<and> packet_fragment_final_sequence ci = Some (s + of_nat (length ps - 1))
     \<and> packet_fragment_started_at ci = Some t0"

definition message_ok :: "bytes list \<Rightarrow> bool" where
  "message_ok ps \<longleftrightarrow> ps \<noteq> [] \<and> length ps \<le> 256 \<and> length (concat ps) \<le> MAX_INBOUND_MESSAGE_BYTES"

lemma unat_frag_id:
  "length ps \<le> 256 \<Longrightarrow> i < length ps \<Longrightarrow> unat (frag_id ps i) = length ps - 1 - i"
  by (simp add: frag_id_def unat_of_nat del: of_nat_diff)

lemma id_inj:
  "length ps \<le> 256 \<Longrightarrow> i < length ps \<Longrightarrow> j < length ps \<Longrightarrow> frag_id ps i = frag_id ps j \<longleftrightarrow> i = j"
  using unat_frag_id [of ps i] unat_frag_id [of ps j] by fastforce

lemma pieces_bound:
  assumes "message_ok ps" and "S \<subseteq> {..<length ps}"
  shows "(\<Sum>i\<in>S. length (ps ! i)) \<le> MAX_INBOUND_MESSAGE_BYTES"
proof -
  have "(\<Sum>i\<in>S. length (ps ! i)) \<le> (\<Sum>i<length ps. length (ps ! i))"
    using assms(2) by (intro sum_mono2) auto
  also have "\<dots> = length (concat ps)"
    by (simp add: length_concat sum_list_sum_nth atLeast0LessThan)
  finally show ?thesis using assms(1) by (simp add: message_ok_def)
qed

lemma not_expired:
  "packet_fragment_started_at ci = Some t0 \<Longrightarrow> t - t0 \<le> FRAGMENT_ASSEMBLY_TIMEOUT \<Longrightarrow>
    expire_fragment_state t ci = ci"
  by (simp add: expire_fragment_state_def)

lemma final_sequence:
  "i < length ps \<Longrightarrow> length ps \<le> 256 \<Longrightarrow>
    s + of_nat i + ucast (frag_id ps i) = (s + of_nat (length ps - 1) :: u16)"
proof -
  assume i: "i < length ps" and n: "length ps \<le> 256"
  have "unat (ucast (frag_id ps i) :: u16) = unat (of_nat (length ps - 1 - i) :: u16)"
    using i n unat_frag_id [OF n i] by (simp add: unsigned_ucast_eq unat_of_nat take_bit_eq_mod del: of_nat_diff)
  then have "ucast (frag_id ps i) = (of_nat (length ps - 1 - i) :: u16)"
    by (simp only: word_unat_eq_iff)
  then have "s + of_nat i + ucast (frag_id ps i)
      = s + (of_nat (i + (length ps - 1 - i)) :: u16)"
    by (simp only: of_nat_add add.assoc)
  then show ?thesis using i by simp
qed

lemma fragment_id_bounds:
  assumes "length ps \<le> 256" and "i < length ps - 1"
  shows "frag_id ps i \<noteq> 0"
    and "\<not> unat (frag_id ps i) > MAX_INBOUND_FRAGMENTS"
proof -
  have u: "unat (frag_id ps i) = length ps - 1 - i" using assms by (intro unat_frag_id) auto
  then show "frag_id ps i \<noteq> 0" using assms(2) by force
  show "\<not> unat (frag_id ps i) > MAX_INBOUND_FRAGMENTS"
    using u assms by (simp add: MAX_INBOUND_FRAGMENTS_def del: unat_word_less)
qed

lemma assembled_select:
  "assembled s ps t0 S ci \<Longrightarrow> select_group t (s + of_nat (length ps - 1)) ci = ci"
  by (simp add: assembled_def select_group_def)

lemma limit_no_overflow: "n \<le> MAX_INBOUND_MESSAGE_BYTES \<Longrightarrow> \<not> USIZE_LIMIT \<le> n"
  by (simp add: MAX_INBOUND_MESSAGE_BYTES_def USIZE_LIMIT_def)

lemma assembled_insert:
  assumes a: "assembled s ps t0 S ci" and S: "S \<subseteq> {..<length ps}" and i: "i \<notin> S" "i < length ps"
    and n: "length ps \<le> 256"
  shows "assembled s ps t0 (insert i S)
    (ci\<lparr>packet_fragments := AList.update (frag_id ps i) (ps ! i) (packet_fragments ci),
      packet_fragment_bytes := packet_fragment_bytes ci + length (ps ! i)\<rparr>)"
proof -
  let ?k = "frag_id ps i"
  have "?k \<notin> frag_id ps ` S"
    using id_inj [OF n i(2)] S i(1) by auto
  then have fresh: "map_of (packet_fragments ci) ?k = None"
    using a by (simp add: assembled_def map_of_eq_None_iff)
  have "finite S" using S finite_subset by blast
  have "?k \<notin> set (map fst (packet_fragments ci))"
    using fresh by (simp add: map_of_eq_None_iff)
  with a \<open>finite S\<close> i fresh show ?thesis
    by (auto simp: assembled_def update_fresh map_add_def split: option.splits)
qed

lemma deliver_assembled:
  assumes a: "assembled s ps t0 S ci" and ok: "message_ok ps" and S: "S \<subseteq> {..<length ps}"
    and i: "i < length ps - 1" and t: "t - t0 \<le> FRAGMENT_ASSEMBLY_TIMEOUT"
  shows "assembled s ps t0 (insert i S) (deliver ci (t, fragment s ps i))"
proof -
  have n: "length ps \<le> 256" using ok by (simp add: message_ok_def)
  let ?k = "frag_id ps i"
  have exp: "expire_fragment_state t ci = ci"
    using a t by (intro not_expired) (simp_all add: assembled_def)
  have sel: "select_group t (s + of_nat i + ucast ?k) ci = ci"
    using i n assembled_select [OF a] by (simp only: final_sequence)
  show ?thesis
  proof (cases "i \<in> S")
    case True
    then have "map_of (packet_fragments ci) ?k = Some (ps ! i)"
      using a by (simp add: assembled_def)
    with True a show ?thesis
      using fragment_id_bounds [OF n i]
      by (simp add: deliver_def fragment_def cache_fragment_def Let_def exp sel insert_absorb)
  next
    case False
    have fresh: "map_of (packet_fragments ci) ?k = None"
    proof -
      have "frag_id ps j \<noteq> ?k" if "j \<in> S" for j
        using that False S i id_inj [OF n, of j i] by auto
      then have "?k \<notin> frag_id ps ` S" by (metis imageE)
      then show ?thesis using a by (simp add: assembled_def map_of_eq_None_iff)
    qed
    have fin: "finite S" using S finite_subset by blast
    have "(\<Sum>j\<in>insert i S. length (ps ! j)) \<le> MAX_INBOUND_MESSAGE_BYTES"
      using S i by (intro pieces_bound [OF ok]) auto
    then have bound: "packet_fragment_bytes ci + length (ps ! i) \<le> MAX_INBOUND_MESSAGE_BYTES"
      using a False fin by (simp add: assembled_def)
    show ?thesis
      using assembled_insert [OF a S False _ n] i fragment_id_bounds [OF n i] bound
        limit_no_overflow [OF bound]
      by (simp add: deliver_def fragment_def cache_fragment_def Let_def exp sel fresh)
  qed
qed

lemma deliver_first:
  assumes c: "clean ci" and ok: "message_ok ps" and i: "i < length ps - 1"
  shows "assembled s ps t0 {i} (deliver ci (t0, fragment s ps i))"
proof -
  have n: "length ps \<le> 256" using ok by (simp add: message_ok_def)
  let ?k = "frag_id ps i"
  obtain c1 where c1: "c1 = ci\<lparr>packet_fragment_final_sequence := Some (s + of_nat (length ps - 1)),
    packet_fragment_started_at := Some t0\<rparr>" by blast
  have a: "assembled s ps t0 {} c1" using c by (simp add: assembled_def clean_def c1)
  have sel: "select_group t0 (s + of_nat i + ucast ?k) ci = c1"
    using c i n by (simp add: final_sequence select_group_def reset_fragment_state_def clean_def c1)
  have exp: "expire_fragment_state t0 ci = ci" using c by (simp add: expire_fragment_state_def clean_def)
  have sel': "select_group t0 (s + of_nat i + ucast ?k) c1 = c1"
    using i n assembled_select [OF a, of t0] by (simp only: final_sequence)
  have exp': "expire_fragment_state t0 c1 = c1" by (simp add: expire_fragment_state_def c1)
  have "deliver ci (t0, fragment s ps i) = deliver c1 (t0, fragment s ps i)"
    using fragment_id_bounds [OF n i]
    by (simp add: deliver_def fragment_def cache_fragment_def Let_def exp exp' sel sel'
        split: option.split)
  then show ?thesis using deliver_assembled [OF a ok _ i, of t0] by simp
qed

lemma deliver_all:
  assumes ok: "message_ok ps" and "\<forall>(t, f)\<in>set es. t - t0 \<le> FRAGMENT_ASSEMBLY_TIMEOUT
      \<and> (\<exists>i<length ps - 1. f = fragment s ps i)"
    and "assembled s ps t0 S ci" and "S \<subseteq> {..<length ps - 1}"
  shows "\<exists>S'. S' \<subseteq> {..<length ps - 1} \<and> S \<subseteq> S' \<and> assembled s ps t0 S' (foldl deliver ci es)
    \<and> snd ` set es \<subseteq> fragment s ps ` S'"
  using assms(2-)
proof (induction es arbitrary: ci S)
  case Nil
  then show ?case by auto
next
  case (Cons e es)
  obtain t f where e: "e = (t, f)" by (cases e)
  with Cons.prems(1) obtain i where i: "i < length ps - 1" "f = fragment s ps i"
    and t: "t - t0 \<le> FRAGMENT_ASSEMBLY_TIMEOUT" by auto
  have S: "S \<subseteq> {..<length ps}" using Cons.prems(3) by auto
  have "assembled s ps t0 (insert i S) (deliver ci e)"
    using deliver_assembled [OF Cons.prems(2) ok S i(1) t] e i(2) by simp
  moreover have "insert i S \<subseteq> {..<length ps - 1}" using Cons.prems(3) i(1) by simp
  ultimately obtain S' where "S' \<subseteq> {..<length ps - 1}" "insert i S \<subseteq> S'"
    "assembled s ps t0 S' (foldl deliver (deliver ci e) es)" "snd ` set es \<subseteq> fragment s ps ` S'"
    using Cons.IH [of "insert i S" "deliver ci e"] Cons.prems(1) by auto
  then show ?case using e i(2) by (intro exI [of _ S']) auto
qed


text \<open>With all fragments held, the final packet releases the message.\<close>

lemma max_key_image:
  "unat ` fst ` set frs = {1..m} \<Longrightarrow> max_key frs = m"
proof -
  have mk: "max_key frs = (if frs = [] then 0 else Max (unat ` fst ` set frs))" for frs
    by (induction frs) (auto simp: max_key_def)
  assume *: "unat ` fst ` set frs = {1..m}"
  show ?thesis
  proof (cases "frs = []")
    case True
    then have "{1..m} = {}" using * by simp
    then have "m = 0" by simp
    with True show ?thesis by (simp add: mk)
  next
    case False
    then have "{1..m} \<noteq> {}" using * by (metis image_is_empty set_empty)
    then have "Max {1..m} = m" by (intro Max_eqI) auto
    with False * show ?thesis by (simp add: mk)
  qed
qed

lemma frag_id_reverse: "length ps \<le> 256 \<Longrightarrow> j \<le> length ps - 1 \<Longrightarrow> ps \<noteq> [] \<Longrightarrow>
    frag_id ps (length ps - 1 - j) = of_nat j"
  unfolding frag_id_def by (rule arg_cong [where f = of_nat]) simp

lemma gather_assembled:
  assumes a: "assembled s ps t0 {..<length ps - 1} ci" and ok: "message_ok ps" and "j \<le> length ps - 1"
  shows "gather (packet_fragments ci) j = Some (concat (drop (length ps - 1 - j) (butlast ps)))"
  using assms(3)
proof (induction j)
  case 0
  then show ?case by simp
next
  case (Suc j)
  let ?i = "length ps - 1 - Suc j"
  have ok': "length ps \<le> 256" "ps \<noteq> []" using ok by (simp_all add: message_ok_def)
  have i: "?i < length ps - 1" using Suc.prems by simp
  then have "map_of (packet_fragments ci) (frag_id ps ?i) = Some (ps ! ?i)"
    using a by (simp add: assembled_def)
  then have m: "map_of (packet_fragments ci) (of_nat (Suc j)) = Some (ps ! ?i)"
    using frag_id_reverse [OF ok'(1) Suc.prems ok'(2)] by (simp del: of_nat_Suc)
  have "drop ?i (butlast ps) = ps ! ?i # drop (Suc ?i) (butlast ps)"
    using i by (simp add: Cons_nth_drop_Suc [symmetric] nth_butlast)
  moreover have "Suc ?i = length ps - 1 - j" using Suc.prems by simp
  ultimately show ?case using Suc m by (simp del: of_nat_Suc)
qed

lemma assembled_keys:
  assumes a: "assembled s ps t0 {..<length ps - 1} ci" and ok: "message_ok ps"
  shows "max_key (packet_fragments ci) = length ps - 1"
    and "length (packet_fragments ci) = length ps - 1"
proof -
  have n: "length ps \<le> 256" "ps \<noteq> []" using ok by (simp_all add: message_ok_def)
  have ids: "fst ` set (packet_fragments ci) = frag_id ps ` {..<length ps - 1}"
    and d: "distinct (map fst (packet_fragments ci))"
    using a by (simp_all add: assembled_def)
  have "(\<lambda>i. length ps - 1 - i) ` {..<length ps - 1} = {1..length ps - 1}"
  proof -
    have "j \<in> (\<lambda>i. length ps - 1 - i) ` {..<length ps - 1}" if "j \<in> {1..length ps - 1}" for j
      using that by (intro image_eqI [of _ _ "length ps - 1 - j"]) auto
    then show ?thesis by auto
  qed
  moreover have "unat ` frag_id ps ` {..<length ps - 1} = (\<lambda>i. length ps - 1 - i) ` {..<length ps - 1}"
    unfolding image_image using unat_frag_id [OF n(1)] by (intro image_cong) auto
  ultimately show "max_key (packet_fragments ci) = length ps - 1"
    using ids by (intro max_key_image) simp
  have "inj_on (frag_id ps) {..<length ps - 1}"
    using id_inj [OF n(1)] by (auto simp: inj_on_def)
  then have "card (fst ` set (packet_fragments ci)) = length ps - 1"
    using ids by (simp add: card_image)
  then show "length (packet_fragments ci) = length ps - 1"
    using distinct_card [OF d] by simp
qed

lemma finish_assembled:
  assumes a: "assembled s ps t0 {..<length ps - 1} ci" and ok: "message_ok ps"
    and n: "2 \<le> length ps" and t: "t - t0 \<le> FRAGMENT_ASSEMBLY_TIMEOUT"
  shows "finish_fragmented_payload t ci (s + of_nat (length ps - 1)) (last ps)
    = (Inr (concat ps), reset_fragment_state ci)"
proof -
  have ok': "length ps \<le> 256" "ps \<noteq> []" "length (concat ps) \<le> MAX_INBOUND_MESSAGE_BYTES"
    using ok by (simp_all add: message_ok_def)
  have exp: "expire_fragment_state t ci = ci"
    using a t by (intro not_expired) (simp_all add: assembled_def)
  have split: "concat ps = concat (butlast ps) @ last ps"
    using ok'(2) by (metis append_butlast_last_id concat.simps(1) concat.simps(2) concat_append append_Nil2)
  have "packet_fragment_bytes ci + length (last ps) = (\<Sum>i<length ps - 1. length (ps ! i)) + length (last ps)"
    using a by (simp add: assembled_def)
  also have "(\<Sum>i<length ps - 1. length (ps ! i)) = length (concat (butlast ps))"
    by (simp add: length_concat sum_list_sum_nth atLeast0LessThan nth_butlast)
  finally have total: "packet_fragment_bytes ci + length (last ps) = length (concat ps)"
    by (simp add: split)
  have "packet_fragments ci \<noteq> []" using assembled_keys(2) [OF a ok] n by auto
  moreover have "packet_fragment_final_sequence ci = Some (s + of_nat (length ps - 1))"
    using a by (simp add: assembled_def)
  moreover have "gather (packet_fragments ci) (length ps - 1) = Some (concat (butlast ps))"
    using gather_assembled [OF a ok order.refl] by simp
  moreover have "\<not> MAX_INBOUND_FRAGMENTS < length ps - 1"
    using ok'(1) by (simp add: MAX_INBOUND_FRAGMENTS_def)
  moreover have "length (last ps) \<le> MAX_INBOUND_MESSAGE_BYTES" using ok'(3) split by simp
  ultimately show ?thesis
    using ok'(3) limit_no_overflow [OF ok'(3)] assembled_keys [OF a ok] split
    by (simp add: finish_fragmented_payload_def Let_def exp total)
qed


section \<open>The size of a released message\<close>

lemma max_key_ge: "(k, d) \<in> set frs \<Longrightarrow> unat k \<le> max_key frs"
  by (induction frs) (auto simp: max_key_def le_max_iff_disj)

lemma fragments_inv_keys:
  assumes "fragments_inv ci" and "length (packet_fragments ci) = max_key (packet_fragments ci)"
  shows "unat ` fst ` set (packet_fragments ci) = {1..max_key (packet_fragments ci)}"
proof -
  let ?f = "packet_fragments ci"
  have le: "unat k \<le> max_key ?f" if "k \<in> fst ` set ?f" for k
    using that max_key_ge by auto
  have "0 < unat k" if "k \<in> fst ` set ?f" for k
    using assms(1) that unfolding fragments_inv_def by (metis unat_gt_0)
  then have sub: "unat ` fst ` set ?f \<subseteq> {1..max_key ?f}" using le by fastforce
  have "card (unat ` fst ` set ?f) = card (fst ` set ?f)"
    by (intro card_image) (simp add: inj_on_def word_unat_eq_iff)
  also have "\<dots> = length ?f"
    using assms(1) distinct_card [of "map fst ?f"] by (simp add: fragments_inv_def)
  finally have "card (unat ` fst ` set ?f) = card {1..max_key ?f}" using assms(2) by simp
  with sub show ?thesis by (intro card_subset_eq) simp_all
qed

lemma gather_defined:
  "\<forall>i\<in>{1..m}. map_of frs (of_nat i) \<noteq> None \<Longrightarrow>
    \<exists>d. gather frs m = Some d \<and> length d = (\<Sum>i\<in>{1..m}. length (the (map_of frs (of_nat i))))"
proof (induction m)
  case 0
  then show ?case by simp
next
  case (Suc m)
  then obtain d where "gather frs m = Some d"
    "length d = (\<Sum>i\<in>{1..m}. length (the (map_of frs (of_nat i))))" by auto
  moreover obtain p where "map_of frs (of_nat (Suc m)) = Some p" using Suc.prems by fastforce
  ultimately show ?case by (simp del: of_nat_Suc)
qed

lemma fragment_total_sum:
  assumes d: "distinct (map fst frs)" and k: "unat ` fst ` set frs = {1..m}"
  shows "fragment_total frs = (\<Sum>i\<in>{1..m}. length (the (map_of frs (of_nat i))))"
proof -
  let ?g = "\<lambda>k. length (the (map_of frs k))"
  have inj: "inj_on fst (set frs)" and d': "distinct frs" using d by (simp_all add: distinct_map)
  have "fragment_total frs = (\<Sum>x\<in>set frs. length (snd x))"
    using d' by (simp add: fragment_total_def sum_list_distinct_conv_sum_set comp_def)
  also have "\<dots> = (\<Sum>x\<in>set frs. ?g (fst x))"
    using d by (intro sum.cong) auto
  also have "\<dots> = (\<Sum>k\<in>fst ` set frs. ?g k)"
    by (simp add: sum.reindex [OF inj])
  also have "\<dots> = (\<Sum>i\<in>unat ` fst ` set frs. ?g (of_nat i))"
    by (subst sum.reindex [of unat "fst ` set frs"]) (simp_all add: inj_on_def word_unat_eq_iff)
  finally show ?thesis by (simp only: k)
qed

lemma gather_inv:
  assumes inv: "fragments_inv ci" and len: "length (packet_fragments ci) = max_key (packet_fragments ci)"
  shows "\<exists>d. gather (packet_fragments ci) (max_key (packet_fragments ci)) = Some d
    \<and> length d = packet_fragment_bytes ci"
proof -
  let ?f = "packet_fragments ci" and ?m = "max_key (packet_fragments ci)"
  have k: "unat ` fst ` set ?f = {1..?m}" by (rule fragments_inv_keys [OF inv len])
  have "map_of ?f (of_nat i) \<noteq> None" if i: "i \<in> {1..?m}" for i
  proof -
    have "i \<in> unat ` fst ` set ?f" using i k by blast
    then obtain q where q: "q \<in> set ?f" "i = unat (fst q)" by blast
    then have "of_nat i = fst q" by simp
    with q(1) show ?thesis by (simp add: map_of_eq_None_iff del: of_nat_unat)
  qed
  then obtain d where "gather ?f ?m = Some d"
      "length d = (\<Sum>i\<in>{1..?m}. length (the (map_of ?f (of_nat i))))"
    using gather_defined by blast
  moreover have "packet_fragment_bytes ci = fragment_total ?f" "distinct (map fst ?f)"
    using inv by (simp_all add: fragments_inv_def)
  ultimately show ?thesis using fragment_total_sum [OF _ k] by simp
qed

lemma finish_bounded:
  assumes inv: "fragments_inv ci" and fin: "finish_fragmented_payload now ci sq d = (Inr m, ci')"
  shows "length m \<le> MAX_INBOUND_MESSAGE_BYTES"
proof -
  let ?ci = "expire_fragment_state now ci"
  have inv': "fragments_inv ?ci" using inv by (rule fragments_inv_expire)
  show ?thesis
    using fin gather_inv [OF inv']
    by (auto simp: finish_fragmented_payload_def Let_def not_less split: if_splits option.splits)
qed

section \<open>Chunks\<close>

lemma concat_chunks: "0 < n \<Longrightarrow> concat (chunks n p) = p"
  by (induction n p rule: chunks.induct) auto

lemma chunks_sizes: "c \<in> set (chunks n p) \<Longrightarrow> c \<noteq> [] \<and> length c \<le> n"
  by (induction n p rule: chunks.induct) (auto split: if_splits)

lemma length_chunks: "0 < n \<Longrightarrow> length (chunks n p) = (length p + n - 1) div n"
proof (induction n p rule: chunks.induct)
  case (1 n)
  then show ?case by simp
next
  case (2 n b bs)
  show ?case
  proof (cases "length (b # bs) \<le> n")
    case True
    then have "(length (b # bs) + n - 1) div n = 1"
      using 2 by (intro div_nat_eqI) auto
    with True 2 show ?thesis by simp
  next
    case False
    let ?k = "length (drop n (b # bs))"
    have "length (b # bs) = ?k + n" using False by simp
    then have "length (b # bs) + n - 1 = (?k + n - 1) + n" using 2(2) by linarith
    then have "(length (b # bs) + n - 1) div n = Suc ((?k + n - 1) div n)"
      using 2(2) div_add_self2 [of n "?k + n - 1"] by (simp only: neq0_conv Suc_eq_plus1)
    moreover have "length (chunks n (b # bs)) = Suc (length (chunks n (drop n (b # bs))))"
      using 2(2) by simp
    ultimately show ?thesis using 2 by (simp only:)
  qed
qed

lemma numbered_chunks_nth:
  "i < length (chunks MAX_PAYLOAD_SIZE p) \<Longrightarrow>
    numbered_chunks p ! i = (length (chunks MAX_PAYLOAD_SIZE p) - 1 - i, chunks MAX_PAYLOAD_SIZE p ! i)"
  by (simp add: numbered_chunks_def Let_def rev_nth)

lemma message_ok_chunks:
  assumes "p \<noteq> []" and "length p \<le> 256 * MAX_PAYLOAD_SIZE"
  shows "message_ok (chunks MAX_PAYLOAD_SIZE p)"
proof -
  have "length (chunks MAX_PAYLOAD_SIZE p) \<le> 256"
  proof -
    have "length p + MAX_PAYLOAD_SIZE - 1 < 257 * MAX_PAYLOAD_SIZE"
      using assms(2) by (simp add: MAX_PAYLOAD_SIZE_def)
    then have "(length p + MAX_PAYLOAD_SIZE - 1) div MAX_PAYLOAD_SIZE < 257"
      by (rule less_mult_imp_div_less)
    then show ?thesis by (simp add: length_chunks MAX_PAYLOAD_SIZE_def)
  qed
  moreover have "chunks MAX_PAYLOAD_SIZE p \<noteq> []"
    using assms(1) by (cases p) (simp_all add: MAX_PAYLOAD_SIZE_def)
  ultimately show ?thesis
    using assms(2) by (simp add: message_ok_def concat_chunks MAX_PAYLOAD_SIZE_def
        MAX_INBOUND_MESSAGE_BYTES_def)
qed

section \<open>Properties\<close>

lemma reassembly:
  assumes c: "clean ci" and ok: "message_ok ps"
    and all: "snd ` set es = fragment s ps ` {..<length ps - 1}"
    and time: "\<forall>(t, f)\<in>set es. t - fst (hd es) \<le> FRAGMENT_ASSEMBLY_TIMEOUT"
    and final: "t - fst (hd es) \<le> FRAGMENT_ASSEMBLY_TIMEOUT"
  shows "\<exists>ci'. finish_fragmented_payload t (foldl deliver ci es) (s + of_nat (length ps - 1)) (last ps)
      = (Inr (concat ps), ci') \<and> clean ci'"
proof (cases es)
  case Nil
  then have "fragment s ps ` {..<length ps - 1} = {}" using all by simp
  then have "{..<length ps - 1} = {}" by (simp only: image_is_empty)
  then have "0 \<notin> {..<length ps - 1}" by blast
  with ok have "length ps = 1" by (cases ps) (auto simp: message_ok_def)
  then obtain p where "ps = [p]" by (metis length_0_conv length_Suc_conv One_nat_def)
  with Nil c ok show ?thesis
    by (auto simp: finish_fragmented_payload_def expire_fragment_state_def clean_def message_ok_def)
next
  case (Cons e es')
  obtain t0 f where e: "e = (t0, f)" by (cases e)
  have "f \<in> fragment s ps ` {..<length ps - 1}" using all Cons e by force
  then obtain i where i: "i < length ps - 1" "f = fragment s ps i" by auto
  have first: "assembled s ps t0 {i} (deliver ci e)"
    using deliver_first [OF c ok i(1)] e i(2) by simp
  have "\<forall>(t, f)\<in>set es'. t - t0 \<le> FRAGMENT_ASSEMBLY_TIMEOUT \<and> (\<exists>i<length ps - 1. f = fragment s ps i)"
  proof clarify
    fix t f assume "(t, f) \<in> set es'"
    then have "f \<in> snd ` set es" and "(t, f) \<in> set es" using Cons by force+
    then show "t - t0 \<le> FRAGMENT_ASSEMBLY_TIMEOUT \<and> (\<exists>i<length ps - 1. f = fragment s ps i)"
      using all time Cons e by auto
  qed
  from deliver_all [OF ok this first] i(1) obtain S where S: "S \<subseteq> {..<length ps - 1}" "i \<in> S"
    and a: "assembled s ps t0 S (foldl deliver ci es)" and es: "snd ` set es' \<subseteq> fragment s ps ` S"
    using Cons by auto
  have n: "length ps \<le> 256" using ok by (simp add: message_ok_def)
  have "{..<length ps - 1} \<subseteq> S"
  proof
    fix j assume j: "j \<in> {..<length ps - 1}"
    then have "fragment s ps j \<in> fragment s ps ` S" using all es i(2) S(2) Cons e by auto
    then obtain k where "k \<in> S" "frag_id ps j = frag_id ps k" by (auto simp: fragment_def)
    moreover from this have "j = k" using id_inj [OF n, of j k] S(1) j by fastforce
    ultimately show "j \<in> S" by simp
  qed
  then have "S = {..<length ps - 1}" using S(1) by blast
  moreover have "2 \<le> length ps" using i(1) by linarith
  ultimately have "finish_fragmented_payload t (foldl deliver ci es) (s + of_nat (length ps - 1)) (last ps)
      = (Inr (concat ps), reset_fragment_state (foldl deliver ci es))"
    using finish_assembled [OF _ ok] a final Cons e by simp
  then show ?thesis by (simp add: clean_def reset_fragment_state_def)
qed

text \<open>A message cut into at most 256 pieces of together at most
  256 KiB is reassembled exactly, whatever the order in which its fragments arrive and
  however often each is repeated, when all arrive within ten seconds of the first.\<close>

lemma fragments_reassemble:
  assumes "clean ci" and "message_ok ps"
    and "snd ` set es = fragment s ps ` {..<length ps - 1}"
    and "\<forall>(t, f)\<in>set es. t - fst (hd es) \<le> FRAGMENT_ASSEMBLY_TIMEOUT"
    and "t - fst (hd es) \<le> FRAGMENT_ASSEMBLY_TIMEOUT"
  shows "\<exists>ci'. finish_fragmented_payload t (foldl deliver ci es) (s + of_nat (length ps - 1)) (last ps)
      = (Inr (concat ps), ci') \<and> clean ci'"
  using assms by (rule reassembly)

lemma fragments_reassemble_witness:
  "let ps = [[1], [2], [3]];
       es = [(0, fragment 100 ps 1), (5, fragment 100 ps 0), (9, fragment 100 ps 1)]
   in \<exists>ci'. finish_fragmented_payload 10 (foldl deliver (client_info_new 0 1 () (''10.0.0.1'', 3074)) es)
        102 [3] = (Inr [1, 2, 3], ci') \<and> clean ci'"
proof -
  let ?ps = "[[1], [2], [3]] :: bytes list"
  let ?es = "[(0, fragment 100 ?ps 1), (5, fragment 100 ?ps 0), (9, fragment 100 ?ps 1)]
    :: (instant \<times> u8 \<times> u16 \<times> bytes) list"
  have "{..<length ?ps - 1} = {0, 1}" by auto
  then have all: "snd ` set ?es = fragment 100 ?ps ` {..<length ?ps - 1}" by auto
  have "clean (client_info_new 0 1 () (''10.0.0.1'', 3074))" "message_ok ?ps"
    "\<forall>(t, f)\<in>set ?es. t - fst (hd ?es) \<le> FRAGMENT_ASSEMBLY_TIMEOUT"
    "10 - fst (hd ?es) \<le> FRAGMENT_ASSEMBLY_TIMEOUT"
    by (simp_all add: clean_def client_info_new_def message_ok_def MAX_INBOUND_MESSAGE_BYTES_def
        FRAGMENT_ASSEMBLY_TIMEOUT_def seconds_def)
  from fragments_reassemble [OF this(1,2) all this(3,4)] show ?thesis by simp
qed

text \<open>Every operation on the assembly state keeps it consistent:
  no duplicate and no zero id, the byte count is the sum of the retained fragments and at
  most 256 KiB, and a group that holds fragments has a final sequence and a start time.\<close>

lemma fragment_state_invariant:
  assumes "fragments_inv ci"
  shows "fragments_inv (snd (cache_fragment now ci fid sq d))
    \<and> fragments_inv (snd (finish_fragmented_payload now ci sq d))
    \<and> fragments_inv (expire_fragment_state now ci) \<and> fragments_inv (reset_fragment_state ci)"
  using fragments_inv_cache [OF assms] fragments_inv_finish [OF assms]
    fragments_inv_expire [OF assms] by simp

lemma fragment_state_invariant_witness:
  "let ci = client_info_new 0 1 () (''10.0.0.1'', 3074) in
    fragments_inv (snd (cache_fragment 5 ci 1 7 [1, 2]))
    \<and> fragments_inv (snd (finish_fragmented_payload 5 ci 7 [1, 2]))
    \<and> fragments_inv (expire_fragment_state 5 ci) \<and> fragments_inv (reset_fragment_state ci)"
  unfolding Let_def by (rule fragment_state_invariant [OF fragments_inv_new])

text \<open>C40 (reassembled_message_bounded). A message the assembly releases has at most 256 KiB,
  and when the number of fragments equals the highest id none of them is missing.\<close>

theorem reassembled_message_bounded:
  assumes "fragments_inv ci"
  shows "(finish_fragmented_payload now ci sq d = (Inr m, ci') \<longrightarrow> length m \<le> MAX_INBOUND_MESSAGE_BYTES)
    \<and> (length (packet_fragments ci) = max_key (packet_fragments ci) \<longrightarrow>
        gather (packet_fragments ci) (max_key (packet_fragments ci)) \<noteq> None)"
  using finish_bounded [OF assms] gather_inv [OF assms] by auto

theorem reassembled_message_bounded_witness:
  "let ci = snd (cache_fragment 5 (client_info_new 0 1 () (''10.0.0.1'', 3074)) 1 7 [1, 2]) in
    (finish_fragmented_payload 6 ci 8 [3] = (Inr [1, 2, 3], reset_fragment_state ci) \<longrightarrow>
       length [1, 2, 3 :: u8] \<le> MAX_INBOUND_MESSAGE_BYTES)
    \<and> (length (packet_fragments ci) = max_key (packet_fragments ci) \<longrightarrow>
        gather (packet_fragments ci) (max_key (packet_fragments ci)) \<noteq> None)"
  unfolding Let_def
  by (rule reassembled_message_bounded [OF fragments_inv_cache [OF fragments_inv_new]])

end
