(* ===== verification/Prudp_Server.thy ===== *)
theory Prudp_Server
  imports Packet Kerberos Fragments
begin

text \<open>
  The PRUDP server, \<open>server/quazal/src/prudp.rs\<close>: the client registry, the packet handlers,
  the sending functions, the expiry of clients and the datagram loop of \<open>serve\<close>.

  The two hash maps of clients are association lists keyed by the server signature. The
  state is threaded explicitly; a call returns the new state and the datagrams it sends, or
  \<open>None\<close> when the code panics. Handlers of virtual ports, of user packets and of departed
  clients are fields of the configuration; they act on a world state \<open>'w\<close> (the storage of
  the embedding server). Random numbers are the values of the sequence \<open>rng\<close>, with a counter
  in the state. One clock reading is used for the whole handling of a packet. Logging and
  the result of \<open>send_to\<close>, which is only logged, are left out.
\<close>

section \<open>State\<close>

type_synonym datagram = "socket_addr \<times> bytes"

record 'a client_registry =
  clients :: "(u32 \<times> 'a client_info) list"
  connection_id_session_ids :: "(u32 \<times> u32) list"

definition client_by_connection_id :: "'a client_registry \<Rightarrow> u32 \<Rightarrow> 'a client_info option" where
  "client_by_connection_id reg cid =
    Option.bind (map_of (connection_id_session_ids reg) cid) (map_of (clients reg))"

text \<open>
  A stream handler gets the clock, the signature of the calling client, the world, the
  client, the payload and the registry; the client's own entry is borrowed by the caller.
  It returns the world, the client, the registry with the other clients, what it sent and
  its result.
\<close>

type_synonym ('w, 'a) stream_handler =
  "instant \<Rightarrow> u32 \<Rightarrow> 'w \<Rightarrow> 'a client_info \<Rightarrow> bytes \<Rightarrow> 'a client_registry
    \<Rightarrow> ('w \<times> 'a client_info \<times> 'a client_registry \<times> datagram list \<times> (packet_error + bytes)) option"

record ('w, 'a) server_config =
  srv_ctx :: quazal_context
  srv_zlib :: zlib
  srv_crypto :: crypto
  stream_handlers :: "(vport \<times> ('w, 'a) stream_handler) list"
  user_handler :: "(qpacket \<Rightarrow> socket_addr \<Rightarrow> datagram list option) option"
  expired_client_handler :: "('a client_info \<Rightarrow> 'w \<Rightarrow> 'w) option"
  disconnect_handler :: "('a client_info \<Rightarrow> 'w \<Rightarrow> 'w) option"
  default_additional :: 'a
  rng :: "nat \<Rightarrow> u32"

record ('w, 'a) server =
  new_clients :: "(u32 \<times> 'a client_info) list"
  client_registry :: "'a client_registry"
  next_conn_id :: u32
  rng_count :: nat
  srv_world :: 'w

definition server_new :: "'w \<Rightarrow> ('w, 'a) server" where
  "server_new w = \<lparr>new_clients = [],
     client_registry = \<lparr>clients = [], connection_id_session_ids = []\<rparr>,
     next_conn_id = 0x3AAAAAAA, rng_count = 0, srv_world = w\<rparr>"

definition register_handler ::
    "vport \<Rightarrow> ('w, 'a) stream_handler \<Rightarrow> ('w, 'a) server_config \<Rightarrow> ('w, 'a) server_config" where
  "register_handler v h cfg = cfg\<lparr>stream_handlers := AList.update v h (stream_handlers cfg)\<rparr>"

definition put_client :: "u32 \<Rightarrow> 'a client_info \<Rightarrow> ('w, 'a) server \<Rightarrow> ('w, 'a) server" where
  "put_client sig ci st = st\<lparr>client_registry := (client_registry st)\<lparr>clients :=
     AList.update sig ci (clients (client_registry st))\<rparr>\<rparr>"

section \<open>Sending\<close>

definition default_zero :: "'b::zero option \<Rightarrow> 'b" where
  "default_zero x = (case x of None \<Rightarrow> 0 | Some v \<Rightarrow> v)"

definition prepare_packet :: "qpacket \<Rightarrow> qpacket" where
  "prepare_packet p =
    (let p = (if pk_type p = Data
              then p\<lparr>pk_use_compression := True,
                     pk_fragment_id := (case pk_fragment_id p of None \<Rightarrow> Some 0 | f \<Rightarrow> f)\<rparr>
              else p)
     in p\<lparr>pk_flags := pk_flags p OR flag_HasSize\<rparr>)"

definition send_packet ::
    "quazal_context \<Rightarrow> zlib \<Rightarrow> socket_addr \<Rightarrow> qpacket \<Rightarrow> datagram option" where
  "send_packet ctx z dst p = map_option (Pair dst) (packet_to_bytes ctx z (prepare_packet p))"

definition reliable_flags :: "u8 \<Rightarrow> u8" where
  "reliable_flags f = f OR flag_HasSize OR flag_NeedAck OR flag_Reliable"

text \<open>The sequence numbers wrap around, as in a build without overflow checks.\<close>

definition send_response ::
    "quazal_context \<Rightarrow> zlib \<Rightarrow> socket_addr \<Rightarrow> qpacket \<Rightarrow> 'a client_info
      \<Rightarrow> (datagram \<times> 'a client_info) option" where
  "send_response ctx z dst resp ci =
    map_option (\<lambda>d. (d, ci\<lparr>server_sequence_id := server_sequence_id ci + 1\<rparr>))
      (send_packet ctx z dst (resp\<lparr>pk_sequence := server_sequence_id ci,
         pk_flags := reliable_flags (pk_flags resp),
         pk_signature := default_zero (client_signature ci),
         pk_session_id := server_session ci\<rparr>))"

definition send_request ::
    "quazal_context \<Rightarrow> zlib \<Rightarrow> socket_addr \<Rightarrow> qpacket \<Rightarrow> 'a client_info
      \<Rightarrow> (datagram \<times> 'a client_info) option" where
  "send_request ctx z dst req ci =
    map_option (\<lambda>d. (d, ci\<lparr>client_sequence_id := client_sequence_id ci + 1\<rparr>))
      (send_packet ctx z dst (req\<lparr>pk_sequence := client_sequence_id ci,
         pk_flags := reliable_flags (pk_flags req),
         pk_signature := server_signature ci,
         pk_session_id := client_session ci\<rparr>))"

definition ack_packet :: "qpacket \<Rightarrow> 'a client_info \<Rightarrow> bool \<Rightarrow> qpacket" where
  "ack_packet p ci keep_payload =
    p\<lparr>pk_source := pk_destination p, pk_destination := pk_source p,
      pk_flags := flag_Ack OR flag_HasSize,
      pk_signature := default_zero (client_signature ci),
      pk_session_id := server_session ci,
      pk_payload := (if keep_payload then pk_payload p else []),
      pk_sequence := pk_sequence p\<rparr>"

definition send_ack ::
    "('w, 'a) server_config \<Rightarrow> socket_addr \<Rightarrow> qpacket \<Rightarrow> 'a client_info \<Rightarrow> bool \<Rightarrow> datagram option" where
  "send_ack cfg dst p ci keep_payload =
    send_packet (srv_ctx cfg) (srv_zlib cfg) dst (ack_packet p ci keep_payload)"

section \<open>Data packets\<close>

text \<open>The answer of a handler, in numbered chunks, each sent as a response.\<close>

definition response_chunk :: "qpacket \<Rightarrow> nat \<times> bytes \<Rightarrow> qpacket" where
  "response_chunk p c = qpacket_default\<lparr>pk_source := pk_destination p, pk_destination := pk_source p,
     pk_type := Data, pk_payload := snd c, pk_fragment_id := Some (of_nat (fst c))\<rparr>"

fun send_chunks ::
    "('w, 'a) server_config \<Rightarrow> socket_addr \<Rightarrow> qpacket \<Rightarrow> (nat \<times> bytes) list \<Rightarrow> 'a client_info
      \<Rightarrow> (datagram list \<times> 'a client_info) option" where
  "send_chunks cfg dst p [] ci = Some ([], ci)"
| "send_chunks cfg dst p (c # cs) ci =
    Option.bind (send_response (srv_ctx cfg) (srv_zlib cfg) dst (response_chunk p c) ci) (\<lambda>(d, ci).
    Option.bind (send_chunks cfg dst p cs ci) (\<lambda>(ds, ci). Some (d # ds, ci)))"

definition dispatch_payload ::
    "('w, 'a) server_config \<Rightarrow> instant \<Rightarrow> qpacket \<Rightarrow> socket_addr \<Rightarrow> datagram \<Rightarrow> ('w, 'a) server
      \<Rightarrow> 'a client_info \<Rightarrow> bytes \<Rightarrow> (('w, 'a) server \<times> datagram list) option" where
  "dispatch_payload cfg now p client ack st ci payload =
    (case map_of (stream_handlers cfg) (pk_destination p) of
       None \<Rightarrow> Some (put_client (pk_signature p) ci st, [ack])
     | Some h \<Rightarrow>
        Option.bind (h now (pk_signature p) (srv_world st) ci payload (client_registry st))
          (\<lambda>(w, ci, reg, sent, r).
             let st = st\<lparr>srv_world := w, client_registry := reg\<rparr> in
             case r of
               Inl _ \<Rightarrow> Some (put_client (pk_signature p) ci st, ack # sent)
             | Inr resp \<Rightarrow>
                 Option.bind (send_chunks cfg client p (numbered_chunks resp) ci) (\<lambda>(ds, ci).
                 Some (put_client (pk_signature p) ci st, ack # sent @ ds))))"

definition handle_data ::
    "('w, 'a) server_config \<Rightarrow> instant \<Rightarrow> qpacket \<Rightarrow> socket_addr \<Rightarrow> ('w, 'a) server
      \<Rightarrow> (('w, 'a) server \<times> datagram list) option" where
  "handle_data cfg now p client st =
    (case map_of (clients (client_registry st)) (pk_signature p) of
       None \<Rightarrow> Some (st, [])
     | Some ci \<Rightarrow>
        let ci = seen now ci in
        Option.bind (send_ack cfg client p ci False) (\<lambda>ack.
        case pk_fragment_id p of
          None \<Rightarrow> dispatch_payload cfg now p client ack st ci (pk_payload p)
        | Some fid \<Rightarrow>
            if fid \<noteq> 0 then
              (case cache_fragment now ci fid (pk_sequence p) (pk_payload p) of
                 (Inr _, ci) \<Rightarrow> Some (put_client (pk_signature p) ci st, [ack])
               | (Inl _, ci) \<Rightarrow> Some (put_client (pk_signature p) (reset_fragment_state ci) st, [ack]))
            else
              (case finish_fragmented_payload now ci (pk_sequence p) (pk_payload p) of
                 (Inr payload, ci) \<Rightarrow> dispatch_payload cfg now p client ack st ci payload
               | (Inl _, ci) \<Rightarrow> Some (put_client (pk_signature p) (reset_fragment_state ci) st, [ack]))))"

section \<open>Connecting\<close>

definition handle_syn ::
    "('w, 'a) server_config \<Rightarrow> instant \<Rightarrow> qpacket \<Rightarrow> socket_addr \<Rightarrow> ('w, 'a) server
      \<Rightarrow> (('w, 'a) server \<times> datagram list) option" where
  "handle_syn cfg now p client st =
    (let sig = rng cfg (rng_count st);
         ci = client_info_new now sig (default_additional cfg) client;
         st = st\<lparr>rng_count := rng_count st + 1, new_clients := AList.update sig ci (new_clients st)\<rparr>
     in Option.bind (send_ack cfg client (p\<lparr>pk_conn_signature := Some sig\<rparr>) ci False) (\<lambda>ack.
        Some (st, [ack])))"

text \<open>
  The closure of \<open>handle_connect\<close> that reads the ticket: its result, and the client, the
  connection id counter and the registry after it. The identity is set before the
  connect data are read, and stays set when reading them fails.
\<close>

definition read_connect_data :: "bytes \<Rightarrow> from_stream_error + u32" where
  "read_connect_data data =
    (case rbind rd_u32 (\<lambda>_. rbind rd_u32 (\<lambda>_. rd_u32)) data of
       Inl e \<Rightarrow> Inl e | Inr (challenge, _) \<Rightarrow> Inr challenge)"

definition accept_ticket ::
    "('w, 'a) server_config \<Rightarrow> u64 \<Rightarrow> qpacket \<Rightarrow> 'a client_info \<Rightarrow> ('w, 'a) server
      \<Rightarrow> ((from_stream_error + bytes) \<times> 'a client_info \<times> ('w, 'a) server) option" where
  "accept_ticket cfg unix_now p ci st =
    (case rd_pair (rd_vec rd_u8) (rd_vec rd_u8) (pk_payload p) of
       Inl e \<Rightarrow> Some (Inl e, ci, st)
     | Inr ((ticket, request_data), _) \<Rightarrow>
        (case ticket_open (srv_crypto cfg) ticket (ticket_key (srv_ctx cfg)) of
           Inl e \<Rightarrow> Some (Inl e, ci, st)
         | Inr ti \<Rightarrow>
            if valid_until ti < unix_now then Some (Inr [], ci, st)
            else
              let id = next_conn_id st;
                  ci = ci\<lparr>user_id := Some (principle_id ti), connection_id := Some id\<rparr>;
                  reg = client_registry st;
                  st = st\<lparr>next_conn_id := id + 1, client_registry := reg\<lparr>connection_id_session_ids :=
                         AList.update id (pk_signature p) (connection_id_session_ids reg)\<rparr>\<rparr>
              in (case crypt_key (ti_session_key ti) request_data of
                    None \<Rightarrow> None
                  | Some data \<Rightarrow>
                     (case read_connect_data data of
                        Inl e \<Rightarrow> Some (Inl e, ci, st)
                      | Inr challenge \<Rightarrow> Some (Inr (wr_vec le8 (le32 (challenge + 1))), ci, st)))))"

text \<open>The client moves from the new clients to the registry.\<close>

definition admitted ::
    "('w, 'a) server_config \<Rightarrow> qpacket \<Rightarrow> u32 \<Rightarrow> ('w, 'a) server \<Rightarrow> 'a client_info \<Rightarrow> 'a client_info" where
  "admitted cfg p csig st ci = ci\<lparr>client_signature := Some csig,
     server_session := ucast (rng cfg (rng_count st)), client_session := pk_session_id p\<rparr>"

definition admit ::
    "qpacket \<Rightarrow> 'a client_info \<Rightarrow> ('w, 'a) server \<Rightarrow> ('w, 'a) server" where
  "admit p ci st = put_client (pk_signature p) ci (st\<lparr>rng_count := rng_count st + 1,
     new_clients := AList.delete (pk_signature p) (new_clients st)\<rparr>)"

definition authenticate ::
    "('w, 'a) server_config \<Rightarrow> u64 \<Rightarrow> qpacket \<Rightarrow> 'a client_info \<Rightarrow> ('w, 'a) server
      \<Rightarrow> ((from_stream_error + bytes) \<times> 'a client_info \<times> ('w, 'a) server) option" where
  "authenticate cfg unix_now p ci st =
    (if pk_payload p = [] then Some (Inr [], ci, st) else accept_ticket cfg unix_now p ci st)"

definition handle_connect ::
    "('w, 'a) server_config \<Rightarrow> u64 \<Rightarrow> qpacket \<Rightarrow> socket_addr \<Rightarrow> ('w, 'a) server
      \<Rightarrow> (('w, 'a) server \<times> datagram list) option" where
  "handle_connect cfg unix_now p client st =
    (case pk_conn_signature p of
       None \<Rightarrow> Some (st, [])
     | Some csig \<Rightarrow>
        (case map_of (new_clients st) (pk_signature p) of
           None \<Rightarrow> Some (st, [])
         | Some ci \<Rightarrow>
            let ci = admitted cfg p csig st ci;
                st = admit p ci st
            in Option.bind (authenticate cfg unix_now p ci st) (\<lambda>(res, ci, st).
               let resp = (case res of Inr d \<Rightarrow> d | Inl _ \<Rightarrow> []);
                   p' = p\<lparr>pk_payload := resp, pk_conn_signature := Some 0\<rparr>
               in Option.bind (send_ack cfg client p' ci (resp \<noteq> [])) (\<lambda>ack.
                  Some (put_client (pk_signature p) ci st, [ack])))))"

section \<open>The other packets, expiry and the datagram loop\<close>

definition handle_disconnect ::
    "('w, 'a) server_config \<Rightarrow> qpacket \<Rightarrow> socket_addr \<Rightarrow> ('w, 'a) server
      \<Rightarrow> (('w, 'a) server \<times> datagram list) option" where
  "handle_disconnect cfg p client st =
    (let reg = client_registry st in
     case map_of (clients reg) (pk_signature p) of
       None \<Rightarrow> Some (st, [])
     | Some ci \<Rightarrow>
        let st = st\<lparr>client_registry := reg\<lparr>clients := AList.delete (pk_signature p) (clients reg)\<rparr>\<rparr>
        in Option.bind (send_ack cfg client p ci False) (\<lambda>ack.
           Some (case disconnect_handler cfg of
                   None \<Rightarrow> st
                 | Some h \<Rightarrow> st\<lparr>srv_world := h ci (srv_world st)\<rparr>, [ack])))"

definition handle_ping ::
    "('w, 'a) server_config \<Rightarrow> instant \<Rightarrow> qpacket \<Rightarrow> socket_addr \<Rightarrow> ('w, 'a) server
      \<Rightarrow> (('w, 'a) server \<times> datagram list) option" where
  "handle_ping cfg now p client st =
    (case map_of (clients (client_registry st)) (pk_signature p) of
       None \<Rightarrow> Some (st, [])
     | Some ci \<Rightarrow>
        Option.bind (send_ack cfg client p (seen now ci) False) (\<lambda>ack.
        Some (put_client (pk_signature p) (seen now ci) st, [ack])))"

definition handle_packet ::
    "('w, 'a) server_config \<Rightarrow> instant \<Rightarrow> u64 \<Rightarrow> qpacket \<Rightarrow> socket_addr \<Rightarrow> ('w, 'a) server
      \<Rightarrow> (('w, 'a) server \<times> datagram list) option" where
  "handle_packet cfg now unix_now p client st =
    (if has_flag (pk_flags p) flag_Ack then Some (st, [])
     else case pk_type p of
       Syn \<Rightarrow> handle_syn cfg now p client st
     | Connect \<Rightarrow> handle_connect cfg unix_now p client st
     | Data \<Rightarrow> handle_data cfg now p client st
     | Disconnect \<Rightarrow> handle_disconnect cfg p client st
     | Ping \<Rightarrow> handle_ping cfg now p client st
     | User \<Rightarrow> (case user_handler cfg of None \<Rightarrow> Some (st, []) | Some h \<Rightarrow> map_option (Pair st) (h p client))
     | Route \<Rightarrow> None
     | Raw \<Rightarrow> None)"

text \<open>\<open>clear_clients\<close>: a connection id is forgotten only when an expiry handler is installed.\<close>

definition expired :: "instant \<Rightarrow> 'a client_info \<Rightarrow> bool" where
  "expired now ci \<longleftrightarrow> now - last_seen ci > SESSION_TIMEOUT"

definition expire_client ::
    "('w, 'a) server_config \<Rightarrow> 'a client_info \<Rightarrow> ('w, 'a) server \<Rightarrow> ('w, 'a) server" where
  "expire_client cfg ci st =
    (case expired_client_handler cfg of
       None \<Rightarrow> st
     | Some h \<Rightarrow>
        let reg = client_registry st;
            reg = (case connection_id ci of
                     None \<Rightarrow> reg
                   | Some cid \<Rightarrow> reg\<lparr>connection_id_session_ids :=
                       AList.delete cid (connection_id_session_ids reg)\<rparr>)
        in st\<lparr>client_registry := reg, srv_world := h ci (srv_world st)\<rparr>)"

definition clear_clients :: "('w, 'a) server_config \<Rightarrow> instant \<Rightarrow> ('w, 'a) server \<Rightarrow> ('w, 'a) server" where
  "clear_clients cfg now st =
    (let reg = client_registry st;
         gone = filter (\<lambda>e. expired now (snd e)) (clients reg);
         st = st\<lparr>client_registry := reg\<lparr>clients := filter (\<lambda>e. \<not> expired now (snd e)) (clients reg)\<rparr>\<rparr>
     in foldl (\<lambda>st e. expire_client cfg (snd e) st) st gone)"

lemma packet_from_bytes_size:
  "packet_from_bytes ctx z data = Value (p, n) \<Longrightarrow> 11 \<le> n \<and> n \<le> length data"
  by (auto simp: packet_from_bytes_def obind_eq_Value_conv dest!: packet_from_reader_consumes)

text \<open>
  The loop over the packets of one datagram. A packet that cannot be parsed drops the rest of
  the datagram, one with a wrong checksum only itself.
\<close>

function handle_datagram ::
    "('w, 'a) server_config \<Rightarrow> instant \<Rightarrow> u64 \<Rightarrow> socket_addr \<Rightarrow> bytes \<Rightarrow> ('w, 'a) server
      \<Rightarrow> (('w, 'a) server \<times> datagram list) option" where
  "handle_datagram cfg now unix_now client data st =
    (if data = [] then Some (st, [])
     else case packet_from_bytes (srv_ctx cfg) (srv_zlib cfg) data of
       Panics \<Rightarrow> None
     | Fails _ \<Rightarrow> Some (st, [])
     | Value (p, n) \<Rightarrow>
        (case packet_validate (srv_ctx cfg) p (take n data) of
           Panics \<Rightarrow> None
         | Fails _ \<Rightarrow> handle_datagram cfg now unix_now client (drop n data) st
         | Value _ \<Rightarrow>
            Option.bind (handle_packet cfg now unix_now p client st) (\<lambda>(st, out).
            Option.bind (handle_datagram cfg now unix_now client (drop n data) st) (\<lambda>(st, out').
            Some (st, out @ out')))))"
  by pat_completeness auto

termination
  by (relation "measure (\<lambda>(_, _, _, _, data, _). length data)")
    (auto dest!: packet_from_bytes_size)

declare handle_datagram.simps [simp del]


section \<open>Serialisation never fails here\<close>

text \<open>The configurations whose encryption and whose handlers cannot panic.\<close>

definition config_ok :: "('w, 'a) server_config \<Rightarrow> bool" where
  "config_ok cfg \<longleftrightarrow> zlib_ok (srv_zlib cfg) \<and> crypto_key (srv_ctx cfg) \<noteq> []
     \<and> length (crypto_key (srv_ctx cfg)) \<le> 256"

definition handlers_total :: "('w, 'a) server_config \<Rightarrow> bool" where
  "handlers_total cfg \<longleftrightarrow>
     (\<forall>(v, h)\<in>set (stream_handlers cfg). \<forall>now sig w ci d reg. h now sig w ci d reg \<noteq> None)"

lemma flag_arith: "(f :: u8) < 16 \<Longrightarrow> f OR flag_HasSize < 16"
  "reliable_flags 0 = 14" "flag_Ack OR flag_HasSize = 9"
proof -
  have tab: "list_all (\<lambda>n. (of_nat n :: u8) OR flag_HasSize < 16) [0..<16]" by code_simp
  assume "f < 16"
  then have "unat f \<in> set [0..<16]" by (simp add: word_less_nat_alt)
  with tab have "(of_nat (unat f) :: u8) OR flag_HasSize < 16" unfolding list_all_iff by blast
  then show "f OR flag_HasSize < 16" unfolding of_nat_unat ucast_id .
qed (simp_all add: reliable_flags_def flag_HasSize_def flag_NeedAck_def flag_Reliable_def flag_Ack_def)

lemma header_ok_prepare: "header_ok p \<Longrightarrow> header_ok (prepare_packet p)"
  by (auto simp: header_ok_def prepare_packet_def Let_def flag_arith split: option.splits)

lemma send_packet_total:
  "config_ok cfg \<Longrightarrow> header_ok p \<Longrightarrow> \<exists>d. send_packet (srv_ctx cfg) (srv_zlib cfg) dst p = Some (dst, d)"
  using packet_to_bytes_defined [OF _ header_ok_prepare]
  unfolding send_packet_def config_ok_def by fastforce

lemma header_ok_ack: "header_ok p \<Longrightarrow> header_ok (ack_packet p ci k)"
  by (auto simp: header_ok_def ack_packet_def flag_arith)

lemma send_ack_total: "config_ok cfg \<Longrightarrow> header_ok p \<Longrightarrow> \<exists>d. send_ack cfg dst p ci k = Some d"
  using send_packet_total [OF _ header_ok_ack] unfolding send_ack_def by blast

lemma header_ok_chunk: "header_ok p \<Longrightarrow> header_ok (response_chunk p c\<lparr>pk_sequence := sq,
    pk_flags := reliable_flags (pk_flags (response_chunk p c)), pk_signature := sg, pk_session_id := sn\<rparr>)"
  by (simp add: header_ok_def response_chunk_def qpacket_default_def flag_arith)

lemma send_chunks_total:
  assumes "config_ok cfg" and "header_ok p"
  shows "\<exists>r. send_chunks cfg dst p cs ci = Some r"
proof (induction cs arbitrary: ci)
  case Nil
  then show ?case by simp
next
  case (Cons c cs)
  have "\<exists>d ci'. send_response (srv_ctx cfg) (srv_zlib cfg) dst (response_chunk p c) ci = Some (d, ci')"
    using send_packet_total [OF assms(1) header_ok_chunk [OF assms(2), where c = c
      and sq = "server_sequence_id ci" and sg = "default_zero (client_signature ci)"
      and sn = "server_session ci"], of dst]
    by (auto simp: send_response_def)
  then obtain d ci' where "send_response (srv_ctx cfg) (srv_zlib cfg) dst (response_chunk p c) ci
      = Some (d, ci')" by blast
  moreover obtain ds ci'' where "send_chunks cfg dst p cs ci' = Some (ds, ci'')"
    using Cons.IH [of ci'] by auto
  ultimately show ?case by simp
qed

lemma dispatch_total:
  assumes "config_ok cfg" and "handlers_total cfg" and "header_ok p"
  shows "dispatch_payload cfg now p client ack st ci d \<noteq> None"
proof (cases "map_of (stream_handlers cfg) (pk_destination p)")
  case None
  then show ?thesis by (simp add: dispatch_payload_def)
next
  case (Some h)
  then have "(pk_destination p, h) \<in> set (stream_handlers cfg)" by (rule map_of_SomeD)
  then obtain w ci' reg sent r
    where h: "h now (pk_signature p) (srv_world st) ci d (client_registry st) = Some (w, ci', reg, sent, r)"
    using assms(2) unfolding handlers_total_def by fastforce
  show ?thesis
  proof (cases r)
    case (Inl e)
    with Some h show ?thesis by (simp add: dispatch_payload_def)
  next
    case (Inr resp)
    obtain ds ci'' where "send_chunks cfg client p (numbered_chunks resp) ci' = Some (ds, ci'')"
      using send_chunks_total [OF assms(1,3)] by fastforce
    with Some h Inr show ?thesis by (simp add: dispatch_payload_def)
  qed
qed

lemma ticket_key_size:
  "ticket_open c t k = Inr ti \<Longrightarrow> length (ti_session_key ti) = SESSION_KEY_SIZE"
  by (auto simp: ticket_open_def ticket_internal_ok_def dest!: ticket_internalc.enc_dec
      split: if_splits option.splits sum.splits)

lemma accept_ticket_total: "accept_ticket cfg unix_now p ci st \<noteq> None"
proof -
  have "crypt_key (ti_session_key ti) d \<noteq> None"
    if "ticket_open c t k = Inr ti" for c t k ti d
    using ticket_key_size [OF that] by (auto simp: crypt_key_None_iff SESSION_KEY_SIZE_def)
  then show ?thesis
    unfolding accept_ticket_def Let_def
    by (auto simp del: not_None_eq split: sum.splits prod.splits option.splits)
qed

lemma handle_data_total:
  assumes "config_ok cfg" and "handlers_total cfg" and "header_ok p"
  shows "handle_data cfg now p client st \<noteq> None"
proof (cases "map_of (clients (client_registry st)) (pk_signature p)")
  case None
  then show ?thesis by (simp add: handle_data_def)
next
  case (Some ci)
  obtain a where "send_ack cfg client p (seen now ci) False = Some a"
    using send_ack_total [OF assms(1,3)] by blast
  with Some show ?thesis
    by (simp add: handle_data_def Let_def dispatch_total [OF assms] del: not_None_eq
        split: option.split sum.split prod.split)
qed

lemma handle_connect_total:
  assumes "config_ok cfg" and "header_ok p" and "pk_type p = Connect"
  shows "handle_connect cfg unix_now p client st \<noteq> None"
proof -
  have "header_ok (p\<lparr>pk_payload := d, pk_conn_signature := Some 0\<rparr>)" for d
    using assms(2,3) by (simp add: header_ok_def)
  then have "send_ack cfg client (p\<lparr>pk_payload := d, pk_conn_signature := Some 0\<rparr>) ci k \<noteq> None" for d ci k
    using send_ack_total [OF assms(1)] by fastforce
  then show ?thesis
    using accept_ticket_total [of cfg unix_now p]
    by (simp add: handle_connect_def authenticate_def Let_def bind_eq_None_conv del: not_None_eq
        split: option.split prod.split)
qed

lemma handle_syn_total:
  assumes "config_ok cfg" and "header_ok p" and "pk_type p = Syn"
  shows "handle_syn cfg now p client st \<noteq> None"
proof -
  have "header_ok (p\<lparr>pk_conn_signature := Some sig\<rparr>)" for sig
    using assms(2,3) by (simp add: header_ok_def)
  then have "send_ack cfg client (p\<lparr>pk_conn_signature := Some sig\<rparr>) ci k \<noteq> None" for sig ci k
    using send_ack_total [OF assms(1)] by fastforce
  then show ?thesis by (simp add: handle_syn_def Let_def bind_eq_None_conv del: not_None_eq)
qed

lemma handle_other_total:
  assumes "config_ok cfg" and "header_ok p"
  shows "handle_disconnect cfg p client st \<noteq> None" and "handle_ping cfg now p client st \<noteq> None"
proof -
  have "send_ack cfg client p ci k \<noteq> None" for ci k using send_ack_total [OF assms] by fastforce
  then show "handle_disconnect cfg p client st \<noteq> None" and "handle_ping cfg now p client st \<noteq> None"
    by (simp_all add: handle_disconnect_def handle_ping_def Let_def bind_eq_None_conv
        del: not_None_eq split: option.split)
qed

lemma handle_packet_None:
  assumes "config_ok cfg" and "handlers_total cfg" and "header_ok p"
  shows "handle_packet cfg now unix_now p client st = None \<longleftrightarrow>
    \<not> has_flag (pk_flags p) flag_Ack \<and> (pk_type p = Route \<or> pk_type p = Raw
      \<or> (pk_type p = User \<and> (\<exists>h. user_handler cfg = Some h \<and> h p client = None)))"
  using handle_data_total [OF assms] handle_connect_total [OF assms(1,3)]
    handle_syn_total [OF assms(1,3)] handle_other_total [OF assms(1,3)]
  by (cases "pk_type p") (auto simp: handle_packet_def split: option.splits)

section \<open>Who a client is\<close>

lemma map_of_put_client [simp]:
  "map_of (clients (client_registry (put_client sig ci st))) =
    (map_of (clients (client_registry st)))(sig \<mapsto> ci)"
  by (simp add: put_client_def update_conv')

lemma connection_ids_put_client [simp]:
  "connection_id_session_ids (client_registry (put_client sig ci st))
    = connection_id_session_ids (client_registry st)"
  by (simp add: put_client_def)

text \<open>What a ticket that the server accepts contains.\<close>

definition valid_ticket ::
    "('w, 'a) server_config \<Rightarrow> u64 \<Rightarrow> bytes \<Rightarrow> u32 \<Rightarrow> bool" where
  "valid_ticket cfg unix_now payload pid \<longleftrightarrow>
     (\<exists>ticket req rest ti. rd_pair (rd_vec rd_u8) (rd_vec rd_u8) payload = Inr ((ticket, req), rest)
       \<and> ticket_open (srv_crypto cfg) ticket (ticket_key (srv_ctx cfg)) = Inr ti
       \<and> principle_id ti = pid \<and> unix_now \<le> valid_until ti)"

lemma accept_ticket_user:
  assumes "accept_ticket cfg unix_now p ci st = Some (res, ci', st')"
  shows "(user_id ci' = user_id ci \<and> connection_id ci' = connection_id ci \<and> st' = st)
    \<or> (\<exists>u. user_id ci' = Some u \<and> connection_id ci' = Some (next_conn_id st)
         \<and> valid_ticket cfg unix_now (pk_payload p) u)"
  using assms unfolding accept_ticket_def valid_ticket_def Let_def
  by (auto simp: not_less split: sum.splits prod.splits option.splits if_splits)

lemma accept_ticket_clients:
  "accept_ticket cfg unix_now p ci st = Some (res, ci', st') \<Longrightarrow>
    clients (client_registry st') = clients (client_registry st) \<and> new_clients st' = new_clients st"
  by (auto simp: accept_ticket_def Let_def split: sum.splits prod.splits option.splits if_splits)

lemma handle_connect_cases:
  assumes "handle_connect cfg unix_now p client st = Some (st', out)"
  obtains "st' = st" "out = []"
  | csig ci res ci1 st1 ack where "pk_conn_signature p = Some csig"
      "map_of (new_clients st) (pk_signature p) = Some ci"
      "authenticate cfg unix_now p (admitted cfg p csig st ci)
        (admit p (admitted cfg p csig st ci) st) = Some (res, ci1, st1)"
      "st' = put_client (pk_signature p) ci1 st1"
      "send_ack cfg client (p\<lparr>pk_payload := (case res of Inr d \<Rightarrow> d | Inl _ \<Rightarrow> []),
         pk_conn_signature := Some 0\<rparr>) ci1 ((case res of Inr d \<Rightarrow> d | Inl _ \<Rightarrow> []) \<noteq> []) = Some ack"
      "out = [ack]"
  using assms unfolding handle_connect_def Let_def
  by (auto simp: bind_eq_Some_conv split: option.splits)

lemma authenticate_clients:
  "authenticate cfg unix_now p ci st = Some (res, ci', st') \<Longrightarrow>
    clients (client_registry st') = clients (client_registry st) \<and> new_clients st' = new_clients st"
  by (auto simp: authenticate_def dest: accept_ticket_clients split: if_splits)

lemma authenticate_user:
  assumes "authenticate cfg unix_now p ci st = Some (res, ci', st')"
  shows "(user_id ci' = user_id ci \<and> connection_id ci' = connection_id ci \<and> st' = st)
    \<or> (\<exists>u. user_id ci' = Some u \<and> connection_id ci' = Some (next_conn_id st)
         \<and> valid_ticket cfg unix_now (pk_payload p) u)"
  using assms accept_ticket_user unfolding authenticate_def by (fastforce split: if_splits)

lemma admit_simps [simp]:
  "next_conn_id (admit p ci st) = next_conn_id st"
  "user_id (admitted cfg p csig st ci) = user_id ci"
  "connection_id (admitted cfg p csig st ci) = connection_id ci"
  "map_of (clients (client_registry (admit p ci st)))
    = (map_of (clients (client_registry st)))(pk_signature p \<mapsto> ci)"
  "new_clients (admit p ci st) = AList.delete (pk_signature p) (new_clients st)"
  "connection_id_session_ids (client_registry (admit p ci st))
    = connection_id_session_ids (client_registry st)"
  by (simp_all add: admit_def admitted_def) (simp_all add: put_client_def)

lemma handle_connect_registers:
  "map_of (new_clients st) (pk_signature p) = Some ci \<Longrightarrow> pk_conn_signature p = Some csig \<Longrightarrow>
    handle_connect cfg unix_now p client st = Some (st', out) \<Longrightarrow>
    \<exists>ci'. map_of (clients (client_registry st')) (pk_signature p) = Some ci'"
  by (auto simp: handle_connect_def Let_def bind_eq_Some_conv)

lemma send_packet_SomeD:
  "send_packet ctx z dst p = Some d \<Longrightarrow>
    packet_to_bytes ctx z (prepare_packet p) = Some (snd d) \<and> fst d = dst"
  by (auto simp: send_packet_def)

lemma handle_connect_identity:
  assumes c: "handle_connect cfg unix_now p client st = Some (st', out)"
    and new: "map_of (clients (client_registry st')) sig = Some ci'"
    and old: "map_of (clients (client_registry st)) sig \<noteq> Some ci'"
  shows "sig = pk_signature p \<and> (\<exists>ci. map_of (new_clients st) sig = Some ci
    \<and> (user_id ci' = user_id ci \<and> connection_id ci' = connection_id ci
       \<or> (\<exists>u. user_id ci' = Some u \<and> connection_id ci' = Some (next_conn_id st)
            \<and> valid_ticket cfg unix_now (pk_payload p) u)))"
  using c
proof (cases rule: handle_connect_cases)
  case 1
  with new old show ?thesis by simp
next
  case (2 csig ci res ci1 st1 ack)
  have cl: "map_of (clients (client_registry st1)) = (map_of (clients (client_registry st)))
      (pk_signature p \<mapsto> admitted cfg p csig st ci)"
    using authenticate_clients [OF 2(3)] by simp
  have sig: "sig = pk_signature p" using new old 2(4) cl by (auto split: if_splits)
  then have "ci' = ci1" using new 2(4) by simp
  with sig 2(2) authenticate_user [OF 2(3)] show ?thesis by auto
qed


section \<open>The response stream\<close>

text \<open>The packet that carries chunk \<open>c\<close> as the response with sequence number \<open>sq\<close>.\<close>

definition response_packet :: "qpacket \<Rightarrow> 'a client_info \<Rightarrow> u16 \<Rightarrow> nat \<times> bytes \<Rightarrow> qpacket" where
  "response_packet p ci sq c = (response_chunk p c)\<lparr>pk_sequence := sq, pk_flags := reliable_flags 0,
     pk_signature := default_zero (client_signature ci), pk_session_id := server_session ci\<rparr>"

lemma send_response_chunk:
  assumes "send_response ctx z dst (response_chunk p c) ci = Some (d, ci')"
  shows "ci' = ci\<lparr>server_sequence_id := server_sequence_id ci + 1\<rparr>"
    and "send_packet ctx z dst (response_packet p ci (server_sequence_id ci) c) = Some d"
proof -
  have "pk_flags (response_chunk p c) = 0" by (simp add: response_chunk_def qpacket_default_def)
  with assms show "ci' = ci\<lparr>server_sequence_id := server_sequence_id ci + 1\<rparr>"
    and "send_packet ctx z dst (response_packet p ci (server_sequence_id ci) c) = Some d"
    by (auto simp: send_response_def response_packet_def)
qed

lemma response_packet_ci:
  "response_packet p (ci\<lparr>server_sequence_id := n\<rparr>) sq c = response_packet p ci sq c"
  by (simp add: response_packet_def)

lemma send_chunks_sent:
  "send_chunks cfg dst p cs ci = Some (ds, ci') \<Longrightarrow>
    ci' = ci\<lparr>server_sequence_id := server_sequence_id ci + of_nat (length cs)\<rparr>
    \<and> length ds = length cs
    \<and> (\<forall>i<length cs. send_packet (srv_ctx cfg) (srv_zlib cfg) dst
          (response_packet p ci (server_sequence_id ci + of_nat i) (cs ! i)) = Some (ds ! i))"
proof (induction cs arbitrary: ci ds)
  case Nil
  then show ?case by simp
next
  case (Cons c cs)
  from Cons.prems obtain d ci1 es where
    r: "send_response (srv_ctx cfg) (srv_zlib cfg) dst (response_chunk p c) ci = Some (d, ci1)"
    and cs: "send_chunks cfg dst p cs ci1 = Some (es, ci')" and ds: "ds = d # es"
    by (auto simp: bind_eq_Some_conv)
  note r' = send_response_chunk [OF r]
  have "send_packet (srv_ctx cfg) (srv_zlib cfg) dst
      (response_packet p ci (server_sequence_id ci + of_nat i) ((c # cs) ! i)) = Some (ds ! i)"
    if "i < length (c # cs)" for i
  proof (cases i)
    case 0
    then show ?thesis using r'(2) ds by simp
  next
    case (Suc j)
    with Cons.IH [OF cs] that ds r'(1) show ?thesis
      by (simp add: response_packet_ci add.assoc)
  qed
  with Cons.IH [OF cs] r'(1) ds show ?case by (simp add: add.assoc)
qed

text \<open>What a peer reads from it: fragment id, sequence number and piece.\<close>

definition fragment_of :: "qpacket \<Rightarrow> u8 \<times> u16 \<times> bytes" where
  "fragment_of q = (the (pk_fragment_id q), pk_sequence q, pk_payload q)"

lemma fragment_of_prepare:
  "pk_fragment_id q \<noteq> None \<Longrightarrow> fragment_of (prepare_packet q) = fragment_of q"
  by (auto simp: fragment_of_def prepare_packet_def Let_def)

lemma fragment_of_response:
  assumes "i < length (chunks MAX_PAYLOAD_SIZE resp)"
  shows "fragment_of (prepare_packet (response_packet p ci (s + of_nat i) (numbered_chunks resp ! i)))
    = fragment s (chunks MAX_PAYLOAD_SIZE resp) i"
proof -
  have "pk_fragment_id (response_packet p ci (s + of_nat i) (numbered_chunks resp ! i)) \<noteq> None"
    by (simp add: response_packet_def response_chunk_def)
  from fragment_of_prepare [OF this] show ?thesis
    using assms by (simp add: fragment_of_def response_packet_def
        response_chunk_def numbered_chunks_nth fragment_def frag_id_def del: of_nat_diff)
qed

lemma length_numbered_chunks [simp]:
  "length (numbered_chunks resp) = length (chunks MAX_PAYLOAD_SIZE resp)"
  by (simp add: numbered_chunks_def Let_def)

section \<open>Reachable states\<close>

text \<open>
  What holds of every connection: it is filed under its own signature, its assembly state is
  consistent, and it has a connection id exactly when it has a user. The last part is what
  the handlers of the secure server keep; the login of the authentication server sets the
  user alone.
\<close>

definition client_ok :: "u32 \<Rightarrow> 'a client_info \<Rightarrow> bool" where
  "client_ok sig ci \<longleftrightarrow> server_signature ci = sig \<and> fragments_inv ci
     \<and> (connection_id ci \<noteq> None \<longleftrightarrow> user_id ci \<noteq> None)"

definition table_ok :: "(u32 \<times> 'a client_info) list \<Rightarrow> bool" where
  "table_ok t \<longleftrightarrow> distinct (map fst t) \<and> (\<forall>(sig, ci)\<in>set t. client_ok sig ci)"

definition server_inv :: "('w, 'a) server \<Rightarrow> bool" where
  "server_inv st \<longleftrightarrow> table_ok (new_clients st) \<and> table_ok (clients (client_registry st))
     \<and> (\<forall>(sig, ci)\<in>set (new_clients st). user_id ci = None \<and> connection_id ci = None)"

text \<open>Handlers keep the invariant of the client they serve and of the registry.\<close>

definition handlers_sane :: "('w, 'a) server_config \<Rightarrow> bool" where
  "handlers_sane cfg \<longleftrightarrow>
     (\<forall>(v, h)\<in>set (stream_handlers cfg). \<forall>now sig w ci d reg w' ci' reg' sent r.
        h now sig w ci d reg = Some (w', ci', reg', sent, r) \<longrightarrow> client_ok sig ci \<longrightarrow> table_ok (clients reg)
          \<longrightarrow> client_ok sig ci' \<and> table_ok (clients reg'))"

inductive server_step :: "('w, 'a) server_config \<Rightarrow> ('w, 'a) server \<Rightarrow> ('w, 'a) server \<Rightarrow> bool"
  for cfg where
  packet: "handle_packet cfg now unix_now p client st = Some (st', out) \<Longrightarrow> server_step cfg st st'"
| tick: "server_step cfg st (clear_clients cfg now st)"

inductive server_reachable :: "('w, 'a) server_config \<Rightarrow> ('w, 'a) server \<Rightarrow> bool" for cfg where
  start: "server_reachable cfg (server_new w)"
| step: "server_reachable cfg st \<Longrightarrow> server_step cfg st st' \<Longrightarrow> server_reachable cfg st'"

inductive_cases server_stepE: "server_step cfg st st'"

lemma table_ok_update: "table_ok t \<Longrightarrow> client_ok sig ci \<Longrightarrow> table_ok (AList.update sig ci t)"
proof -
  assume t: "table_ok t" and c: "client_ok sig ci"
  have d: "distinct (map fst (AList.update sig ci t))"
    using t by (simp add: table_ok_def distinct_update)
  have "client_ok k v" if "(k, v) \<in> set (AList.update sig ci t)" for k v
  proof -
    have "map_of (AList.update sig ci t) k = Some v" using d that by simp
    then have "k = sig \<and> v = ci \<or> map_of t k = Some v" by (auto simp: update_conv' split: if_splits)
    with t c show ?thesis by (auto simp: table_ok_def dest: map_of_SomeD)
  qed
  with d show ?thesis by (auto simp: table_ok_def)
qed

lemma table_ok_filter: "table_ok t \<Longrightarrow> table_ok (filter P t)"
  by (auto simp: table_ok_def distinct_map_filter)

lemma table_ok_delete: "table_ok t \<Longrightarrow> table_ok (AList.delete sig t)"
  by (simp add: AList.delete_eq table_ok_filter)

lemma table_ok_lookup: "table_ok t \<Longrightarrow> map_of t sig = Some ci \<Longrightarrow> client_ok sig ci"
  by (auto simp: table_ok_def dest: map_of_SomeD)


lemma server_inv_new: "server_inv (server_new w)"
  by (simp add: server_inv_def server_new_def table_ok_def)

lemma server_inv_put:
  "server_inv st \<Longrightarrow> client_ok sig ci \<Longrightarrow> server_inv (put_client sig ci st)"
  by (simp add: server_inv_def put_client_def table_ok_update)

lemma server_inv_world:
  "server_inv st \<Longrightarrow> table_ok (clients reg) \<Longrightarrow> server_inv (st\<lparr>srv_world := w, client_registry := reg\<rparr>)"
  by (simp add: server_inv_def)

lemma client_ok_seen: "client_ok sig ci \<Longrightarrow> client_ok sig (seen now ci)"
  by (auto simp: client_ok_def seen_def fragments_inv_def)

lemma client_ok_fragments:
  "client_ok sig ci \<Longrightarrow> cache_fragment now ci fid sq d = (r, ci') \<Longrightarrow> client_ok sig ci'"
  "client_ok sig ci \<Longrightarrow> finish_fragmented_payload now ci sq d = (r', ci') \<Longrightarrow> client_ok sig ci'"
proof -
  have keep: "server_signature (expire_fragment_state now ci) = server_signature ci"
    "connection_id (expire_fragment_state now ci) = connection_id ci"
    "user_id (expire_fragment_state now ci) = user_id ci" for ci :: "'a client_info"
    by (auto simp: expire_fragment_state_def reset_fragment_state_def split: option.split)
  have keep': "server_signature (select_group now f ci) = server_signature ci"
    "connection_id (select_group now f ci) = connection_id ci"
    "user_id (select_group now f ci) = user_id ci" for f and ci :: "'a client_info"
    by (auto simp: select_group_def reset_fragment_state_def)
  show "client_ok sig ci'" if ok: "client_ok sig ci" and c: "cache_fragment now ci fid sq d = (r, ci')"
  proof -
    have "fragments_inv ci'"
      using fragments_inv_cache [of ci now fid sq d] ok c by (simp add: client_ok_def)
    moreover have "server_signature ci' = server_signature ci \<and> connection_id ci' = connection_id ci
        \<and> user_id ci' = user_id ci"
      using c by (auto simp: cache_fragment_def Let_def keep keep' split: if_splits option.splits)
    ultimately show ?thesis using ok by (simp add: client_ok_def)
  qed
  show "client_ok sig ci'" if ok: "client_ok sig ci" and c: "finish_fragmented_payload now ci sq d = (r', ci')"
  proof -
    have "fragments_inv ci'"
      using fragments_inv_finish [of ci now sq d] ok c by (simp add: client_ok_def)
    moreover have "server_signature ci' = server_signature ci \<and> connection_id ci' = connection_id ci
        \<and> user_id ci' = user_id ci"
      using c by (auto simp: finish_fragmented_payload_def Let_def keep reset_fragment_state_def
          split: if_splits)
    ultimately show ?thesis using ok by (simp add: client_ok_def)
  qed
qed

lemma client_ok_reset: "client_ok sig ci \<Longrightarrow> client_ok sig (reset_fragment_state ci)"
  using fragments_inv_reset [of ci] by (simp add: client_ok_def reset_fragment_state_def)

lemma client_ok_sequence: "client_ok sig ci \<Longrightarrow> client_ok sig (ci\<lparr>server_sequence_id := n\<rparr>)"
  by (auto simp: client_ok_def fragments_inv_def)

lemma client_ok_admitted: "client_ok sig ci \<Longrightarrow> client_ok sig (admitted cfg p csig st ci)"
  by (auto simp: client_ok_def admitted_def fragments_inv_def)

lemma dispatch_inv:
  assumes sane: "handlers_sane cfg" and inv: "server_inv st" and ci: "client_ok (pk_signature p) ci"
    and d: "dispatch_payload cfg now p client ack st ci d = Some (st', out)"
  shows "server_inv st'"
proof (cases "map_of (stream_handlers cfg) (pk_destination p)")
  case None
  with d inv ci show ?thesis by (auto simp: dispatch_payload_def server_inv_put)
next
  case (Some h)
  then have mem: "(pk_destination p, h) \<in> set (stream_handlers cfg)" by (rule map_of_SomeD)
  from d Some obtain w ci1 reg sent r where
    h: "h now (pk_signature p) (srv_world st) ci d (client_registry st) = Some (w, ci1, reg, sent, r)"
    by (auto simp: dispatch_payload_def bind_eq_Some_conv)
  let ?st = "st\<lparr>srv_world := w, client_registry := reg\<rparr>"
  have st': "\<exists>n. st' = put_client (pk_signature p) (ci1\<lparr>server_sequence_id := n\<rparr>) ?st"
  proof (cases r)
    case (Inl e)
    with d Some h have "st' = put_client (pk_signature p)
        (ci1\<lparr>server_sequence_id := server_sequence_id ci1\<rparr>) ?st"
      by (simp add: dispatch_payload_def)
    then show ?thesis by blast
  next
    case (Inr resp)
    with d Some h obtain ds ci2 where
      "send_chunks cfg client p (numbered_chunks resp) ci1 = Some (ds, ci2)"
      and "st' = put_client (pk_signature p) ci2 ?st"
      by (auto simp: dispatch_payload_def bind_eq_Some_conv)
    then show ?thesis using send_chunks_sent by blast
  qed
  have "table_ok (clients (client_registry st))" using inv by (simp add: server_inv_def)
  with sane mem h ci have "client_ok (pk_signature p) ci1 \<and> table_ok (clients reg)"
    unfolding handlers_sane_def by blast
  with st' inv show ?thesis
    by (auto simp: client_ok_sequence intro!: server_inv_put server_inv_world)
qed

lemma handle_data_inv:
  assumes sane: "handlers_sane cfg" and inv: "server_inv st"
    and d: "handle_data cfg now p client st = Some (st', out)"
  shows "server_inv st'"
proof (cases "map_of (clients (client_registry st)) (pk_signature p)")
  case None
  with d inv show ?thesis by (simp add: handle_data_def)
next
  case (Some ci)
  then have ok: "client_ok (pk_signature p) (seen now ci)"
    using inv by (auto simp: server_inv_def intro: client_ok_seen table_ok_lookup)
  from d Some obtain ack where d': "(case pk_fragment_id p of
          None \<Rightarrow> dispatch_payload cfg now p client ack st (seen now ci) (pk_payload p)
        | Some fid \<Rightarrow>
            if fid \<noteq> 0 then
              (case cache_fragment now (seen now ci) fid (pk_sequence p) (pk_payload p) of
                 (Inr _, ci) \<Rightarrow> Some (put_client (pk_signature p) ci st, [ack])
               | (Inl _, ci) \<Rightarrow> Some (put_client (pk_signature p) (reset_fragment_state ci) st, [ack]))
            else
              (case finish_fragmented_payload now (seen now ci) (pk_sequence p) (pk_payload p) of
                 (Inr payload, ci) \<Rightarrow> dispatch_payload cfg now p client ack st ci payload
               | (Inl _, ci) \<Rightarrow> Some (put_client (pk_signature p) (reset_fragment_state ci) st, [ack])))
      = Some (st', out)"
    by (auto simp: handle_data_def Let_def bind_eq_Some_conv)
  show ?thesis
  proof (cases "pk_fragment_id p")
    case None
    with d' show ?thesis by (auto intro: dispatch_inv [OF sane inv ok])
  next
    case (Some fid)
    obtain r c1 where c: "cache_fragment now (seen now ci) fid (pk_sequence p) (pk_payload p) = (r, c1)"
      by (cases "cache_fragment now (seen now ci) fid (pk_sequence p) (pk_payload p)")
    obtain r' c2 where f: "finish_fragmented_payload now (seen now ci) (pk_sequence p) (pk_payload p) = (r', c2)"
      by (cases "finish_fragmented_payload now (seen now ci) (pk_sequence p) (pk_payload p)")
    have ok1: "client_ok (pk_signature p) c1" and ok2: "client_ok (pk_signature p) c2"
      using client_ok_fragments(1) [OF ok c] client_ok_fragments(2) [OF ok f] by blast+
    show ?thesis
      using d' Some c f inv ok1 ok2 dispatch_inv [OF sane inv ok2]
      by (auto simp: server_inv_put client_ok_reset split: if_splits sum.splits)
  qed
qed


lemma handle_syn_inv:
  assumes inv: "server_inv st" and s: "handle_syn cfg now p client st = Some (st', out)"
  shows "server_inv st'"
proof -
  let ?sig = "rng cfg (rng_count st)"
  let ?ci = "client_info_new now ?sig (default_additional cfg) client"
  have ok: "client_ok ?sig ?ci"
    using fragments_inv_new [of now ?sig "default_additional cfg" client]
    by (simp add: client_ok_def client_info_new_def)
  have st': "st' = st\<lparr>rng_count := rng_count st + 1, new_clients := AList.update ?sig ?ci (new_clients st)\<rparr>"
    using s by (auto simp: handle_syn_def Let_def bind_eq_Some_conv)
  have "user_id c = None \<and> connection_id c = None"
    if "(k, c) \<in> set (AList.update ?sig ?ci (new_clients st))" for k c
  proof -
    have d: "distinct (map fst (AList.update ?sig ?ci (new_clients st)))"
      using inv by (simp add: server_inv_def table_ok_def distinct_update)
    then have "map_of (AList.update ?sig ?ci (new_clients st)) k = Some c" using that by simp
    then have "c = ?ci \<or> (k, c) \<in> set (new_clients st)"
      by (auto simp: update_conv' dest: map_of_SomeD split: if_splits)
    with inv show ?thesis by (auto simp: server_inv_def client_info_new_def)
  qed
  with inv ok st' show ?thesis by (auto simp: server_inv_def intro: table_ok_update)
qed

lemma accept_ticket_ok:
  assumes "accept_ticket cfg unix_now p ci st = Some (res, ci', st')" and "client_ok sig ci"
  shows "client_ok sig ci'"
  using assms unfolding accept_ticket_def Let_def
  by (auto simp: client_ok_def fragments_inv_def
      split: sum.splits prod.splits option.splits if_splits)

lemma handle_connect_inv:
  assumes inv: "server_inv st" and c: "handle_connect cfg unix_now p client st = Some (st', out)"
  shows "server_inv st'"
  using c
proof (cases rule: handle_connect_cases)
  case 1
  with inv show ?thesis by simp
next
  case (2 csig ci res ci1 st1 ack)
  let ?ci = "admitted cfg p csig st ci"
  have ok: "client_ok (pk_signature p) ?ci"
    using inv 2(2) by (auto simp: server_inv_def intro: client_ok_admitted table_ok_lookup)
  have "server_inv (st\<lparr>rng_count := rng_count st + 1,
      new_clients := AList.delete (pk_signature p) (new_clients st)\<rparr>)"
    using inv by (auto simp: server_inv_def AList.delete_eq table_ok_filter)
  then have "server_inv (admit p ?ci st)" unfolding admit_def using ok by (rule server_inv_put)
  then have "server_inv st1"
    using authenticate_clients [OF 2(3)] by (simp add: server_inv_def)
  moreover have "client_ok (pk_signature p) ci1"
    using 2(3) ok by (auto simp: authenticate_def dest: accept_ticket_ok split: if_splits)
  ultimately show ?thesis unfolding 2(4) by (rule server_inv_put)
qed

lemma handle_other_inv:
  "server_inv st \<Longrightarrow> handle_disconnect cfg p client st = Some (st', out) \<Longrightarrow> server_inv st'"
  "server_inv st \<Longrightarrow> handle_ping cfg now p client st = Some (st', out) \<Longrightarrow> server_inv st'"
proof -
  show "server_inv st'" if "server_inv st" and "handle_disconnect cfg p client st = Some (st', out)"
    using that by (auto simp: handle_disconnect_def Let_def bind_eq_Some_conv server_inv_def
        table_ok_delete split: option.splits)
  show "server_inv st'" if "server_inv st" and "handle_ping cfg now p client st = Some (st', out)"
  proof (cases "map_of (clients (client_registry st)) (pk_signature p)")
    case None
    with that show ?thesis by (simp add: handle_ping_def)
  next
    case (Some ci)
    then have "client_ok (pk_signature p) (seen now ci)"
      using that(1) by (auto simp: server_inv_def intro: client_ok_seen table_ok_lookup)
    with that Some show ?thesis
      by (auto simp: handle_ping_def bind_eq_Some_conv intro: server_inv_put)
  qed
qed

lemma expire_client_tables:
  "clients (client_registry (expire_client cfg ci st)) = clients (client_registry st)"
  "new_clients (expire_client cfg ci st) = new_clients st"
  by (simp_all add: expire_client_def Let_def split: option.split)

lemma clear_clients_tables:
  "clients (client_registry (clear_clients cfg now st))
    = filter (\<lambda>e. \<not> expired now (snd e)) (clients (client_registry st))"
  "new_clients (clear_clients cfg now st) = new_clients st"
proof -
  have fold: "clients (client_registry (foldl (\<lambda>st e. expire_client cfg (snd e) st) s l))
      = clients (client_registry s)
    \<and> new_clients (foldl (\<lambda>st e. expire_client cfg (snd e) st) s l) = new_clients s"
    for l and s :: "('b, 'a) server"
    by (induction l arbitrary: s) (simp_all add: expire_client_tables)
  show "clients (client_registry (clear_clients cfg now st))
      = filter (\<lambda>e. \<not> expired now (snd e)) (clients (client_registry st))"
    and "new_clients (clear_clients cfg now st) = new_clients st"
    by (simp_all add: clear_clients_def Let_def fold)
qed

lemma server_step_inv:
  assumes "handlers_sane cfg" and "server_inv st" and "server_step cfg st st'"
  shows "server_inv st'"
  using assms(3)
proof (cases rule: server_step.cases)
  case (packet now unix_now p client out)
  then show ?thesis
    using assms(2) handle_data_inv [OF assms(1,2)] handle_syn_inv [OF assms(2)]
      handle_connect_inv [OF assms(2)] handle_other_inv [OF assms(2)]
    by (cases "pk_type p") (auto simp: handle_packet_def split: if_splits option.splits)
next
  case (tick now)
  then show ?thesis
    using assms(2) by (simp add: server_inv_def clear_clients_tables table_ok_filter)
qed

lemma server_reachable_inv: "server_reachable cfg st \<Longrightarrow> handlers_sane cfg \<Longrightarrow> server_inv st"
  by (induction rule: server_reachable.induct) (auto simp: server_inv_new intro: server_step_inv)


section \<open>A connect with a valid ticket\<close>

text \<open>What a client sends: the sealed ticket, and its connect data under the session key.\<close>

definition connect_payload :: "bytes \<Rightarrow> bytes \<Rightarrow> bytes" where
  "connect_payload ticket req = wr_vec le8 ticket @ wr_vec le8 req"

lemma read_connect_payload:
  assumes "length ticket \<le> MAX_COLLECTION_ITEMS" and "length req \<le> MAX_COLLECTION_ITEMS"
  shows "rd_pair (rd_vec rd_u8) (rd_vec rd_u8) (connect_payload ticket req) = Inr ((ticket, req), [])"
proof -
  have t: "rd_vec rd_u8 (wr_vec le8 ticket @ wr_vec le8 req) = Inr (ticket, wr_vec le8 req)"
    using assms(1) by (intro bytesc.dec_enc) (simp add: list_all_iff)
  have r: "rd_vec rd_u8 (wr_vec le8 req) = Inr (req, [])"
    using assms(2) by (intro bytesc.dec_enc_all) (simp add: list_all_iff)
  show ?thesis by (simp add: rd_pair_def connect_payload_def rbind_def rreturn_def t r)
qed

lemma read_connect_data_enc:
  "read_connect_data (le32 a @ le32 b @ le32 ch) = Inr ch"
  using rd_num_enc(3) [of ch "[]"] by (simp add: read_connect_data_def rbind_def)

lemma accept_valid_ticket:
  assumes "rd_pair (rd_vec rd_u8) (rd_vec rd_u8) (pk_payload p) = Inr ((ticket, req), r)"
    and "ticket_open (srv_crypto cfg) ticket (ticket_key (srv_ctx cfg)) = Inr ti"
    and "unix_now \<le> valid_until ti"
    and "crypt_key (ti_session_key ti) (le32 a @ le32 b @ le32 ch) = Some req"
  shows "accept_ticket cfg unix_now p ci st = Some (Inr (wr_vec le8 (le32 (ch + 1))),
    ci\<lparr>user_id := Some (principle_id ti), connection_id := Some (next_conn_id st)\<rparr>,
    st\<lparr>next_conn_id := next_conn_id st + 1,
       client_registry := (client_registry st)\<lparr>connection_id_session_ids := AList.update (next_conn_id st)
         (pk_signature p) (connection_id_session_ids (client_registry st))\<rparr>\<rparr>)"
  using assms crypt_key_involution [OF assms(4)] leD [OF assms(3)]
  by (simp add: accept_ticket_def Let_def read_connect_data_enc)

lemma wr_vec_nonempty [simp]: "wr_vec w xs \<noteq> []"
proof -
  have "length (wr_vec w xs) \<ge> 4" by (simp add: wr_vec_def)
  then show ?thesis by auto
qed

lemma connect_payload_nonempty [simp]: "connect_payload t r \<noteq> []"
  by (simp add: connect_payload_def)

lemma handle_connect_valid:
  assumes new: "map_of (new_clients st) (pk_signature p) = Some ci"
    and cs: "pk_conn_signature p = Some csig"
    and pay: "pk_payload p = connect_payload ticket req"
    and len: "length ticket \<le> MAX_COLLECTION_ITEMS" "length req \<le> MAX_COLLECTION_ITEMS"
    and tk: "ticket_open (srv_crypto cfg) ticket (ticket_key (srv_ctx cfg)) = Inr ti"
      "unix_now \<le> valid_until ti"
    and req: "crypt_key (ti_session_key ti) (le32 a @ le32 b @ le32 ch) = Some req"
    and run: "handle_connect cfg unix_now p client st = Some (st', out)"
  shows "\<exists>ci' ack. map_of (clients (client_registry st')) (pk_signature p) = Some ci'
    \<and> user_id ci' = Some (principle_id ti) \<and> connection_id ci' = Some (next_conn_id st)
    \<and> client_by_connection_id (client_registry st') (next_conn_id st) = Some ci'
    \<and> map_of (new_clients st') (pk_signature p) = None \<and> next_conn_id st' = next_conn_id st + 1
    \<and> out = [ack] \<and> send_ack cfg client (p\<lparr>pk_payload := wr_vec le8 (le32 (ch + 1)),
         pk_conn_signature := Some 0\<rparr>) ci' True = Some ack"
  using run
proof (cases rule: handle_connect_cases)
  case 1
  with run new cs pay show ?thesis
    by (auto simp: handle_connect_def Let_def bind_eq_Some_conv)
next
  case (2 csig' ci0 res ci1 st1 ack)
  have rd: "rd_pair (rd_vec rd_u8) (rd_vec rd_u8) (pk_payload p) = Inr ((ticket, req), [])"
    unfolding pay by (rule read_connect_payload [OF len])
  have ci0: "ci0 = ci" using 2(2) new by simp
  have "pk_payload p \<noteq> []" using pay by simp
  with 2(3) accept_valid_ticket [OF rd tk req]
  have res: "res = Inr (wr_vec le8 (le32 (ch + 1)))"
    and ci1: "ci1 = (admitted cfg p csig' st ci0)\<lparr>user_id := Some (principle_id ti),
        connection_id := Some (next_conn_id st)\<rparr>"
    and st1: "st1 = (admit p (admitted cfg p csig' st ci0) st)\<lparr>next_conn_id := next_conn_id st + 1,
       client_registry := (client_registry (admit p (admitted cfg p csig' st ci0) st))
        \<lparr>connection_id_session_ids := AList.update (next_conn_id st) (pk_signature p)
          (connection_id_session_ids (client_registry st))\<rparr>\<rparr>"
    by (auto simp: authenticate_def)
  have "map_of (clients (client_registry st')) (pk_signature p) = Some ci1" using 2(4) by simp
  moreover have "map_of (connection_id_session_ids (client_registry st')) (next_conn_id st)
      = Some (pk_signature p)"
    using 2(4) st1 by (simp add: update_conv')
  moreover have "map_of (new_clients st') (pk_signature p) = None"
    using 2(4) st1 by (simp add: put_client_def delete_conv')
  moreover have "next_conn_id st' = next_conn_id st + 1"
    using 2(4) st1 by (simp add: put_client_def)
  ultimately show ?thesis
    using 2(5,6) res ci1 by (simp add: client_by_connection_id_def)
qed

section \<open>Unknown clients, expiry and datagrams\<close>

lemma unknown_client:
  assumes "map_of (clients (client_registry st)) (pk_signature p) = None"
    and "map_of (new_clients st) (pk_signature p) = None"
    and "pk_type p \<in> {Connect, Data, Disconnect, Ping}"
  shows "handle_packet cfg now unix_now p client st = Some (st, [])"
  using assms by (auto simp: handle_packet_def handle_connect_def handle_data_def
      handle_disconnect_def handle_ping_def Let_def split: option.split)

lemma expire_fold:
  assumes "expired_client_handler cfg = Some h"
  shows "srv_world (foldl (\<lambda>st e. expire_client cfg (snd e) st) st gone)
      = foldl (\<lambda>w e. h (snd e) w) (srv_world st) gone"
    and "map_of (connection_id_session_ids (client_registry
        (foldl (\<lambda>st e. expire_client cfg (snd e) st) st gone))) cid
      = (if \<exists>e\<in>set gone. connection_id (snd e) = Some cid then None
         else map_of (connection_id_session_ids (client_registry st)) cid)"
proof -
  show "srv_world (foldl (\<lambda>st e. expire_client cfg (snd e) st) st gone)
      = foldl (\<lambda>w e. h (snd e) w) (srv_world st) gone"
    by (induction gone arbitrary: st) (simp_all add: expire_client_def Let_def assms)
  show "map_of (connection_id_session_ids (client_registry
        (foldl (\<lambda>st e. expire_client cfg (snd e) st) st gone))) cid
      = (if \<exists>e\<in>set gone. connection_id (snd e) = Some cid then None
         else map_of (connection_id_session_ids (client_registry st)) cid)"
    by (induction gone arbitrary: st)
      (auto simp: expire_client_def Let_def assms delete_conv' split: option.splits)
qed

lemma datagram_head:
  assumes ok: "zlib_ok (srv_zlib cfg)" "header_ok p" "payload_ok (srv_zlib cfg) p"
      "size_ok (srv_ctx cfg) (srv_zlib cfg) p" "has_flag (pk_flags p) flag_HasSize"
    and bs: "packet_to_bytes (srv_ctx cfg) (srv_zlib cfg) p = Some bs"
  shows "handle_datagram cfg now unix_now client (bs @ rest) st =
    Option.bind (handle_packet cfg now unix_now (p\<lparr>pk_checksum := last bs\<rparr>) client st) (\<lambda>(st, out).
    Option.bind (handle_datagram cfg now unix_now client rest st) (\<lambda>(st, out').
    Some (st, out @ out')))"
proof -
  have "has_flag (pk_flags p) flag_HasSize \<or> rest = []" using ok(5) by simp
  from packet_parse_to_bytes [OF ok(1-4) this bs]
  have p: "packet_from_reader (srv_ctx cfg) (srv_zlib cfg) (bs @ rest) = Value (p\<lparr>pk_checksum := last bs\<rparr>, rest)"
    and v: "packet_validate (srv_ctx cfg) (p\<lparr>pk_checksum := last bs\<rparr>) bs = Value ()"
    by (auto simp: packet_parse_def obind_eq_Value_conv)
  have n: "packet_from_bytes (srv_ctx cfg) (srv_zlib cfg) (bs @ rest)
      = Value (p\<lparr>pk_checksum := last bs\<rparr>, length bs)"
    by (simp add: packet_from_bytes_def p)
  then have "bs \<noteq> []" using packet_from_bytes_size by fastforce
  with n v show ?thesis by (subst handle_datagram.simps) simp
qed


section \<open>Properties\<close>

text \<open>A configuration without handlers, and a server with one client between Syn and Connect.\<close>

definition sample_config :: "(unit, unit) server_config" where
  "sample_config = \<lparr>srv_ctx = splinter_cell_blacklist [], srv_zlib = stored_zlib,
     srv_crypto = sample_crypto, stream_handlers = [], user_handler = None,
     expired_client_handler = Some (\<lambda>_ w. w), disconnect_handler = Some (\<lambda>_ w. w),
     default_additional = (), rng = (\<lambda>n. of_nat n + 7)\<rparr>"

definition sample_addr :: socket_addr where "sample_addr = (''10.0.0.1'', 3074)"

definition sample_server :: "(unit, unit) server" where
  "sample_server = (server_new ())\<lparr>new_clients := [(7, client_info_new 0 7 () sample_addr)]\<rparr>"

lemma sample_config_ok: "config_ok sample_config" "handlers_total sample_config" "handlers_sane sample_config"
  using stored_zlib_ok sample_context_key
  by (simp_all add: config_ok_def handlers_total_def handlers_sane_def sample_config_def)

definition sample_packet :: "packet_type \<Rightarrow> bytes \<Rightarrow> qpacket" where
  "sample_packet pt payload = qpacket_default\<lparr>pk_source := \<lparr>vp_port = 15, vp_stream_type = RVSec\<rparr>,
     pk_destination := \<lparr>vp_port = 1, vp_stream_type = RVSec\<rparr>, pk_type := pt, pk_flags := 14,
     pk_signature := 7, pk_fragment_id := (if pt = Data then Some 0 else None),
     pk_conn_signature := (if pt = Syn \<or> pt = Connect then Some 5 else None), pk_payload := payload\<rparr>"

lemma sample_packet_ok: "header_ok (sample_packet pt d)"
  by (simp add: header_ok_def sample_packet_def qpacket_default_def)



text \<open>C39 (handle_packet_panics_iff). With a usable key and handlers that do not panic, a parsed
  packet brings the server down exactly when it is not an acknowledgement and is a \<open>Route\<close> or
  \<open>Raw\<close> packet, the two \<open>todo!\<close> branches, or a \<open>User\<close> packet the user handler panics on.\<close>

theorem handle_packet_panics_iff:
  assumes "config_ok cfg" and "handlers_total cfg" and "header_ok p"
  shows "handle_packet cfg now unix_now p client st = None \<longleftrightarrow>
    \<not> has_flag (pk_flags p) flag_Ack \<and> (pk_type p = Route \<or> pk_type p = Raw
      \<or> (pk_type p = User \<and> (\<exists>h. user_handler cfg = Some h \<and> h p client = None)))"
  using assms by (rule handle_packet_None)

theorem handle_packet_panics_iff_witness:
  "handle_packet sample_config 0 0 (sample_packet Route []) sample_addr sample_server = None
    \<and> handle_packet sample_config 0 0 (sample_packet Ping []) sample_addr sample_server \<noteq> None"
  unfolding handle_packet_panics_iff [OF sample_config_ok(1,2) sample_packet_ok]
  by (simp add: sample_packet_def has_flag_def flag_Ack_def)

text \<open>C34 (connect_needs_ticket). After a Connect the only entry of the registry that is new or
  changed is the connecting client's, and it has an identity it did not have before only if
  the payload carried a ticket that opens under the server's key, is not expired and names
  that principal.\<close>

theorem connect_needs_ticket:
  assumes "handle_connect cfg unix_now p client st = Some (st', out)"
    and "map_of (clients (client_registry st')) sig = Some ci'"
    and "map_of (clients (client_registry st)) sig \<noteq> Some ci'"
  shows "sig = pk_signature p \<and> (\<exists>ci. map_of (new_clients st) sig = Some ci
    \<and> (user_id ci' = user_id ci \<and> connection_id ci' = connection_id ci
       \<or> (\<exists>u. user_id ci' = Some u \<and> connection_id ci' = Some (next_conn_id st)
            \<and> valid_ticket cfg unix_now (pk_payload p) u)))"
  using assms by (rule handle_connect_identity)

theorem connect_needs_ticket_witness:
  "\<exists>st' out ci'. handle_connect sample_config 0 (sample_packet Connect [1, 2]) sample_addr sample_server
      = Some (st', out)
    \<and> map_of (clients (client_registry st')) 7 = Some ci'
    \<and> (user_id ci' = None \<or> (\<exists>u. valid_ticket sample_config 0 [1, 2] u))"
proof -
  let ?p = "sample_packet Connect [1, 2]"
  have "handle_connect sample_config 0 ?p sample_addr sample_server \<noteq> None"
    by (rule handle_connect_total [OF sample_config_ok(1) sample_packet_ok]) (simp add: sample_packet_def)
  then obtain st' out where run: "handle_connect sample_config 0 ?p sample_addr sample_server = Some (st', out)"
    by auto
  have sg: "pk_signature ?p = 7" "pk_conn_signature ?p = Some 5" "pk_payload ?p = [1, 2]"
    by (simp_all add: sample_packet_def)
  have st: "map_of (new_clients sample_server) 7 = Some (client_info_new 0 7 () sample_addr)"
    "map_of (clients (client_registry sample_server)) 7 = None"
    by (simp_all add: sample_server_def server_new_def)
  from run obtain ci' where ci': "map_of (clients (client_registry st')) 7 = Some ci'"
    using handle_connect_registers [OF _ sg(2) run] st(1) unfolding sg(1) by blast
  have "map_of (clients (client_registry sample_server)) 7 \<noteq> Some ci'" using st by simp
  from connect_needs_ticket [OF run ci' this] run ci' st(1) show ?thesis
    by (auto simp: sg client_info_new_def)
qed

text \<open>C35 (connect_with_ticket). A client between Syn and Connect that presents a valid ticket and
  its connect data under the session key is registered with the ticket's principal and the
  next connection id, is found by that id, leaves the waiting clients, and is answered with
  its challenge plus one.\<close>

theorem connect_with_ticket:
  assumes "map_of (new_clients st) (pk_signature p) = Some ci"
    and "pk_conn_signature p = Some csig"
    and "pk_payload p = connect_payload ticket req"
    and "length ticket \<le> MAX_COLLECTION_ITEMS" and "length req \<le> MAX_COLLECTION_ITEMS"
    and "ticket_open (srv_crypto cfg) ticket (ticket_key (srv_ctx cfg)) = Inr ti"
    and "unix_now \<le> valid_until ti"
    and "crypt_key (ti_session_key ti) (le32 a @ le32 b @ le32 ch) = Some req"
    and "handle_connect cfg unix_now p client st = Some (st', out)"
  shows "\<exists>ci' ack. map_of (clients (client_registry st')) (pk_signature p) = Some ci'
    \<and> user_id ci' = Some (principle_id ti) \<and> connection_id ci' = Some (next_conn_id st)
    \<and> client_by_connection_id (client_registry st') (next_conn_id st) = Some ci'
    \<and> map_of (new_clients st') (pk_signature p) = None \<and> next_conn_id st' = next_conn_id st + 1
    \<and> out = [ack] \<and> send_ack cfg client (p\<lparr>pk_payload := wr_vec le8 (le32 (ch + 1)),
         pk_conn_signature := Some 0\<rparr>) ci' True = Some ack"
  using assms by (rule handle_connect_valid)

definition sample_ticket :: ticket_internal where
  "sample_ticket = \<lparr>principle_id = 1000, valid_until = - 1, ti_session_key = replicate 16 9\<rparr>"

lemma sample_ticket_open:
  "ticket_open sample_crypto (ticket_seal sample_crypto (replicate 24 3) sample_ticket []) [] = Inr sample_ticket"
  by (rule ticket_open_seal [OF sample_crypto_ok])
    (simp_all add: NONCEBYTES_def ticket_internal_ok_def sample_ticket_def SESSION_KEY_SIZE_def)

lemma sample_ticket_length:
  "length (ticket_seal sample_crypto (replicate 24 3) sample_ticket []) \<le> MAX_COLLECTION_ITEMS"
  by (simp add: ticket_seal_def sample_crypto_def sample_ticket_def wr_ticket_internal_def
      MAX_COLLECTION_ITEMS_def)

theorem connect_with_ticket_witness:
  "\<exists>p st' out ci'. handle_connect sample_config 1700000000 p sample_addr sample_server = Some (st', out)
     \<and> map_of (clients (client_registry st')) 7 = Some ci' \<and> user_id ci' = Some 1000
     \<and> client_by_connection_id (client_registry st') 0x3AAAAAAA = Some ci'"
proof -
  obtain req where req: "crypt_key (ti_session_key sample_ticket) (le32 1 @ le32 2 @ le32 3) = Some req"
    using crypt_key_total [of "ti_session_key sample_ticket" "le32 1 @ le32 2 @ le32 3"]
    by (auto simp: sample_ticket_def)
  have len: "length req \<le> MAX_COLLECTION_ITEMS"
    using crypt_key_length [OF req] by (simp add: MAX_COLLECTION_ITEMS_def)
  let ?t = "ticket_seal sample_crypto (replicate 24 3) sample_ticket []"
  let ?p = "sample_packet Connect (connect_payload ?t req)"
  have "handle_connect sample_config 1700000000 ?p sample_addr sample_server \<noteq> None"
    by (rule handle_connect_total [OF sample_config_ok(1) sample_packet_ok]) (simp add: sample_packet_def)
  then obtain st' out where run:
    "handle_connect sample_config 1700000000 ?p sample_addr sample_server = Some (st', out)" by auto
  have p: "pk_signature ?p = 7" "pk_conn_signature ?p = Some 5" "pk_payload ?p = connect_payload ?t req"
    by (simp_all add: sample_packet_def)
  have st: "map_of (new_clients sample_server) (pk_signature ?p) = Some (client_info_new 0 7 () sample_addr)"
    "next_conn_id sample_server = 0x3AAAAAAA"
    by (simp_all add: sample_server_def server_new_def p)
  have tk: "ticket_open (srv_crypto sample_config) ?t (ticket_key (srv_ctx sample_config)) = Inr sample_ticket"
    using sample_ticket_open by (simp add: sample_config_def splinter_cell_blacklist_def)
  have "1700000000 \<le> valid_until sample_ticket" by (simp add: sample_ticket_def)
  from connect_with_ticket [OF st(1) p(2,3) sample_ticket_length len tk this req run] run
  show ?thesis unfolding p st(2) by (auto simp: sample_ticket_def)
qed



text \<open>A Connect, Data, Disconnect or Ping packet whose signature
  names no client changes nothing and is not answered.\<close>

lemma unknown_signature_ignored:
  assumes "map_of (clients (client_registry st)) (pk_signature p) = None"
    and "map_of (new_clients st) (pk_signature p) = None"
    and "pk_type p \<in> {Connect, Data, Disconnect, Ping}"
  shows "handle_packet cfg now unix_now p client st = Some (st, [])"
  using assms by (rule unknown_client)

lemma unknown_signature_ignored_witness:
  "handle_packet sample_config 0 0 (sample_packet Data [1]) sample_addr (server_new ()) = Some (server_new (), [])"
  by (rule unknown_signature_ignored) (simp_all add: server_new_def sample_packet_def)

text \<open>The periodic cleanup keeps exactly the clients seen in the last
  minute; with an expiry handler, the handler gets each removed client once, in order, and
  the connection ids of the removed clients, and no others, are forgotten.\<close>

lemma expiry_complete:
  assumes "expired_client_handler cfg = Some h"
  shows "let gone = filter (\<lambda>e. expired now (snd e)) (clients (client_registry st));
             st' = clear_clients cfg now st
    in clients (client_registry st') = filter (\<lambda>e. \<not> expired now (snd e)) (clients (client_registry st))
     \<and> srv_world st' = foldl (\<lambda>w e. h (snd e) w) (srv_world st) gone
     \<and> map_of (connection_id_session_ids (client_registry st')) cid
        = (if \<exists>e\<in>set gone. connection_id (snd e) = Some cid then None
           else map_of (connection_id_session_ids (client_registry st)) cid)"
  by (simp add: Let_def clear_clients_tables)
    (auto simp: clear_clients_def Let_def expire_fold [OF assms])

lemma expiry_complete_witness:
  "let st = put_client 7 (client_info_new 0 7 () sample_addr) (server_new ());
       st' = clear_clients sample_config (seconds 61) st
   in clients (client_registry st') = []"
  using expiry_complete [of sample_config "\<lambda>_ w. w" "seconds 61"
      "put_client 7 (client_info_new 0 7 () sample_addr) (server_new ())"]
  by (simp add: sample_config_def Let_def put_client_def server_new_def expired_def
      client_info_new_def SESSION_TIMEOUT_def seconds_def)

text \<open>A datagram that starts with a serialised packet is handled by
  handling that packet and then the rest of the datagram.\<close>

lemma datagram_in_order:
  assumes "zlib_ok (srv_zlib cfg)" and "header_ok p" and "payload_ok (srv_zlib cfg) p"
    and "size_ok (srv_ctx cfg) (srv_zlib cfg) p" and "has_flag (pk_flags p) flag_HasSize"
    and "packet_to_bytes (srv_ctx cfg) (srv_zlib cfg) p = Some bs"
  shows "handle_datagram cfg now unix_now client (bs @ rest) st =
    Option.bind (handle_packet cfg now unix_now (p\<lparr>pk_checksum := last bs\<rparr>) client st) (\<lambda>(st, out).
    Option.bind (handle_datagram cfg now unix_now client rest st) (\<lambda>(st, out').
    Some (st, out @ out')))"
  using assms by (rule datagram_head)

lemma datagram_in_order_witness:
  "\<exists>bs. packet_to_bytes (srv_ctx sample_config) (srv_zlib sample_config) sample_data_packet = Some bs
    \<and> handle_datagram sample_config 0 0 sample_addr (bs @ bs) (server_new ())
      = Option.bind (handle_packet sample_config 0 0 (sample_data_packet\<lparr>pk_checksum := last bs\<rparr>)
          sample_addr (server_new ())) (\<lambda>(st, out).
        Option.bind (handle_datagram sample_config 0 0 sample_addr bs st) (\<lambda>(st, out').
        Some (st, out @ out')))"
proof -
  have c: "srv_ctx sample_config = splinter_cell_blacklist []" "srv_zlib sample_config = stored_zlib"
    by (simp_all add: sample_config_def)
  obtain bs where bs: "packet_to_bytes (srv_ctx sample_config) (srv_zlib sample_config) sample_data_packet
      = Some bs"
    using packet_to_bytes_defined [OF stored_zlib_ok sample_headers(1) sample_context_key]
    unfolding c by blast
  have "zlib_ok (srv_zlib sample_config)" "payload_ok (srv_zlib sample_config) sample_data_packet"
    "size_ok (srv_ctx sample_config) (srv_zlib sample_config) sample_data_packet"
    unfolding c by (rule stored_zlib_ok sample_headers(2) sample_size)+
  from datagram_in_order [OF this(1) sample_headers(1) this(2,3) sample_headers(3) bs] bs
  show ?thesis by blast
qed

end
