(* ===== verification/Rmc_Dispatch.thy ===== *)
theory Rmc_Dispatch
  imports Rmc Rmc_Types Prudp_Server
begin

text \<open>
  The dispatch of remote method calls: \<open>RVSecHandler\<close> of \<open>server/quazal/src/rmc.rs\<close>, the
  handlers of the dedicated server that need no storage (\<open>secure.rs\<close>, \<open>nat_traversal.rs\<close>,
  \<open>handle_user_packet\<close> and \<open>login_required\<close> of \<open>main.rs\<close>), and the shape the generated
  protocol servers give every method: decode the parameters, call the implementation, encode
  its answer.
\<close>

section \<open>Protocols\<close>

type_synonym ('w, 'a) rmc_handler =
  "instant \<Rightarrow> u32 \<Rightarrow> 'w \<Rightarrow> 'a client_info \<Rightarrow> request \<Rightarrow> 'a client_registry
    \<Rightarrow> ('w \<times> 'a client_info \<times> 'a client_registry \<times> datagram list \<times> (rmc_error + bytes)) option"

type_synonym ('w, 'a) rmc_registry = "(u16 \<times> ('w, 'a) rmc_handler) list"

definition register_protocol ::
    "u16 \<Rightarrow> ('w, 'a) rmc_handler \<Rightarrow> ('w, 'a) rmc_registry \<Rightarrow> ('w, 'a) rmc_registry" where
  "register_protocol pid h reg = AList.update pid h reg"

definition call_protocol :: "('w, 'a) rmc_registry \<Rightarrow> ('w, 'a) rmc_handler" where
  "call_protocol protocols now sig w ci r reg =
    (case map_of protocols (req_protocol_id r) of
       None \<Rightarrow> Some (w, ci, reg, [], Inl UnknownProtocol)
     | Some h \<Rightarrow> h now sig w ci r reg)"

definition response_for :: "request \<Rightarrow> rmc_error + bytes \<Rightarrow> response" where
  "response_for r res = \<lparr>rsp_protocol_id = req_protocol_id r,
     rsp_result = (case res of
        Inl e \<Rightarrow> Inl \<lparr>err_code = to_error_code e, err_call_id = req_call_id r\<rparr>
      | Inr d \<Rightarrow> Inr \<lparr>rsp_call_id = req_call_id r, rsp_method_id = req_method_id r, rsp_data = d\<rparr>)\<rparr>"

definition rvsec_handle :: "('w, 'a) rmc_registry \<Rightarrow> ('w, 'a) stream_handler" where
  "rvsec_handle protocols now sig w ci data reg =
    (case rmc_packet_from_bytes data of
       Inl _ \<Rightarrow> Some (w, ci, reg, [], Inl StreamHandler)
     | Inr (PResponse _) \<Rightarrow> Some (w, ci, reg, [], Inl Unimplemented)
     | Inr (PRequest r) \<Rightarrow>
        Option.bind (call_protocol protocols now sig w ci r reg) (\<lambda>(w, ci, reg, sent, res).
        Some (w, ci, reg, sent, Inr (response_to_bytes (response_for r res)))))"

text \<open>A protocol server: its methods by id, each with its parameter reader.\<close>

definition protocol_handle :: "(u32 \<times> ('w, 'a) rmc_handler) list \<Rightarrow> ('w, 'a) rmc_handler" where
  "protocol_handle methods now sig w ci r reg =
    (case map_of methods (req_method_id r) of
       None \<Rightarrow> Some (w, ci, reg, [], Inl UnknownMethod)
     | Some h \<Rightarrow> h now sig w ci r reg)"

definition rmc_method ::
    "'q reader \<Rightarrow> ('p \<Rightarrow> bytes)
      \<Rightarrow> (instant \<Rightarrow> u32 \<Rightarrow> 'w \<Rightarrow> 'a client_info \<Rightarrow> 'q \<Rightarrow> 'a client_registry
          \<Rightarrow> ('w \<times> 'a client_info \<times> 'a client_registry \<times> datagram list \<times> (rmc_error + 'p)) option)
      \<Rightarrow> ('w, 'a) rmc_handler" where
  "rmc_method dec enc f now sig w ci r reg =
    (case dec (req_parameters r) of
       Inl e \<Rightarrow> Some (w, ci, reg, [], Inl (FromStream e))
     | Inr (q, _) \<Rightarrow>
        Option.bind (f now sig w ci q reg) (\<lambda>(w, ci, reg, sent, res).
        Some (w, ci, reg, sent, (case res of Inl e \<Rightarrow> Inl e | Inr p \<Rightarrow> Inr (enc p)))))"

text \<open>A method that only looks at the client and its parameters.\<close>

definition simple_method ::
    "('a client_info \<Rightarrow> 'q \<Rightarrow> rmc_error + 'p)
      \<Rightarrow> instant \<Rightarrow> u32 \<Rightarrow> 'w \<Rightarrow> 'a client_info \<Rightarrow> 'q \<Rightarrow> 'a client_registry
      \<Rightarrow> ('w \<times> 'a client_info \<times> 'a client_registry \<times> datagram list \<times> (rmc_error + 'p)) option" where
  "simple_method f now sig w ci q reg = Some (w, ci, reg, [], f ci q)"

definition login_required :: "'a client_info \<Rightarrow> rmc_error + u32" where
  "login_required ci = (case user_id ci of None \<Rightarrow> Inl AccessDenied | Some u \<Rightarrow> Inr u)"

section \<open>The secure connection protocol\<close>

text \<open>\<open>Register\<close> and \<open>RegisterEx\<close>; \<open>None\<close> is the panic of \<open>connection_id.unwrap()\<close>.\<close>

record register_response =
  rr_return_value :: qresult
  rr_pid_connection_id :: u32
  rr_url_public :: station_url

definition public_url_text :: "socket_addr \<Rightarrow> nat \<Rightarrow> nat \<Rightarrow> string" where
  "public_url_text addr sid ty = ''prudp:/address='' @ fst addr @ '';port='' @ show_nat (unat (snd addr))
     @ '';sid='' @ show_nat sid @ '';type='' @ show_nat ty"

definition register_client ::
    "nat \<Rightarrow> nat \<Rightarrow> 'a client_info \<Rightarrow> (rmc_error + register_response) option" where
  "register_client sid ty ci =
    (case login_required ci of
       Inl e \<Rightarrow> Some (Inl e)
     | Inr _ \<Rightarrow>
        (case connection_id ci of
           None \<Rightarrow> None
         | Some cid \<Rightarrow>
            (case parse_station_url (public_url_text (ci_address ci) sid ty) of
               Inl _ \<Rightarrow> Some (Inl InternalError)
             | Inr u \<Rightarrow> Some (Inr \<lparr>rr_return_value = QOk, rr_pid_connection_id = cid,
                                     rr_url_public = u\<rparr>))))"

definition secure_register :: "'a client_info \<Rightarrow> (rmc_error + register_response) option" where
  "secure_register ci = register_client 14 2 ci"

definition secure_register_ex :: "'a client_info \<Rightarrow> (rmc_error + register_response) option" where
  "secure_register_ex ci = register_client 15 3 ci"

section \<open>NAT traversal\<close>

definition NAT_TRAVERSAL_PROTOCOL_ID :: u16 where "NAT_TRAVERSAL_PROTOCOL_ID = 3"
definition INITIATE_PROBE :: u32 where "INITIATE_PROBE = 2"

text \<open>
  One probe: \<open>url\<close> names the target by its \<open>RVCID\<close> parameter. Borrowing the target fails when
  it is the calling client, whose entry \<open>handle_data\<close> holds. \<open>call_id\<close> is random, \<open>probe\<close>
  the encoded URL of the station to probe.
\<close>

definition probe_packet :: "u32 \<Rightarrow> bytes \<Rightarrow> qpacket" where
  "probe_packet call_id probe = qpacket_default\<lparr>
     pk_source := \<lparr>vp_port = 1, vp_stream_type = RVSec\<rparr>,
     pk_destination := \<lparr>vp_port = 15, vp_stream_type = RVSec\<rparr>,
     pk_type := Data,
     pk_payload := request_to_bytes \<lparr>req_protocol_id = NAT_TRAVERSAL_PROTOCOL_ID,
        req_call_id = call_id, req_method_id = INITIATE_PROBE, req_parameters = probe\<rparr>\<rparr>"

definition probe_target :: "'a client_registry \<Rightarrow> station_url \<Rightarrow> (u32 \<times> 'a client_info) option" where
  "probe_target reg url =
    Option.bind (params url ''RVCID'') (\<lambda>s.
    Option.bind (parse_uint (2 ^ 32) s) (\<lambda>cid.
    Option.bind (map_of (connection_id_session_ids reg) (of_nat cid)) (\<lambda>sig.
    Option.bind (map_of (clients reg) sig) (\<lambda>ci. Some (sig, ci)))))"

fun initiate_probes ::
    "quazal_context \<Rightarrow> zlib \<Rightarrow> u32 \<Rightarrow> bytes \<Rightarrow> (nat \<Rightarrow> u32) \<Rightarrow> station_url list \<Rightarrow> 'a client_registry
      \<Rightarrow> ('a client_registry \<times> datagram list) option" where
  "initiate_probes ctx z self probe call_ids [] reg = Some (reg, [])"
| "initiate_probes ctx z self probe call_ids (url # urls) reg =
    (case probe_target reg url of
       None \<Rightarrow> initiate_probes ctx z self probe call_ids urls reg
     | Some (sig, target) \<Rightarrow>
        if sig = self then None
        else
          Option.bind (send_request ctx z (ci_address target)
            (probe_packet (call_ids (length urls)) probe) target) (\<lambda>(d, target).
          Option.bind (initiate_probes ctx z self probe call_ids urls
            (reg\<lparr>clients := AList.update sig target (clients reg)\<rparr>)) (\<lambda>(reg, ds).
          Some (reg, d # ds))))"

definition request_probe_initiation_ext ::
    "quazal_context \<Rightarrow> zlib \<Rightarrow> (nat \<Rightarrow> u32) \<Rightarrow> instant \<Rightarrow> u32 \<Rightarrow> 'w \<Rightarrow> 'a client_info
      \<Rightarrow> station_url list \<times> bytes \<Rightarrow> 'a client_registry
      \<Rightarrow> ('w \<times> 'a client_info \<times> 'a client_registry \<times> datagram list \<times> (rmc_error + unit)) option" where
  "request_probe_initiation_ext ctx z call_ids now self w ci q reg =
    (case login_required ci of
       Inl e \<Rightarrow> Some (w, ci, reg, [], Inl e)
     | Inr _ \<Rightarrow>
        Option.bind (initiate_probes ctx z self (snd q) call_ids (fst q) reg) (\<lambda>(reg, ds).
        Some (w, ci, reg, ds, Inr ())))"

section \<open>User packets\<close>

text \<open>\<open>handle_user_packet\<close>: the two assertions on the ports panic.\<close>

definition handle_user_packet :: "qpacket \<Rightarrow> socket_addr \<Rightarrow> datagram list option" where
  "handle_user_packet p client =
    (if vp_port (pk_source p) \<noteq> 1 \<or> vp_port (pk_destination p) \<noteq> 1 then None
     else Some [(client, pk_payload p @ str_bytes (''udp:/address='' @ fst client @ '';port=''
            @ show_nat (unat (snd client))) @ [0])])"


section \<open>Dispatch\<close>

lemma rvsec_handle_request:
  assumes "request_ok r"
  shows "rvsec_handle protocols now sig w ci (request_to_bytes r) reg =
    map_option (\<lambda>(w, ci, reg, sent, res). (w, ci, reg, sent, Inr (response_to_bytes (response_for r res))))
      (call_protocol protocols now sig w ci r reg)"
  by (cases "call_protocol protocols now sig w ci r reg")
    (auto simp: rvsec_handle_def rmc_packet_request [OF assms])

definition protocols_total :: "('w, 'a) rmc_registry \<Rightarrow> bool" where
  "protocols_total protocols \<longleftrightarrow>
     (\<forall>(pid, h)\<in>set protocols. \<forall>now sig w ci r reg. h now sig w ci r reg \<noteq> None)"

definition protocols_sane :: "('w, 'a) rmc_registry \<Rightarrow> bool" where
  "protocols_sane protocols \<longleftrightarrow>
     (\<forall>(pid, h)\<in>set protocols. \<forall>now sig w ci r reg w' ci' reg' sent res.
        h now sig w ci r reg = Some (w', ci', reg', sent, res) \<longrightarrow> client_ok sig ci
          \<longrightarrow> table_ok (clients reg) \<longrightarrow> client_ok sig ci' \<and> table_ok (clients reg'))"

lemma call_protocol_total:
  "protocols_total protocols \<Longrightarrow> call_protocol protocols now sig w ci r reg \<noteq> None"
proof (cases "map_of protocols (req_protocol_id r)")
  case None
  then show ?thesis by (simp add: call_protocol_def)
next
  case (Some h)
  assume "protocols_total protocols"
  moreover have "(req_protocol_id r, h) \<in> set protocols" using Some by (rule map_of_SomeD)
  ultimately have "h now sig w ci r reg \<noteq> None" unfolding protocols_total_def by fast
  with Some show ?thesis by (simp add: call_protocol_def)
qed

lemma rvsec_handle_total:
  "protocols_total protocols \<Longrightarrow> rvsec_handle protocols now sig w ci data reg \<noteq> None"
  using call_protocol_total [of protocols now sig w ci _ reg]
  by (auto simp: rvsec_handle_def bind_eq_None_conv simp del: not_None_eq
      split: sum.splits rmc_packet.splits prod.splits)

lemma call_protocol_sane:
  assumes "protocols_sane protocols" and "client_ok sig ci" and "table_ok (clients reg)"
    and "call_protocol protocols now sig w ci r reg = Some (w', ci', reg', sent, res)"
  shows "client_ok sig ci' \<and> table_ok (clients reg')"
proof (cases "map_of protocols (req_protocol_id r)")
  case None
  with assms show ?thesis by (simp add: call_protocol_def)
next
  case (Some h)
  then have "(req_protocol_id r, h) \<in> set protocols" by (rule map_of_SomeD)
  with assms Some show ?thesis unfolding protocols_sane_def call_protocol_def by fastforce
qed

lemma rvsec_handle_sane:
  assumes "protocols_sane protocols" and "client_ok sig ci" and "table_ok (clients reg)"
    and "rvsec_handle protocols now sig w ci data reg = Some (w', ci', reg', sent, res)"
  shows "client_ok sig ci' \<and> table_ok (clients reg')"
  using assms(4) call_protocol_sane [OF assms(1-3)] assms(2,3)
  by (fastforce simp: rvsec_handle_def bind_eq_Some_conv split: sum.splits rmc_packet.splits)

text \<open>A server whose only stream handler is \<open>RVSecHandler\<close>, as \<open>start_server\<close> builds it.\<close>

definition rvsec_config :: "('w, 'a) rmc_registry \<Rightarrow> ('w, 'a) server_config \<Rightarrow> ('w, 'a) server_config" where
  "rvsec_config protocols cfg =
    register_handler \<lparr>vp_port = ctx_vport (srv_ctx cfg), vp_stream_type = RVSec\<rparr> (rvsec_handle protocols)
      (cfg\<lparr>stream_handlers := []\<rparr>)"

lemma rvsec_config_handlers:
  "stream_handlers (rvsec_config protocols cfg) =
    [(\<lparr>vp_port = ctx_vport (srv_ctx cfg), vp_stream_type = RVSec\<rparr>, rvsec_handle protocols)]"
  by (simp add: rvsec_config_def register_handler_def)

lemma rvsec_config_sane:
  assumes "protocols_sane protocols"
  shows "handlers_sane (rvsec_config protocols cfg)"
  unfolding handlers_sane_def rvsec_config_handlers
  by (simp only: list.set ball_simps prod.case simp_thms)
    (intro allI impI, rule rvsec_handle_sane [OF assms], assumption+)

lemma rvsec_config_total:
  assumes "protocols_total protocols"
  shows "handlers_total (rvsec_config protocols cfg)"
  unfolding handlers_total_def rvsec_config_handlers
  using rvsec_handle_total [OF assms] by (simp del: not_None_eq)

section \<open>Registration and probes\<close>

lemma public_url_text_show:
  "public_url_text addr sid ty = show_station_url [(''sid'', show_nat sid), (''type'', show_nat ty)]
    \<lparr>scheme = ''prudp'', address = fst addr, port = unat (snd addr),
     params = [''sid'' \<mapsto> show_nat sid, ''type'' \<mapsto> show_nat ty]\<rparr>"
  by (simp add: public_url_text_def show_station_url_def show_param_def)

lemma parse_public_url:
  assumes "CHR '';'' \<notin> set (fst addr)"
  shows "parse_station_url (public_url_text addr sid ty) = Inr
    \<lparr>scheme = ''prudp'', address = fst addr, port = unat (snd addr),
     params = [''sid'' \<mapsto> show_nat sid, ''type'' \<mapsto> show_nat ty]\<rparr>"
  unfolding public_url_text_show
proof (rule station_url_parse_show)
  show "station_url_ok \<lparr>scheme = ''prudp'', address = fst addr, port = unat (snd addr),
     params = [''sid'' \<mapsto> show_nat sid, ''type'' \<mapsto> show_nat ty]\<rparr>"
    using assms show_nat_no_sep by (auto simp: station_url_ok_def)
  show "iteration_order [(''sid'', show_nat sid), (''type'', show_nat ty)] (params
     \<lparr>scheme = ''prudp'', address = fst addr, port = unat (snd addr),
     params = [''sid'' \<mapsto> show_nat sid, ''type'' \<mapsto> show_nat ty]\<rparr>)"
    by (auto simp: iteration_order_def fun_eq_iff)
qed

lemma register_client_ok:
  assumes "client_ok sig ci" and "CHR '';'' \<notin> set (fst (ci_address ci))"
  shows "register_client sid ty ci =
    (case connection_id ci of
       None \<Rightarrow> Some (Inl AccessDenied)
     | Some cid \<Rightarrow> Some (Inr \<lparr>rr_return_value = QOk, rr_pid_connection_id = cid, rr_url_public =
         \<lparr>scheme = ''prudp'', address = fst (ci_address ci), port = unat (snd (ci_address ci)),
          params = [''sid'' \<mapsto> show_nat sid, ''type'' \<mapsto> show_nat ty]\<rparr>\<rparr>))"
  using assms parse_public_url [OF assms(2), of sid ty]
  by (auto simp: register_client_def login_required_def client_ok_def split: option.splits)

lemma probe_target_update:
  assumes "probe_target reg url0 = Some (sig, ci0)"
  shows "map_option fst (probe_target (reg\<lparr>clients := AList.update sig ci (clients reg)\<rparr>) url)
    = map_option fst (probe_target reg url)"
proof -
  have "map_of (clients reg) sig = Some ci0"
    using assms by (auto simp: probe_target_def bind_eq_Some_conv)
  then show ?thesis
    by (auto simp: probe_target_def update_conv' option.map_comp comp_def
        split: bind_splits option.split)
qed

lemma probe_target_self_iff:
  "(\<exists>ci. probe_target reg url = Some (self, ci)) \<longleftrightarrow> map_option fst (probe_target reg url) = Some self"
  by auto

lemma header_ok_probe: "header_ok (prepare_packet ((probe_packet c b)\<lparr>pk_sequence := sq,
    pk_flags := reliable_flags (pk_flags (probe_packet c b)), pk_signature := sg, pk_session_id := sn\<rparr>))"
  by (simp add: header_ok_def probe_packet_def qpacket_default_def prepare_packet_def flag_arith)

lemma send_probe_total:
  assumes "zlib_ok z" and "crypto_key ctx \<noteq> []" and "length (crypto_key ctx) \<le> 256"
  shows "\<exists>d ci'. send_request ctx z dst (probe_packet c b) ci = Some (d, ci')"
  using packet_to_bytes_defined [OF assms(1) header_ok_probe assms(2,3)]
  by (auto simp: send_request_def send_packet_def simp del: not_None_eq) 

lemma initiate_probes_None:
  assumes "zlib_ok z" and "crypto_key ctx \<noteq> []" and "length (crypto_key ctx) \<le> 256"
  shows "initiate_probes ctx z self probe ids urls reg = None \<longleftrightarrow>
    (\<exists>url\<in>set urls. \<exists>ci. probe_target reg url = Some (self, ci))"
proof (induction urls arbitrary: reg)
  case Nil
  then show ?case by simp
next
  case (Cons url urls)
  show ?case
  proof (cases "probe_target reg url")
    case None
    with Cons show ?thesis by simp
  next
    case (Some t)
    obtain sig target where t: "t = (sig, target)" by (cases t)
    show ?thesis
    proof (cases "sig = self")
      case True
      with Some t show ?thesis by simp
    next
      case False
      obtain d target' where snt: "send_request ctx z (ci_address target)
          (probe_packet (ids (length urls)) probe) target = Some (d, target')"
        using send_probe_total [OF assms] by blast
      let ?reg = "reg\<lparr>clients := AList.update sig target' (clients reg)\<rparr>"
      have "(\<exists>ci. probe_target ?reg u = Some (self, ci)) \<longleftrightarrow> (\<exists>ci. probe_target reg u = Some (self, ci))" for u
        unfolding probe_target_self_iff
        using probe_target_update [of reg url sig target target' u] Some t by simp
      then have "(\<exists>u\<in>set urls. \<exists>ci. probe_target ?reg u = Some (self, ci))
          \<longleftrightarrow> (\<exists>u\<in>set (url # urls). \<exists>ci. probe_target reg u = Some (self, ci))"
        using Some t False by simp
      moreover have "initiate_probes ctx z self probe ids (url # urls) reg = None
          \<longleftrightarrow> initiate_probes ctx z self probe ids urls ?reg = None"
        using Some t False snt
        by (cases "initiate_probes ctx z self probe ids urls ?reg") auto
      ultimately show ?thesis using Cons.IH [of ?reg] by simp
    qed
  qed
qed


section \<open>Properties\<close>



text \<open>For a connection in a reachable state of the secure server the
  \<open>unwrap\<close> of the connection id in \<open>Register\<close> does not panic: a client without a user is
  denied, any other gets its connection id and the public URL of its address.\<close>

lemma register_never_panics:
  assumes "client_ok sig ci" and "CHR '';'' \<notin> set (fst (ci_address ci))"
  shows "secure_register ci =
    (case connection_id ci of
       None \<Rightarrow> Some (Inl AccessDenied)
     | Some cid \<Rightarrow> Some (Inr \<lparr>rr_return_value = QOk, rr_pid_connection_id = cid, rr_url_public =
         \<lparr>scheme = ''prudp'', address = fst (ci_address ci), port = unat (snd (ci_address ci)),
          params = [''sid'' \<mapsto> show_nat 14, ''type'' \<mapsto> show_nat 2]\<rparr>\<rparr>))"
  unfolding secure_register_def by (rule register_client_ok [OF assms])

lemma register_never_panics_witness:
  "\<exists>u. secure_register ((client_info_new 0 7 () sample_addr)\<lparr>user_id := Some 1000, connection_id := Some 5\<rparr>)
      = Some (Inr \<lparr>rr_return_value = QOk, rr_pid_connection_id = 5, rr_url_public = u\<rparr>)"
proof -
  let ?ci = "(client_info_new 0 7 () sample_addr)\<lparr>user_id := Some 1000, connection_id := Some 5\<rparr>"
  have "client_ok 7 ?ci"
    by (simp add: client_ok_def client_info_new_def fragments_inv_def fragment_total_def)
  moreover have "CHR '';'' \<notin> set (fst (ci_address ?ci))"
    by (simp add: client_info_new_def sample_addr_def)
  ultimately show ?thesis using register_never_panics [of 7 ?ci] by simp
qed

text \<open>A probe request brings the server down exactly when one of its
  target URLs carries the connection id of the requesting client itself, whose entry is
  already borrowed.\<close>

lemma probe_panics_iff_self:
  assumes "zlib_ok z" and "crypto_key ctx \<noteq> []" and "length (crypto_key ctx) \<le> 256"
    and "login_required ci = Inr u"
  shows "request_probe_initiation_ext ctx z ids now self w ci q reg = None \<longleftrightarrow>
    (\<exists>url\<in>set (fst q). \<exists>target. probe_target reg url = Some (self, target))"
  using initiate_probes_None [OF assms(1-3), of self "snd q" ids "fst q" reg] assms(4)
  by (cases "initiate_probes ctx z self (snd q) ids (fst q) reg")
    (auto simp: request_probe_initiation_ext_def)

definition sample_registry :: "unit client_registry" where
  "sample_registry = \<lparr>clients = [(7, (client_info_new 0 7 () sample_addr)\<lparr>user_id := Some 1000,
      connection_id := Some 5\<rparr>)], connection_id_session_ids = [(5, 7)]\<rparr>"

lemma probe_panics_iff_self_witness:
  "request_probe_initiation_ext (splinter_cell_blacklist []) stored_zlib (\<lambda>_. 1) 0 7 ()
     ((client_info_new 0 7 () sample_addr)\<lparr>user_id := Some 1000, connection_id := Some 5\<rparr>)
     ([sample_url\<lparr>params := [''RVCID'' \<mapsto> ''5'']\<rparr>], []) sample_registry = None"
proof -
  let ?ci = "(client_info_new 0 7 () sample_addr)\<lparr>user_id := Some 1000, connection_id := Some 5\<rparr>"
  have "login_required ?ci = Inr 1000" by (simp add: login_required_def)
  moreover have "parse_uint (2 ^ 32) ''5'' = Some 5"
    by (simp add: parse_uint_def char_digit_def)
  then have "probe_target sample_registry (sample_url\<lparr>params := [''RVCID'' \<mapsto> ''5'']\<rparr>) = Some (7, ?ci)"
    by (simp add: probe_target_def sample_registry_def)
  ultimately show ?thesis
    using probe_panics_iff_self [OF stored_zlib_ok sample_context_key]
    by (metis fst_conv list.set_intros(1))
qed

end
