(* ===== verification/Game_Session.thy ===== *)
theory Game_Session
  imports Rmc_Dispatch Storage_Reachable
begin

text \<open>
  The game session protocol of the dedicated server: the handlers of
  \<open>dedicated-server/src/game_session.rs\<close> on top of the storage, with the request and response
  types of \<open>sc_bl_protocols/src/protocols/game_session_service\<close>. Logging is left out, and with
  it \<open>log_session_capacity\<close>, which only reads. The storage is the database with the marks of
  manual searches; ids of the storage are returned as 32-bit numbers.
\<close>

section \<open>Handlers as state transformers\<close>

record storage_state =
  ss_db :: db
  ss_searches :: manual_searches

text \<open>\<open>Result<P, Error>\<close> with the storage threaded through; an error keeps what was done before it.\<close>

type_synonym 'p service = "storage_state \<Rightarrow> (rmc_error + 'p) \<times> storage_state"

definition svc_return :: "'p \<Rightarrow> 'p service" where
  "svc_return x = (\<lambda>s. (Inr x, s))"

definition svc_fail :: "rmc_error \<Rightarrow> 'p service" where
  "svc_fail e = (\<lambda>s. (Inl e, s))"

definition svc_bind :: "'p service \<Rightarrow> ('p \<Rightarrow> 'q service) \<Rightarrow> 'q service" where
  "svc_bind m f = (\<lambda>s. case m s of (Inl e, s') \<Rightarrow> (Inl e, s') | (Inr x, s') \<Rightarrow> f x s')"

definition svc_login :: "'a client_info \<Rightarrow> u32 service" where
  "svc_login ci = (\<lambda>s. (login_required ci, s))"

text \<open>\<open>rmc_err!\<close> around a storage call: a failed transaction is an internal error.\<close>

definition svc_store :: "'p txn \<Rightarrow> 'p service" where
  "svc_store m = (\<lambda>s. case m (ss_db s) of
     Inl _ \<Rightarrow> (Inl InternalError, s)
   | Inr (x, d) \<Rightarrow> (Inr x, s\<lparr>ss_db := d\<rparr>))"

definition svc_searches :: "(manual_searches \<Rightarrow> manual_searches) \<Rightarrow> unit service" where
  "svc_searches f = (\<lambda>s. (Inr (), s\<lparr>ss_searches := f (ss_searches s)\<rparr>))"

section \<open>Types\<close>

record game_session_key =
  gk_type :: u32
  gk_session :: u32

record new_session =
  ns_type :: u32
  ns_attributes :: "property list"

record session_update =
  su_key :: game_session_key
  su_attributes :: "property list"

record search_result =
  sr_key :: game_session_key
  sr_host_pid :: u32
  sr_host_urls :: "station_url list"
  sr_attributes :: "property list"

record search_with_participants_result =
  sp_result :: search_result
  sp_participant_ids :: "u32 list"

record session_participant =
  pn_pid :: u32
  pn_name :: string
  pn_station_urls :: "station_url list"

section \<open>Addresses\<close>

text \<open>\<open>parse::<Ipv4Addr>\<close>: four decimal octets of at most three digits without leading zeros.\<close>

definition parse_octet :: "string \<Rightarrow> nat option" where
  "parse_octet s =
    (if s = [] \<or> length s > 3 \<or> (length s > 1 \<and> hd s = CHR ''0'') \<or> (\<exists>c\<in>set s. char_digit c = None)
     then None else parse_uint 256 s)"

definition parse_ipv4 :: "string \<Rightarrow> (nat \<times> nat \<times> nat \<times> nat) option" where
  "parse_ipv4 s =
    (case map parse_octet (split_char (CHR ''.'') s) of
       [Some a, Some b, Some c, Some d] \<Rightarrow> Some (a, b, c, d)
     | _ \<Rightarrow> None)"

definition show_ipv4 :: "nat \<times> nat \<times> nat \<times> nat \<Rightarrow> string" where
  "show_ipv4 ip = (case ip of (a, b, c, d) \<Rightarrow> join_char (CHR ''.'') (map show_nat [a, b, c, d]))"

definition is_private :: "nat \<times> nat \<times> nat \<times> nat \<Rightarrow> bool" where
  "is_private ip = (case ip of (a, b, _, _) \<Rightarrow>
     a = 10 \<or> (a = 172 \<and> 16 \<le> b \<and> b \<le> 31) \<or> (a = 192 \<and> b = 168))"

text \<open>
  The text of an IP address parses as an IPv4 address exactly if it is one, so the observed
  address is given as its text.
\<close>

definition observed_private_ipv4_override :: "string \<Rightarrow> string \<Rightarrow> string option" where
  "observed_private_ipv4_override registered observed =
    (case parse_ipv4 observed of
       None \<Rightarrow> None
     | Some o4 \<Rightarrow>
        if \<not> is_private o4 then None
        else (case parse_ipv4 registered of
           None \<Rightarrow> None
         | Some r4 \<Rightarrow> if r4 \<noteq> o4 then Some (show_ipv4 o4) else None))"

section \<open>Handlers\<close>

definition create_session :: "nat \<Rightarrow> 'a client_info \<Rightarrow> new_session \<Rightarrow> game_session_key service" where
  "create_session now ci q =
    svc_bind (svc_login ci) (\<lambda>uid.
    svc_bind (svc_store (create_game_session now (unat uid) (unat (ns_type q)) (show_properties (ns_attributes q)))) (\<lambda>sid.
    svc_return \<lparr>gk_type = ns_type q, gk_session = of_nat sid\<rparr>))"

definition update_session :: "'a client_info \<Rightarrow> session_update \<Rightarrow> unit service" where
  "update_session ci q =
    svc_bind (svc_login ci) (\<lambda>_.
    svc_store (update_game_session (unat (gk_type (su_key q))) (unat (gk_session (su_key q)))
      (show_properties (su_attributes q))))"

definition delete_session :: "nat \<Rightarrow> 'a client_info \<Rightarrow> game_session_key \<Rightarrow> unit service" where
  "delete_session now ci k =
    svc_bind (svc_login ci) (\<lambda>uid.
    svc_bind (svc_store (delete_game_session now (unat uid) (unat (gk_type k)) (unat (gk_session k)))) (\<lambda>_.
    svc_return ()))"

definition migrate_session :: "'a client_info \<Rightarrow> game_session_key \<Rightarrow> game_session_key service" where
  "migrate_session ci k =
    svc_bind (svc_login ci) (\<lambda>uid.
    svc_bind (svc_store (migrate_game_session_host (unat uid) (unat (gk_type k)) (unat (gk_session k)))) (\<lambda>migrated.
    if \<not> migrated then svc_fail AccessDenied else svc_return k))"

definition migrate_session_host :: "'a client_info \<Rightarrow> game_session_key \<Rightarrow> unit service" where
  "migrate_session_host ci k =
    svc_bind (svc_login ci) (\<lambda>uid.
    svc_bind (svc_store (migrate_game_session_host (unat uid) (unat (gk_type k)) (unat (gk_session k)))) (\<lambda>migrated.
    if \<not> migrated then svc_fail AccessDenied else svc_return ()))"

definition leave_session_rmc :: "nat \<Rightarrow> 'a client_info \<Rightarrow> game_session_key \<Rightarrow> unit service" where
  "leave_session_rmc now ci k =
    svc_bind (svc_login ci) (\<lambda>uid.
    svc_store (leave_game_session now (unat uid) (unat (gk_type k)) (unat (gk_session k))))"

definition add_participants_rmc ::
    "nat \<Rightarrow> 'a client_info \<Rightarrow> game_session_key \<Rightarrow> u32 list \<Rightarrow> u32 list \<Rightarrow> unit service" where
  "add_participants_rmc now ci k public_ids private_ids =
    svc_bind (svc_login ci) (\<lambda>uid.
    svc_store (add_participants now (unat uid) (unat (gk_type k)) (unat (gk_session k))
      (map unat private_ids) (map unat public_ids)))"

definition remove_participants_rmc :: "nat \<Rightarrow> 'a client_info \<Rightarrow> game_session_key \<Rightarrow> u32 list \<Rightarrow> unit service" where
  "remove_participants_rmc now ci k ids =
    svc_bind (svc_login ci) (\<lambda>_.
    svc_store (remove_participants now (unat (gk_type k)) (unat (gk_session k)) (map unat ids)))"

definition abandon_session :: "nat \<Rightarrow> 'a client_info \<Rightarrow> game_session_key \<Rightarrow> unit service" where
  "abandon_session now ci k =
    svc_bind (svc_login ci) (\<lambda>uid.
    svc_store (leave_game_session now (unat uid) (unat (gk_type k)) (unat (gk_session k))))"

definition observed_url :: "string \<Rightarrow> station_url \<Rightarrow> station_url" where
  "observed_url observed u =
    (case observed_private_ipv4_override (address u) observed of None \<Rightarrow> u | Some a \<Rightarrow> u\<lparr>address := a\<rparr>)"

text \<open>\<open>order\<close> is the iteration order of the parameter map of a URL.\<close>

definition normalized_url :: "((string \<rightharpoonup> string) \<Rightarrow> (string \<times> string) list) \<Rightarrow> string \<Rightarrow> station_url \<Rightarrow> string" where
  "normalized_url order observed u = show_station_url (order (params u)) (observed_url observed u)"

definition register_urls_rmc ::
    "((string \<rightharpoonup> string) \<Rightarrow> (string \<times> string) list) \<Rightarrow> 'a client_info \<Rightarrow> station_url list \<Rightarrow> unit service" where
  "register_urls_rmc order ci urls =
    svc_bind (svc_login ci) (\<lambda>uid.
    svc_store (register_urls (unat uid) (map (normalized_url order (fst (ci_address ci))) urls)))"

definition participant_search_matches_invited_session :: "nat list \<Rightarrow> nat list \<Rightarrow> bool" where
  "participant_search_matches_invited_session requested invited \<longleftrightarrow> (\<exists>r\<in>set requested. r \<in> set invited)"

definition invitation_can_route_participant_search :: "nat \<Rightarrow> bool" where
  "invitation_can_route_participant_search kind \<longleftrightarrow>
    kind \<in> {INVITE_KIND_PRIVATE_ROOM, INVITE_KIND_LOBBY_PARTY, INVITE_KIND_PARTY_FOLLOW, INVITE_KIND_LOBBY_RESTORE}"

text \<open>\<open>TryFrom<Vec<String>> for QList<StationURL>\<close>.\<close>

fun parse_station_urls :: "string list \<Rightarrow> station_url list option" where
  "parse_station_urls [] = Some []"
| "parse_station_urls (s # ss) = (case parse_station_url s of
     Inl _ \<Rightarrow> None | Inr u \<Rightarrow> map_option (Cons u) (parse_station_urls ss))"

definition key_of :: "game_session \<Rightarrow> game_session_key" where
  "key_of g = \<lparr>gk_type = of_nat (gs_type g), gk_session = of_nat (gs_id g)\<rparr>"

definition participant_search_result :: "game_session \<Rightarrow> search_with_participants_result option" where
  "participant_search_result g =
    (case find (\<lambda>p. pa_user_id p = gs_creator g) (gs_participants g) of
       None \<Rightarrow> None
     | Some host \<Rightarrow>
        if pa_station_urls host = [] then None
        else (case parse_station_urls (pa_station_urls host) of
           None \<Rightarrow> None
         | Some urls \<Rightarrow>
            (case parse_properties (gs_attributes g) of
               None \<Rightarrow> None
             | Some attrs \<Rightarrow> Some \<lparr>
                 sp_result = \<lparr>sr_key = key_of g, sr_host_pid = of_nat (pa_user_id host),
                   sr_host_urls = urls, sr_attributes = attrs\<rparr>,
                 sp_participant_ids = map (of_nat \<circ> pa_user_id) (gs_participants g)\<rparr>)))"

definition participant_search_sessions :: "nat list \<Rightarrow> invited_game_session option \<Rightarrow> nat \<Rightarrow> db \<Rightarrow> game_session list" where
  "participant_search_sessions requested invited ty db =
    (case invited of
       Some i \<Rightarrow>
         if invitation_can_route_participant_search (ig_kind i)
            \<and> participant_search_matches_invited_session requested (map pa_user_id (gs_participants (ig_session i)))
         then [ig_session i] else search_sessions_with_participants ty requested db
     | None \<Rightarrow> search_sessions_with_participants ty requested db)"

definition search_sessions_with_participants_rmc ::
    "nat \<Rightarrow> 'a client_info \<Rightarrow> u32 \<Rightarrow> u32 list \<Rightarrow> search_with_participants_result list service" where
  "search_sessions_with_participants_rmc now ci ty ids =
    svc_bind (svc_login ci) (\<lambda>uid.
    svc_bind (svc_store (tread (find_accepted_invited_session now (unat uid) (unat ty)))) (\<lambda>invited.
    svc_bind (svc_store (tread (participant_search_sessions (map unat ids) invited (unat ty)))) (\<lambda>sessions.
    svc_return (List.map_filter participant_search_result sessions))))"

definition split_session_result_allowed :: "bool \<Rightarrow> bool \<Rightarrow> bool" where
  "split_session_result_allowed migrated restored \<longleftrightarrow> migrated \<or> restored"

definition split_session :: "'a client_info \<Rightarrow> game_session_key \<Rightarrow> game_session_key service" where
  "split_session ci k =
    svc_bind (svc_login ci) (\<lambda>uid.
    svc_bind (svc_store (migrate_game_session_host (unat uid) (unat (gk_type k)) (unat (gk_session k)))) (\<lambda>migrated.
    svc_bind (if migrated then svc_return False
      else svc_bind (svc_store (game_session_is_active (unat (gk_type k)) (unat (gk_session k)))) (\<lambda>active.
        if active then svc_return False
        else svc_store (restore_abandoned_game_session_for_split (unat uid) (unat (gk_type k)) (unat (gk_session k)))))
      (\<lambda>restored.
    if \<not> split_session_result_allowed migrated restored then svc_fail AccessDenied else svc_return k)))"

definition report_unsuccessful_join_sessions :: "'a client_info \<Rightarrow> unit service" where
  "report_unsuccessful_join_sessions ci = svc_bind (svc_login ci) (\<lambda>_. svc_return ())"

definition join_session :: "nat \<Rightarrow> 'a client_info \<Rightarrow> game_session_key \<Rightarrow> unit service" where
  "join_session now ci k =
    svc_bind (svc_login ci) (\<lambda>uid.
    svc_bind (svc_store (join_game_session_unbounded now (unat uid) (unat (gk_type k)) (unat (gk_session k)))) (\<lambda>joined.
    if \<not> joined then svc_fail AccessDenied
    else svc_searches (clear_manual_invitation_search (unat uid) (unat (gk_type k)))))"

end
