(* ===== verification/Session_Protocol.thy ===== *)
theory Session_Protocol
  imports Game_Session
begin

text \<open>
  The game session protocol server (\<open>game_session_protocol.rs\<close>): the streams of its types, its
  methods by number, and the handlers behind them. A method the dedicated server does not
  implement decodes its request and then answers \<open>UnimplementedMethod\<close>.
\<close>

section \<open>Streams\<close>

definition rd_session_key :: "game_session_key reader" where
  "rd_session_key = rbind rd_u32 (\<lambda>t. rbind rd_u32 (\<lambda>s. rreturn \<lparr>gk_type = t, gk_session = s\<rparr>))"

definition wr_session_key :: "game_session_key \<Rightarrow> bytes" where
  "wr_session_key k = le32 (gk_type k) @ le32 (gk_session k)"

interpretation session_keyc: canonical_codec wr_session_key rd_session_key "\<lambda>_. True"
  by unfold_locales
    (auto simp: wr_session_key_def rd_session_key_def rbind_def rreturn_def split: sum.splits
      dest!: rd_num_dec)

definition rd_new_session :: "new_session reader" where
  "rd_new_session = rbind rd_u32 (\<lambda>t. rbind (rd_qlist rd_property) (\<lambda>a.
     rreturn \<lparr>ns_type = t, ns_attributes = a\<rparr>))"

definition wr_new_session :: "new_session \<Rightarrow> bytes" where
  "wr_new_session g = le32 (ns_type g) @ wr_qlist wr_property (ns_attributes g)"

definition rd_session_update :: "session_update reader" where
  "rd_session_update = rbind rd_session_key (\<lambda>k. rbind (rd_qlist rd_property) (\<lambda>a.
     rreturn \<lparr>su_key = k, su_attributes = a\<rparr>))"

definition wr_search_result :: "((string \<rightharpoonup> string) \<Rightarrow> (string \<times> string) list) \<Rightarrow> search_result \<Rightarrow> bytes" where
  "wr_search_result order r = wr_session_key (sr_key r) @ le32 (sr_host_pid r)
     @ wr_qlist (\<lambda>u. wr_station_url (order (params u)) u) (sr_host_urls r)
     @ wr_qlist wr_property (sr_attributes r)"

definition wr_search_with_participants_result ::
    "((string \<rightharpoonup> string) \<Rightarrow> (string \<times> string) list) \<Rightarrow> search_with_participants_result \<Rightarrow> bytes" where
  "wr_search_with_participants_result order r =
     wr_search_result order (sp_result r) @ wr_qlist le32 (sp_participant_ids r)"

text \<open>The requests of methods without an implementation are read and dropped.\<close>

definition rd_session_invitation :: "(game_session_key \<times> u32 list \<times> string) reader" where
  "rd_session_invitation = rd_pair rd_session_key (rd_pair (rd_qlist rd_u32) rd_string)"

definition rd_session_invitation_dated :: "(game_session_key \<times> u32 \<times> string \<times> date_time) reader" where
  "rd_session_invitation_dated = rd_pair rd_session_key (rd_pair rd_u32 (rd_pair rd_string rd_u64))"

definition rd_session_query :: "(u32 \<times> u32 \<times> property list) reader" where
  "rd_session_query = rd_pair rd_u32 (rd_pair rd_u32 (rd_qlist rd_property))"

definition rd_session_social_query :: "(u32 \<times> u32 \<times> property list \<times> u32 list) reader" where
  "rd_session_social_query = rd_pair rd_u32 (rd_pair rd_u32 (rd_pair (rd_qlist rd_property) (rd_qlist rd_u32)))"

definition rd_session_message :: "(game_session_key \<times> string) reader" where
  "rd_session_message = rd_pair rd_session_key rd_string"

definition rd_unsuccessful_join :: "(game_session_key \<times> u32 \<times> u32) reader" where
  "rd_unsuccessful_join = rd_pair rd_session_key (rd_pair rd_u32 rd_u32)"

section \<open>Methods\<close>

text \<open>
  A service method: \<open>clock\<close> turns the instant of the packet into the seconds of the storage;
  the handler changes the storage and answers, and sends nothing of its own.
\<close>

definition svc_method ::
    "(instant \<Rightarrow> nat) \<Rightarrow> (nat \<Rightarrow> 'a client_info \<Rightarrow> 'q \<Rightarrow> 'p service)
      \<Rightarrow> instant \<Rightarrow> u32 \<Rightarrow> storage_state \<Rightarrow> 'a client_info \<Rightarrow> 'q \<Rightarrow> 'a client_registry
      \<Rightarrow> (storage_state \<times> 'a client_info \<times> 'a client_registry \<times> datagram list \<times> (rmc_error + 'p)) option" where
  "svc_method clock f now sig w ci q reg =
    (case f (clock now) ci q w of (res, w') \<Rightarrow> Some (w', ci, reg, [], res))"

definition unimplemented :: "'q reader \<Rightarrow> ('w, 'a) rmc_handler" where
  "unimplemented dec = rmc_method dec (\<lambda>_::unit. []) (simple_method (\<lambda>_ _. Inl UnimplementedMethod))"

definition wr_unit :: "unit \<Rightarrow> bytes" where
  "wr_unit u = []"

definition GAME_SESSION_PROTOCOL_ID :: u16 where "GAME_SESSION_PROTOCOL_ID = 42"

definition session_methods ::
    "(instant \<Rightarrow> nat) \<Rightarrow> ((string \<rightharpoonup> string) \<Rightarrow> (string \<times> string) list)
      \<Rightarrow> (u32 \<times> (storage_state, 'a) rmc_handler) list" where
  "session_methods clock order =
    [(1, rmc_method rd_new_session wr_session_key (svc_method clock create_session)),
     (2, rmc_method rd_session_update wr_unit (svc_method clock (\<lambda>_. update_session))),
     (3, rmc_method rd_session_key wr_unit (svc_method clock delete_session)),
     (4, rmc_method rd_session_key wr_session_key (svc_method clock (\<lambda>_. migrate_session))),
     (5, rmc_method rd_session_key wr_unit (svc_method clock leave_session_rmc)),
     (6, unimplemented rd_session_key),
     (7, unimplemented rd_session_query),
     (8, rmc_method (rd_pair rd_session_key (rd_pair (rd_qlist rd_u32) (rd_qlist rd_u32))) wr_unit
        (svc_method clock (\<lambda>now ci (k, public, private). add_participants_rmc now ci k public private))),
     (9, rmc_method (rd_pair rd_session_key (rd_qlist rd_u32)) wr_unit
        (svc_method clock (\<lambda>now ci (k, ids). remove_participants_rmc now ci k ids))),
     (10, unimplemented rd_session_key),
     (11, unimplemented (rd_pair rd_session_key rd_result_range)),
     (12, unimplemented rd_session_invitation),
     (13, unimplemented rd_u32),
     (14, unimplemented (rd_pair rd_u32 rd_result_range)),
     (15, unimplemented rd_u32),
     (16, unimplemented (rd_pair rd_u32 rd_result_range)),
     (17, unimplemented rd_session_invitation_dated),
     (18, unimplemented rd_session_invitation_dated),
     (19, unimplemented rd_session_invitation_dated),
     (20, unimplemented rd_session_message),
     (21, rmc_method (rd_qlist rd_station_url) wr_unit (svc_method clock (\<lambda>_. register_urls_rmc order))),
     (22, rmc_method rd_session_key wr_unit (svc_method clock join_session)),
     (23, rmc_method rd_session_key wr_unit (svc_method clock abandon_session)),
     (24, rmc_method (rd_pair rd_u32 (rd_qlist rd_u32)) (wr_qlist (wr_search_with_participants_result order))
        (svc_method clock (\<lambda>now ci (ty, ids). search_sessions_with_participants_rmc now ci ty ids))),
     (25, unimplemented (rd_qlist rd_session_key)),
     (26, unimplemented (rd_pair rd_session_key (rd_qlist rd_u32))),
     (27, rmc_method rd_session_key wr_unit (svc_method clock (\<lambda>_. migrate_session_host))),
     (28, rmc_method rd_session_key wr_session_key (svc_method clock (\<lambda>_. split_session))),
     (29, unimplemented rd_session_social_query),
     (30, rmc_method (rd_qlist rd_unsuccessful_join) wr_unit
        (svc_method clock (\<lambda>_ ci _. report_unsuccessful_join_sessions ci)))]"

definition session_protocol ::
    "(instant \<Rightarrow> nat) \<Rightarrow> ((string \<rightharpoonup> string) \<Rightarrow> (string \<times> string) list) \<Rightarrow> (storage_state, 'a) rmc_handler" where
  "session_protocol clock order = protocol_handle (session_methods clock order)"

section \<open>The extended protocol\<close>

text \<open>
  \<open>game_session_ex.rs\<close>: the search of the matchmaking. Query 8 resolves an accepted manual
  invitation and marks the search; every other query clears the mark. The requested
  parameters are a map (a later parameter replaces an earlier one of the same id), attribute
  103 is 0 if it is not asked for, and attribute 112 is never compared.
\<close>

record session_query =
  qy_type :: u32
  qy_query :: u32
  qy_parameters :: "property list"

record search_result_ex =
  sx_result :: search_result
  sx_participants :: "session_participant list"

definition is_invitation_search_query :: "u32 \<Rightarrow> bool" where
  "is_invitation_search_query query_id \<longleftrightarrow> query_id = 8"

definition attribute_map :: "property list \<Rightarrow> (u32 \<rightharpoonup> u32)" where
  "attribute_map ps = map_of (rev (map (\<lambda>p. (prop_id p, prop_value p)) ps))"

definition requested_attributes :: "property list \<Rightarrow> (u32 \<rightharpoonup> u32)" where
  "requested_attributes ps = (let m = attribute_map ps in if m 103 = None then m(103 \<mapsto> 0) else m)"

definition matches_request :: "property list \<Rightarrow> property list \<Rightarrow> bool" where
  "matches_request requested attrs \<longleftrightarrow> (\<forall>i\<in>insert 103 (prop_id ` set requested).
     i = 112 \<or> attribute_map attrs i = requested_attributes requested i)"

definition session_matches :: "property list \<Rightarrow> game_session \<Rightarrow> bool" where
  "session_matches requested g =
    (case parse_properties (gs_attributes g) of None \<Rightarrow> False | Some attrs \<Rightarrow> matches_request requested attrs)"

definition parsed_url :: "string \<Rightarrow> station_url option" where
  "parsed_url s = (case parse_station_url s of Inl _ \<Rightarrow> None | Inr u \<Rightarrow> Some u)"

definition host_urls :: "game_session \<Rightarrow> station_url list" where
  "host_urls g = List.map_filter parsed_url
     (concat (map pa_station_urls (filter (\<lambda>p. pa_user_id p = gs_creator g) (gs_participants g))))"

definition response_participant :: "participant \<Rightarrow> session_participant option" where
  "response_participant p = map_option (\<lambda>urls. \<lparr>pn_pid = of_nat (pa_user_id p), pn_name = pa_name p,
     pn_station_urls = urls\<rparr>) (parse_station_urls (pa_station_urls p))"

definition response_session :: "game_session \<Rightarrow> search_result_ex option" where
  "response_session g = map_option (\<lambda>attrs. \<lparr>
      sx_result = \<lparr>sr_key = key_of g, sr_host_pid = of_nat (gs_creator g), sr_host_urls = host_urls g,
        sr_attributes = attrs\<rparr>,
      sx_participants = List.map_filter response_participant (gs_participants g)\<rparr>)
    (parse_properties (gs_attributes g))"

definition manual_kind :: "nat \<Rightarrow> bool" where
  "manual_kind k \<longleftrightarrow> k \<in> {INVITE_KIND_PRIVATE_ROOM, INVITE_KIND_LOBBY_PARTY, INVITE_KIND_LOBBY_RESTORE}"

text \<open>The session an invitation query resolves to, with the mark it leaves.\<close>

definition invitation_search :: "nat \<Rightarrow> nat \<Rightarrow> nat \<Rightarrow> invited_game_session option service" where
  "invitation_search now uid ty =
    svc_bind (svc_store (tread (find_accepted_manual_invited_session now uid ty))) (\<lambda>invited.
    svc_bind (svc_searches (if (case invited of None \<Rightarrow> False | Some i \<Rightarrow> manual_kind (ig_kind i))
        then note_manual_invitation_search now uid ty else clear_manual_invitation_search uid ty)) (\<lambda>_.
    svc_return invited))"

definition search_sessions_ex :: "nat \<Rightarrow> 'a client_info \<Rightarrow> session_query \<Rightarrow> search_result_ex list service" where
  "search_sessions_ex now ci q =
    svc_bind (svc_login ci) (\<lambda>u. let uid = unat u; ty = unat (qy_type q) in
    svc_bind (if is_invitation_search_query (qy_query q) then invitation_search now uid ty
      else svc_bind (svc_searches (clear_manual_invitation_search uid ty)) (\<lambda>_. svc_return None)) (\<lambda>invited.
    svc_bind (case invited of Some i \<Rightarrow> svc_return [ig_session i]
      | None \<Rightarrow> svc_store (tread (search_sessions ty (Some uid)))) (\<lambda>sessions.
    svc_return (List.map_filter response_session
      (filter (\<lambda>g. invited \<noteq> None \<or> session_matches (qy_parameters q) g) sessions)))))"

definition rd_query :: "session_query reader" where
  "rd_query = rmap (\<lambda>(t, i, ps). \<lparr>qy_type = t, qy_query = i, qy_parameters = ps\<rparr>) rd_session_query"

definition wr_session_participant ::
    "((string \<rightharpoonup> string) \<Rightarrow> (string \<times> string) list) \<Rightarrow> session_participant \<Rightarrow> bytes" where
  "wr_session_participant order p = le32 (pn_pid p) @ wr_string (pn_name p)
     @ wr_qlist (\<lambda>u. wr_station_url (order (params u)) u) (pn_station_urls p)"

definition wr_search_result_ex ::
    "((string \<rightharpoonup> string) \<Rightarrow> (string \<times> string) list) \<Rightarrow> search_result_ex \<Rightarrow> bytes" where
  "wr_search_result_ex order r = wr_search_result order (sx_result r)
     @ wr_qlist (wr_session_participant order) (sx_participants r)"

definition GAME_SESSION_EX_PROTOCOL_ID :: u16 where "GAME_SESSION_EX_PROTOCOL_ID = 123"

definition session_ex_protocol ::
    "(instant \<Rightarrow> nat) \<Rightarrow> ((string \<rightharpoonup> string) \<Rightarrow> (string \<times> string) list) \<Rightarrow> (storage_state, 'a) rmc_handler" where
  "session_ex_protocol clock order = protocol_handle
    [(1, rmc_method rd_query (wr_qlist (wr_search_result_ex order)) (svc_method clock search_sessions_ex))]"

end
