(* ===== verification/Session_Service.thy ===== *)
theory Session_Service
  imports Session_Protocol Invite_Behaviour
begin

text \<open>
  What the session protocols promise. The locale \<open>request_service\<close> is the contract of a
  service behind a login: it refuses a caller the state does not know and leaves the state as
  it is, and a permitted request keeps the invariant; both protocols interpret it, and so do
  the services of the API.
\<close>

section \<open>The contract of a service\<close>

text \<open>A run of calls, each with its caller and request; the answers are dropped.\<close>

definition serve_all :: "('c \<Rightarrow> 'q \<Rightarrow> 's \<Rightarrow> 'r \<times> 's) \<Rightarrow> ('c \<times> 'q) list \<Rightarrow> 's \<Rightarrow> 's" where
  "serve_all serve cqs s = foldl (\<lambda>s cq. snd (serve (fst cq) (snd cq) s)) s cqs"

fun permitted_run :: "('c \<Rightarrow> 'q \<Rightarrow> 's \<Rightarrow> 'r \<times> 's) \<Rightarrow> ('q \<Rightarrow> 's \<Rightarrow> bool) \<Rightarrow> ('c \<times> 'q) list \<Rightarrow> 's \<Rightarrow> bool" where
  "permitted_run serve permit [] s = True"
| "permitted_run serve permit ((c, q) # cqs) s =
    (permit q s \<and> permitted_run serve permit cqs (snd (serve c q s)))"

locale request_service =
  fixes inv :: "'s \<Rightarrow> bool" and known :: "'c \<Rightarrow> 's \<Rightarrow> bool" and permit :: "'q \<Rightarrow> 's \<Rightarrow> bool"
    and refusal :: 'e and serve :: "'c \<Rightarrow> 'q \<Rightarrow> 's \<Rightarrow> ('e + 'p) \<times> 's"
  assumes refuses: "\<not> known c s \<Longrightarrow> serve c q s = (Inl refusal, s)"
    and preserves: "inv s \<Longrightarrow> permit q s \<Longrightarrow> inv (snd (serve c q s))"
begin

lemma run_preserves: "inv s \<Longrightarrow> permitted_run serve permit cqs s \<Longrightarrow> inv (serve_all serve cqs s)"
proof (induction cqs arbitrary: s)
  case (Cons cq cqs)
  then show ?case by (cases cq) (simp add: serve_all_def preserves)
qed (simp add: serve_all_def)

lemma run_of_strangers: "(\<forall>cq\<in>set cqs. \<not> known (fst cq) s) \<Longrightarrow> serve_all serve cqs s = s"
  by (induction cqs arbitrary: s) (simp_all add: serve_all_def refuses)

lemma effect_needs_login: "snd (serve c q s) \<noteq> s \<Longrightarrow> known c s"
  using refuses [of c s q] by (cases "known c s") simp_all

end

section \<open>Handlers\<close>

lemma svc_simps [simp]:
  "svc_bind (svc_return x) f s = f x s" "svc_bind (svc_fail e) f s = (Inl e, s)"
  "svc_return x s = (Inr x, s)" "svc_fail e s = (Inl e, s)"
  "svc_bind (svc_store (tread g)) f s = f (g (ss_db s)) s"
  "svc_bind (svc_searches h) f' s = f' () (s\<lparr>ss_searches := h (ss_searches s)\<rparr>)"
  "svc_searches h s = (Inr (), s\<lparr>ss_searches := h (ss_searches s)\<rparr>)"
  by (simp_all add: svc_bind_def svc_return_def svc_fail_def svc_store_def svc_searches_def)

lemma svc_login_bind:
  "svc_bind (svc_login ci) f s = (case user_id ci of None \<Rightarrow> (Inl AccessDenied, s) | Some u \<Rightarrow> f u s)"
  by (simp add: svc_bind_def svc_login_def login_required_def split: option.split)

lemma svc_store_bind:
  "svc_bind (svc_store m) f s = (case m (ss_db s) of
     Inl _ \<Rightarrow> (Inl InternalError, s) | Inr (x, d) \<Rightarrow> f x (s\<lparr>ss_db := d\<rparr>))"
  by (simp add: svc_bind_def svc_store_def split: sum.split prod.split)

definition svc_keeps :: "(storage_state \<Rightarrow> bool) \<Rightarrow> 'p service \<Rightarrow> bool" where
  "svc_keeps I m \<longleftrightarrow> (\<forall>s. I s \<longrightarrow> I (snd (m s)))"

definition storage_ok :: "storage_state \<Rightarrow> bool" where
  "storage_ok s \<longleftrightarrow> storage_inv (ss_db s)"

named_theorems svc_intros \<open>preservation of an invariant by a service\<close>

lemma svc_keeps_return [svc_intros]: "svc_keeps I (svc_return x)"
  by (simp add: svc_keeps_def)

lemma svc_keeps_fail [svc_intros]: "svc_keeps I (svc_fail e)"
  by (simp add: svc_keeps_def)

lemma svc_keeps_login [svc_intros]: "svc_keeps I (svc_login ci)"
  by (simp add: svc_keeps_def svc_login_def)

lemma svc_keeps_bind [svc_intros]:
  "svc_keeps I m \<Longrightarrow> (\<And>x. svc_keeps I (f x)) \<Longrightarrow> svc_keeps I (svc_bind m f)"
  by (fastforce simp: svc_keeps_def svc_bind_def split: prod.split sum.split)

lemma svc_keeps_if [svc_intros]: "svc_keeps I m \<Longrightarrow> svc_keeps I m' \<Longrightarrow> svc_keeps I (if b then m else m')"
  by simp

lemma svc_keeps_option [svc_intros]:
  "svc_keeps I m \<Longrightarrow> (\<And>x. svc_keeps I (f x)) \<Longrightarrow> svc_keeps I (case z of None \<Rightarrow> m | Some x \<Rightarrow> f x)"
  by (cases z) auto

lemma svc_keeps_store [svc_intros]: "keeps storage_inv m \<Longrightarrow> svc_keeps storage_ok (svc_store m)"
  by (auto simp: svc_keeps_def svc_store_def storage_ok_def split: sum.split dest: keepsD)

lemma svc_keeps_searches [svc_intros]: "svc_keeps storage_ok (svc_searches f)"
  by (simp add: svc_keeps_def storage_ok_def)

section \<open>The session protocol as a service\<close>

datatype session_request =
    ReqCreate new_session
  | ReqUpdate session_update
  | ReqDelete game_session_key
  | ReqMigrate game_session_key
  | ReqMigrateHost game_session_key
  | ReqLeave game_session_key
  | ReqAddParticipants game_session_key "u32 list" "u32 list"
  | ReqRemoveParticipants game_session_key "u32 list"
  | ReqAbandon game_session_key
  | ReqRegisterUrls "station_url list"
  | ReqSearchParticipants u32 "u32 list"
  | ReqSplit game_session_key
  | ReqReport
  | ReqJoin game_session_key

definition answered :: "'p service \<Rightarrow> unit service" where
  "answered m = svc_bind m (\<lambda>_. svc_return ())"

fun serve_session ::
    "((string \<rightharpoonup> string) \<Rightarrow> (string \<times> string) list) \<Rightarrow> nat \<times> 'a client_info \<Rightarrow> session_request \<Rightarrow> unit service" where
  "serve_session order (now, ci) (ReqCreate q) = answered (create_session now ci q)"
| "serve_session order (now, ci) (ReqUpdate q) = update_session ci q"
| "serve_session order (now, ci) (ReqDelete k) = delete_session now ci k"
| "serve_session order (now, ci) (ReqMigrate k) = answered (migrate_session ci k)"
| "serve_session order (now, ci) (ReqMigrateHost k) = migrate_session_host ci k"
| "serve_session order (now, ci) (ReqLeave k) = leave_session_rmc now ci k"
| "serve_session order (now, ci) (ReqAddParticipants k us vs) = add_participants_rmc now ci k us vs"
| "serve_session order (now, ci) (ReqRemoveParticipants k us) = remove_participants_rmc now ci k us"
| "serve_session order (now, ci) (ReqAbandon k) = abandon_session now ci k"
| "serve_session order (now, ci) (ReqRegisterUrls us) = register_urls_rmc order ci us"
| "serve_session order (now, ci) (ReqSearchParticipants ty us) = answered (search_sessions_with_participants_rmc now ci ty us)"
| "serve_session order (now, ci) (ReqSplit k) = answered (split_session ci k)"
| "serve_session order (now, ci) ReqReport = report_unsuccessful_join_sessions ci"
| "serve_session order (now, ci) (ReqJoin k) = join_session now ci k"

text \<open>All requests but a removal that names the wrong type of an active session.\<close>

definition typed_request :: "session_request \<Rightarrow> storage_state \<Rightarrow> bool" where
  "typed_request q s \<longleftrightarrow> (\<forall>k us. q = ReqRemoveParticipants k us \<longrightarrow>
     (\<forall>g\<in>set (game_sessions (ss_db s)). g_id g = unat (gk_session k) \<longrightarrow> g_destroyed g = None
       \<longrightarrow> g_type g = unat (gk_type k)))"

lemmas session_handler_defs = create_session_def update_session_def delete_session_def migrate_session_def
  migrate_session_host_def leave_session_rmc_def add_participants_rmc_def remove_participants_rmc_def
  abandon_session_def register_urls_rmc_def search_sessions_with_participants_rmc_def split_session_def
  report_unsuccessful_join_sessions_def join_session_def answered_def

lemma serve_session_anonymous:
  "user_id ci = None \<Longrightarrow> serve_session order (now, ci) q s = (Inl AccessDenied, s)"
  by (cases q) (simp_all add: session_handler_defs svc_login_bind svc_bind_def [of "svc_bind _ _"])

lemma serve_session_keeps:
  assumes "\<forall>k us. q \<noteq> ReqRemoveParticipants k us"
  shows "svc_keeps storage_ok (serve_session order (now, ci) q)"
proof -
  have active: "keeps storage_inv (game_session_is_active ty sid)" for ty sid
    unfolding game_session_is_active_def by (rule keeps_read)
  show ?thesis
    using assms by (cases q; simp add: session_handler_defs; intro svc_intros keeps_read operation_keeps active)
qed

lemma remove_request_keeps:
  assumes "storage_ok s" "typed_request (ReqRemoveParticipants k us) s"
  shows "storage_ok (snd (remove_participants_rmc now ci k us s))"
proof (cases "user_id ci")
  case None
  then show ?thesis using assms(1) by (simp add: remove_participants_rmc_def svc_login_bind)
next
  case (Some u)
  then show ?thesis
    using assms remove_participants_keeps[of "ss_db s" now "unat (gk_type k)" "unat (gk_session k)" "map unat us"]
    by (auto simp: remove_participants_rmc_def svc_login_bind svc_store_def storage_ok_def typed_request_def
        split: sum.split)
qed

lemma serve_session_preserves:
  "storage_ok s \<Longrightarrow> typed_request q s \<Longrightarrow> storage_ok (snd (serve_session order c q s))"
  using serve_session_keeps[of q order "fst c" "snd c"] remove_request_keeps
  by (cases c; cases "\<exists>k us. q = ReqRemoveParticipants k us") (auto simp: svc_keeps_def)

interpretation session_svc: request_service storage_ok "\<lambda>c _. user_id (snd c) \<noteq> None" typed_request AccessDenied "serve_session order"
  by unfold_locales (auto simp: serve_session_anonymous serve_session_preserves)

section \<open>The matchmaking search as a service\<close>

definition serve_search :: "nat \<times> 'a client_info \<Rightarrow> session_query \<Rightarrow> search_result_ex list service" where
  "serve_search c q = search_sessions_ex (fst c) (snd c) q"

lemma search_keeps: "svc_keeps storage_ok (search_sessions_ex now ci q)"
  unfolding search_sessions_ex_def invitation_search_def Let_def by (intro svc_intros keeps_read)

interpretation search_svc: request_service storage_ok "\<lambda>c _. user_id (snd c) \<noteq> None" "\<lambda>_ _. True" AccessDenied serve_search
  using search_keeps
  by unfold_locales (auto simp: serve_search_def search_sessions_ex_def svc_login_bind svc_keeps_def)

section \<open>Splitting a session\<close>

lemma active_iff: "(\<exists>g\<in>set (game_sessions db). active_session ty sid g) \<longleftrightarrow> find_active ty sid db \<noteq> None"
  by (auto simp: find_active_None)

lemma migrate_result:
  "migrate_game_session_host uid ty sid db = Inr (if find_active ty sid db \<noteq> None \<and> is_participant sid uid db
     then (True, update_sessions (active_session ty sid) (set_host uid) db) else (False, db))"
  by (simp add: migrate_game_session_host_def active_iff)

lemma abandoned_once:
  assumes "inv_except X db"
  shows "length (filter (abandoned_by uid ty sid) (game_sessions db)) = 1
    \<longleftrightarrow> (\<exists>g\<in>set (game_sessions db). abandoned_by uid ty sid g)"
proof -
  let ?f = "filter (abandoned_by uid ty sid) (game_sessions db)"
  have d: "distinct (map g_id ?f)"
    using assms by (simp add: inv_except_def db_refs_def session_ids_def distinct_map_filter)
  have "length ?f = 1" if "?f \<noteq> []"
  proof -
    have "set (map g_id ?f) = {sid}"
      using that by (auto simp: abandoned_by_def filter_empty_conv)
    then show ?thesis using distinct_card[OF d] by simp
  qed
  moreover have "?f \<noteq> [] \<longleftrightarrow> (\<exists>g\<in>set (game_sessions db). abandoned_by uid ty sid g)"
    by (simp add: filter_empty_conv)
  ultimately show ?thesis by force
qed

lemma restore_result:
  assumes inv: "inv_except {} db" and ab: "\<exists>g\<in>set (game_sessions db). abandoned_by uid ty sid g"
  shows "\<exists>d g. restore_abandoned_game_session_for_split uid ty sid db = Inr (True, d)
    \<and> find_active ty sid d = Some g \<and> g_creator g = uid \<and> is_participant sid uid d"
proof -
  let ?f = "\<lambda>g. g\<lparr>g_creator := uid, g_destroyed := None\<rparr>"
  define e where "e = update_sessions (abandoned_by uid ty sid) ?f db"
  obtain g where g: "g \<in> set (game_sessions db)" "abandoned_by uid ty sid g" using ab by blast
  have ids: "session_ids e = session_ids db" "user_ids e = user_ids db"
    by (simp_all add: e_def)
  have "sid \<in> set (session_ids e)" "uid \<in> set (user_ids e)"
    using g creator_is_user[OF inv g(1)] unfolding ids by (auto simp: session_ids_def abandoned_by_def)
  then have "\<exists>d. insert_participant sid uid e = Inr ((), d)"
    by (simp add: insert_participant_def)
  then obtain d where d: "insert_participant sid uid e = Inr ((), d)" ..
  have run: "restore_abandoned_game_session_for_split uid ty sid db = Inr (True, d)"
    using abandoned_once[OF inv] ab d
    by (simp add: restore_abandoned_game_session_for_split_def e_def[symmetric] tbind_def)
  have gs: "game_sessions d = game_sessions e" and p: "is_participant sid uid d"
    using insert_participant_result[OF d] by auto
  have act: "\<exists>h\<in>set (game_sessions d). active_session ty sid h"
  proof -
    have "(if abandoned_by uid ty sid g then ?f g else g) \<in> set (game_sessions d)"
      unfolding gs e_def update_sessions_simps set_map by (rule imageI[OF g(1)])
    then show ?thesis by (rule bexI[rotated]) (use g(2) in \<open>simp add: abandoned_by_def active_session_def\<close>)
  qed
  have host: "g_creator h = uid" if "h \<in> set (game_sessions d)" "active_session ty sid h" for h
  proof -
    have "h \<in> (\<lambda>k. if abandoned_by uid ty sid k then ?f k else k) ` set (game_sessions db)"
      using that(1) unfolding gs e_def update_sessions_simps set_map .
    then obtain k where k: "k \<in> set (game_sessions db)" "h = (if abandoned_by uid ty sid k then ?f k else k)"
      by (elim imageE)
    then have "g_id k = sid" using that(2) by (auto simp: active_session_def split: if_splits)
    then have "k = g" using session_unique[OF inv k(1) g(1)] g(2) by (simp add: abandoned_by_def)
    then show ?thesis using k(2) g(2) by simp
  qed
  obtain h where "find_active ty sid d = Some h" using act by (auto simp: active_iff)
  then show ?thesis using run p host find_active_Some by blast
qed

lemma restore_nothing:
  "inv_except X db \<Longrightarrow> \<not> (\<exists>g\<in>set (game_sessions db). abandoned_by uid ty sid g) \<Longrightarrow>
   restore_abandoned_game_session_for_split uid ty sid db = Inr (False, db)"
  using abandoned_once[of X db uid ty sid] by (simp add: restore_abandoned_game_session_for_split_def)

lemma svc_assoc: "svc_bind (svc_bind m f) g s = svc_bind m (\<lambda>x. svc_bind (f x) g) s"
  by (simp add: svc_bind_def split: prod.split sum.split)

lemma find_active_host:
  "find_active ty sid db = Some g \<Longrightarrow>
    find_active ty sid (update_sessions (active_session ty sid) (set_host u) db) = Some (set_host u g)"
  by (simp add: find_active_set_host)

lemma split_cases:
  assumes "user_id ci = Some u"
  shows "split_session ci k s =
    (case migrate_game_session_host (unat u) (unat (gk_type k)) (unat (gk_session k)) (ss_db s) of
       Inl _ \<Rightarrow> (Inl InternalError, s)
     | Inr (True, d) \<Rightarrow> (Inr k, s\<lparr>ss_db := d\<rparr>)
     | Inr (False, d) \<Rightarrow>
        if find_active (unat (gk_type k)) (unat (gk_session k)) d \<noteq> None then (Inl AccessDenied, s\<lparr>ss_db := d\<rparr>)
        else (case restore_abandoned_game_session_for_split (unat u) (unat (gk_type k)) (unat (gk_session k)) d of
          Inl _ \<Rightarrow> (Inl InternalError, s\<lparr>ss_db := d\<rparr>)
        | Inr (restored, e) \<Rightarrow> (if restored then Inr k else Inl AccessDenied, s\<lparr>ss_db := e\<rparr>)))"
proof (cases "migrate_game_session_host (unat u) (unat (gk_type k)) (unat (gk_session k)) (ss_db s)")
  case (Inr z)
  then show ?thesis
    using assms by (cases z; cases "fst z")
      (auto simp: split_session_def svc_login_bind svc_store_bind svc_assoc game_session_is_active_def
        active_iff split_session_result_allowed_def split: sum.split prod.split)
qed (simp add: assms split_session_def svc_login_bind svc_store_bind)

lemma split_outcome:
  assumes inv: "storage_inv (ss_db s)" and ci: "user_id ci = Some u"
    and k: "ty = unat (gk_type k)" "sid = unat (gk_session k)"
  shows "if if find_active ty sid (ss_db s) \<noteq> None then is_participant sid (unat u) (ss_db s)
        else \<exists>g\<in>set (game_sessions (ss_db s)). abandoned_by (unat u) ty sid g
     then \<exists>s' g. split_session ci k s = (Inr k, s') \<and> find_active ty sid (ss_db s') = Some g
       \<and> g_creator g = unat u \<and> is_participant sid (unat u) (ss_db s')
     else split_session ci k s = (Inl AccessDenied, s)"
proof -
  have inv0: "inv_except {} (ss_db s)" using inv by (simp add: storage_inv_def)
  note run = split_cases[OF ci, of k s, folded k]
  show ?thesis
  proof (cases "find_active ty sid (ss_db s)")
    case None
    show ?thesis
    proof (cases "\<exists>g\<in>set (game_sessions (ss_db s)). abandoned_by (unat u) ty sid g")
      case True
      from restore_result[OF inv0 True] obtain d g where
        "restore_abandoned_game_session_for_split (unat u) ty sid (ss_db s) = Inr (True, d)"
        "find_active ty sid d = Some g" "g_creator g = unat u" "is_participant sid (unat u) d" by blast
      then show ?thesis using None True by (simp add: run migrate_result)
    next
      case False
      then show ?thesis using None restore_nothing[OF inv0 False] by (simp add: run migrate_result)
    qed
  next
    case (Some g)
    then show ?thesis
      by (simp add: run migrate_result find_active_host[OF Some]) (simp add: set_host_def)
  qed
qed

section \<open>Properties\<close>

text \<open>C29 (session_requests_keep_invariant). Any sequence of session requests, of any callers and
  at any times, keeps the invariant of the database, as long as no removal names the wrong type
  of an active session; the searches of the matchmaking keep it without a condition.\<close>

theorem session_requests_keep_invariant:
  assumes "storage_inv (ss_db s)"
  shows "(permitted_run (serve_session order) typed_request cqs s
      \<longrightarrow> storage_inv (ss_db (serve_all (serve_session order) cqs s)))
    \<and> storage_inv (ss_db (serve_all serve_search sqs s))"
proof -
  have "permitted_run serve_search (\<lambda>_ _. True) sqs t" for t
    by (induction sqs arbitrary: t) auto
  then show ?thesis
    using session_svc.run_preserves[of s order cqs] search_svc.run_preserves[of s sqs] assms
    by (simp add: storage_ok_def)
qed

text \<open>A caller without a user gets \<open>AccessDenied\<close> from every
  implemented session method and from the search, and a run of such calls changes nothing.\<close>

lemma strangers_change_nothing:
  assumes "user_id ci = None"
  shows "serve_session order (now, ci) q s = (Inl AccessDenied, s)
    \<and> serve_search (now, ci) qs s = (Inl AccessDenied, s)
    \<and> serve_all (serve_session order) (map (\<lambda>q. ((now, ci), q)) qs') s = s"
  using session_svc.refuses[of "(now, ci)" order q s] search_svc.refuses[of "(now, ci)" qs s]
    session_svc.run_of_strangers[of "map (\<lambda>q. ((now, ci), q)) qs'" order s] assms
  by simp

text \<open>Splitting answers with the key exactly if the caller takes part
  in the active session, or the session is not active and was the caller's own before it ended;
  the caller is then the host of the active session and takes part in it. In every other case
  the answer is \<open>AccessDenied\<close> and nothing has changed.\<close>

lemma split_session_outcome:
  assumes "storage_inv (ss_db s)" and "user_id ci = Some u"
    and "ty = unat (gk_type k)" and "sid = unat (gk_session k)"
  shows "if if find_active ty sid (ss_db s) \<noteq> None then is_participant sid (unat u) (ss_db s)
        else \<exists>g\<in>set (game_sessions (ss_db s)). abandoned_by (unat u) ty sid g
     then \<exists>s' g. split_session ci k s = (Inr k, s') \<and> find_active ty sid (ss_db s') = Some g
       \<and> g_creator g = unat u \<and> is_participant sid (unat u) (ss_db s')
     else split_session ci k s = (Inl AccessDenied, s)"
  using assms by (rule split_outcome)

text \<open>Samples: the storage with the lobby of user 1000, and a client of a given user.\<close>

definition sample_storage_state :: "db \<Rightarrow> storage_state" where
  "sample_storage_state d = \<lparr>ss_db = d, ss_searches = []\<rparr>"

definition sample_client :: "u32 option \<Rightarrow> unit client_info" where
  "sample_client u = (client_info_new 0 1 () (''192.168.1.5'', 3074))\<lparr>user_id := u\<rparr>"

definition sample_key :: game_session_key where
  "sample_key = \<lparr>gk_type = 1, gk_session = 1\<rparr>"

theorem session_requests_keep_invariant_witness:
  "storage_inv (ss_db (serve_all (serve_session (\<lambda>_. [])) [((5, sample_client (Some 1001)), ReqJoin sample_key),
     ((6, sample_client (Some 1001)), ReqSplit sample_key)] (sample_storage_state hosted_db)))"
proof (rule session_requests_keep_invariant[THEN conjunct1, rule_format])
  show "storage_inv (ss_db (sample_storage_state hosted_db))"
    by (simp add: sample_storage_state_def hosted_inv)
qed (simp add: typed_request_def)

lemma strangers_change_nothing_witness:
  "serve_session (\<lambda>_. []) (5, sample_client None) (ReqJoin sample_key) (sample_storage_state hosted_db)
    = (Inl AccessDenied, sample_storage_state hosted_db)"
  using strangers_change_nothing[of "sample_client None" "\<lambda>_. []" 5 "ReqJoin sample_key"]
  by (simp add: sample_client_def)

lemma split_session_outcome_witness:
  "\<exists>s' g. split_session (sample_client (Some 1001)) sample_key (sample_storage_state joined_db) = (Inr sample_key, s')
    \<and> find_active 1 1 (ss_db s') = Some g \<and> g_creator g = 1001 \<and> is_participant 1 1001 (ss_db s')"
proof -
  have "find_active 1 1 joined_db \<noteq> None" unfolding sample_active(2) by simp
  moreover have "is_participant 1 1001 joined_db" by (simp add: is_participant_def joined_db_def)
  ultimately show ?thesis
    using split_session_outcome[of "sample_storage_state joined_db" "sample_client (Some 1001)" 1001 1 sample_key 1]
      sample_storage(1)
    by (simp add: sample_storage_state_def sample_client_def sample_key_def del: One_nat_def)
qed

end
