(* ===== verification/Session_Attributes.thy ===== *)
theory Session_Attributes
  imports Rmc_Types Storage_Db
begin

text \<open>
  The attributes of a session as the protocol writes them, a list of properties, against the
  text the storage works on: what \<open>session_attribute_value\<close> finds in it, and what the projection
  for private invitations makes of it.
\<close>

section \<open>White space\<close>

definition plain :: "char \<Rightarrow> bool" where
  "plain c \<longleftrightarrow> (\<forall>w\<in>set whitespace. hd w \<noteq> c \<and> last w \<noteq> c)"

lemma whitespace_no_digit:
  "\<forall>w\<in>set whitespace. \<not> (48 \<le> (of_char (hd w) :: nat) \<and> (of_char (hd w) :: nat) < 58)
    \<and> \<not> (48 \<le> (of_char (last w) :: nat) \<and> (of_char (last w) :: nat) < 58)"
  by (simp add: whitespace_def)

lemma plain_digit: "48 \<le> (of_char c :: nat) \<Longrightarrow> (of_char c :: nat) < 58 \<Longrightarrow> plain c"
  using whitespace_no_digit by (auto simp: plain_def)

lemma find_prefix_None:
  assumes "\<forall>w\<in>set ws. w \<noteq> [] \<and> hd w \<noteq> c"
  shows "find (\<lambda>w. starts_with w (c # s)) ws = None"
proof -
  have "\<not> starts_with w (c # s)" if "w \<in> set ws" for w
    using assms that by (cases w) auto
  then show ?thesis by (simp add: find_None_iff)
qed

lemma whitespace_nonempty: "w \<in> set whitespace \<Longrightarrow> w \<noteq> []"
  by (auto simp: whitespace_def)

lemma strip_plain: "s = [] \<or> plain (hd s) \<Longrightarrow> strip_prefixes whitespace n s = s"
proof (cases s; cases n)
  fix c r m assume s: "s = c # r" and n: "n = Suc m" and "s = [] \<or> plain (hd s)"
  then have "\<forall>w\<in>set whitespace. w \<noteq> [] \<and> hd w \<noteq> c" using whitespace_nonempty by (auto simp: plain_def)
  then show ?thesis by (simp add: s n find_prefix_None)
next
  fix m assume "s = []" "n = Suc m"
  moreover have "find (\<lambda>w. starts_with w []) whitespace = None"
    by (simp add: whitespace_def)
  ultimately show ?thesis by simp
qed simp_all

lemma strip_plain_rev:
  assumes "s = [] \<or> plain (hd s)"
  shows "strip_prefixes (map rev whitespace) n s = s"
proof (cases s; cases n)
  fix c r m assume s: "s = c # r" and n: "n = Suc m"
  have "\<forall>w\<in>set (map rev whitespace). w \<noteq> [] \<and> hd w \<noteq> c"
    using assms s whitespace_nonempty by (auto simp: plain_def hd_rev)
  then show ?thesis by (simp add: s n find_prefix_None)
next
  fix m assume "s = []" "n = Suc m"
  moreover have "find (\<lambda>w. starts_with w []) (map rev whitespace) = None"
    by (simp add: whitespace_def)
  ultimately show ?thesis by simp
qed simp_all

definition trimmed :: "string \<Rightarrow> bool" where
  "trimmed s \<longleftrightarrow> s \<noteq> [] \<and> plain (hd s) \<and> plain (last s)"

lemma trim_trimmed: "trimmed s \<Longrightarrow> trim s = s"
  by (simp add: trimmed_def trim_def trim_start_def trim_end_def strip_plain strip_plain_rev hd_rev)

lemma find_space: "find (\<lambda>w. starts_with w (CHR '' '' # s)) whitespace = Some [CHR '' '']"
  by (simp add: whitespace_def)

lemma find_space_rev: "find (\<lambda>w. starts_with w (CHR '' '' # s)) (map rev whitespace) = Some [CHR '' '']"
  by (simp add: whitespace_def)

lemma trim_leading: "trimmed s \<Longrightarrow> trim (CHR '' '' # s) = s"
  by (simp add: trimmed_def trim_def trim_start_def trim_end_def find_space strip_plain strip_plain_rev hd_rev)

lemma trim_trailing: "trimmed s \<Longrightarrow> trim (s @ [CHR '' '']) = s"
proof -
  assume s: "trimmed s"
  have "trim_start (s @ [CHR '' '']) = s @ [CHR '' '']"
    unfolding trim_start_def by (rule strip_plain) (use s in \<open>simp add: trimmed_def\<close>)
  then show ?thesis
    using s by (simp add: trim_def trim_end_def find_space_rev strip_plain_rev trimmed_def hd_rev)
qed

lemma trimmed_show: "trimmed (show_nat n)"
  using show_nat_digits[of "hd (show_nat n)" n] show_nat_digits[of "last (show_nat n)" n]
  by (simp add: trimmed_def plain_digit)

section \<open>Properties as attributes\<close>

lemma split_once_at:
  "sep \<noteq> [] \<Longrightarrow> hd sep \<notin> set w \<Longrightarrow> split_once sep (w @ sep @ s) = Some (w, s)"
proof (induction w)
  case Nil
  then show ?case by (cases sep) simp_all
next
  case (Cons c w)
  then have "\<not> starts_with sep (c # w @ sep @ s)" by (cases sep) auto
  with Cons show ?case by simp
qed

lemma show_nat_no_equals: "CHR ''='' \<notin> set (show_nat n)"
  using show_nat_digits[of "CHR ''=''" n] by auto

lemma split_property:
  "split_once ''=>'' (show_property p) = Some (show_nat (unat (prop_id p)) @ '' '', '' '' @ show_nat (unat (prop_value p)))"
proof -
  have p: "show_property p = (show_nat (unat (prop_id p)) @ '' '') @ ''=>'' @ '' '' @ show_nat (unat (prop_value p))"
    by (simp add: show_property_def)
  show ?thesis
    unfolding p by (rule split_once_at) (simp_all add: show_nat_no_equals)
qed

lemma trimmed_property: "trimmed (show_property p)"
  using trimmed_show[of "unat (prop_id p)"] trimmed_show[of "unat (prop_value p)"]
  by (simp add: trimmed_def show_property_def hd_append)

lemma entry_property:
  "attribute_entry i (show_property p) = (if unat (prop_id p) = i then Some (unat (prop_value p)) else None)"
  by (simp add: attribute_entry_def split_property trim_trailing[OF trimmed_show, simplified]
      trim_leading[OF trimmed_show])

lemma attribute_value_properties:
  "session_attribute_value (show_properties ps) i
    = map_option (\<lambda>p. unat (prop_value p)) (find (\<lambda>p. unat (prop_id p) = i) ps)"
proof (cases "ps = []")
  case True
  then show ?thesis
    by (simp add: session_attribute_value_def show_properties_def attribute_entry_def)
next
  case False
  then have "split_char (CHR '';'') (show_properties ps) = map show_property ps"
    unfolding show_properties_def by (intro split_join_char) (auto simp: show_property_no_sep)
  moreover have "find_map (attribute_entry i) (map show_property ps)
      = map_option (\<lambda>p. unat (prop_value p)) (find (\<lambda>p. unat (prop_id p) = i) ps)"
    by (induction ps) (simp_all add: entry_property)
  ultimately show ?thesis by (simp add: session_attribute_value_def)
qed

section \<open>The projection\<close>

definition lobby_class :: property where
  "lobby_class = \<lparr>prop_id = 113, prop_value = 1\<rparr>"

text \<open>The specification: attribute 113 is 1, added at the end if it is missing.\<close>

definition with_lobby_class :: "property list \<Rightarrow> property list" where
  "with_lobby_class ps = (if \<exists>p\<in>set ps. prop_id p = 113
     then map (\<lambda>p. if prop_id p = 113 then lobby_class else p) ps else ps @ [lobby_class])"

lemma show_nat_inj: "show_nat m = show_nat n \<longleftrightarrow> m = n"
  using parse_digits_show[of m] parse_digits_show[of n] by (metis option.inject)

lemma show_113: "show_nat 113 = ''113''"
  by (simp add: show_nat.simps digit_char_def char_of_eq_iff)

lemma show_lobby_class: "show_property lobby_class = ''113 => 1''"
  by (simp add: show_property_def lobby_class_def show_113) (simp add: show_nat.simps digit_char_def char_of_eq_iff)

lemma project_properties:
  "project_entries (map show_property ps) = (map show_property (map (\<lambda>p. if prop_id p = 113 then lobby_class else p) ps),
     \<exists>p\<in>set ps. prop_id p = 113)"
proof (induction ps)
  case (Cons p ps)
  have "trim (show_nat (unat (prop_id p)) @ '' '') = ''113'' \<longleftrightarrow> prop_id p = 113"
    using show_nat_inj[of "unat (prop_id p)" 113]
    by (simp add: trim_trailing[OF trimmed_show, simplified] show_113 word_unat_eq_iff)
  moreover have "show_property p \<noteq> []" using trimmed_property[of p] by (simp add: trimmed_def)
  ultimately show ?case
    using Cons by (simp add: trim_trimmed[OF trimmed_property] split_property Let_def show_lobby_class)
qed simp

lemma project_show:
  "project_private_invite_session_class_only (show_properties ps) = show_properties (with_lobby_class ps)"
proof (cases "ps = []")
  case True
  have "trim [] = []" by (simp add: trim_def trim_start_def trim_end_def)
  then show ?thesis
    by (simp add: True project_private_invite_session_class_only_def show_properties_def with_lobby_class_def
        show_lobby_class)
next
  case False
  then have "split_char (CHR '';'') (show_properties ps) = map show_property ps"
    unfolding show_properties_def by (intro split_join_char) (auto simp: show_property_no_sep)
  then have eq: "project_private_invite_session_class_only (show_properties ps) = join_char (CHR '';'')
      (let ps' = map show_property (map (\<lambda>p. if prop_id p = 113 then lobby_class else p) ps)
       in if \<exists>p\<in>set ps. prop_id p = 113 then ps' else ps' @ [''113 => 1''])"
    by (simp add: project_private_invite_session_class_only_def project_properties)
  have "map (\<lambda>p. if prop_id p = 113 then lobby_class else p) ps = ps" if "\<not> (\<exists>p\<in>set ps. prop_id p = 113)"
    by (rule map_idI) (use that in auto)
  then show ?thesis
    unfolding eq
    by (cases "\<exists>p\<in>set ps. prop_id p = 113") (simp_all only: Let_def with_lobby_class_def show_properties_def
        if_True if_False simp_thms map_append list.map show_lobby_class)
qed

lemma find_lobby_class:
  "find (\<lambda>p. unat (prop_id p) = i) (with_lobby_class ps)
    = (if i = 113 then Some lobby_class else find (\<lambda>p. unat (prop_id p) = i) ps)"
proof -
  have w: "prop_id p = 113 \<longleftrightarrow> unat (prop_id p) = 113" for p by (simp add: word_unat_eq_iff)
  have m: "find (\<lambda>p. unat (prop_id p) = i) (map (\<lambda>p. if prop_id p = 113 then lobby_class else p) ps)
      = (if i = 113 \<and> (\<exists>p\<in>set ps. prop_id p = 113) then Some lobby_class else find (\<lambda>p. unat (prop_id p) = i) ps)"
    by (induction ps) (auto simp: w lobby_class_def)
  have a: "find P (xs @ [x]) = (case find P xs of None \<Rightarrow> if P x then Some x else None | r \<Rightarrow> r)" for P :: "'a \<Rightarrow> bool" and xs x
    by (induction xs) auto
  have "find (\<lambda>p. unat (prop_id p) = 113) ps = None" if "\<not> (\<exists>p\<in>set ps. prop_id p = 113)"
    using that by (simp add: find_None_iff w)
  moreover have "(unat (prop_id lobby_class) = i) = (i = 113)" by (auto simp: lobby_class_def)
  ultimately show ?thesis
    unfolding with_lobby_class_def
    by (cases "\<exists>p\<in>set ps. prop_id p = 113") (simp_all only: m a if_True if_False simp_thms, simp_all split: option.split)
qed

section \<open>Properties\<close>

text \<open>The projection for private invitations turns the text of any
  properties into the text of the same properties with the class of a lobby: attribute 113
  reads 1, every other attribute reads as before.\<close>

lemma projection_is_lobby:
  "project_private_invite_session_class_only (show_properties ps) = show_properties (with_lobby_class ps)
   \<and> session_attribute_value (project_private_invite_session_class_only (show_properties ps)) i
      = (if i = 113 then Some 1 else session_attribute_value (show_properties ps) i)
   \<and> is_lobby_session_attributes (project_private_invite_session_class_only (show_properties ps))"
  by (simp add: project_show attribute_value_properties find_lobby_class is_lobby_session_attributes_def)
    (simp add: lobby_class_def)

end
