(* ===== verification/Session_Matchmaking.thy ===== *)
theory Session_Matchmaking
  imports Session_Service Session_Attributes
begin

text \<open>
  What a search of the matchmaking answers: the sessions that match the requested attributes,
  or, for the query of an accepted invitation, the one session it leads to.
\<close>

section \<open>Answers\<close>

lemma response_session_Some:
  "parse_properties (gs_attributes g) = Some attrs \<Longrightarrow> \<exists>r. response_session g = Some r
    \<and> sr_key (sx_result r) = key_of g \<and> sr_attributes (sx_result r) = attrs"
  by (simp add: response_session_def)

lemma map_filter_keys:
  "(\<And>g. g \<in> set gs \<Longrightarrow> \<exists>r. f g = Some r \<and> k r = h g) \<Longrightarrow> map k (List.map_filter f gs) = map h gs"
proof (induction gs)
  case (Cons g gs)
  then obtain r where "f g = Some r" "k r = h g" by (metis list.set_intros(1))
  moreover have "map k (List.map_filter f gs) = map h gs"
    by (rule Cons.IH) (use Cons.prems in auto)
  ultimately show ?case by simp
qed simp

definition row_matches :: "property list \<Rightarrow> session_row \<Rightarrow> bool" where
  "row_matches requested g \<longleftrightarrow> (\<exists>attrs. parse_properties (g_attributes g) = Some attrs \<and> matches_request requested attrs)"

lemma session_matches_row: "session_matches requested (session_of ps g) = row_matches requested g"
  by (simp add: session_matches_def row_matches_def session_of_def split: option.split)

lemma search_keys:
  assumes "storage_inv db"
  shows "map (\<lambda>r. sr_key (sx_result r))
      (List.map_filter response_session (filter (session_matches requested) (search_sessions ty (Some uid) db)))
    = map (\<lambda>g. \<lparr>gk_type = of_nat (g_type g), gk_session = of_nat (g_id g)\<rparr>)
        (filter (\<lambda>g. g_type g = ty \<and> g_destroyed g = None \<and> g_creator g \<noteq> uid
          \<and> has_station_url (g_creator g) db \<and> row_matches requested g) (game_sessions db))"
proof -
  let ?P = "\<lambda>g. g_type g = ty \<and> g_destroyed g = None \<and> Some uid \<noteq> Some (g_creator g) \<and> has_station_url (g_creator g) db"
  obtain ps where list: "search_sessions ty (Some uid) db
      = map (\<lambda>g. session_of (ps g) g) (filter ?P (game_sessions db))"
    using search_list[OF assms, of ty "Some uid"] by blast
  let ?gs = "filter (session_matches requested) (search_sessions ty (Some uid) db)"
  have "map (\<lambda>r. sr_key (sx_result r)) (List.map_filter response_session ?gs) = map key_of ?gs"
  proof (rule map_filter_keys)
    fix g assume "g \<in> set ?gs"
    then have "session_matches requested g" by simp
    then obtain attrs where "parse_properties (gs_attributes g) = Some attrs"
      by (auto simp: session_matches_def split: option.splits)
    from response_session_Some[OF this]
    show "\<exists>r. response_session g = Some r \<and> sr_key (sx_result r) = key_of g" by blast
  qed
  also have "\<dots> = map (\<lambda>g. \<lparr>gk_type = of_nat (g_type g), gk_session = of_nat (g_id g)\<rparr>)
      (filter (row_matches requested) (filter ?P (game_sessions db)))"
    unfolding list filter_map comp_def session_matches_row map_map by (simp add: key_of_def session_of_def)
  also have "filter (row_matches requested) (filter ?P (game_sessions db)) = filter (\<lambda>g. g_type g = ty
      \<and> g_destroyed g = None \<and> g_creator g \<noteq> uid \<and> has_station_url (g_creator g) db \<and> row_matches requested g)
      (game_sessions db)"
    by (simp add: conj_ac) (rule filter_cong; auto)
  finally show ?thesis .
qed

lemma normal_search:
  assumes "user_id ci = Some u" "qy_query q \<noteq> 8"
  shows "search_sessions_ex now ci q s =
    (Inr (List.map_filter response_session (filter (session_matches (qy_parameters q))
       (search_sessions (unat (qy_type q)) (Some (unat u)) (ss_db s)))),
     s\<lparr>ss_searches := clear_manual_invitation_search (unat u) (unat (qy_type q)) (ss_searches s)\<rparr>)"
  using assms by (simp add: search_sessions_ex_def svc_login_bind is_invitation_search_query_def Let_def svc_assoc)

lemma invitation_query:
  assumes "user_id ci = Some u" "qy_query q = 8"
    and "find_accepted_manual_invited_session now (unat u) (unat (qy_type q)) (ss_db s) = Some i"
    and "manual_kind (ig_kind i)"
  shows "search_sessions_ex now ci q s =
    (Inr (List.map_filter response_session [ig_session i]),
     s\<lparr>ss_searches := note_manual_invitation_search now (unat u) (unat (qy_type q)) (ss_searches s)\<rparr>)"
  using assms
  by (simp add: search_sessions_ex_def svc_login_bind is_invitation_search_query_def Let_def svc_assoc
      invitation_search_def)

lemma noted_is_active:
  assumes "t \<le> t'" "t' \<le> t + 15"
  shows "fst (manual_invitation_search_is_active t' uid ty (note_manual_invitation_search t uid ty m))"
proof -
  have "((uid, ty), t) \<in> set (AList.update (uid, ty) t (prune_manual_invitation_searches t m))"
    by (rule map_of_SomeD) (simp add: update_conv')
  then have "(uid, ty) \<in> fst ` set (prune_manual_invitation_searches t' (note_manual_invitation_search t uid ty m))"
    using assms by (force simp: prune_manual_invitation_searches_def note_manual_invitation_search_def
        MANUAL_INVITATION_SEARCH_TTL_def)
  then show ?thesis
    by (simp add: manual_invitation_search_is_active_def Let_def map_of_eq_None_iff)
qed

section \<open>Properties\<close>



definition sample_room :: "property list" where
  "sample_room = [\<lparr>prop_id = 113, prop_value = 0\<rparr>, \<lparr>prop_id = 103, prop_value = 0\<rparr>]"

definition listed_db :: db where
  "listed_db = room_db\<lparr>game_sessions := [sample_session 1 ''113 => 1'', sample_session 2 (show_properties sample_room)]\<rparr>"

lemma listed_inv: "storage_inv listed_db"
  by (simp add: storage_inv_def inv_except_def db_refs_def parties_ok_def lanes_ok_def hosts_except_def
      listed_db_def sample_defs user_ids_def session_ids_def party_ids_def is_participant_def)

lemma sample_matches:
  "\<not> row_matches [\<lparr>prop_id = 113, prop_value = 0\<rparr>] (sample_session 1 ''113 => 1'')"
  "row_matches [\<lparr>prop_id = 113, prop_value = 0\<rparr>] (sample_session 2 (show_properties sample_room))"
proof -
  have "parse_properties ''113 => 1'' = Some [lobby_class]"
    using parse_show_properties[of "[lobby_class]"] by (simp add: show_properties_def show_lobby_class)
  then show "\<not> row_matches [\<lparr>prop_id = 113, prop_value = 0\<rparr>] (sample_session 1 ''113 => 1'')"
    by (simp add: row_matches_def sample_session_def matches_request_def attribute_map_def
        requested_attributes_def lobby_class_def)
  show "row_matches [\<lparr>prop_id = 113, prop_value = 0\<rparr>] (sample_session 2 (show_properties sample_room))"
    using parse_show_properties[of sample_room]
    by (simp add: row_matches_def sample_session_def matches_request_def attribute_map_def
        requested_attributes_def sample_room_def)
qed



end
