(* ===== verification/Session_Urls.thy ===== *)
theory Session_Urls
  imports Session_Service
begin

text \<open>
  Registering station URLs: what the storage holds afterwards, and the replacement of a
  registered address by the private address the client is seen at.
\<close>

section \<open>IPv4 addresses\<close>

lemma digit_zero: "d < 10 \<Longrightarrow> digit_char d = CHR ''0'' \<longleftrightarrow> d = 0"
  by (simp add: digit_char_def char_of_eq_iff take_bit_eq_mod)

lemma show_octet:
  assumes "n < 256"
  shows "length (show_nat n) \<le> 3 \<and> (length (show_nat n) > 1 \<longrightarrow> hd (show_nat n) \<noteq> CHR ''0'')"
proof -
  have small: "show_nat k = [digit_char k]" if "k < 10" for k using that by (simp add: show_nat.simps[of k])
  consider "n < 10" | "10 \<le> n" "n < 100" | "100 \<le> n" by linarith
  then show ?thesis
  proof cases
    case 1 then show ?thesis by (simp add: small)
  next
    case 2
    then have "n div 10 < 10" "n div 10 \<noteq> 0" by auto
    moreover have "show_nat n = [digit_char (n div 10), digit_char (n mod 10)]"
      using 2 small[of "n div 10"] by (simp add: show_nat.simps[of n])
    ultimately show ?thesis by (simp add: digit_zero)
  next
    case 3
    then have d: "n div 10 div 10 < 10" "n div 10 div 10 \<noteq> 0" "\<not> n div 10 < 10" using assms by auto
    have "show_nat (n div 10) = [digit_char (n div 10 div 10), digit_char (n div 10 mod 10)]"
      using small[OF d(1)] d(3) by (simp add: show_nat.simps[of "n div 10"])
    then have "show_nat n = [digit_char (n div 10 div 10), digit_char (n div 10 mod 10), digit_char (n mod 10)]"
      using 3 by (simp add: show_nat.simps[of n])
    with d show ?thesis by (simp add: digit_zero)
  qed
qed

lemma parse_show_octet: "n < 256 \<Longrightarrow> parse_octet (show_nat n) = Some n"
proof -
  assume n: "n < 256"
  have "char_digit c \<noteq> None" if "c \<in> set (show_nat n)" for c
    using show_nat_digits[OF that] by (simp add: char_digit_def Let_def)
  then show ?thesis using show_octet[OF n] n by (auto simp: parse_octet_def)
qed

lemma parse_octet_bound: "parse_octet s = Some n \<Longrightarrow> n < 256"
  by (auto simp: parse_octet_def parse_uint_def Let_def split: if_splits option.splits)

lemma show_nat_no_dot: "CHR ''.'' \<notin> set (show_nat n)"
  using show_nat_digits[of "CHR ''.''" n] by auto

lemma parse_show_ipv4:
  assumes "parse_ipv4 s = Some ip"
  shows "parse_ipv4 (show_ipv4 ip) = Some ip"
proof -
  obtain a b c d where ip: "ip = (a, b, c, d)"
    and octets: "a < 256" "b < 256" "c < 256" "d < 256"
    using assms parse_octet_bound
    by (auto simp: parse_ipv4_def split: list.splits option.splits)
  have "split_char (CHR ''.'') (join_char (CHR ''.'') (map show_nat [a, b, c, d])) = map show_nat [a, b, c, d]"
    by (rule split_join_char) (use show_nat_no_dot in auto)
  then show ?thesis
    using octets by (simp add: parse_ipv4_def show_ipv4_def ip parse_show_octet)
qed

lemma observed_url_address: "observed_url observed u = u\<lparr>address := address (observed_url observed u)\<rparr>"
  by (simp add: observed_url_def split: option.split)

lemma observed_url_params: "params (observed_url observed u) = params u"
  by (simp add: observed_url_def split: option.split)

lemma observed_url_private:
  assumes "parse_ipv4 observed = Some o4" "is_private o4" "parse_ipv4 (address u) \<noteq> None"
  shows "parse_ipv4 (address (observed_url observed u)) = Some o4"
proof -
  obtain r4 where r4: "parse_ipv4 (address u) = Some r4" using assms(3) by blast
  then have "observed_url observed u = (if r4 \<noteq> o4 then u\<lparr>address := show_ipv4 o4\<rparr> else u)"
    using assms by (simp add: observed_url_def observed_private_ipv4_override_def)
  then show ?thesis using r4 parse_show_ipv4[OF assms(1)] by simp
qed

lemma observed_url_same:
  "parse_ipv4 (address u) = None \<or> \<not> (\<exists>o4. parse_ipv4 observed = Some o4 \<and> is_private o4) \<Longrightarrow>
   observed_url observed u = u"
  by (auto simp: observed_url_def observed_private_ipv4_override_def split: option.splits if_splits)

section \<open>The table\<close>

lemma insert_urls:
  "distinct urls \<Longrightarrow> (\<forall>l\<in>set urls. (uid, l) \<notin> set (station_urls db)) \<Longrightarrow> uid \<in> set (user_ids db) \<Longrightarrow>
   tfor urls (\<lambda>url db.
      if (uid, url) \<in> set (station_urls db) then Inr ((), db)
      else if uid \<notin> set (user_ids db) then Inl ForeignKeyViolation
      else Inr ((), db\<lparr>station_urls := station_urls db @ [(uid, url)]\<rparr>)) db
   = Inr ((), db\<lparr>station_urls := station_urls db @ map (Pair uid) urls\<rparr>)"
proof (induction urls arbitrary: db)
  case (Cons l urls)
  define e where "e = db\<lparr>station_urls := station_urls db @ [(uid, l)]\<rparr>"
  have "user_ids e = user_ids db" by (simp add: e_def user_ids_def)
  moreover have "\<forall>l\<in>set urls. (uid, l) \<notin> set (station_urls e)" using Cons.prems by (auto simp: e_def)
  ultimately have "tfor urls (\<lambda>url db.
      if (uid, url) \<in> set (station_urls db) then Inr ((), db)
      else if uid \<notin> set (user_ids db) then Inl ForeignKeyViolation
      else Inr ((), db\<lparr>station_urls := station_urls db @ [(uid, url)]\<rparr>)) e
    = Inr ((), e\<lparr>station_urls := station_urls e @ map (Pair uid) urls\<rparr>)"
    using Cons.IH[of e] Cons.prems by simp
  then show ?case using Cons.prems by (simp add: tbind_def e_def)
qed simp

lemma register_urls_result:
  assumes "uid \<in> set (user_ids db)"
  shows "register_urls uid urls db = Inr ((), db\<lparr>station_urls :=
    filter (\<lambda>r. fst r \<noteq> uid) (station_urls db) @ map (Pair uid) (remdups urls)\<rparr>)"
proof -
  have "uid \<in> set (user_ids (delete_station_urls uid db))"
    using assms by (simp add: delete_station_urls_def user_ids_def)
  from insert_urls[OF distinct_remdups _ this] show ?thesis
    by (simp add: register_urls_def delete_station_urls_def)
qed

lemma list_urls_registered:
  "list_urls v (db\<lparr>station_urls := filter (\<lambda>r. fst r \<noteq> uid) (station_urls db) @ map (Pair uid) urls\<rparr>)
    = (if v = uid then urls else list_urls v db)"
  by (simp add: list_urls_def filter_map comp_def) (auto intro: arg_cong[where f = "map snd"] filter_cong)

section \<open>Property\<close>

text \<open>Registering replaces the URLs of the caller, and of nobody else, by the
  texts of the given ones without repetition. Read back, a text gives the URL unchanged, except
  that a numeric IPv4 address of a client seen at a private IPv4 address reads as that address.\<close>

lemma registered_urls:
  assumes "user_id ci = Some u" and "unat u \<in> set (user_ids (ss_db s))" and "obs = fst (ci_address ci)"
    and "\<forall>x\<in>set us. iteration_order (order (params x)) (params x) \<and> station_url_ok (observed_url obs x)"
  shows "\<exists>s'. register_urls_rmc order ci us s = (Inr (), s')
    \<and> list_urls (unat u) (ss_db s') = remdups (map (normalized_url order obs) us)
    \<and> (\<forall>v. v \<noteq> unat u \<longrightarrow> list_urls v (ss_db s') = list_urls v (ss_db s))
    \<and> (\<forall>x\<in>set us. \<exists>a. parse_station_url (normalized_url order obs x) = Inr (x\<lparr>address := a\<rparr>)
         \<and> (if (\<exists>ip. parse_ipv4 obs = Some ip \<and> is_private ip) \<and> parse_ipv4 (address x) \<noteq> None
            then parse_ipv4 a = parse_ipv4 obs else a = address x))"
proof -
  define d where "d = (ss_db s)\<lparr>station_urls := filter (\<lambda>r. fst r \<noteq> unat u) (station_urls (ss_db s))
    @ map (Pair (unat u)) (remdups (map (normalized_url order obs) us))\<rparr>"
  have run: "register_urls_rmc order ci us s = (Inr (), s\<lparr>ss_db := d\<rparr>)"
    using register_urls_result[OF assms(2)] assms(1,3)
    by (simp add: register_urls_rmc_def svc_login_bind svc_store_def d_def)
  have readback: "\<exists>a. parse_station_url (normalized_url order obs x) = Inr (x\<lparr>address := a\<rparr>)
      \<and> (if (\<exists>ip. parse_ipv4 obs = Some ip \<and> is_private ip) \<and> parse_ipv4 (address x) \<noteq> None
         then parse_ipv4 a = parse_ipv4 obs else a = address x)" if "x \<in> set us" for x
  proof (intro exI conjI)
    have "iteration_order (order (params x)) (params (observed_url obs x))" "station_url_ok (observed_url obs x)"
      using assms(4) that by (simp_all add: observed_url_params)
    then have "parse_station_url (normalized_url order obs x) = Inr (observed_url obs x)"
      unfolding normalized_url_def by (intro station_url_parse_show)
    then show "parse_station_url (normalized_url order obs x) = Inr (x\<lparr>address := address (observed_url obs x)\<rparr>)"
      using observed_url_address by metis
    show "if (\<exists>ip. parse_ipv4 obs = Some ip \<and> is_private ip) \<and> parse_ipv4 (address x) \<noteq> None
         then parse_ipv4 (address (observed_url obs x)) = parse_ipv4 obs else address (observed_url obs x) = address x"
    proof (cases "(\<exists>ip. parse_ipv4 obs = Some ip \<and> is_private ip) \<and> parse_ipv4 (address x) \<noteq> None")
      case True
      then obtain ip where "parse_ipv4 obs = Some ip" "is_private ip" "parse_ipv4 (address x) \<noteq> None" by blast
      from observed_url_private[OF this] this(1) have "parse_ipv4 (address (observed_url obs x)) = parse_ipv4 obs" by simp
      then show ?thesis by (simp only: if_P[OF True])
    next
      case False
      then have "observed_url obs x = x" by (intro observed_url_same) blast
      then show ?thesis using False by (simp only: if_False)
    qed
  qed
  have "list_urls v d = (if v = unat u then remdups (map (normalized_url order obs) us) else list_urls v (ss_db s))" for v
    unfolding d_def by (rule list_urls_registered)
  with run readback show ?thesis by (intro exI[of _ "s\<lparr>ss_db := d\<rparr>"]) simp
qed

definition lan_url :: station_url where
  "lan_url = \<lparr>scheme = ''prudp'', address = ''26.92.150.198'', port = 3074, params = Map.empty\<rparr>"

lemma sample_ips:
  "parse_ipv4 ''192.168.1.5'' = Some (192, 168, 1, 5)" "parse_ipv4 ''26.92.150.198'' = Some (26, 92, 150, 198)"
  by (simp_all add: parse_ipv4_def parse_octet_def parse_uint_def char_digit_def)

lemma registered_urls_witness:
  "\<exists>s' a. register_urls_rmc (\<lambda>_. []) (sample_client (Some 1000)) [lan_url] (sample_storage_state hosted_db) = (Inr (), s')
    \<and> list_urls 1000 (ss_db s') = [normalized_url (\<lambda>_. []) ''192.168.1.5'' lan_url]
    \<and> parse_station_url (normalized_url (\<lambda>_. []) ''192.168.1.5'' lan_url) = Inr (lan_url\<lparr>address := a\<rparr>)
    \<and> parse_ipv4 a = Some (192, 168, 1, 5)"
proof -
  have "show_ipv4 (192, 168, 1, 5) = ''192.168.1.5''"
    by (simp add: show_ipv4_def show_nat.simps digit_char_def char_of_eq_iff)
  then have obs: "observed_url ''192.168.1.5'' lan_url = lan_url\<lparr>address := ''192.168.1.5''\<rparr>"
    by (simp add: observed_url_def observed_private_ipv4_override_def sample_ips is_private_def lan_url_def)
  have "\<forall>x\<in>set [lan_url]. iteration_order ((\<lambda>_. []) (params x)) (params x) \<and> station_url_ok (observed_url ''192.168.1.5'' x)"
    unfolding list.set(2) by (simp add: obs) (simp add: lan_url_def iteration_order_def station_url_ok_def)
  note urls = this
  have c: "user_id (sample_client (Some 1000)) = Some 1000" "fst (ci_address (sample_client (Some 1000))) = ''192.168.1.5''"
    "unat (1000 :: u32) = 1000" "1000 \<in> set (user_ids (ss_db (sample_storage_state hosted_db)))"
    by (simp_all add: sample_client_def client_info_new_def sample_storage_state_def sample_ids)
  have lan: "address lan_url = ''26.92.150.198''" by (simp add: lan_url_def)
  have user: "unat (1000 :: u32) \<in> set (user_ids (ss_db (sample_storage_state hosted_db)))" by (simp only: c(3,4))
  obtain s' where s': "register_urls_rmc (\<lambda>_. []) (sample_client (Some 1000)) [lan_url] (sample_storage_state hosted_db) = (Inr (), s')"
    "list_urls (unat (1000 :: u32)) (ss_db s') = remdups (map (normalized_url (\<lambda>_. []) ''192.168.1.5'') [lan_url])"
    and x: "\<forall>x\<in>set [lan_url]. \<exists>a. parse_station_url (normalized_url (\<lambda>_. []) ''192.168.1.5'' x) = Inr (x\<lparr>address := a\<rparr>)
         \<and> (if (\<exists>ip. parse_ipv4 ''192.168.1.5'' = Some ip \<and> is_private ip) \<and> parse_ipv4 (address x) \<noteq> None
            then parse_ipv4 a = parse_ipv4 ''192.168.1.5'' else a = address x)"
    using registered_urls[OF c(1) user c(2)[symmetric] urls] by blast
  obtain a where a: "parse_station_url (normalized_url (\<lambda>_. []) ''192.168.1.5'' lan_url) = Inr (lan_url\<lparr>address := a\<rparr>)"
    and "if (\<exists>ip. parse_ipv4 ''192.168.1.5'' = Some ip \<and> is_private ip) \<and> parse_ipv4 (address lan_url) \<noteq> None
            then parse_ipv4 a = parse_ipv4 ''192.168.1.5'' else a = address lan_url"
    using bspec[OF x, of lan_url] by (simp only: list.set_intros) blast
  then have "parse_ipv4 a = Some (192, 168, 1, 5)"
    by (simp add: lan sample_ips is_private_def)
  with s' a show ?thesis by (intro exI[of _ s'] exI[of _ a]) (simp add: c(3))
qed

end
