(* ===== verification/Service_Protocols.thy ===== *)
theory Service_Protocols
  imports Session_Service
begin

text \<open>
  The other protocols of the secure server: challenges, clans, ladders, locale, player
  statistics, privileges, tracking, account management, the store and the content storage of
  \<open>dedicated-server/src\<close>, with the types and methods of \<open>sc_bl_protocols\<close>. Most answers are
  fixed; the account management reads the storage. \<open>None\<close> is a panic of the handler. The
  tracking feature is off, as in the default build.
\<close>

section \<open>Methods\<close>

text \<open>A method that looks at the client and its parameters and may panic.\<close>

definition plain_method ::
    "('a client_info \<Rightarrow> 'q \<Rightarrow> (rmc_error + 'p) option)
      \<Rightarrow> instant \<Rightarrow> u32 \<Rightarrow> storage_state \<Rightarrow> 'a client_info \<Rightarrow> 'q \<Rightarrow> 'a client_registry
      \<Rightarrow> (storage_state \<times> 'a client_info \<times> 'a client_registry \<times> datagram list \<times> (rmc_error + 'p)) option" where
  "plain_method f now sig w ci q reg = map_option (\<lambda>res. (w, ci, reg, [], res)) (f ci q)"

text \<open>The common shape of the fixed answers: a login, and then a value.\<close>

definition logged_in :: "'a client_info \<Rightarrow> 'p option \<Rightarrow> (rmc_error + 'p) option" where
  "logged_in ci x = (case login_required ci of Inl e \<Rightarrow> Some (Inl e) | Inr _ \<Rightarrow> map_option Inr x)"

definition rd_unit :: "unit reader" where "rd_unit = rreturn ()"
definition rd_i32 :: "u32 reader" where "rd_i32 = rd_u32"
definition rd_i16 :: "u16 reader" where "rd_i16 = rd_u16"

section \<open>Challenges and clans\<close>

record friend_challenge =
  fc_challenge_type :: u32
  fc_map_id :: u32
  fc_friend_to_beat_pid :: u32
  fc_value_on_hand :: u32
  fc_value_to_beat :: u32

definition wr_friend_challenge :: "friend_challenge \<Rightarrow> bytes" where
  "wr_friend_challenge c = le32 (fc_challenge_type c) @ le32 (fc_map_id c) @ le32 (fc_friend_to_beat_pid c)
     @ le32 (fc_value_on_hand c) @ le32 (fc_value_to_beat c)"

record clan_info =
  cl_clid :: u32
  cl_tag :: string
  cl_title :: string
  cl_motto :: string

definition rd_clan_info :: "clan_info reader" where
  "rd_clan_info = rmap (\<lambda>(i, t, n, m). \<lparr>cl_clid = i, cl_tag = t, cl_title = n, cl_motto = m\<rparr>)
     (rd_pair rd_u32 (rd_pair rd_string (rd_pair rd_string rd_string)))"

definition wr_clan_info :: "clan_info \<Rightarrow> bytes" where
  "wr_clan_info c = le32 (cl_clid c) @ wr_string (cl_tag c) @ wr_string (cl_title c) @ wr_string (cl_motto c)"

definition generate_friend_challenges :: "'a client_info \<Rightarrow> u32 \<times> u32 list \<Rightarrow> (rmc_error + friend_challenge list) option" where
  "generate_friend_challenges ci q = logged_in ci (Some [])"

definition get_clan_info_by_pid :: "'a client_info \<Rightarrow> u32 \<Rightarrow> (rmc_error + clan_info) option" where
  "get_clan_info_by_pid ci q =
    logged_in ci (Some \<lparr>cl_clid = - 1, cl_tag = ''TEST'', cl_title = ''FOO'', cl_motto = ''BAR''\<rparr>)"

definition generate_clan_challenges :: "'a client_info \<Rightarrow> u32 \<Rightarrow> (rmc_error + friend_challenge list) option" where
  "generate_clan_challenges ci q = logged_in ci (Some [])"

definition get_member_list_by_clid :: "'a client_info \<Rightarrow> u32 \<Rightarrow> (rmc_error + u32 list) option" where
  "get_member_list_by_clid ci q = logged_in ci (Some [1002])"

definition CHALLENGE_HELPER_PROTOCOL_ID :: u16 where "CHALLENGE_HELPER_PROTOCOL_ID = 105"

definition challenge_methods :: "(u32 \<times> (storage_state, 'a) rmc_handler) list" where
  "challenge_methods =
    [(1, unimplemented (rd_qlist rd_u32)),
     (2, rmc_method (rd_pair rd_u32 (rd_qlist rd_u32)) (wr_qlist wr_friend_challenge) (plain_method generate_friend_challenges)),
     (3, unimplemented rd_unit)]"

definition CLAN_HELPER_PROTOCOL_ID :: u16 where "CLAN_HELPER_PROTOCOL_ID = 106"

definition clan_methods :: "(u32 \<times> (storage_state, 'a) rmc_handler) list" where
  "clan_methods =
    [(1, unimplemented rd_clan_info),
     (2, unimplemented (rd_pair rd_u32 rd_u32)),
     (3, unimplemented rd_u32),
     (4, unimplemented rd_u32),
     (5, rmc_method rd_u32 wr_clan_info (plain_method get_clan_info_by_pid)),
     (6, unimplemented rd_u32),
     (7, unimplemented rd_u32),
     (8, rmc_method rd_u32 (wr_qlist le32) (plain_method get_member_list_by_clid)),
     (9, rmc_method rd_u32 (wr_qlist wr_friend_challenge) (plain_method generate_clan_challenges))]"

section \<open>Ladders, locale and privileges\<close>

text \<open>\<open>unix\<close> is the wall clock in seconds; the answer is cut to 32 bits.\<close>

definition get_unix_utc :: "nat \<Rightarrow> 'a client_info \<Rightarrow> unit \<Rightarrow> (rmc_error + u32) option" where
  "get_unix_utc unix ci q = logged_in ci (Some (of_nat unix))"

definition LADDER_HELPER_PROTOCOL_ID :: u16 where "LADDER_HELPER_PROTOCOL_ID = 107"

definition ladder_methods :: "(instant \<Rightarrow> nat) \<Rightarrow> (u32 \<times> (storage_state, 'a) rmc_handler) list" where
  "ladder_methods clock =
    [(1, rmc_method rd_unit le32 (\<lambda>now. plain_method (get_unix_utc (clock now)) now)),
     (2, unimplemented rd_unit),
     (3, unimplemented (rd_pair rd_u32 rd_u32)),
     (4, unimplemented rd_i32)]"

definition set_locale_code :: "'a client_info \<Rightarrow> string \<Rightarrow> (rmc_error + unit) option" where
  "set_locale_code ci q = logged_in ci (Some ())"

definition LOCALIZATION_PROTOCOL_ID :: u16 where "LOCALIZATION_PROTOCOL_ID = 39"

definition locale_methods :: "(u32 \<times> (storage_state, 'a) rmc_handler) list" where
  "locale_methods =
    [(1, unimplemented rd_unit),
     (2, rmc_method rd_string wr_unit (plain_method set_locale_code))]"

record privilege =
  pr_id :: u32
  pr_description :: string

definition wr_privilege :: "privilege \<Rightarrow> bytes" where
  "wr_privilege p = le32 (pr_id p) @ wr_string (pr_description p)"

text \<open>The map of one entry, as a list of its entries.\<close>

definition get_privileges :: "'a client_info \<Rightarrow> string \<Rightarrow> (rmc_error + (u32 \<times> privilege) list) option" where
  "get_privileges ci q = logged_in ci (Some [(1, \<lparr>pr_id = 1, pr_description = ''PlayOnline''\<rparr>)])"

definition PRIVILEGES_PROTOCOL_ID :: u16 where "PRIVILEGES_PROTOCOL_ID = 35"

definition privilege_methods :: "(u32 \<times> (storage_state, 'a) rmc_handler) list" where
  "privilege_methods =
    [(1, rmc_method rd_string (wr_hashmap le32 wr_privilege) (plain_method get_privileges)),
     (2, unimplemented (rd_pair rd_string rd_string)),
     (3, unimplemented (rd_pair rd_string (rd_pair rd_string (rd_qlist rd_u32)))),
     (4, unimplemented rd_u32),
     (5, unimplemented rd_unit),
     (6, unimplemented rd_string)]"

section \<open>Player statistics\<close>

definition rd_stat_update :: "(u32 \<times> u32 list \<times> property_variant list) reader" where
  "rd_stat_update = rd_pair rd_u32 (rd_pair (rd_qlist rd_u32) (rd_qlist rd_property_variant))"

definition rd_sort_criteria :: "(u32 \<times> u32) reader" where
  "rd_sort_criteria = rd_pair rd_u32 rd_u32"

definition rd_statboard_query :: "(u32 \<times> u32 list \<times> u32 \<times> u32 list \<times> (u32 \<times> u32) list) reader" where
  "rd_statboard_query = rd_pair rd_u32 (rd_pair (rd_qlist rd_u32) (rd_pair rd_u32
     (rd_pair (rd_qlist rd_u32) (rd_qlist rd_sort_criteria))))"

definition rd_leaderboard_query :: "(u32 \<times> u32 \<times> u32 \<times> u32 list) reader" where
  "rd_leaderboard_query = rd_pair rd_u32 (rd_pair rd_u32 (rd_pair rd_u32 (rd_qlist rd_u32)))"

definition rd_leaderboard_query2 :: "(u32 \<times> u32 \<times> u32 \<times> u32 list \<times> u32 list) reader" where
  "rd_leaderboard_query2 = rd_pair rd_u32 (rd_pair rd_u32 (rd_pair rd_u32 (rd_pair (rd_qlist rd_u32) (rd_qlist rd_u32))))"

definition rd_date_range :: "(date_time \<times> date_time) reader" where
  "rd_date_range = rd_pair rd_u64 rd_u64"

definition rd_statboard_history_query ::
    "(u32 list \<times> u32 \<times> u32 list \<times> u32 list \<times> result_range \<times> property_variant list
      \<times> (date_time \<times> date_time) list \<times> (u32 \<times> u32) list) reader" where
  "rd_statboard_history_query = rd_pair (rd_qlist rd_u32) (rd_pair rd_u32 (rd_pair (rd_qlist rd_u32)
     (rd_pair (rd_qlist rd_u32) (rd_pair rd_result_range (rd_pair (rd_qlist rd_property_variant)
     (rd_pair (rd_qlist rd_date_range) (rd_qlist rd_sort_criteria)))))))"

definition rd_statboard_history_aggregated_query ::
    "(u32 list \<times> u32 \<times> u32 list \<times> u32 list \<times> result_range \<times> property_variant list
      \<times> (date_time \<times> date_time) list \<times> (u32 \<times> u32) list \<times> u32) reader" where
  "rd_statboard_history_aggregated_query = rd_pair (rd_qlist rd_u32) (rd_pair rd_u32 (rd_pair (rd_qlist rd_u32)
     (rd_pair (rd_qlist rd_u32) (rd_pair rd_result_range (rd_pair (rd_qlist rd_property_variant)
     (rd_pair (rd_qlist rd_date_range) (rd_pair (rd_qlist rd_sort_criteria) rd_u32)))))))"

definition rd_leaderboard_history_query ::
    "(u32 list \<times> u32 \<times> u32 \<times> result_range \<times> (date_time \<times> date_time) list \<times> u32) reader" where
  "rd_leaderboard_history_query = rd_pair (rd_qlist rd_u32) (rd_pair rd_u32 (rd_pair rd_u32
     (rd_pair rd_result_range (rd_pair (rd_qlist rd_date_range) rd_u32))))"

definition rd_population_stat_query :: "(u32 \<times> u32 \<times> u32 list) reader" where
  "rd_population_stat_query = rd_pair rd_u32 (rd_pair rd_u32 (rd_qlist rd_u32))"

record player_stat_set =
  ps_player_pid :: u32
  ps_player_name :: string
  ps_submitted_time :: date_time
  ps_stats :: "property_variant list"

record statboard_result =
  sb_board_id :: u32
  sb_context_id :: u32
  sb_reset_frequency :: u32
  sb_player_stat_sets :: "player_stat_set list"
  sb_default_stat_values :: "property_variant list"

definition wr_player_stat_set :: "player_stat_set \<Rightarrow> bytes" where
  "wr_player_stat_set s = le32 (ps_player_pid s) @ wr_string (ps_player_name s) @ le64 (ps_submitted_time s)
     @ wr_qlist wr_property_variant (ps_stats s)"

definition wr_statboard_result :: "statboard_result \<Rightarrow> bytes" where
  "wr_statboard_result b = le32 (sb_board_id b) @ le32 (sb_context_id b) @ le32 (sb_reset_frequency b)
     @ wr_qlist wr_player_stat_set (sb_player_stat_sets b) @ wr_qlist wr_property_variant (sb_default_stat_values b)"

definition stat_value :: "u32 \<times> 64 word \<Rightarrow> property_variant" where
  "stat_value v = \<lparr>pv_id = fst v, pv_value = VI64 (snd v)\<rparr>"

definition player_board :: "u32 \<Rightarrow> statboard_result" where
  "player_board pid = \<lparr>sb_board_id = 1, sb_context_id = 0, sb_reset_frequency = 1,
     sb_player_stat_sets = [\<lparr>ps_player_pid = pid, ps_player_name = ''foobar'', ps_submitted_time = 0x1f96354343,
       ps_stats = map stat_value [(0x7e, 1), (0x7a, 1), (0x7c, 1), (0xc9, 1), (0xcc, 1), (0xcd, 1), (0xc8, 1),
         (122, 1337), (182, 1337)]\<rparr>],
     sb_default_stat_values = []\<rparr>"

text \<open>\<open>first().unwrap()\<close>: a request without a player panics.\<close>

definition read_stats_by_players ::
    "'a client_info \<Rightarrow> u32 list \<times> (u32 \<times> u32 list \<times> u32 \<times> u32 list \<times> (u32 \<times> u32) list) list
      \<Rightarrow> (rmc_error + statboard_result list) option" where
  "read_stats_by_players ci q =
    logged_in ci (case fst q of [] \<Rightarrow> None | pid # _ \<Rightarrow> Some [player_board pid])"

definition write_stats :: "'a client_info \<Rightarrow> (u32 \<times> u32 list \<times> property_variant list) list \<Rightarrow> (rmc_error + unit) option" where
  "write_stats ci q = logged_in ci (Some ())"

definition PLAYER_STATS_PROTOCOL_ID :: u16 where "PLAYER_STATS_PROTOCOL_ID = 55"

definition stats_methods :: "(u32 \<times> (storage_state, 'a) rmc_handler) list" where
  "stats_methods =
    [(1, rmc_method (rd_qlist rd_stat_update) wr_unit (plain_method write_stats)),
     (2, rmc_method (rd_pair (rd_qlist rd_u32) (rd_qlist rd_statboard_query)) (wr_qlist wr_statboard_result)
        (plain_method read_stats_by_players)),
     (3, unimplemented (rd_pair rd_u32 (rd_pair rd_u32 (rd_qlist rd_leaderboard_query)))),
     (4, unimplemented (rd_pair rd_u32 (rd_pair rd_u32 (rd_qlist rd_leaderboard_query)))),
     (5, unimplemented (rd_pair (rd_qlist rd_u32) (rd_qlist rd_leaderboard_query))),
     (6, unimplemented (rd_qlist rd_statboard_history_query)),
     (7, unimplemented (rd_qlist rd_leaderboard_history_query)),
     (8, unimplemented (rd_qlist rd_statboard_history_aggregated_query)),
     (9, unimplemented (rd_pair rd_u32 rd_u32)),
     (10, unimplemented (rd_pair rd_u32 (rd_pair rd_u32 (rd_qlist rd_leaderboard_query2)))),
     (11, unimplemented (rd_pair rd_u32 (rd_pair rd_u32 (rd_qlist rd_leaderboard_query2)))),
     (12, unimplemented (rd_qlist rd_leaderboard_query2)),
     (13, unimplemented (rd_qlist rd_population_stat_query))]"

section \<open>Tracking\<close>

definition rd_tracking_tag :: "(u32 \<times> string \<times> string \<times> u32 \<times> string) reader" where
  "rd_tracking_tag = rd_pair rd_u32 (rd_pair rd_string (rd_pair rd_string (rd_pair rd_u32 rd_string)))"

definition get_configuration :: "'a client_info \<Rightarrow> unit \<Rightarrow> (rmc_error + string list) option" where
  "get_configuration ci q = logged_in ci (Some [])"

definition send_tags :: "'a client_info \<Rightarrow> (u32 \<times> string \<times> string \<times> u32 \<times> string) list \<Rightarrow> (rmc_error + unit) option" where
  "send_tags ci q = logged_in ci (Some ())"

definition TRACKING_PROTOCOL_3_ID :: u16 where "TRACKING_PROTOCOL_3_ID = 36"

definition tracking_methods :: "(u32 \<times> (storage_state, 'a) rmc_handler) list" where
  "tracking_methods =
    [(1, unimplemented (rd_pair rd_u32 (rd_pair rd_string (rd_pair rd_string rd_u32)))),
     (2, unimplemented rd_tracking_tag),
     (3, unimplemented rd_u32),
     (4, rmc_method rd_unit (wr_vec wr_string) (plain_method get_configuration)),
     (5, rmc_method (rd_vec rd_tracking_tag) wr_unit (plain_method send_tags))]"

definition get_tracking_user_group :: "'a client_info \<Rightarrow> u32 \<Rightarrow> (rmc_error + u32) option" where
  "get_tracking_user_group ci q = logged_in ci (Some 0)"

definition get_tracking_user_group_tags :: "'a client_info \<Rightarrow> u32 \<Rightarrow> (rmc_error + string list) option" where
  "get_tracking_user_group_tags ci q = logged_in ci (Some [])"

definition TRACKING_EXTENSION_PROTOCOL_ID :: u16 where "TRACKING_EXTENSION_PROTOCOL_ID = 1001"

definition tracking_ext_methods :: "(u32 \<times> (storage_state, 'a) rmc_handler) list" where
  "tracking_ext_methods =
    [(1, rmc_method rd_u32 le32 (plain_method get_tracking_user_group)),
     (2, rmc_method rd_u32 (wr_vec wr_string) (plain_method get_tracking_user_group_tags))]"

end
