(* ===== verification/Account_Services.thy ===== *)
theory Account_Services
  imports Service_Protocols
begin

text \<open>
  Account lookups (\<open>ubi_acc_mgmt.rs\<close>), the store (\<open>uplay_win.rs\<close>), content storage
  (\<open>user_storage.rs\<close>), the hand-written protocols of the game's overlord service
  (\<open>overlord_core.rs\<close>, \<open>overlord_news.rs\<close>, \<open>overlord_challenge.rs\<close>) and the method tables of
  the secure connection and NAT traversal. What a file under \<open>data/\<close> holds after parsing is
  an argument: \<open>None\<close> when it is missing or does not parse.
\<close>

section \<open>Account management\<close>

text \<open>\<open>LookupPrincipalIds\<close> and its converse: ids without a user are left out.\<close>

definition lookup_principal_ids :: "'a client_info \<Rightarrow> string list \<Rightarrow> (string \<rightharpoonup> u32) service" where
  "lookup_principal_ids ci ids =
    svc_bind (svc_login ci) (\<lambda>_.
    if ids = [] then svc_return Map.empty
    else svc_store (tread (\<lambda>db. insert_all (List.map_filter
      (\<lambda>i. map_option (\<lambda>uid. (i, of_nat uid)) (find_user_id_by_ubi_id i db)) ids))))"

definition lookup_ubi_account_ids_by_pids :: "'a client_info \<Rightarrow> u32 list \<Rightarrow> (u32 \<rightharpoonup> string) service" where
  "lookup_ubi_account_ids_by_pids ci pids =
    svc_bind (svc_login ci) (\<lambda>_.
    if pids = [] then svc_return Map.empty
    else svc_store (tread (\<lambda>db. insert_all (List.map_filter
      (\<lambda>p. map_option (Pair p) (find_ubi_id_by_user_id (unat p) db)) pids))))"

record validation_failure_reason =
  vf_validation_id :: u32
  vf_description :: string

definition wr_validation_failure_reason :: "validation_failure_reason \<Rightarrow> bytes" where
  "wr_validation_failure_reason r = le32 (vf_validation_id r) @ wr_string (vf_description r)"

definition has_accepted_latest_tos :: "'a client_info \<Rightarrow> unit \<Rightarrow> (rmc_error + bool \<times> validation_failure_reason list) option" where
  "has_accepted_latest_tos ci q = logged_in ci (Some (True, []))"

definition UBI_ACCOUNT_MANAGEMENT_PROTOCOL_ID :: u16 where "UBI_ACCOUNT_MANAGEMENT_PROTOCOL_ID = 29"

text \<open>The iteration orders of the two maps are arguments.\<close>

definition account_methods ::
    "(instant \<Rightarrow> nat) \<Rightarrow> ((string \<rightharpoonup> u32) \<Rightarrow> (string \<times> u32) list) \<Rightarrow> ((u32 \<rightharpoonup> string) \<Rightarrow> (u32 \<times> string) list)
      \<Rightarrow> (u32 \<times> (storage_state, 'a) rmc_handler) list" where
  "account_methods clock pid_order id_order =
    [(1, unimplemented rd_unit),
     (2, unimplemented rd_unit),
     (3, unimplemented rd_unit),
     (4, unimplemented (rd_pair rd_string rd_string)),
     (5, unimplemented (rd_pair rd_string (rd_pair rd_string rd_bool))),
     (6, unimplemented rd_string),
     (7, unimplemented (rd_pair rd_string rd_string)),
     (8, unimplemented rd_string),
     (9, unimplemented rd_string),
     (10, unimplemented rd_string),
     (11, rmc_method (rd_vec rd_string) (wr_hashmap wr_string le32 \<circ> pid_order)
        (svc_method clock (\<lambda>_. lookup_principal_ids))),
     (12, rmc_method (rd_vec rd_u32) (wr_hashmap le32 wr_string \<circ> id_order)
        (svc_method clock (\<lambda>_. lookup_ubi_account_ids_by_pids))),
     (13, unimplemented (rd_vec rd_string)),
     (14, unimplemented (rd_vec rd_string)),
     (15, unimplemented rd_string),
     (16, unimplemented (rd_vec rd_string)),
     (17, unimplemented (rd_vec rd_string)),
     (18, unimplemented (rd_vec rd_string)),
     (19, unimplemented (rd_vec rd_string)),
     (20, unimplemented (rd_vec rd_string)),
     (21, unimplemented (rd_pair rd_string (rd_pair rd_string rd_bool))),
     (22, rmc_method rd_unit (wr_pair wr_bool (wr_vec wr_validation_failure_reason)) (plain_method has_accepted_latest_tos)),
     (23, unimplemented rd_unit)]"

section \<open>The store\<close>

record uplay_action_platform =
  ap_platform_code :: string
  ap_completed :: bool
  ap_specific_key :: string

record uplay_action =
  ua_code :: string
  ua_name :: string
  ua_description :: string
  ua_value :: u32
  ua_game_code :: string
  ua_platforms :: "uplay_action_platform list"

record uplay_reward_platform =
  rp_platform_code :: string
  rp_purchased :: bool

record uplay_reward =
  ur_code :: string
  ur_name :: string
  ur_description :: string
  ur_value :: u32
  ur_reward_type_name :: string
  ur_game_code :: string
  ur_platforms :: "uplay_reward_platform list"

definition wr_uplay_action_platform :: "uplay_action_platform \<Rightarrow> bytes" where
  "wr_uplay_action_platform p = wr_string (ap_platform_code p) @ wr_bool (ap_completed p) @ wr_string (ap_specific_key p)"

definition wr_uplay_action :: "uplay_action \<Rightarrow> bytes" where
  "wr_uplay_action a = wr_string (ua_code a) @ wr_string (ua_name a) @ wr_string (ua_description a) @ le32 (ua_value a)
     @ wr_string (ua_game_code a) @ wr_qlist wr_uplay_action_platform (ua_platforms a)"

definition wr_uplay_reward_platform :: "uplay_reward_platform \<Rightarrow> bytes" where
  "wr_uplay_reward_platform p = wr_string (rp_platform_code p) @ wr_bool (rp_purchased p)"

definition wr_uplay_reward :: "uplay_reward \<Rightarrow> bytes" where
  "wr_uplay_reward r = wr_string (ur_code r) @ wr_string (ur_name r) @ wr_string (ur_description r) @ le32 (ur_value r)
     @ wr_string (ur_reward_type_name r) @ wr_string (ur_game_code r) @ wr_qlist wr_uplay_reward_platform (ur_platforms r)"

text \<open>Rows, a sort expression, culture, platform and game.\<close>

definition rd_uplay_page :: "(u32 \<times> u32 \<times> string \<times> string \<times> string \<times> string) reader" where
  "rd_uplay_page = rd_pair rd_i32 (rd_pair rd_i32 (rd_pair rd_string (rd_pair rd_string (rd_pair rd_string rd_string))))"

definition uplay_welcome :: "'a client_info \<Rightarrow> string \<times> string \<times> string \<Rightarrow> (rmc_error + uplay_action list) option" where
  "uplay_welcome ci q = logged_in ci (Some [])"

definition get_actions_completed ::
    "'a client_info \<Rightarrow> u32 \<times> u32 \<times> string \<times> string \<times> string \<times> string \<Rightarrow> (rmc_error + uplay_action list) option" where
  "get_actions_completed ci q = logged_in ci (Some [])"

definition get_rewards_purchased ::
    "'a client_info \<Rightarrow> u32 \<times> u32 \<times> string \<times> string \<times> string \<times> string \<Rightarrow> (rmc_error + uplay_reward list) option" where
  "get_rewards_purchased ci q = logged_in ci (Some [])"

definition UPLAY_WIN_PROTOCOL_ID :: u16 where "UPLAY_WIN_PROTOCOL_ID = 49"

definition uplay_methods :: "(u32 \<times> (storage_state, 'a) rmc_handler) list" where
  "uplay_methods =
    [(1, unimplemented rd_uplay_page),
     (2, rmc_method rd_uplay_page (wr_qlist wr_uplay_action) (plain_method get_actions_completed)),
     (3, unimplemented (rd_pair rd_string rd_string)),
     (4, unimplemented (rd_pair rd_string rd_string)),
     (5, unimplemented rd_uplay_page),
     (6, rmc_method rd_uplay_page (wr_qlist wr_uplay_reward) (plain_method get_rewards_purchased)),
     (7, rmc_method (rd_pair rd_string (rd_pair rd_string rd_string)) (wr_qlist wr_uplay_action) (plain_method uplay_welcome)),
     (8, unimplemented (rd_pair rd_string (rd_pair rd_string (rd_pair rd_string rd_string)))),
     (9, unimplemented (rd_pair (rd_qlist rd_string) (rd_pair rd_string (rd_pair rd_string rd_string)))),
     (10, unimplemented rd_unit),
     (11, unimplemented rd_string),
     (12, unimplemented (rd_pair rd_string (rd_pair rd_string (rd_pair rd_string rd_string)))),
     (13, unimplemented (rd_pair rd_string rd_string))]"

section \<open>Content storage\<close>

text \<open>A \<open>ContentProperty\<close> is laid out as a \<open>PropertyVariant\<close>.\<close>

record user_content_key =
  uk_type_id :: u32
  uk_content_id :: u64

record user_content =
  uc_key :: user_content_key
  uc_pid :: u32
  uc_properties :: "property_variant list"

record user_content_url =
  cu_protocol :: string
  cu_host :: string
  cu_path :: string

definition rd_content_key :: "user_content_key reader" where
  "rd_content_key = rmap (\<lambda>(t, i). \<lparr>uk_type_id = t, uk_content_id = i\<rparr>) (rd_pair rd_u32 rd_u64)"

definition wr_content_key :: "user_content_key \<Rightarrow> bytes" where
  "wr_content_key k = le32 (uk_type_id k) @ le64 (uk_content_id k)"

definition wr_user_content :: "user_content \<Rightarrow> bytes" where
  "wr_user_content c = wr_content_key (uc_key c) @ le32 (uc_pid c) @ wr_qlist wr_property_variant (uc_properties c)"

definition wr_content_url :: "user_content_url \<Rightarrow> bytes" where
  "wr_content_url u = wr_string (cu_protocol u) @ wr_string (cu_host u) @ wr_string (cu_path u)"

definition rd_storage_query :: "(u32 \<times> u32 \<times> result_range \<times> property_variant list) reader" where
  "rd_storage_query = rd_pair rd_u32 (rd_pair rd_u32 (rd_pair rd_result_range (rd_qlist rd_property_variant)))"

definition search_contents ::
    "'a client_info \<Rightarrow> u32 \<times> u32 \<times> result_range \<times> property_variant list \<Rightarrow> (rmc_error + user_content list) option" where
  "search_contents ci q = logged_in ci (Some (if fst q = 0x80000002
     then [\<lparr>uc_key = \<lparr>uk_type_id = 0x80000002, uk_content_id = 1\<rparr>, uc_pid = 0x45f,
       uc_properties = [\<lparr>pv_id = 6, pv_value = VI64 0x274\<rparr>, \<lparr>pv_id = 4, pv_value = VDateTime 0x1f768edbd6\<rparr>,
         \<lparr>pv_id = 5, pv_value = VDateTime 0x1f768f13f9\<rparr>,
         \<lparr>pv_id = 7, pv_value = VString ''A6E32CFD0C2B2CFFE2D0C785830B7C49''\<rparr>]\<rparr>]
     else []))"

text \<open>A missing \<open>storage_host\<close> or \<open>storage_path\<close> in the settings panics.\<close>

definition get_content_url :: "quazal_context \<Rightarrow> 'a client_info \<Rightarrow> user_content_key \<Rightarrow> (rmc_error + user_content_url) option" where
  "get_content_url ctx ci q = logged_in ci
    (case (ctx_settings ctx ''storage_host'', ctx_settings ctx ''storage_path'') of
       (Some host, Some path) \<Rightarrow> Some \<lparr>cu_protocol =
           (case ctx_settings ctx ''content_protocol'' of None \<Rightarrow> ''http://'' | Some p \<Rightarrow> p),
         cu_host = host, cu_path = path\<rparr>
     | _ \<Rightarrow> None)"

definition USER_STORAGE_PROTOCOL_ID :: u16 where "USER_STORAGE_PROTOCOL_ID = 53"

definition storage_methods :: "quazal_context \<Rightarrow> (u32 \<times> (storage_state, 'a) rmc_handler) list" where
  "storage_methods ctx =
    [(1, rmc_method rd_storage_query (wr_qlist wr_user_content) (plain_method search_contents)),
     (2, unimplemented rd_storage_query),
     (3, unimplemented rd_content_key),
     (4, unimplemented (rd_qlist rd_property_variant)),
     (5, unimplemented (rd_pair (rd_qlist rd_property_variant) (rd_vec rd_u8))),
     (6, unimplemented (rd_pair (rd_qlist rd_property_variant) (rd_pair rd_u32 rd_content_key))),
     (7, unimplemented (rd_pair rd_u64 rd_bool)),
     (8, unimplemented rd_content_key),
     (9, rmc_method rd_content_key wr_content_url (plain_method (get_content_url ctx))),
     (10, unimplemented rd_u32),
     (11, unimplemented rd_content_key),
     (12, unimplemented rd_content_key),
     (13, unimplemented rd_content_key),
     (14, unimplemented rd_content_key),
     (15, unimplemented (rd_qlist rd_u32)),
     (16, unimplemented rd_content_key),
     (17, unimplemented rd_content_key),
     (18, unimplemented (rd_pair rd_content_key rd_string)),
     (19, unimplemented rd_content_key),
     (20, unimplemented (rd_pair rd_content_key (rd_pair rd_u16 rd_i64))),
     (21, unimplemented rd_u32),
     (22, unimplemented rd_content_key),
     (23, unimplemented rd_content_key),
     (24, unimplemented (rd_pair rd_content_key (rd_qlist rd_u32))),
     (25, unimplemented (rd_pair (rd_qlist rd_u32) rd_storage_query)),
     (26, unimplemented (rd_pair (rd_qlist rd_u32) rd_storage_query))]"

section \<open>The overlord protocols\<close>

text \<open>These check the login first, also for methods they do not know.\<close>

definition overlord_handle ::
    "(request \<Rightarrow> rmc_error + bytes) \<Rightarrow> (storage_state, 'a) rmc_handler" where
  "overlord_handle f now sig w ci r reg =
    Some (w, ci, reg, [], (case login_required ci of Inl e \<Rightarrow> Inl e | Inr _ \<Rightarrow> f r))"

definition overlord_config :: "(string \<times> variant) list" where
  "overlord_config =
    [(''VER_SERVER_STAGE'', VI64 10),
     (''2593515025'', VI64 1),
     (''2626349757'', VI64 1),
     (''NC_CONNECTION_TICKET_TIMEOUT'', VF64 0x4024000000000000),
     (''NC_CONNECTION_HANDSHAKING_TIMEOUT'', VF64 0x4014000000000000),
     (''314486871'', VI64 1),
     (''3759634546'', VI64 1),
     (''NC_MAIN_PORT_RANGE'', VI64 32),
     (''2449304206'', VI64 1),
     (''OVERLORD_VERSION'', VString ''0.8.0.0''),
     (''2685611256'', VI64 1),
     (''3376331533'', VI64 1),
     (''VER_SERVER_CODE'', VI64 3007),
     (''FILESERVICE_UNLOCKS_UPLOAD_ENABLED'', VI64 1),
     (''2739184075'', VI64 1),
     (''2942435614'', VI64 1),
     (''SN_FRIENDCHALLENGES_MAX_READ_INTERVAL'', VF64 0x408C200000000000),
     (''NC_CONNECTION_JOIN_TIMEOUT'', VF64 0x402E000000000000),
     (''1027449109'', VI64 1),
     (''4175756708'', VI64 1),
     (''NC_CONNECTION_INACTIVITY_THRESHOLD'', VF64 0x4020000000000000),
     (''FILESERVICE_ADMIN_RDVID'', VI64 1119),
     (''SN_WEEKLYCHALLENGES_ENABLE'', VI64 1),
     (''1597953054'', VI64 1),
     (''2156388390'', VI64 1),
     (''3785106560'', VI64 1),
     (''STATS_WRITE_INTERVAL'', VF64 0x3FF0000000000000),
     (''3835530207'', VI64 1),
     (''1492891464'', VI64 1),
     (''SN_DAILYCHALLENGES_ENABLE'', VI64 1),
     (''2505766166'', VI64 1),
     (''11866509'', VI64 1),
     (''SN_FRIENDCHALLENGES_ENABLE'', VI64 1),
     (''FILESERVICE_UNLOCKS_UPLOAD_INTERVAL'', VF64 0x40AC200000000000),
     (''2524360986'', VI64 1),
     (''721797971'', VI64 1),
     (''1525666223'', VI64 1),
     (''COMMUNITYEVENT_DOUBLECASH'', VI64 0),
     (''UPLAY_MAX_RANK_LIMITED_MODE'', VI64 5),
     (''SN_GONEDARKCHALLENGES_ENABLE'', VI64 1),
     (''_OSDK_VERSION'', VString ''1.4.16.32918''),
     (''NC_MAIN_PORT'', VI64 13000),
     (''COMMUNITYEVENT_DOUBLEXP'', VI64 0),
     (''3804368594'', VI64 1),
     (''NC_CONNECTION_CLOSING_TIMEOUT'', VF64 0x4000000000000000),
     (''NC_CONNECTION_ESTABLISHED_TIMEOUT'', VF64 0x4024000000000000)]"

definition overlord_core :: "request \<Rightarrow> rmc_error + bytes" where
  "overlord_core r = (if req_method_id r \<noteq> 1 then Inl UnknownMethod
     else Inr (wr_vec (wr_pair wr_string wr_variant) overlord_config))"

record news_item =
  ni_maybe_id :: u32
  ni_unk2 :: u32
  ni_unk3 :: u32
  ni_unk4 :: u32
  ni_unk5 :: string
  ni_unk6 :: date_time
  ni_unk7 :: date_time
  ni_expiration_time :: date_time
  ni_title :: string
  ni_link :: string
  ni_description :: string

definition wr_news_item :: "news_item \<Rightarrow> bytes" where
  "wr_news_item n = le32 (ni_maybe_id n) @ le32 (ni_unk2 n) @ le32 (ni_unk3 n) @ le32 (ni_unk4 n)
     @ wr_string (ni_unk5 n) @ le64 (ni_unk6 n) @ le64 (ni_unk7 n) @ le64 (ni_expiration_time n)
     @ wr_string (ni_title n) @ wr_string (ni_link n) @ wr_string (ni_description n)"

definition default_news :: "news_item list" where
  "default_news = [\<lparr>ni_maybe_id = 195389, ni_unk2 = 9, ni_unk3 = 2, ni_unk4 = 2, ni_unk5 = ''Quazal Rendez-Vous'',
     ni_unk6 = 0, ni_unk7 = 0, ni_expiration_time = 0, ni_title = ''WELCOME BACK!'',
     ni_link = ''https://github.com/unixoide/5th-echelon'', ni_description = ''5th Echelon is here!''\<rparr>]"

definition overlord_news :: "news_item list option \<Rightarrow> request \<Rightarrow> rmc_error + bytes" where
  "overlord_news file r = (if req_method_id r = 1
     then Inr (wr_vec wr_news_item (case file of None \<Rightarrow> default_news | Some news \<Rightarrow> news))
     else Inl UnknownMethod)"

record challenge =
  ch_unk1 :: u32
  ch_unk2 :: string
  ch_some_xml :: string
  ch_unk4 :: u32
  ch_unk5 :: u32
  ch_unk6 :: u32
  ch_unk7 :: u32
  ch_unk8 :: bool
  ch_unk9 :: date_time
  ch_unk10 :: date_time
  ch_unk11 :: string
  ch_unk12 :: string
  ch_unk13 :: string
  ch_unk14 :: "(string \<times> variant) list"
  ch_unk15 :: "(string \<times> variant) list"
  ch_unk16 :: "(string \<times> variant) list"
  ch_unk17 :: u32
  ch_unk18 :: date_time
  ch_unk19 :: "(string \<times> variant) list"

text \<open>The four maps are lists of their entries in iteration order.\<close>

definition wr_variants :: "(string \<times> variant) list \<Rightarrow> bytes" where
  "wr_variants = wr_hashmap wr_string wr_variant"

definition wr_challenge :: "challenge \<Rightarrow> bytes" where
  "wr_challenge c = le32 (ch_unk1 c) @ wr_string (ch_unk2 c) @ wr_string (ch_some_xml c) @ le32 (ch_unk4 c)
     @ le32 (ch_unk5 c) @ le32 (ch_unk6 c) @ le32 (ch_unk7 c) @ wr_bool (ch_unk8 c) @ le64 (ch_unk9 c)
     @ le64 (ch_unk10 c) @ wr_string (ch_unk11 c) @ wr_string (ch_unk12 c) @ wr_string (ch_unk13 c)
     @ wr_variants (ch_unk14 c) @ wr_variants (ch_unk15 c) @ wr_variants (ch_unk16 c) @ le32 (ch_unk17 c)
     @ le64 (ch_unk18 c) @ wr_variants (ch_unk19 c)"

definition challenge_xml :: string where
  "challenge_xml =
     ''<Challenge Name=\"LocID_SNN_ReminderGoneDark_20\" Desc=\"LocID_SNDES_ReminderGoneDark_20\" Guid=\"160200\" ShortDesc=\"LocID_SNSD_ReminderGoneDark_20\" Category=\"OnlineChallengeGoneDarkHeader\">''
     @ ''<GoneDark id=\"160200\" PosX=\"262\" PosY=\"397\" Resource=\"GD_Grim_004\" title=\"LocID_C_INT_20_Title\" loc=\"LocID_C_INT_20_Loc_0\" desc=\"LocID_C_INT_20_Desc_1\" />''
     @ ''<Definition>''
     @ ''<GameEvent>''
     @ ''<Event>''
     @ ''<GoneDarkUI>''
     @ ''<ID Op=\"Equal\" Value=\"160200\" />''
     @ ''</GoneDarkUI>''
     @ ''</Event>''
     @ ''</GameEvent>''
     @ ''</Definition>''
     @ ''<StepReward Count=\"123\">''
     @ ''<UnlockChallenge>''
     @ ''<ID val=\"160201\" />''
     @ ''</UnlockChallenge>''
     @ ''</StepReward>''
     @ ''</Challenge>''"

text \<open>\<open>sp\<close> is the iteration order of the map with the keys s and p.\<close>

definition default_challenges :: "((string \<times> variant) list \<Rightarrow> (string \<times> variant) list) \<Rightarrow> challenge list" where
  "default_challenges sp = [\<lparr>ch_unk1 = 160200, ch_unk2 = ''{}'', ch_some_xml = challenge_xml, ch_unk4 = 0, ch_unk5 = 0,
     ch_unk6 = 0, ch_unk7 = 1, ch_unk8 = False, ch_unk9 = 0, ch_unk10 = 0xFFFFFFFFFFFFFFFF, ch_unk11 = ''{}'',
     ch_unk12 = ''{}'', ch_unk13 = ''{}'', ch_unk14 = [], ch_unk15 = sp [(''s'', VI64 1), (''p'', VI64 123)],
     ch_unk16 = [], ch_unk17 = 2, ch_unk18 = 0xFFFFFFFFFFFFFFFF, ch_unk19 = []\<rparr>]"

definition overlord_challenge ::
    "((string \<times> variant) list \<Rightarrow> (string \<times> variant) list) \<Rightarrow> challenge list option \<Rightarrow> request \<Rightarrow> rmc_error + bytes" where
  "overlord_challenge sp file r =
    (if req_method_id r = 1
     then (case rd_string (req_parameters r) of
             Inl e \<Rightarrow> Inl (FromStream e)
           | Inr _ \<Rightarrow> Inr (wr_vec wr_challenge (case file of None \<Rightarrow> default_challenges sp | Some cs \<Rightarrow> cs)))
     else Inl UnknownMethod)"

definition OVERLORD_NEWS_ID :: u16 where "OVERLORD_NEWS_ID = 5002"
definition OVERLORD_CORE_ID :: u16 where "OVERLORD_CORE_ID = 5003"
definition OVERLORD_CHALLENGE_ID :: u16 where "OVERLORD_CHALLENGE_ID = 5007"

section \<open>Secure connection and NAT traversal\<close>

definition wr_register_response ::
    "((string \<rightharpoonup> string) \<Rightarrow> (string \<times> string) list) \<Rightarrow> register_response \<Rightarrow> bytes" where
  "wr_register_response order r = wr_qresult (rr_return_value r) @ le32 (rr_pid_connection_id r)
     @ wr_station_url (order (params (rr_url_public r))) (rr_url_public r)"

definition SECURE_CONNECTION_PROTOCOL_ID :: u16 where "SECURE_CONNECTION_PROTOCOL_ID = 11"

definition secure_methods ::
    "((string \<rightharpoonup> string) \<Rightarrow> (string \<times> string) list) \<Rightarrow> (u32 \<times> (storage_state, 'a) rmc_handler) list" where
  "secure_methods order =
    [(1, rmc_method (rd_vec rd_station_url) (wr_register_response order) (plain_method (\<lambda>ci _. secure_register ci))),
     (2, unimplemented (rd_pair rd_u32 rd_u32)),
     (3, unimplemented (rd_pair rd_u32 rd_u32)),
     (4, rmc_method (rd_pair (rd_vec rd_station_url) rd_any) (wr_register_response order)
        (plain_method (\<lambda>ci _. secure_register_ex ci)))]"

text \<open>The URL to probe is handed on in its encoded form.\<close>

definition rd_probe_request ::
    "((string \<rightharpoonup> string) \<Rightarrow> (string \<times> string) list) \<Rightarrow> (station_url list \<times> bytes) reader" where
  "rd_probe_request order = rd_pair (rd_qlist rd_station_url)
     (rmap (\<lambda>u. wr_station_url (order (params u)) u) rd_station_url)"

definition nat_methods ::
    "quazal_context \<Rightarrow> zlib \<Rightarrow> ((string \<rightharpoonup> string) \<Rightarrow> (string \<times> string) list) \<Rightarrow> (instant \<Rightarrow> nat \<Rightarrow> u32)
      \<Rightarrow> (u32 \<times> (storage_state, 'a) rmc_handler) list" where
  "nat_methods ctx z order call_ids =
    [(1, unimplemented (rd_qlist rd_station_url)),
     (2, unimplemented rd_station_url),
     (3, rmc_method (rd_probe_request order) wr_unit
        (\<lambda>now. request_probe_initiation_ext ctx z (call_ids now) now))]"

end
