(* ===== verification/Ticket_Granting.thy ===== *)
theory Ticket_Granting
  imports Session_Service Kerberos Storage_Users
begin

text \<open>
  The ticket granting protocol: the handlers of \<open>dedicated-server/src/ticket.rs\<close>, the types and
  methods of \<open>authentication_foundation/ticket_granting_protocol.rs\<close>. The random session key
  and the nonce of the sealed part are arguments of a call; the password hash library is
  \<open>verify\<close>. A handler returns \<open>None\<close> where the code panics: a class the registry does not
  know, a connection URL that does not parse, a key the cipher refuses.
\<close>

section \<open>Types\<close>

definition SERVER_PID :: u32 where "SERVER_PID = 0x1000"

record rv_connection_data =
  url_regular_protocols :: station_url
  lst_special_protocols :: bytes
  url_special_protocols :: station_url

record login_response =
  lr_return_value :: qresult
  lr_pid_principal :: u32
  lr_pbuf_response :: bytes
  lr_p_connection_data :: rv_connection_data
  lr_str_return_msg :: string

record request_ticket_response =
  rt_return_value :: qresult
  rt_buf_response :: bytes

record login_custom_data =
  ld_user_name :: string
  ld_online_key :: string
  ld_password :: string

text \<open>\<open>Data\<close>, the first field of the custom data, has no bytes.\<close>

definition rd_login_custom_data :: "login_custom_data reader" where
  "rd_login_custom_data = rmap (\<lambda>(n, k, p). \<lparr>ld_user_name = n, ld_online_key = k, ld_password = p\<rparr>)
     (rd_pair rd_string (rd_pair rd_string rd_string))"

definition station_url_default :: station_url where
  "station_url_default = \<lparr>scheme = '''', address = '''', port = 0, params = Map.empty\<rparr>"

section \<open>Helpers of the handlers\<close>

text \<open>A session that cannot be saved is only logged; the key is used all the same.\<close>

definition get_session_key :: "bytes \<Rightarrow> u32 \<Rightarrow> db \<Rightarrow> db" where
  "get_session_key key uid db = (case create_user_session (unat uid) key db of Inl _ \<Rightarrow> db | Inr (_, d) \<Rightarrow> d)"

definition get_pid_by_username :: "string \<Rightarrow> db \<Rightarrow> u32 option" where
  "get_pid_by_username name db = map_option of_nat (find_user_id_by_name name db)"

definition get_password_by_pid :: "u32 \<Rightarrow> db \<Rightarrow> string option" where
  "get_password_by_pid pid db = find_password_for_user (unat pid) db"

definition get_password_by_username :: "string \<Rightarrow> db \<Rightarrow> string option" where
  "get_password_by_username name db =
    Option.bind (get_pid_by_username name db) (\<lambda>pid. get_password_by_pid pid db)"

text \<open>The handler's own \<open>login\<close>: a failed query is an internal error, a refused login is \<open>None\<close>.\<close>

definition ticket_login_user ::
    "(string \<Rightarrow> string \<Rightarrow> bool option) \<Rightarrow> nat \<Rightarrow> string \<Rightarrow> string \<Rightarrow> db \<Rightarrow> (rmc_error + u32 option) \<times> db" where
  "ticket_login_user verify now username password db =
    (case login_user verify now username password db of
       Inl _ \<Rightarrow> (Inl InternalError, db)
     | Inr (Inl _, d) \<Rightarrow> (Inr None, d)
     | Inr (Inr uid, d) \<Rightarrow> (Inr (Some (of_nat uid)), d))"

definition connection_url_text :: "quazal_context \<Rightarrow> u32 \<Rightarrow> string" where
  "connection_url_text ctx pid =
    (let (start, a, sid) = (case secure_server_addr ctx of
         None \<Rightarrow> (''prudp:/address='', ctx_listen ctx, ''2'')
       | Some a \<Rightarrow> (''prudps:/address='', a, ''1''))
     in start @ fst a @ '';port='' @ show_nat (unat (snd a)) @ '';CID=1;PID='' @ show_nat (unat pid)
       @ '';sid='' @ sid @ '';stream=3;type=2'')"

definition get_connection_data :: "quazal_context \<Rightarrow> u32 \<Rightarrow> rv_connection_data option" where
  "get_connection_data ctx pid =
    (case parse_station_url (connection_url_text ctx pid) of
       Inl _ \<Rightarrow> None
     | Inr u \<Rightarrow> Some \<lparr>url_regular_protocols = u, lst_special_protocols = [],
         url_special_protocols = station_url_default\<rparr>)"

definition new_ticket :: "bytes \<Rightarrow> u32 \<Rightarrow> u32 \<Rightarrow> ticket" where
  "new_ticket key server_pid uid = \<lparr>tk_session_key = key, tk_pid = server_pid,
     tk_internal = \<lparr>principle_id = uid, valid_until = - 1, ti_session_key = key\<rparr>\<rparr>"

text \<open>The answer of both logins; \<open>pid\<close> names the server in the connection URL.\<close>

definition login_answer ::
    "crypto \<Rightarrow> quazal_context \<Rightarrow> bytes \<Rightarrow> bytes \<Rightarrow> u32 \<Rightarrow> string option \<Rightarrow> u32 \<Rightarrow> login_response option" where
  "login_answer c ctx nonce key uid password pid =
    Option.bind (ticket_as_bytes c nonce (new_ticket key SERVER_PID uid) uid password (ticket_key ctx)) (\<lambda>buf.
    Option.bind (get_connection_data ctx pid) (\<lambda>conn.
    Some \<lparr>lr_return_value = QOk, lr_pid_principal = uid, lr_pbuf_response = buf,
      lr_p_connection_data = conn, lr_str_return_msg = ''''\<rparr>))"

section \<open>Handlers\<close>

definition ticket_login ::
    "crypto \<Rightarrow> quazal_context \<Rightarrow> bytes \<Rightarrow> bytes \<Rightarrow> db \<Rightarrow> 'a client_info \<Rightarrow> string
      \<Rightarrow> (db \<times> 'a client_info \<times> (rmc_error + login_response)) option" where
  "ticket_login c ctx nonce key db ci name =
    (case get_pid_by_username name db of
       None \<Rightarrow> Some (db, ci, Inl AccessDenied)
     | Some uid \<Rightarrow>
        let password = get_password_by_username name db;
            ci = ci\<lparr>user_id := Some uid\<rparr>;
            db = get_session_key key uid db
        in map_option (\<lambda>resp. (db, ci, Inr resp)) (login_answer c ctx nonce key uid password 2))"

definition login_registry :: "login_custom_data class_registry" where
  "login_registry = register_class ''UbiAuthenticationLoginCustomData'' rd_login_custom_data Map.empty"

definition ticket_login_ex ::
    "crypto \<Rightarrow> quazal_context \<Rightarrow> (string \<Rightarrow> string \<Rightarrow> bool option) \<Rightarrow> nat \<Rightarrow> bytes \<Rightarrow> bytes \<Rightarrow> db
      \<Rightarrow> 'a client_info \<Rightarrow> string \<times> any_value \<Rightarrow> (db \<times> 'a client_info \<times> (rmc_error + login_response)) option" where
  "ticket_login_ex c ctx verify now nonce key db ci q =
    (case into_inner login_registry (snd q) of
       Panics \<Rightarrow> None
     | Fails e \<Rightarrow> Some (db, ci, Inl (FromStream e))
     | Value d \<Rightarrow>
        (case ticket_login_user verify now (ld_user_name d) (ld_password d) db of
           (Inl e, db) \<Rightarrow> Some (db, ci, Inl e)
         | (Inr None, db) \<Rightarrow> Some (db, ci, Inl AccessDenied)
         | (Inr (Some uid), db) \<Rightarrow>
            let ci = ci\<lparr>user_id := Some uid\<rparr>;
                db = get_session_key key uid db
            in map_option (\<lambda>resp. (db, ci, Inr resp)) (login_answer c ctx nonce key uid None SERVER_PID)))"

definition request_ticket ::
    "crypto \<Rightarrow> quazal_context \<Rightarrow> bytes \<Rightarrow> bytes \<Rightarrow> db \<Rightarrow> 'a client_info \<Rightarrow> u32 \<times> u32
      \<Rightarrow> (db \<times> 'a client_info \<times> (rmc_error + request_ticket_response)) option" where
  "request_ticket c ctx nonce key db ci q =
    (if user_id ci \<noteq> Some (fst q) then Some (db, ci, Inl AccessDenied)
     else
       let db = get_session_key key (fst q) db
       in map_option (\<lambda>buf. (db, ci, Inr \<lparr>rt_return_value = QOk, rt_buf_response = buf\<rparr>))
         (ticket_as_bytes c nonce (new_ticket key (snd q) (fst q)) (fst q)
            (get_password_by_pid (fst q) db) (ticket_key ctx)))"

section \<open>Protocol server\<close>

definition wr_rv_connection_data ::
    "((string \<rightharpoonup> string) \<Rightarrow> (string \<times> string) list) \<Rightarrow> rv_connection_data \<Rightarrow> bytes" where
  "wr_rv_connection_data order d =
     (let u = url_regular_protocols d; v = url_special_protocols d
      in wr_station_url (order (params u)) u @ wr_vec le8 (lst_special_protocols d) @ wr_station_url (order (params v)) v)"

definition wr_login_response ::
    "((string \<rightharpoonup> string) \<Rightarrow> (string \<times> string) list) \<Rightarrow> login_response \<Rightarrow> bytes" where
  "wr_login_response order r = wr_qresult (lr_return_value r) @ le32 (lr_pid_principal r)
     @ wr_vec le8 (lr_pbuf_response r) @ wr_rv_connection_data order (lr_p_connection_data r)
     @ wr_string (lr_str_return_msg r)"

definition wr_request_ticket_response :: "request_ticket_response \<Rightarrow> bytes" where
  "wr_request_ticket_response r = wr_qresult (rt_return_value r) @ wr_vec le8 (rt_buf_response r)"

definition ticket_method ::
    "(instant \<Rightarrow> db \<Rightarrow> 'a client_info \<Rightarrow> 'q \<Rightarrow> (db \<times> 'a client_info \<times> (rmc_error + 'p)) option)
      \<Rightarrow> instant \<Rightarrow> u32 \<Rightarrow> storage_state \<Rightarrow> 'a client_info \<Rightarrow> 'q \<Rightarrow> 'a client_registry
      \<Rightarrow> (storage_state \<times> 'a client_info \<times> 'a client_registry \<times> datagram list \<times> (rmc_error + 'p)) option" where
  "ticket_method f now sig w ci q reg =
    map_option (\<lambda>(db, ci, res). (w\<lparr>ss_db := db\<rparr>, ci, reg, [], res)) (f now (ss_db w) ci q)"

definition TICKET_GRANTING_PROTOCOL_ID :: u16 where "TICKET_GRANTING_PROTOCOL_ID = 10"

definition ticket_methods ::
    "crypto \<Rightarrow> quazal_context \<Rightarrow> (string \<Rightarrow> string \<Rightarrow> bool option) \<Rightarrow> (instant \<Rightarrow> nat)
      \<Rightarrow> ((string \<rightharpoonup> string) \<Rightarrow> (string \<times> string) list) \<Rightarrow> (instant \<Rightarrow> bytes \<times> bytes)
      \<Rightarrow> (u32 \<times> (storage_state, 'a) rmc_handler) list" where
  "ticket_methods c ctx verify clock order draw =
    [(1, rmc_method rd_string (wr_login_response order)
        (ticket_method (\<lambda>now. ticket_login c ctx (fst (draw now)) (snd (draw now))))),
     (2, rmc_method (rd_pair rd_string rd_any) (wr_login_response order)
        (ticket_method (\<lambda>now. ticket_login_ex c ctx verify (clock now) (fst (draw now)) (snd (draw now))))),
     (3, rmc_method (rd_pair rd_u32 rd_u32) wr_request_ticket_response
        (ticket_method (\<lambda>now. request_ticket c ctx (fst (draw now)) (snd (draw now))))),
     (4, unimplemented rd_string),
     (5, unimplemented rd_u32),
     (6, unimplemented rd_any)]"

definition ticket_protocol ::
    "crypto \<Rightarrow> quazal_context \<Rightarrow> (string \<Rightarrow> string \<Rightarrow> bool option) \<Rightarrow> (instant \<Rightarrow> nat)
      \<Rightarrow> ((string \<rightharpoonup> string) \<Rightarrow> (string \<times> string) list) \<Rightarrow> (instant \<Rightarrow> bytes \<times> bytes)
      \<Rightarrow> (storage_state, 'a) rmc_handler" where
  "ticket_protocol c ctx verify clock order draw = protocol_handle (ticket_methods c ctx verify clock order draw)"

section \<open>Connection data\<close>

lemma connection_url_parses:
  assumes "\<forall>a\<in>insert (ctx_listen ctx) (set_option (secure_server_addr ctx)). CHR '';'' \<notin> set (fst a)"
  shows "get_connection_data ctx pid \<noteq> None"
proof -
  define s a i where "s = (case secure_server_addr ctx of None \<Rightarrow> ''prudp'' | Some a \<Rightarrow> ''prudps'')"
    and "a = (case secure_server_addr ctx of None \<Rightarrow> ctx_listen ctx | Some a \<Rightarrow> a)"
    and "i = (case secure_server_addr ctx of None \<Rightarrow> ''2'' | Some a \<Rightarrow> ''1'')"
  define kvs where "kvs = [(''CID'', ''1''), (''PID'', show_nat (unat pid)), (''sid'', i), (''stream'', ''3''), (''type'', ''2'')]"
  define u where "u = \<lparr>scheme = s, address = fst a, port = unat (snd a), params = map_of kvs\<rparr>"
  have "connection_url_text ctx pid = show_station_url kvs u"
    by (simp add: connection_url_text_def show_station_url_def show_param_def kvs_def u_def s_def a_def i_def
        split: option.split)
  moreover have "station_url_ok u"
    using assms show_nat_no_sep
    by (auto simp: station_url_ok_def u_def kvs_def a_def s_def i_def split: option.splits if_splits)
  moreover have "iteration_order kvs (params u)"
    by (simp add: iteration_order_def u_def kvs_def)
  ultimately show ?thesis
    by (simp add: get_connection_data_def station_url_parse_show)
qed

section \<open>What a ticket gives away\<close>

text \<open>
  What the holder of a password reads in an issued ticket: the sealed part, which only the
  server opens, and the session key. The box of libsodium adds a 16-byte tag to the message.
\<close>

definition sealbox_ok :: "crypto \<Rightarrow> bool" where
  "sealbox_ok c \<longleftrightarrow> crypto_ok c \<and> (\<forall>m n k. length (secretbox_seal c m n k) = length m + 16)"

definition ticket_secrets :: "crypto \<Rightarrow> u32 \<Rightarrow> string option \<Rightarrow> bytes \<Rightarrow> (bytes \<times> bytes) option" where
  "ticket_secrets c uid password buf =
    (case crypt_key (derive_key c uid password) (take (length buf - MD5_SIZE) buf) of
       None \<Rightarrow> None
     | Some d \<Rightarrow>
        (case rbind (rd_array SESSION_KEY_SIZE) (\<lambda>key. rbind rd_u32 (\<lambda>_.
            rmap (\<lambda>sealed. (sealed, key)) (rd_vec rd_u8))) d of
           Inl _ \<Rightarrow> None
         | Inr (secrets, _) \<Rightarrow> Some secrets))"

text \<open>A ticket whose holder can read it with the password, and which identifies him as \<open>uid\<close>.\<close>

definition grants :: "crypto \<Rightarrow> bytes \<Rightarrow> u32 \<Rightarrow> string option \<Rightarrow> bytes \<Rightarrow> bytes \<Rightarrow> bool" where
  "grants c tkey uid password key buf \<longleftrightarrow>
    (\<exists>sealed. ticket_secrets c uid password buf = Some (sealed, key) \<and> length sealed \<le> MAX_COLLECTION_ITEMS
      \<and> ticket_open c sealed tkey = Inr \<lparr>principle_id = uid, valid_until = - 1, ti_session_key = key\<rparr>)"

definition draw_ok :: "crypto \<Rightarrow> bytes \<Rightarrow> bytes \<Rightarrow> bool" where
  "draw_ok c nonce key \<longleftrightarrow> sealbox_ok c \<and> length nonce = NONCEBYTES \<and> length key = SESSION_KEY_SIZE"

definition addresses_ok :: "quazal_context \<Rightarrow> bool" where
  "addresses_ok ctx \<longleftrightarrow>
    (\<forall>a\<in>insert (ctx_listen ctx) (set_option (secure_server_addr ctx)). CHR '';'' \<notin> set (fst a))"

lemma issued_ticket_grants:
  assumes "draw_ok c nonce key"
  shows "\<exists>buf. ticket_as_bytes c nonce (new_ticket key pid uid) uid password tkey = Some buf
    \<and> grants c tkey uid password key buf"
proof -
  have ok: "crypto_ok c" using assms by (simp add: draw_ok_def sealbox_ok_def)
  define ti where "ti = tk_internal (new_ticket key pid uid)"
  define sealed where "sealed = ticket_seal c nonce ti tkey"
  obtain buf where buf: "ticket_as_bytes c nonce (new_ticket key pid uid) uid password tkey = Some buf"
    using ticket_as_bytes_defined[OF ok] by blast
  have key: "length key = SESSION_KEY_SIZE" and nonce: "length nonce = NONCEBYTES"
    using assms by (simp_all add: draw_ok_def)
  have ti: "ticket_internal_ok ti" using key by (simp add: ti_def new_ticket_def ticket_internal_ok_def)
  have "length sealed = 68"
    using assms key by (simp add: sealed_def ticket_seal_def draw_ok_def sealbox_ok_def NONCEBYTES_def
        wr_ticket_internal_def ti_def new_ticket_def SESSION_KEY_SIZE_def)
  then have len: "length sealed \<le> MAX_COLLECTION_ITEMS" by (simp add: MAX_COLLECTION_ITEMS_def)
  then have vec: "rd_vec rd_u8 (wr_vec le8 sealed) = Inr (sealed, [])"
    by (intro bytesc.dec_enc_all) (simp add: list_all_iff)
  have "ticket_body c nonce (new_ticket key pid uid) tkey = key @ le32 pid @ wr_vec le8 sealed"
    by (simp add: ticket_body_def new_ticket_def sealed_def ti_def)
  then have "ticket_secrets c uid password buf = Some (sealed, key)"
    using ticket_as_bytes_decrypt[OF ok buf] key
    by (simp add: ticket_secrets_def rbind_def rmap_def rreturn_def rd_session_key vec)
  moreover have "ticket_open c sealed tkey = Inr ti"
    unfolding sealed_def by (rule ticket_open_seal[OF ok nonce ti])
  ultimately show ?thesis
    using buf len unfolding grants_def ti_def new_ticket_def by auto
qed

lemma login_answer_grants:
  assumes "draw_ok c nonce key" and "addresses_ok ctx"
  shows "\<exists>resp. login_answer c ctx nonce key uid password pid = Some resp
    \<and> lr_return_value resp = QOk \<and> lr_pid_principal resp = uid
    \<and> grants c (ticket_key ctx) uid password key (lr_pbuf_response resp)"
proof -
  obtain conn where "get_connection_data ctx pid = Some conn"
    using connection_url_parses[of ctx pid] assms(2) by (auto simp: addresses_ok_def)
  then show ?thesis
    using issued_ticket_grants[OF assms(1), of SERVER_PID uid password "ticket_key ctx"]
    by (auto simp: login_answer_def)
qed

section \<open>Logins\<close>

lemma find_by_key: "x \<in> set xs \<Longrightarrow> distinct (map f xs) \<Longrightarrow> find (\<lambda>y. f y = f x) xs = Some x"
  by (induction xs) auto

lemma first_user_lookup:
  assumes "find (\<lambda>u. u_name u = name) (users db) = Some u" and "distinct (user_ids db)" and "u_id u < 2 ^ 32"
  shows "get_pid_by_username name db = Some (of_nat (u_id u))"
    "get_password_by_username name db = u_password u"
proof -
  show pid: "get_pid_by_username name db = Some (of_nat (u_id u))"
    using assms(1) by (simp add: get_pid_by_username_def find_user_id_by_name_def)
  have "u \<in> set (users db)" using assms(1) by (auto simp: find_Some_iff)
  then have "user_named (u_id u) db = Some u"
    using assms(2) unfolding user_named_def user_ids_def by (rule find_by_key)
  then show "get_password_by_username name db = u_password u"
    using assms(3) pid by (simp add: get_password_by_username_def get_password_by_pid_def find_password_for_user_def
        unat_of_nat_small)
qed

section \<open>Properties\<close>

text \<open>C30 (name_alone_connects). A user registered with a password hash, that is without a
  plaintext password, can be impersonated by anyone who knows the name: \<open>Login\<close> asks for
  no password and answers with a ticket that the well-known default password opens, and a
  Connect with the secrets read from it registers the connection as that user.\<close>

theorem name_alone_connects:
  assumes draw: "draw_ok c nonce key" and "addresses_ok ctx"
    and user: "find (\<lambda>u. u_name u = name) (users db) = Some u" "distinct (user_ids db)" "u_id u < 2 ^ 32"
      "u_password u = None"
    and cfg: "srv_crypto cfg = c" "ticket_key (srv_ctx cfg) = ticket_key ctx"
    and req: "crypt_key key (le32 a @ le32 b @ le32 ch) = Some req"
  shows "\<exists>db' resp sealed.
    ticket_login c ctx nonce key db ci name = Some (db', ci\<lparr>user_id := Some (of_nat (u_id u))\<rparr>, Inr resp)
    \<and> ticket_secrets c (lr_pid_principal resp) None (lr_pbuf_response resp) = Some (sealed, key)
    \<and> (\<forall>p st new csig st' out. map_of (new_clients st) (pk_signature p) = Some new \<longrightarrow> pk_conn_signature p = Some csig
        \<longrightarrow> pk_payload p = connect_payload sealed req \<longrightarrow> handle_connect cfg unix_now p client st = Some (st', out)
        \<longrightarrow> (\<exists>ci'. map_of (clients (client_registry st')) (pk_signature p) = Some ci'
              \<and> user_id ci' = Some (of_nat (u_id u))))"
proof -
  define uid :: u32 where "uid = of_nat (u_id u)"
  note lookup = first_user_lookup[OF user(1-3), folded uid_def]
  obtain resp where resp: "login_answer c ctx nonce key uid None 2 = Some resp" "lr_pid_principal resp = uid"
    "grants c (ticket_key ctx) uid None key (lr_pbuf_response resp)"
    using login_answer_grants[OF draw assms(2), of uid None 2] by blast
  then obtain sealed where sealed: "ticket_secrets c uid None (lr_pbuf_response resp) = Some (sealed, key)"
    "length sealed \<le> MAX_COLLECTION_ITEMS"
    "ticket_open (srv_crypto cfg) sealed (ticket_key (srv_ctx cfg)) = Inr \<lparr>principle_id = uid, valid_until = - 1, ti_session_key = key\<rparr>"
    unfolding grants_def cfg by blast
  have "length req \<le> MAX_COLLECTION_ITEMS"
    using crypt_key_length[OF req] by (simp add: MAX_COLLECTION_ITEMS_def)
  note connects = handle_connect_valid[OF _ _ _ sealed(2) this sealed(3)]
  have "ticket_login c ctx nonce key db ci name = Some (get_session_key key uid db, ci\<lparr>user_id := Some uid\<rparr>, Inr resp)"
    using lookup user(4) resp(1) by (simp add: ticket_login_def)
  moreover have "\<exists>ci'. map_of (clients (client_registry st')) (pk_signature p) = Some ci' \<and> user_id ci' = Some uid"
    if "map_of (new_clients st) (pk_signature p) = Some new" "pk_conn_signature p = Some csig"
      "pk_payload p = connect_payload sealed req" "handle_connect cfg unix_now p client st = Some (st', out)"
    for p st new csig st' out
    using connects[OF that(1-3) _ _ that(4), where a = a and b = b and ch = ch] req by fastforce
  ultimately show ?thesis using sealed(1) resp(2) unfolding uid_def[symmetric] by blast
qed

text \<open>\<open>LoginEx\<close> panics exactly for a class the registry does not know;
  malformed data, a failed query and a refused password answer with their errors and
  identify nobody; an accepted login identifies the caller as the user the password was checked
  against and answers with a ticket of that user.\<close>

lemma login_ex_outcome:
  assumes "draw_ok c nonce key" and "addresses_ok ctx"
  shows "case into_inner login_registry x of
      Panics \<Rightarrow> type_name x \<noteq> ''UbiAuthenticationLoginCustomData''
        \<and> ticket_login_ex c ctx verify now nonce key db ci (n, x) = None
    | Fails e \<Rightarrow> ticket_login_ex c ctx verify now nonce key db ci (n, x) = Some (db, ci, Inl (FromStream e))
    | Value d \<Rightarrow> (case login_user verify now (ld_user_name d) (ld_password d) db of
          Inl _ \<Rightarrow> ticket_login_ex c ctx verify now nonce key db ci (n, x) = Some (db, ci, Inl InternalError)
        | Inr (Inl _, db') \<Rightarrow> ticket_login_ex c ctx verify now nonce key db ci (n, x) = Some (db', ci, Inl AccessDenied)
        | Inr (Inr uid, db') \<Rightarrow> (\<exists>resp. ticket_login_ex c ctx verify now nonce key db ci (n, x)
              = Some (get_session_key key (of_nat uid) db', ci\<lparr>user_id := Some (of_nat uid)\<rparr>, Inr resp)
            \<and> lr_pid_principal resp = of_nat uid
            \<and> grants c (ticket_key ctx) (of_nat uid) None key (lr_pbuf_response resp)))"
proof -
  have answer: "\<exists>resp. login_answer c ctx nonce key uid None SERVER_PID = Some resp
      \<and> lr_pid_principal resp = uid \<and> grants c (ticket_key ctx) uid None key (lr_pbuf_response resp)" for uid
    using login_answer_grants[OF assms] by blast
  have "into_inner login_registry x = Panics \<Longrightarrow> type_name x \<noteq> ''UbiAuthenticationLoginCustomData''"
    by (auto simp: into_inner_panics_iff login_registry_def register_class_def)
  then show ?thesis
    using answer by (auto simp: ticket_login_ex_def ticket_login_user_def split: outcome.split sum.split prod.split)
qed

text \<open>A further ticket is issued exactly to a connection that is
  identified as the user it asks for, for any server, and its password opens it; every other
  request is denied and changes nothing.\<close>

lemma request_ticket_outcome:
  assumes "draw_ok c nonce key"
  shows "if user_id ci = Some source
    then \<exists>resp. request_ticket c ctx nonce key db ci (source, target) = Some (get_session_key key source db, ci, Inr resp)
      \<and> grants c (ticket_key ctx) source (get_password_by_pid source (get_session_key key source db)) key (rt_buf_response resp)
    else request_ticket c ctx nonce key db ci (source, target) = Some (db, ci, Inl AccessDenied)"
  using issued_ticket_grants[OF assms, of target source _ "ticket_key ctx"]
  by (fastforce simp: request_ticket_def Let_def)

text \<open>Samples: a box that adds a tag, and a user with a password hash only.\<close>

definition sample_box :: crypto where
  "sample_box = sample_crypto\<lparr>secretbox_seal := (\<lambda>m n k. replicate 16 0 @ m),
     secretbox_open := (\<lambda>d n k. Some (drop 16 d))\<rparr>"

definition hashed_db :: db where
  "hashed_db = hosted_db\<lparr>users := [(sample_user 1000 ''sam'')\<lparr>u_password := None, u_password_hash := Some ''h''\<rparr>]\<rparr>"

definition sample_context :: quazal_context where
  "sample_context = splinter_cell_blacklist []"

lemma sample_draw: "draw_ok sample_box (replicate 24 3) (replicate 16 9)"
  by (simp add: draw_ok_def sealbox_ok_def crypto_ok_def sample_box_def sample_crypto_def NONCEBYTES_def SESSION_KEY_SIZE_def)

lemma sample_addresses: "addresses_ok sample_context"
  by (simp add: addresses_ok_def sample_context_def splinter_cell_blacklist_def)

lemma hashed_user:
  "find (\<lambda>u. u_name u = ''sam'') (users hashed_db) = Some ((sample_user 1000 ''sam'')\<lparr>u_password := None, u_password_hash := Some ''h''\<rparr>)"
  "distinct (user_ids hashed_db)"
  by (simp_all add: hashed_db_def sample_user_def user_ids_def)

theorem name_alone_connects_witness:
  "\<exists>req db' resp sealed st' out ci'.
    ticket_login sample_box sample_context (replicate 24 3) (replicate 16 9) hashed_db (sample_client None) ''sam''
      = Some (db', (sample_client None)\<lparr>user_id := Some 1000\<rparr>, Inr resp)
    \<and> ticket_secrets sample_box (lr_pid_principal resp) None (lr_pbuf_response resp) = Some (sealed, replicate 16 9)
    \<and> handle_connect (sample_config\<lparr>srv_crypto := sample_box\<rparr>) 1700000000
        (sample_packet Connect (connect_payload sealed req)) sample_addr sample_server = Some (st', out)
    \<and> map_of (clients (client_registry st')) 7 = Some ci' \<and> user_id ci' = Some 1000"
proof -
  let ?u = "(sample_user 1000 ''sam'')\<lparr>u_password := None, u_password_hash := Some ''h''\<rparr>"
  let ?cfg = "sample_config\<lparr>srv_crypto := sample_box\<rparr>"
  obtain req where req: "crypt_key (replicate 16 9) (le32 1 @ le32 2 @ le32 3) = Some req"
    using crypt_key_total [of "replicate 16 9" "le32 1 @ le32 2 @ le32 3"] by auto
  have u: "u_id ?u < 2 ^ 32" "u_password ?u = None" "(of_nat (u_id ?u) :: u32) = 1000"
    by (simp_all add: sample_user_def)
  have cfg: "srv_crypto ?cfg = sample_box" "ticket_key (srv_ctx ?cfg) = ticket_key sample_context"
    by (simp_all add: sample_config_def sample_context_def)
  obtain db' resp sealed where login:
    "ticket_login sample_box sample_context (replicate 24 3) (replicate 16 9) hashed_db (sample_client None) ''sam''
      = Some (db', (sample_client None)\<lparr>user_id := Some 1000\<rparr>, Inr resp)"
    "ticket_secrets sample_box (lr_pid_principal resp) None (lr_pbuf_response resp) = Some (sealed, replicate 16 9)"
    and connects: "\<forall>p st new csig st' out. map_of (new_clients st) (pk_signature p) = Some new \<longrightarrow> pk_conn_signature p = Some csig
        \<longrightarrow> pk_payload p = connect_payload sealed req \<longrightarrow> handle_connect ?cfg 1700000000 p sample_addr st = Some (st', out)
        \<longrightarrow> (\<exists>ci'. map_of (clients (client_registry st')) (pk_signature p) = Some ci' \<and> user_id ci' = Some 1000)"
    using name_alone_connects[OF sample_draw sample_addresses hashed_user u(1,2) cfg req,
        of "sample_client None" 1700000000 sample_addr] unfolding u(3) by blast
  let ?p = "sample_packet Connect (connect_payload sealed req)"
  have "config_ok ?cfg" using sample_config_ok(1) by (simp add: config_ok_def)
  from handle_connect_total [OF this sample_packet_ok, of Connect]
  have "handle_connect ?cfg 1700000000 ?p sample_addr sample_server \<noteq> None" by (simp add: sample_packet_def)
  then obtain st' out where run: "handle_connect ?cfg 1700000000 ?p sample_addr sample_server = Some (st', out)" by auto
  have p: "pk_signature ?p = 7" "pk_conn_signature ?p = Some 5" "pk_payload ?p = connect_payload sealed req"
    by (simp_all add: sample_packet_def)
  have new: "map_of (new_clients sample_server) (pk_signature ?p) = Some (client_info_new 0 7 () sample_addr)"
    by (simp add: sample_server_def p)
  from connects new p(2,3) run obtain ci' where "map_of (clients (client_registry st')) (pk_signature ?p) = Some ci'"
    "user_id ci' = Some 1000" by blast
  with login run show ?thesis unfolding p(1) by blast
qed

lemma login_ex_outcome_witness:
  "ticket_login_ex sample_box sample_context (\<lambda>_ _. None) 5 (replicate 24 3) (replicate 16 9) hosted_db (sample_client None)
      (''sam'', \<lparr>type_name = ''Data'', any_data = []\<rparr>) = None
    \<and> (\<exists>db' resp. ticket_login_ex sample_box sample_context (\<lambda>_ _. None) 5 (replicate 24 3) (replicate 16 9) hosted_db
        (sample_client None) (''sam'', \<lparr>type_name = ''UbiAuthenticationLoginCustomData'',
          any_data = wr_string ''sam'' @ wr_string '''' @ wr_string ''pw''\<rparr>)
        = Some (db', (sample_client None)\<lparr>user_id := Some 1000\<rparr>, Inr resp) \<and> lr_pid_principal resp = 1000)"
proof -
  let ?bad = "\<lparr>type_name = ''Data'', any_data = []\<rparr>"
  let ?good = "\<lparr>type_name = ''UbiAuthenticationLoginCustomData'', any_data = wr_string ''sam'' @ wr_string '''' @ wr_string ''pw''\<rparr>"
  have ok: "string_ok ''sam''" "string_ok ''''" "string_ok ''pw''"
    by (simp_all add: string_ok_def str_bytes_def byte_of_char_def utf8_valid_ascii)
  have rd: "rd_login_custom_data (wr_string ''sam'' @ wr_string '''' @ wr_string ''pw'') =
      Inr (\<lparr>ld_user_name = ''sam'', ld_online_key = '''', ld_password = ''pw''\<rparr>, [])"
    using stringc.dec_enc_all[OF ok(3)]
    by (simp add: rd_login_custom_data_def rmap_def rd_pair_def rbind_def rreturn_def stringc.dec_enc ok)
  have inner: "into_inner login_registry ?bad = Panics"
    "into_inner login_registry ?good = Value \<lparr>ld_user_name = ''sam'', ld_online_key = '''', ld_password = ''pw''\<rparr>"
    unfolding login_registry_def into_inner_registered
    by (simp add: into_inner_panics_iff register_class_def) (simp add: rd)
  have user: "login_user (\<lambda>_ _. None) 5 ''sam'' ''pw'' hosted_db = Inr (Inr 1000, update_login 5 1000 hosted_db)"
    by (simp add: login_user_def tbind_def tread_def texec_def treturn_def check_password_def hosted_db_def initial_db_def sample_users_def sample_user_def)
  show ?thesis
    using login_ex_outcome[OF sample_draw sample_addresses, where x = ?bad and verify = "\<lambda>_ _. None" and now = 5
        and db = hosted_db and ci = "sample_client None" and n = "''sam''"]
      login_ex_outcome[OF sample_draw sample_addresses, where x = ?good and verify = "\<lambda>_ _. None" and now = 5
        and db = hosted_db and ci = "sample_client None" and n = "''sam''"]
    by (simp only: inner outcome.case login_custom_data.simps user sum.case prod.case) auto
qed

lemma request_ticket_outcome_witness:
  "request_ticket sample_box sample_context (replicate 24 3) (replicate 16 9) hosted_db (sample_client (Some 1001)) (1000, 7)
      = Some (hosted_db, sample_client (Some 1001), Inl AccessDenied)
    \<and> (\<exists>db' resp. request_ticket sample_box sample_context (replicate 24 3) (replicate 16 9) hosted_db
        (sample_client (Some 1001)) (1001, 7) = Some (db', sample_client (Some 1001), Inr resp))"
proof -
  have "user_id (sample_client (Some 1001)) = Some 1001" by (simp add: sample_client_def)
  then show ?thesis
    using request_ticket_outcome[OF sample_draw, of "sample_client (Some 1001)" 1000 sample_context hosted_db 7]
      request_ticket_outcome[OF sample_draw, of "sample_client (Some 1001)" 1001 sample_context hosted_db 7]
    by auto
qed

end
