(* ===== verification/Secure_Server.thy ===== *)
theory Secure_Server
  imports Account_Services Ticket_Granting
begin

text \<open>
  The two servers \<open>start_server\<close> of \<open>dedicated-server/src/main.rs\<close> builds: the authentication
  server with the ticket protocol, the secure server with all the others and the storage
  cleaned up when a client leaves. The contract \<open>world_server\<close> carries an invariant of the
  world behind a PRUDP server through every packet and every expiry.
\<close>

section \<open>The registries\<close>

text \<open>
  What the servers take from outside: the clock of the storage, the iteration orders of the
  maps they send, the random call ids of the probes, the parsed data files, and the random
  nonces and session keys.
\<close>

record service_env =
  env_clock :: "instant \<Rightarrow> nat"
  env_params :: "(string \<rightharpoonup> string) \<Rightarrow> (string \<times> string) list"
  env_pids :: "(string \<rightharpoonup> u32) \<Rightarrow> (string \<times> u32) list"
  env_ubi_ids :: "(u32 \<rightharpoonup> string) \<Rightarrow> (u32 \<times> string) list"
  env_entries :: "(string \<times> variant) list \<Rightarrow> (string \<times> variant) list"
  env_call_ids :: "instant \<Rightarrow> nat \<Rightarrow> u32"
  env_news :: "instant \<Rightarrow> news_item list option"
  env_challenges :: "instant \<Rightarrow> challenge list option"
  env_draw :: "instant \<Rightarrow> bytes \<times> bytes"
  env_verify :: "string \<Rightarrow> string \<Rightarrow> bool option"

definition secure_protocols :: "service_env \<Rightarrow> quazal_context \<Rightarrow> zlib \<Rightarrow> (storage_state, 'a) rmc_registry" where
  "secure_protocols env ctx z =
    (register_protocol USER_STORAGE_PROTOCOL_ID (protocol_handle (storage_methods ctx))
    (register_protocol UPLAY_WIN_PROTOCOL_ID (protocol_handle uplay_methods)
    (register_protocol UBI_ACCOUNT_MANAGEMENT_PROTOCOL_ID
       (protocol_handle (account_methods (env_clock env) (env_pids env) (env_ubi_ids env)))
    (register_protocol TRACKING_PROTOCOL_3_ID (protocol_handle tracking_methods)
    (register_protocol TRACKING_EXTENSION_PROTOCOL_ID (protocol_handle tracking_ext_methods)
    (register_protocol SECURE_CONNECTION_PROTOCOL_ID (protocol_handle (secure_methods (env_params env)))
    (register_protocol PRIVILEGES_PROTOCOL_ID (protocol_handle privilege_methods)
    (register_protocol PLAYER_STATS_PROTOCOL_ID (protocol_handle stats_methods)
    (register_protocol OVERLORD_NEWS_ID (\<lambda>now. overlord_handle (overlord_news (env_news env now)) now)
    (register_protocol OVERLORD_CORE_ID (overlord_handle overlord_core)
    (register_protocol OVERLORD_CHALLENGE_ID
       (\<lambda>now. overlord_handle (overlord_challenge (env_entries env) (env_challenges env now)) now)
    (register_protocol NAT_TRAVERSAL_PROTOCOL_ID
       (protocol_handle (nat_methods ctx z (env_params env) (env_call_ids env)))
    (register_protocol LOCALIZATION_PROTOCOL_ID (protocol_handle locale_methods)
    (register_protocol LADDER_HELPER_PROTOCOL_ID (protocol_handle (ladder_methods (env_clock env)))
    (register_protocol GAME_SESSION_PROTOCOL_ID (session_protocol (env_clock env) (env_params env))
    (register_protocol GAME_SESSION_EX_PROTOCOL_ID (session_ex_protocol (env_clock env) (env_params env))
    (register_protocol CLAN_HELPER_PROTOCOL_ID (protocol_handle clan_methods)
    (register_protocol CHALLENGE_HELPER_PROTOCOL_ID (protocol_handle challenge_methods) []))))))))))))))))))"

definition authentication_protocols :: "service_env \<Rightarrow> quazal_context \<Rightarrow> crypto \<Rightarrow> (storage_state, 'a) rmc_registry" where
  "authentication_protocols env ctx c =
    register_protocol TICKET_GRANTING_PROTOCOL_ID
      (ticket_protocol c ctx (env_verify env) (env_clock env) (env_params env) (env_draw env)) []"

text \<open>The closure for expired and disconnected clients; \<open>at\<close> is the time the storage sees.\<close>

definition end_session :: "('a client_info \<Rightarrow> storage_state \<Rightarrow> nat) \<Rightarrow> 'a client_info \<Rightarrow> storage_state \<Rightarrow> storage_state" where
  "end_session at ci w =
    (case user_id ci of
       None \<Rightarrow> w
     | Some u \<Rightarrow> (case close_secure_session (at ci w) (unat u) (ss_db w) of
         Inl _ \<Rightarrow> w | Inr (_, d) \<Rightarrow> w\<lparr>ss_db := d\<rparr>))"

definition start_secure ::
    "('a client_info \<Rightarrow> storage_state \<Rightarrow> nat) \<Rightarrow> (storage_state, 'a) rmc_registry
      \<Rightarrow> (storage_state, 'a) server_config \<Rightarrow> (storage_state, 'a) server_config" where
  "start_secure at protocols cfg = (rvsec_config protocols cfg)\<lparr>expired_client_handler := Some (end_session at),
     disconnect_handler := Some (end_session at), user_handler := Some handle_user_packet\<rparr>"

definition start_authentication ::
    "(storage_state, 'a) rmc_registry \<Rightarrow> (storage_state, 'a) server_config \<Rightarrow> (storage_state, 'a) server_config" where
  "start_authentication protocols cfg = (rvsec_config protocols cfg)\<lparr>expired_client_handler := None,
     disconnect_handler := None, user_handler := None\<rparr>"

section \<open>Handlers that respect the login, the client and the storage\<close>

definition handler_respects :: "(storage_state \<Rightarrow> request \<Rightarrow> bool) \<Rightarrow> (storage_state, 'a) rmc_handler \<Rightarrow> bool" where
  "handler_respects P h \<longleftrightarrow> (\<forall>now sig w ci r reg.
     (user_id ci = None \<longrightarrow> (\<exists>e. h now sig w ci r reg = Some (w, ci, reg, [], Inl e)))
     \<and> (\<forall>w' ci' reg' sent res. h now sig w ci r reg = Some (w', ci', reg', sent, res) \<longrightarrow>
          ci' = ci \<and> (table_ok (clients reg) \<longrightarrow> table_ok (clients reg'))
          \<and> (P w r \<longrightarrow> storage_ok w \<longrightarrow> storage_ok w')))"

named_theorems respects_intros \<open>handlers that respect the login, the client and the storage\<close>

lemma respects_mono: "handler_respects Q h \<Longrightarrow> (\<And>w r. P w r \<Longrightarrow> Q w r) \<Longrightarrow> handler_respects P h"
  unfolding handler_respects_def by meson

lemma respects_unimplemented [respects_intros]: "handler_respects P (unimplemented dec)"
  by (auto simp: handler_respects_def unimplemented_def rmc_method_def simple_method_def bind_eq_Some_conv split: sum.splits)

lemma logged_in_anonymous [simp]: "user_id ci = None \<Longrightarrow> logged_in ci x = Some (Inl AccessDenied)"
  by (simp add: logged_in_def login_required_def)

text \<open>A method is as good as its implementation.\<close>

lemma respects_rmc_method:
  assumes "\<And>now sig w ci q reg. user_id ci = None \<Longrightarrow> \<exists>e. f now sig w ci q reg = Some (w, ci, reg, [], Inl e)"
    and "\<And>now sig w ci q reg w' ci' reg' sent res. f now sig w ci q reg = Some (w', ci', reg', sent, res) \<Longrightarrow>
      ci' = ci \<and> (table_ok (clients reg) \<longrightarrow> table_ok (clients reg')) \<and> (storage_ok w \<longrightarrow> storage_ok w')"
  shows "handler_respects P (rmc_method dec enc f)"
  unfolding handler_respects_def
proof (intro allI conjI impI)
  fix now sig w ci r reg assume "user_id (ci :: 'a client_info) = None"
  then show "\<exists>e. rmc_method dec enc f now sig w ci r reg = Some (w, ci, reg, [], Inl e)"
  proof (cases "dec (req_parameters r)")
    case (Inr qr)
    obtain q rest where q: "qr = (q, rest)" by (cases qr)
    obtain e where "f now sig w ci q reg = Some (w, ci, reg, [], Inl e)" using assms(1)[OF \<open>user_id ci = None\<close>] by blast
    then show ?thesis using Inr q by (simp add: rmc_method_def)
  qed (simp add: rmc_method_def)
next
  fix now sig w ci r reg w' ci' reg' sent res
  assume run: "rmc_method dec enc f now sig w ci r reg = Some (w', ci', reg', sent, res)"
  have "ci' = ci \<and> (table_ok (clients reg) \<longrightarrow> table_ok (clients reg')) \<and> (storage_ok w \<longrightarrow> storage_ok w')"
  proof (cases "dec (req_parameters r)")
    case (Inr qr)
    then obtain res0 where "f now sig w ci (fst qr) reg = Some (w', ci', reg', sent, res0)"
      using run by (cases qr) (auto simp: rmc_method_def bind_eq_Some_conv)
    then show ?thesis by (rule assms(2))
  qed (use run in \<open>simp add: rmc_method_def\<close>)
  then show "ci' = ci" "table_ok (clients reg) \<Longrightarrow> table_ok (clients reg')" "P w r \<Longrightarrow> storage_ok w \<Longrightarrow> storage_ok w'"
    by blast+
qed

lemma respects_plain:
  assumes "\<And>now ci q. user_id ci = None \<Longrightarrow> \<exists>e. f now ci q = Some (Inl e)"
  shows "handler_respects P (rmc_method dec enc (\<lambda>now. plain_method (f now) now))"
proof (rule respects_rmc_method)
  fix now sig w reg q and ci :: "'a client_info" assume "user_id ci = None"
  then obtain e where "f now ci q = Some (Inl e)" using assms by blast
  then show "\<exists>e. plain_method (f now) now sig w ci q reg = Some (w, ci, reg, [], Inl e)"
    by (simp add: plain_method_def)
qed (auto simp: plain_method_def)

lemma respects_svc:
  assumes "\<And>now ci q s. user_id ci = None \<Longrightarrow> f now ci q s = (Inl AccessDenied, s)"
    and "\<And>now ci q. svc_keeps storage_ok (f now ci q)"
  shows "handler_respects P (rmc_method dec enc (svc_method clock f))"
proof (rule respects_rmc_method)
  show "\<exists>e. svc_method clock f now sig w ci q reg = Some (w, ci, reg, [], Inl e)" if "user_id ci = None" for now sig w ci q reg
    using assms(1)[OF that] by (simp add: svc_method_def)
  show "ci' = ci \<and> (table_ok (clients reg) \<longrightarrow> table_ok (clients reg')) \<and> (storage_ok w \<longrightarrow> storage_ok w')"
    if "svc_method clock f now sig w ci q reg = Some (w', ci', reg', sent, res)" for now sig w ci q reg w' ci' reg' sent res
    using that assms(2)[of "clock now" ci q] by (auto simp: svc_method_def svc_keeps_def split: prod.splits)
qed

lemma respects_protocol:
  assumes "\<And>k h. (k, h) \<in> set methods \<Longrightarrow> handler_respects (\<lambda>w r. P w r \<and> req_method_id r = k) h"
  shows "handler_respects P (protocol_handle methods)"
  unfolding handler_respects_def
proof (intro allI)
  fix now sig w r reg and ci :: "'a client_info"
  show "(user_id ci = None \<longrightarrow> (\<exists>e. protocol_handle methods now sig w ci r reg = Some (w, ci, reg, [], Inl e)))
     \<and> (\<forall>w' ci' reg' sent res. protocol_handle methods now sig w ci r reg = Some (w', ci', reg', sent, res) \<longrightarrow>
          ci' = ci \<and> (table_ok (clients reg) \<longrightarrow> table_ok (clients reg')) \<and> (P w r \<longrightarrow> storage_ok w \<longrightarrow> storage_ok w'))"
  proof (cases "map_of methods (req_method_id r)")
    case None
    then show ?thesis by (simp add: protocol_handle_def)
  next
    case (Some h)
    from assms[OF map_of_SomeD[OF this]] Some show ?thesis
      unfolding handler_respects_def protocol_handle_def by simp
  qed
qed

lemma respects_overlord: "handler_respects P (\<lambda>now. overlord_handle (f now) now)"
  by (auto simp: handler_respects_def overlord_handle_def login_required_def)

section \<open>Probes keep the table of clients\<close>

lemma client_ok_request_sequence: "client_ok sig ci \<Longrightarrow> client_ok sig (ci\<lparr>client_sequence_id := n\<rparr>)"
  by (auto simp: client_ok_def fragments_inv_def fragment_total_def)

lemma initiate_probes_table:
  assumes "table_ok (clients reg)" and "initiate_probes ctx z self probe ids urls reg = Some (reg', ds)"
  shows "table_ok (clients reg')"
  using assms
proof (induction urls arbitrary: reg reg' ds)
  case (Cons url urls)
  show ?case
  proof (cases "probe_target reg url")
    case None
    with Cons show ?thesis by auto
  next
    case (Some t)
    obtain sig target where t: "t = (sig, target)" by (cases t)
    with Some have "map_of (clients reg) sig = Some target"
      by (auto simp: probe_target_def bind_eq_Some_conv)
    then have ok: "client_ok sig target" using Cons.prems(1) by (auto intro: table_ok_lookup)
    obtain d target' ds' where snt: "send_request ctx z (ci_address target) (probe_packet (ids (length urls)) probe) target = Some (d, target')"
      "initiate_probes ctx z self probe ids urls (reg\<lparr>clients := AList.update sig target' (clients reg)\<rparr>) = Some (reg', ds')"
      using Cons.prems(2) Some t by (auto simp: bind_eq_Some_conv split: if_splits)
    then have "client_ok sig target'" using ok by (auto simp: send_request_def intro: client_ok_request_sequence)
    then show ?thesis
      using Cons.IH[OF _ snt(2)] Cons.prems(1) by (simp add: table_ok_update)
  qed
qed simp

lemma respects_probe: "handler_respects P (rmc_method dec enc (\<lambda>now. request_probe_initiation_ext ctx z (ids now) now))"
  by (rule respects_rmc_method)
    (auto simp: request_probe_initiation_ext_def login_required_def bind_eq_Some_conv split: option.splits
      dest: initiate_probes_table)

section \<open>The session protocols\<close>

text \<open>Method 9 of protocol 42, a removal of participants, must name the type of an active session.\<close>

definition removal_typed :: "storage_state \<Rightarrow> request \<Rightarrow> bool" where
  "removal_typed w r \<longleftrightarrow> (req_method_id r = 9 \<longrightarrow>
     (case rd_pair rd_session_key (rd_qlist rd_u32) (req_parameters r) of
        Inl _ \<Rightarrow> True
      | Inr ((k, ids), _) \<Rightarrow> typed_request (ReqRemoveParticipants k ids) w))"

lemma svc_keeps_answered: "svc_keeps I (answered m) \<Longrightarrow> svc_keeps I m"
  unfolding svc_keeps_def
proof (intro allI impI)
  fix s assume "\<forall>s. I s \<longrightarrow> I (snd (answered m s))" "I s"
  then have "I (snd (answered m s))" by blast
  then show "I (snd (m s))" by (cases "m s"; cases "fst (m s)") (simp_all add: answered_def svc_bind_def svc_return_def)
qed

lemma session_handlers_keep:
  "svc_keeps storage_ok (create_session now ci nq)" "svc_keeps storage_ok (update_session ci u)"
  "svc_keeps storage_ok (delete_session now ci k)" "svc_keeps storage_ok (migrate_session ci k)"
  "svc_keeps storage_ok (migrate_session_host ci k)" "svc_keeps storage_ok (leave_session_rmc now ci k)"
  "svc_keeps storage_ok (add_participants_rmc now ci k us vs)" "svc_keeps storage_ok (abandon_session now ci k)"
  "svc_keeps storage_ok (register_urls_rmc order ci urls)" "svc_keeps storage_ok (search_sessions_with_participants_rmc now ci ty us)"
  "svc_keeps storage_ok (split_session ci k)" "svc_keeps storage_ok (report_unsuccessful_join_sessions ci)"
  "svc_keeps storage_ok (join_session now ci k)"
  using serve_session_keeps[of "ReqCreate nq" order now ci] serve_session_keeps[of "ReqUpdate u" order now ci]
    serve_session_keeps[of "ReqDelete k" order now ci] serve_session_keeps[of "ReqMigrate k" order now ci]
    serve_session_keeps[of "ReqMigrateHost k" order now ci] serve_session_keeps[of "ReqLeave k" order now ci]
    serve_session_keeps[of "ReqAddParticipants k us vs" order now ci] serve_session_keeps[of "ReqAbandon k" order now ci]
    serve_session_keeps[of "ReqRegisterUrls urls" order now ci] serve_session_keeps[of "ReqSearchParticipants ty us" order now ci]
    serve_session_keeps[of "ReqSplit k" order now ci] serve_session_keeps[of ReqReport order now ci]
    serve_session_keeps[of "ReqJoin k" order now ci]
  by (auto intro: svc_keeps_answered)

lemmas session_anonymous = session_handler_defs svc_login_bind svc_bind_def [of "svc_bind _ _"]

lemma respects_removal:
  "handler_respects (\<lambda>w r. removal_typed w r \<and> req_method_id r = 9) (rmc_method (rd_pair rd_session_key (rd_qlist rd_u32)) wr_unit
     (svc_method clock (\<lambda>now ci (k, ids). remove_participants_rmc now ci k ids)))"
proof -
  have keeps: "storage_ok w' " if "removal_typed w r" "req_method_id r = 9" "storage_ok w"
    "rd_pair rd_session_key (rd_qlist rd_u32) (req_parameters r) = Inr ((k, ids), rest)"
    "remove_participants_rmc (clock now) ci k ids w = (res, w')" for w r k ids rest now ci res w'
    using remove_request_keeps[of w k ids "clock now" ci] that by (simp add: removal_typed_def)
  have anon: "remove_participants_rmc now ci k ids w = (Inl AccessDenied, w)" if "user_id ci = None" for now ci k ids w
    using that by (simp add: session_anonymous)
  show ?thesis
    unfolding handler_respects_def rmc_method_def svc_method_def
    using keeps by (auto simp: anon split: sum.splits prod.splits)
qed

lemma respects_session: "handler_respects removal_typed (session_protocol clock order)"
  unfolding session_protocol_def
proof (rule respects_protocol)
  fix k h assume "(k, h) \<in> set (session_methods clock order :: (u32 \<times> (storage_state, 'a) rmc_handler) list)"
  then show "handler_respects (\<lambda>w r. removal_typed w r \<and> req_method_id r = k) h"
    unfolding session_methods_def list.set insert_iff empty_iff prod.inject
    by (elim disjE conjE; (simp only:)?)
      ((rule respects_unimplemented respects_removal
        | (rule respects_svc, (simp add: session_anonymous split: prod.split; fail),
           (auto split: prod.split intro!: session_handlers_keep; fail)))+)
qed

lemma respects_session_ex: "handler_respects P (session_ex_protocol clock order)"
  unfolding session_ex_protocol_def
  by (rule respects_protocol) (auto simp: search_sessions_ex_def svc_login_bind intro!: respects_svc search_keeps)

section \<open>The other protocols\<close>

lemma lookups_keep:
  "svc_keeps storage_ok (lookup_principal_ids ci ids)" "svc_keeps storage_ok (lookup_ubi_account_ids_by_pids ci pids)"
  unfolding lookup_principal_ids_def lookup_ubi_account_ids_by_pids_def by (intro svc_intros keeps_read)+

lemma secure_register_anonymous:
  "user_id ci = None \<Longrightarrow> \<exists>e. secure_register ci = Some (Inl e)"
  "user_id ci = None \<Longrightarrow> \<exists>e. secure_register_ex ci = Some (Inl e)"
  by (simp_all add: secure_register_def secure_register_ex_def register_client_def login_required_def)

lemmas fixed_answer_defs = generate_friend_challenges_def get_clan_info_by_pid_def generate_clan_challenges_def
  get_member_list_by_clid_def get_unix_utc_def set_locale_code_def get_privileges_def read_stats_by_players_def
  write_stats_def get_configuration_def send_tags_def get_tracking_user_group_def get_tracking_user_group_tags_def
  has_accepted_latest_tos_def uplay_welcome_def get_actions_completed_def get_rewards_purchased_def
  search_contents_def get_content_url_def

lemmas method_tables = challenge_methods_def clan_methods_def ladder_methods_def locale_methods_def privilege_methods_def
  stats_methods_def tracking_methods_def tracking_ext_methods_def account_methods_def uplay_methods_def
  storage_methods_def secure_methods_def nat_methods_def

lemma respects_tables:
  "handler_respects P (protocol_handle challenge_methods)" "handler_respects P (protocol_handle clan_methods)"
  "handler_respects P (protocol_handle (ladder_methods clock))" "handler_respects P (protocol_handle locale_methods)"
  "handler_respects P (protocol_handle privilege_methods)" "handler_respects P (protocol_handle stats_methods)"
  "handler_respects P (protocol_handle tracking_methods)" "handler_respects P (protocol_handle tracking_ext_methods)"
  "handler_respects P (protocol_handle (account_methods clock pid_order id_order))"
  "handler_respects P (protocol_handle uplay_methods)" "handler_respects P (protocol_handle (storage_methods ctx))"
  "handler_respects P (protocol_handle (secure_methods order))"
  "handler_respects P (protocol_handle (nat_methods ctx z order ids))"
  by (rule respects_protocol; unfold method_tables list.set insert_iff empty_iff prod.inject; elim disjE conjE; (simp only:)?;
      (rule respects_unimplemented respects_probe
       | (rule respects_svc, (simp add: lookup_principal_ids_def lookup_ubi_account_ids_by_pids_def svc_login_bind; fail),
          (rule lookups_keep))
       | (rule respects_plain, (simp add: fixed_answer_defs secure_register_anonymous; fail)))+)+

section \<open>The registry\<close>

definition request_typed :: "storage_state \<Rightarrow> request \<Rightarrow> bool" where
  "request_typed w r \<longleftrightarrow> (req_protocol_id r = GAME_SESSION_PROTOCOL_ID \<longrightarrow> removal_typed w r)"

definition registry_respects :: "(storage_state \<Rightarrow> request \<Rightarrow> bool) \<Rightarrow> (storage_state, 'a) rmc_registry \<Rightarrow> bool" where
  "registry_respects P protocols \<longleftrightarrow>
    (\<forall>(pid, h)\<in>set protocols. handler_respects (\<lambda>w r. P w r \<and> req_protocol_id r = pid) h)"

lemma set_alist_update: "set (AList.update k v xs) \<subseteq> insert (k, v) (set xs)"
  by (induction xs) auto

lemma registry_respects_register:
  assumes "registry_respects P protocols" and "handler_respects (\<lambda>w r. P w r \<and> req_protocol_id r = pid) h"
  shows "registry_respects P (register_protocol pid h protocols)"
  using assms set_alist_update[of pid h protocols]
  unfolding registry_respects_def register_protocol_def by fast

lemma registry_respects_secure: "registry_respects request_typed (secure_protocols env ctx z)"
proof -
  have sess: "handler_respects (\<lambda>w r. request_typed w r \<and> req_protocol_id r = GAME_SESSION_PROTOCOL_ID)
      (session_protocol clock order)" for clock order
    by (rule respects_mono[OF respects_session]) (simp add: request_typed_def)
  have nil: "registry_respects request_typed []" by (simp add: registry_respects_def)
  have core: "handler_respects P (overlord_handle overlord_core)" for P
    using respects_overlord[of P "\<lambda>_. overlord_core"] by simp
  show ?thesis
    unfolding secure_protocols_def
    by (intro registry_respects_register nil respects_tables sess respects_session_ex respects_overlord core)
qed

lemma call_protocol_respects:
  assumes "registry_respects P protocols"
  shows "handler_respects P (call_protocol protocols)"
  unfolding handler_respects_def
proof (intro allI)
  fix now sig w r reg and ci :: "'a client_info"
  show "(user_id ci = None \<longrightarrow> (\<exists>e. call_protocol protocols now sig w ci r reg = Some (w, ci, reg, [], Inl e)))
     \<and> (\<forall>w' ci' reg' sent res. call_protocol protocols now sig w ci r reg = Some (w', ci', reg', sent, res) \<longrightarrow>
          ci' = ci \<and> (table_ok (clients reg) \<longrightarrow> table_ok (clients reg')) \<and> (P w r \<longrightarrow> storage_ok w \<longrightarrow> storage_ok w'))"
  proof (cases "map_of protocols (req_protocol_id r)")
    case None
    then show ?thesis by (simp add: call_protocol_def)
  next
    case (Some h)
    then have "handler_respects (\<lambda>w r'. P w r' \<and> req_protocol_id r' = req_protocol_id r) h"
      using assms map_of_SomeD[OF Some] unfolding registry_respects_def by blast
    with Some show ?thesis unfolding handler_respects_def call_protocol_def by simp
  qed
qed

section \<open>An invariant of the world behind a server\<close>

definition server_runs :: "('w, 'a) server_config \<Rightarrow> ('w, 'a) server \<Rightarrow> ('w, 'a) server \<Rightarrow> bool" where
  "server_runs cfg = rtranclp (server_step cfg)"

lemma authenticate_world:
  "authenticate cfg unix_now p ci st = Some (res, ci', st') \<Longrightarrow> srv_world st' = srv_world st"
  by (auto simp: authenticate_def accept_ticket_def Let_def split: sum.splits prod.splits option.splits if_splits)

locale world_server =
  fixes cfg :: "('w, 'a) server_config" and I :: "'w \<Rightarrow> bool"
  assumes streams: "(v, h) \<in> set (stream_handlers cfg) \<Longrightarrow> I w \<Longrightarrow>
      h now sig w ci data reg = Some (w', ci', reg', sent, res) \<Longrightarrow> I w'"
    and disconnects: "disconnect_handler cfg = Some d \<Longrightarrow> I w \<Longrightarrow> I (d ci w)"
    and expires: "expired_client_handler cfg = Some d \<Longrightarrow> I w \<Longrightarrow> I (d ci w)"
begin

lemma dispatch_world:
  assumes "I (srv_world st)" and "dispatch_payload cfg now p client ack st ci payload = Some (st', out)"
  shows "I (srv_world st')"
proof (cases "map_of (stream_handlers cfg) (pk_destination p)")
  case None
  then show ?thesis using assms by (auto simp: dispatch_payload_def put_client_def)
next
  case (Some h)
  with assms(2) obtain w ci1 reg sent r where h: "h now (pk_signature p) (srv_world st) ci payload (client_registry st) = Some (w, ci1, reg, sent, r)"
    by (auto simp: dispatch_payload_def bind_eq_Some_conv)
  have "srv_world st' = w"
    using assms(2) Some h by (cases r) (auto simp: dispatch_payload_def bind_eq_Some_conv put_client_def Let_def)
  with streams[OF map_of_SomeD[OF Some] assms(1) h] show ?thesis by simp
qed

lemma data_world:
  assumes "I (srv_world st)" and "handle_data cfg now p client st = Some (st', out)"
  shows "I (srv_world st')"
proof (cases "map_of (clients (client_registry st)) (pk_signature p)")
  case None
  then show ?thesis using assms by (simp add: handle_data_def)
next
  case (Some ci)
  define ci0 where "ci0 = seen now ci"
  with Some assms(2) obtain ack where h: "(case pk_fragment_id p of
      None \<Rightarrow> dispatch_payload cfg now p client ack st ci0 (pk_payload p)
    | Some fid \<Rightarrow>
        if fid \<noteq> 0 then
          (case cache_fragment now ci0 fid (pk_sequence p) (pk_payload p) of
             (Inr _, ci) \<Rightarrow> Some (put_client (pk_signature p) ci st, [ack])
           | (Inl _, ci) \<Rightarrow> Some (put_client (pk_signature p) (reset_fragment_state ci) st, [ack]))
        else
          (case finish_fragmented_payload now ci0 (pk_sequence p) (pk_payload p) of
             (Inr payload, ci) \<Rightarrow> dispatch_payload cfg now p client ack st ci payload
           | (Inl _, ci) \<Rightarrow> Some (put_client (pk_signature p) (reset_fragment_state ci) st, [ack])))
      = Some (st', out)"
    by (auto simp: handle_data_def Let_def bind_eq_Some_conv)
  show ?thesis
  proof (cases "pk_fragment_id p")
    case None
    with h show ?thesis by (auto intro: dispatch_world [OF assms(1)])
  next
    case (Some fid)
    obtain r c1 where c: "cache_fragment now ci0 fid (pk_sequence p) (pk_payload p) = (r, c1)"
      by (cases "cache_fragment now ci0 fid (pk_sequence p) (pk_payload p)")
    obtain r' c2 where f: "finish_fragmented_payload now ci0 (pk_sequence p) (pk_payload p) = (r', c2)"
      by (cases "finish_fragmented_payload now ci0 (pk_sequence p) (pk_payload p)")
    have put: "I (srv_world (put_client sig c st))" for sig c using assms(1) by (simp add: put_client_def)
    show ?thesis
      using h Some c f put dispatch_world [OF assms(1)] by (auto split: if_splits sum.splits)
  qed
qed

lemma connect_world:
  assumes "handle_connect cfg unix_now p client st = Some (st', out)"
  shows "srv_world st' = srv_world st"
  using assms
proof (cases rule: handle_connect_cases)
  case (2 csig ci res ci1 st1 ack)
  from authenticate_world[OF 2(3)] have "srv_world st1 = srv_world st" by (simp add: put_client_def admit_def)
  then show ?thesis by (simp add: 2(4) put_client_def)
qed simp

lemma clear_world: "I (srv_world st) \<Longrightarrow> I (srv_world (clear_clients cfg now st))"
proof -
  have fold: "I (srv_world (foldl (\<lambda>st e. expire_client cfg (snd e) st) s l))" if "I (srv_world s)"
    for s :: "('w, 'a) server" and l :: "(u32 \<times> 'a client_info) list"
    using that
  proof (induction l arbitrary: s)
    case (Cons e l)
    have "I (srv_world (expire_client cfg (snd e) s))"
      using Cons.prems expires by (auto simp: expire_client_def Let_def split: option.split)
    with Cons.IH show ?case by simp
  qed simp
  assume "I (srv_world st)"
  then show ?thesis
    unfolding clear_clients_def Let_def by (intro fold) simp
qed

lemma step_world:
  assumes "server_step cfg st st'" and "I (srv_world st)"
  shows "I (srv_world st')"
  using assms(1)
proof (cases rule: server_step.cases)
  case (packet now unix_now p client out)
  have "I (srv_world st')" if "handle_disconnect cfg p client st = Some (st', out)"
    using that assms(2) disconnects by (auto simp: handle_disconnect_def Let_def bind_eq_Some_conv split: option.splits)
  moreover have "srv_world st' = srv_world st" if "handle_ping cfg now p client st = Some (st', out)"
    using that by (auto simp: handle_ping_def bind_eq_Some_conv put_client_def split: option.splits)
  moreover have "srv_world st' = srv_world st" if "handle_syn cfg now p client st = Some (st', out)"
    using that by (auto simp: handle_syn_def Let_def bind_eq_Some_conv)
  ultimately show ?thesis
    using packet assms(2) data_world connect_world
    by (auto simp: handle_packet_def split: packet_type.splits if_splits option.splits)
next
  case (tick now)
  then show ?thesis using assms(2) clear_world by simp
qed

lemma runs_world: "server_runs cfg st st' \<Longrightarrow> I (srv_world st) \<Longrightarrow> I (srv_world st')"
  unfolding server_runs_def by (induction rule: rtranclp_induct) (auto intro: step_world)

end

section \<open>The secure server\<close>

text \<open>
  The secure server in which no removal names the wrong type of an active session: such a
  request stops the run. \<open>guarded\<close> with \<open>\<lambda>_ _. True\<close> is the server as it is.
\<close>

definition guarded :: "('w \<Rightarrow> request \<Rightarrow> bool) \<Rightarrow> ('w, 'a) rmc_registry \<Rightarrow> ('w, 'a) rmc_registry" where
  "guarded P protocols = map (\<lambda>(pid, h). (pid, \<lambda>now sig w ci r reg. if P w r then h now sig w ci r reg else None)) protocols"

lemma guarded_True: "guarded (\<lambda>_ _. True) protocols = protocols"
  by (induction protocols) (auto simp: guarded_def)

lemma map_of_guarded: "map_of (guarded P protocols) k =
   map_option (\<lambda>h now sig w ci r reg. if P w r then h now sig w ci r reg else None) (map_of protocols k)"
proof (induction protocols)
  case (Cons a protocols)
  then show ?case by (cases a) (simp add: guarded_def)
qed (simp add: guarded_def)

lemma call_guarded_keeps:
  assumes "registry_respects P protocols" and "storage_ok w"
    and "call_protocol (guarded P protocols) now sig w ci r reg = Some (w', ci', reg', sent, res)"
  shows "storage_ok w'"
proof (cases "map_of protocols (req_protocol_id r)")
  case None
  then show ?thesis using assms(2,3) by (simp add: call_protocol_def map_of_guarded)
next
  case (Some h)
  then have "P w r" and "call_protocol protocols now sig w ci r reg = Some (w', ci', reg', sent, res)"
    using assms(3) by (auto simp: call_protocol_def map_of_guarded split: if_splits)
  then show ?thesis
    using call_protocol_respects[OF assms(1)] assms(2) unfolding handler_respects_def by blast
qed

lemma rvsec_handle_Some:
  assumes "rvsec_handle protocols now sig w ci data reg = Some (w', ci', reg', sent, res)"
  shows "(w' = w \<and> ci' = ci \<and> reg' = reg)
    \<or> (\<exists>r res0. call_protocol protocols now sig w ci r reg = Some (w', ci', reg', sent, res0))"
  using assms by (auto simp: rvsec_handle_def bind_eq_Some_conv split: sum.splits rmc_packet.splits)

lemma end_session_keeps: "storage_ok w \<Longrightarrow> storage_ok (end_session at ci w)"
  using keepsD[OF end_of_connection_keeps(2)] by (auto simp: end_session_def storage_ok_def split: option.split sum.split)

interpretation secure_world: world_server "start_secure at (guarded request_typed (secure_protocols env ctx z)) cfg" storage_ok
proof (unfold_locales, goal_cases)
  case (1 v h w now sig ci data reg w' ci' reg' sent res)
  then have run: "rvsec_handle (guarded request_typed (secure_protocols env ctx z)) now sig w ci data reg = Some (w', ci', reg', sent, res)"
    by (simp add: start_secure_def rvsec_config_handlers)
  from rvsec_handle_Some[OF run] 1(2) call_guarded_keeps[OF registry_respects_secure] show ?case by blast
qed (auto simp: start_secure_def end_session_keeps)

end
