(* ===== verification/Secure_Panics.thy ===== *)
theory Secure_Panics
  imports Secure_Server
begin

text \<open>
  Which requests stop the secure server: apart from three methods, no handler panics for a
  client of the invariant, whatever the request holds.
\<close>

section \<open>Handlers that never panic\<close>

definition handler_total :: "(storage_state, 'a) rmc_handler \<Rightarrow> bool" where
  "handler_total h \<longleftrightarrow> (\<forall>now sig w ci r reg. client_ok sig ci \<longrightarrow> h now sig w ci r reg \<noteq> None)"

named_theorems total_intros \<open>handlers that never panic\<close>

lemma total_method:
  assumes "\<And>now sig w ci q reg. client_ok sig ci \<Longrightarrow> f now sig w ci q reg \<noteq> None"
  shows "handler_total (rmc_method dec enc f)"
  unfolding handler_total_def
proof (intro allI impI)
  fix now sig w r reg and ci :: "'a client_info" assume "client_ok sig ci"
  then show "rmc_method dec enc f now sig w ci r reg \<noteq> None"
    using assms by (simp add: rmc_method_def bind_eq_None_conv del: not_None_eq split: sum.split prod.split)
qed

lemma total_unimplemented [total_intros]: "handler_total (unimplemented dec)"
  unfolding unimplemented_def by (rule total_method) (simp add: simple_method_def)

lemma total_svc [total_intros]: "handler_total (rmc_method dec enc (svc_method clock f))"
  by (rule total_method) (simp add: svc_method_def split: prod.split)

lemma total_plain:
  assumes "\<And>now sig ci q. client_ok sig ci \<Longrightarrow> f now ci q \<noteq> None"
  shows "handler_total (rmc_method dec enc (\<lambda>now. plain_method (f now) now))"
  by (rule total_method) (use assms in \<open>simp add: plain_method_def del: not_None_eq\<close>)

lemma total_overlord [total_intros]: "handler_total (\<lambda>now. overlord_handle (f now) now)"
  by (simp add: handler_total_def overlord_handle_def)

lemma total_overlord' [total_intros]: "handler_total (overlord_handle f)"
  by (simp add: handler_total_def overlord_handle_def)

lemma protocol_handle_total:
  assumes "client_ok sig ci" and "\<And>h. (req_method_id r, h) \<in> set methods \<Longrightarrow> handler_total h"
  shows "protocol_handle methods now sig w ci r reg \<noteq> None"
proof (cases "map_of methods (req_method_id r)")
  case (Some h)
  then have "handler_total h" using assms(2) map_of_SomeD by fast
  then have "h now sig w ci r reg \<noteq> None" using assms(1) unfolding handler_total_def by blast
  with Some show ?thesis by (simp add: protocol_handle_def del: not_None_eq)
qed (simp add: protocol_handle_def)

lemma total_protocol:
  assumes "\<And>k h. (k, h) \<in> set methods \<Longrightarrow> handler_total h"
  shows "handler_total (protocol_handle methods)"
  unfolding handler_total_def
proof (intro allI impI)
  fix now sig w r reg and ci :: "'a client_info" assume "client_ok sig ci"
  then show "protocol_handle methods now sig w ci r reg \<noteq> None"
    by (rule protocol_handle_total) (rule assms)
qed

text \<open>A table with one method that may panic.\<close>

lemma protocol_panics_at:
  assumes "map_of methods k0 = Some h0" and "\<And>k h. (k, h) \<in> set methods \<Longrightarrow> k = k0 \<or> handler_total h"
    and "client_ok sig ci"
  shows "protocol_handle methods now sig w ci r reg = None \<longleftrightarrow> req_method_id r = k0 \<and> h0 now sig w ci r reg = None"
proof (cases "req_method_id r = k0")
  case False
  then have "protocol_handle methods now sig w ci r reg \<noteq> None"
    using assms(2) by (intro protocol_handle_total [OF assms(3)]) blast
  with False show ?thesis by simp
qed (use assms(1) in \<open>simp add: protocol_handle_def\<close>)

lemma logged_in_None [simp]: "logged_in ci x = None \<longleftrightarrow> user_id ci \<noteq> None \<and> x = None"
  by (simp add: logged_in_def login_required_def split: option.split)

lemma register_total: "client_ok sig ci \<Longrightarrow> register_client sid ty ci \<noteq> None"
  by (auto simp: register_client_def login_required_def client_ok_def split: option.splits sum.splits)

lemma total_tables:
  "handler_total (protocol_handle challenge_methods)" "handler_total (protocol_handle clan_methods)"
  "handler_total (protocol_handle (ladder_methods clock))" "handler_total (protocol_handle locale_methods)"
  "handler_total (protocol_handle privilege_methods)"
  "handler_total (protocol_handle tracking_methods)" "handler_total (protocol_handle tracking_ext_methods)"
  "handler_total (protocol_handle (account_methods clock pid_order id_order))"
  "handler_total (protocol_handle uplay_methods)"
  "handler_total (protocol_handle (secure_methods order))"
  by (rule total_protocol; unfold method_tables list.set insert_iff empty_iff prod.inject; elim disjE conjE; (simp only:)?;
      (rule total_intros
       | (rule total_plain, (simp add: fixed_answer_defs del: not_None_eq; fail))
       | (rule total_plain, unfold secure_register_def secure_register_ex_def, (rule register_total, assumption)))+)+

lemma total_sessions: "handler_total (session_protocol clock order)" "handler_total (session_ex_protocol clock order)"
  unfolding session_protocol_def session_ex_protocol_def session_methods_def
  by (rule total_protocol; unfold list.set insert_iff empty_iff prod.inject; elim disjE conjE; (simp only:)?;
      (rule total_intros)+)+

section \<open>The three methods that may panic\<close>

lemma method_None:
  "rmc_method dec enc f now sig w ci r reg = None \<longleftrightarrow>
    (\<exists>q rest. dec (req_parameters r) = Inr (q, rest) \<and> f now sig w ci q reg = None)"
  by (auto simp: rmc_method_def bind_eq_None_conv split: sum.split prod.split)

lemma stats_panics:
  assumes "client_ok sig ci"
  shows "protocol_handle stats_methods now sig w ci r reg = None \<longleftrightarrow> user_id ci \<noteq> None \<and> req_method_id r = 2
    \<and> (\<exists>qs rest. rd_pair (rd_qlist rd_u32) (rd_qlist rd_statboard_query) (req_parameters r) = Inr (([], qs), rest))"
proof -
  have m: "map_of stats_methods 2 = Some (rmc_method (rd_pair (rd_qlist rd_u32) (rd_qlist rd_statboard_query))
      (wr_qlist wr_statboard_result) (plain_method read_stats_by_players) :: (storage_state, 'a) rmc_handler)"
    by (simp add: stats_methods_def)
  have rest: "k = 2 \<or> handler_total h" if "(k, h) \<in> set stats_methods" for k and h :: "(storage_state, 'a) rmc_handler"
    using that unfolding stats_methods_def list.set insert_iff empty_iff prod.inject
    by (elim disjE conjE; (simp only:)?)
      (rule disjI1 [OF refl] | rule disjI2, (rule total_intros | (rule total_plain, simp add: write_stats_def del: not_None_eq)))+
  have "plain_method read_stats_by_players now sig w ci q reg = None \<longleftrightarrow> user_id ci \<noteq> None \<and> fst q = []" for q
    by (cases "fst q") (simp_all add: plain_method_def read_stats_by_players_def)
  then show ?thesis
    by (auto simp: protocol_panics_at [OF m rest assms] method_None)
qed

lemma storage_panics:
  assumes "client_ok sig ci"
  shows "protocol_handle (storage_methods ctx) now sig w ci r reg = None \<longleftrightarrow> user_id ci \<noteq> None \<and> req_method_id r = 9
    \<and> (\<exists>k rest. rd_content_key (req_parameters r) = Inr (k, rest))
    \<and> (ctx_settings ctx ''storage_host'' = None \<or> ctx_settings ctx ''storage_path'' = None)"
proof -
  have m: "map_of (storage_methods ctx) 9 = Some (rmc_method rd_content_key wr_content_url
      (plain_method (get_content_url ctx)) :: (storage_state, 'a) rmc_handler)"
    by (simp add: storage_methods_def)
  have rest: "k = 9 \<or> handler_total h" if "(k, h) \<in> set (storage_methods ctx)" for k and h :: "(storage_state, 'a) rmc_handler"
    using that unfolding storage_methods_def list.set insert_iff empty_iff prod.inject
    by (elim disjE conjE; (simp only:)?)
      (rule disjI1 [OF refl] | rule disjI2, (rule total_intros | (rule total_plain, simp add: search_contents_def del: not_None_eq)))+
  have "plain_method (get_content_url ctx) now sig w ci q reg = None \<longleftrightarrow> user_id ci \<noteq> None
      \<and> (ctx_settings ctx ''storage_host'' = None \<or> ctx_settings ctx ''storage_path'' = None)" for q
    by (auto simp: plain_method_def get_content_url_def split: option.split)
  then show ?thesis
    by (auto simp: protocol_panics_at [OF m rest assms] method_None)
qed

lemma nat_panics:
  assumes "client_ok sig ci" and "zlib_ok z" and "crypto_key ctx \<noteq> []" and "length (crypto_key ctx) \<le> 256"
  shows "protocol_handle (nat_methods ctx z order ids) now sig w ci r reg = None \<longleftrightarrow> user_id ci \<noteq> None \<and> req_method_id r = 3
    \<and> (\<exists>urls probe rest url target. rd_probe_request order (req_parameters r) = Inr ((urls, probe), rest)
        \<and> url \<in> set urls \<and> probe_target reg url = Some (sig, target))"
proof -
  have m: "map_of (nat_methods ctx z order ids) 3 = Some (rmc_method (rd_probe_request order) wr_unit
      (\<lambda>now. request_probe_initiation_ext ctx z (ids now) now) :: (storage_state, 'a) rmc_handler)"
    by (simp add: nat_methods_def)
  have rest: "k = 3 \<or> handler_total h" if "(k, h) \<in> set (nat_methods ctx z order ids)" for k and h :: "(storage_state, 'a) rmc_handler"
    using that unfolding nat_methods_def list.set insert_iff empty_iff prod.inject
    by (elim disjE conjE; (simp only:)?) (rule disjI1 [OF refl] | rule disjI2, rule total_intros)+
  have "request_probe_initiation_ext ctx z (ids now) now sig w ci q reg = None \<longleftrightarrow> user_id ci \<noteq> None
      \<and> (\<exists>url\<in>set (fst q). \<exists>target. probe_target reg url = Some (sig, target))" for q
    using initiate_probes_None [OF assms(2-4), of sig "snd q" "ids now" "fst q" reg]
    by (cases "user_id ci"; cases "initiate_probes ctx z sig (snd q) (ids now) (fst q) reg")
      (simp_all add: request_probe_initiation_ext_def login_required_def split: prod.split)
  then show ?thesis
    by (fastforce simp: protocol_panics_at [OF m rest assms(1)] method_None)
qed

section \<open>The registry\<close>

definition registry_total_but :: "u16 set \<Rightarrow> (storage_state, 'a) rmc_registry \<Rightarrow> bool" where
  "registry_total_but X protocols \<longleftrightarrow> (\<forall>(pid, h)\<in>set protocols. pid \<in> X \<or> handler_total h)"

lemma registry_total_register:
  "registry_total_but X protocols \<Longrightarrow> pid \<in> X \<or> handler_total h \<Longrightarrow> registry_total_but X (register_protocol pid h protocols)"
  using set_alist_update [of pid h protocols] unfolding registry_total_but_def register_protocol_def by fast

abbreviation panic_protocols :: "u16 set" where
  "panic_protocols \<equiv> {PLAYER_STATS_PROTOCOL_ID, USER_STORAGE_PROTOCOL_ID, NAT_TRAVERSAL_PROTOCOL_ID}"

lemma registry_total_secure: "registry_total_but panic_protocols (secure_protocols env ctx z)"
proof -
  have nil: "registry_total_but panic_protocols []" by (simp add: registry_total_but_def)
  have x: "pid \<in> panic_protocols \<or> handler_total h" if "handler_total h" for pid and h :: "(storage_state, 'a) rmc_handler"
    using that by simp
  have y: "PLAYER_STATS_PROTOCOL_ID \<in> panic_protocols \<or> handler_total h" "USER_STORAGE_PROTOCOL_ID \<in> panic_protocols \<or> handler_total h"
    "NAT_TRAVERSAL_PROTOCOL_ID \<in> panic_protocols \<or> handler_total h" for h :: "(storage_state, 'a) rmc_handler"
    by simp_all
  show ?thesis
    unfolding secure_protocols_def
    by (intro registry_total_register nil)
      (rule y | rule x, rule total_tables total_sessions total_intros)+
qed

lemmas protocol_ids = USER_STORAGE_PROTOCOL_ID_def UPLAY_WIN_PROTOCOL_ID_def UBI_ACCOUNT_MANAGEMENT_PROTOCOL_ID_def
  TRACKING_PROTOCOL_3_ID_def TRACKING_EXTENSION_PROTOCOL_ID_def SECURE_CONNECTION_PROTOCOL_ID_def
  PRIVILEGES_PROTOCOL_ID_def PLAYER_STATS_PROTOCOL_ID_def OVERLORD_NEWS_ID_def OVERLORD_CORE_ID_def
  OVERLORD_CHALLENGE_ID_def NAT_TRAVERSAL_PROTOCOL_ID_def LOCALIZATION_PROTOCOL_ID_def LADDER_HELPER_PROTOCOL_ID_def
  GAME_SESSION_PROTOCOL_ID_def GAME_SESSION_EX_PROTOCOL_ID_def CLAN_HELPER_PROTOCOL_ID_def CHALLENGE_HELPER_PROTOCOL_ID_def

lemma secure_lookup:
  "map_of (secure_protocols env ctx z) PLAYER_STATS_PROTOCOL_ID = Some (protocol_handle stats_methods)"
  "map_of (secure_protocols env ctx z) USER_STORAGE_PROTOCOL_ID = Some (protocol_handle (storage_methods ctx))"
  "map_of (secure_protocols env ctx z) NAT_TRAVERSAL_PROTOCOL_ID =
     Some (protocol_handle (nat_methods ctx z (env_params env) (env_call_ids env)))"
  by (simp_all add: secure_protocols_def register_protocol_def update_conv' protocol_ids)

lemma secure_call_None:
  assumes "client_ok sig (ci :: 'a client_info)"
  shows "call_protocol (secure_protocols env ctx z) now sig w ci r reg = None \<longleftrightarrow>
    (req_protocol_id r = PLAYER_STATS_PROTOCOL_ID \<and> protocol_handle stats_methods now sig w ci r reg = None)
    \<or> (req_protocol_id r = USER_STORAGE_PROTOCOL_ID \<and> protocol_handle (storage_methods ctx) now sig w ci r reg = None)
    \<or> (req_protocol_id r = NAT_TRAVERSAL_PROTOCOL_ID
       \<and> protocol_handle (nat_methods ctx z (env_params env) (env_call_ids env)) now sig w ci r reg = None)"
proof (cases "req_protocol_id r \<in> panic_protocols")
  case True
  then show ?thesis
    by (elim insertE emptyE) (simp_all add: call_protocol_def secure_lookup, simp_all add: protocol_ids)
next
  case False
  have "call_protocol (secure_protocols env ctx z) now sig w ci r reg \<noteq> None"
  proof (cases "map_of (secure_protocols env ctx z :: (storage_state, 'a) rmc_registry) (req_protocol_id r)")
    case (Some h)
    with False have "handler_total h"
      using registry_total_secure map_of_SomeD [OF Some] unfolding registry_total_but_def by fast
    then have "h now sig w ci r reg \<noteq> None" using assms unfolding handler_total_def by blast
    with Some show ?thesis by (simp add: call_protocol_def del: not_None_eq)
  qed (simp add: call_protocol_def)
  with False show ?thesis by simp
qed

section \<open>Reachable states\<close>

lemma server_runs_reachable: "server_runs cfg (server_new w) st \<Longrightarrow> server_reachable cfg st"
  unfolding server_runs_def
  by (induction rule: rtranclp_induct) (auto intro: server_reachable.intros)

lemma guarded_sane:
  assumes "registry_respects P protocols"
  shows "protocols_sane (guarded Q protocols)"
  unfolding protocols_sane_def
proof (clarify)
  fix pid h now sig w ci r reg w' ci' reg' sent res
  assume h: "(pid, h) \<in> set (guarded Q protocols)" and run: "h now sig w ci r reg = Some (w', ci', reg', sent, res)"
    and ok: "client_ok sig (ci :: 'a client_info)" "table_ok (clients reg)"
  obtain h0 where h0: "(pid, h0) \<in> set protocols"
    and eq: "h = (\<lambda>now sig w ci r reg. if Q w r then h0 now sig w ci r reg else None)"
    using h unfolding guarded_def by auto
  then have "h0 now sig w ci r reg = Some (w', ci', reg', sent, res)" using run by (simp split: if_splits)
  moreover have "handler_respects (\<lambda>w r. P w r \<and> req_protocol_id r = pid) h0"
    using assms h0 unfolding registry_respects_def by blast
  ultimately show "client_ok sig ci' \<and> table_ok (clients reg')"
    using ok unfolding handler_respects_def by blast
qed

lemma start_secure_sane:
  assumes "protocols_sane protocols"
  shows "handlers_sane (start_secure at protocols cfg)"
  using rvsec_config_sane [OF assms] by (simp add: start_secure_def handlers_sane_def)

section \<open>Properties of the secure server\<close>

definition sample_env :: service_env where
  "sample_env = \<lparr>env_clock = (\<lambda>t. t), env_params = (\<lambda>_. []), env_pids = (\<lambda>_. []), env_ubi_ids = (\<lambda>_. []),
     env_entries = (\<lambda>x. x), env_call_ids = (\<lambda>_. of_nat), env_news = (\<lambda>_. None), env_challenges = (\<lambda>_. None),
     env_draw = (\<lambda>_. ([], [])), env_verify = (\<lambda>_ _. None)\<rparr>"

definition sample_request :: "u16 \<Rightarrow> u32 \<Rightarrow> bytes \<Rightarrow> request" where
  "sample_request pid mid body =
    \<lparr>req_protocol_id = pid, req_call_id = 5, req_method_id = mid, req_parameters = body\<rparr>"

text \<open>C31 (secure_requests_need_login). A client without a login gets an error for every request
  to every protocol of the secure server, whatever the request holds, and the request changes
  neither the storage nor the client nor the registry, and sends nothing else.\<close>

theorem secure_requests_need_login:
  assumes "user_id ci = None" and "request_ok r"
  shows "\<exists>e. rvsec_handle (secure_protocols env ctx z) now sig w ci (request_to_bytes r) reg
    = Some (w, ci, reg, [], Inr (response_to_bytes (response_for r (Inl e))))"
proof -
  obtain e where "call_protocol (secure_protocols env ctx z) now sig w ci r reg = Some (w, ci, reg, [], Inl e)"
    using call_protocol_respects [OF registry_respects_secure] assms(1) unfolding handler_respects_def by blast
  then show ?thesis by (intro exI [of _ e]) (simp add: rvsec_handle_request [OF assms(2)])
qed

theorem secure_requests_need_login_witness:
  "\<exists>e. rvsec_handle (secure_protocols sample_env sample_context stored_zlib) 0 7 (sample_storage_state hosted_db)
      (sample_client None) (request_to_bytes (sample_request 36 4 [])) (client_registry sample_server)
    = Some (sample_storage_state hosted_db, sample_client None, client_registry sample_server, [],
        Inr (response_to_bytes (response_for (sample_request 36 4 []) (Inl e))))"
  by (rule secure_requests_need_login) (simp_all add: sample_client_def request_ok_def sample_request_def request_body_def request_header_def)

lemma login_out: "(a \<and> u \<and> b \<and> P \<or> c \<and> u \<and> d \<and> Q \<or> e \<and> u \<and> f \<and> R)
    \<longleftrightarrow> u \<and> ((a \<and> b) \<and> P \<or> (c \<and> d) \<and> Q \<or> (e \<and> f) \<and> R)"
  by blast


lemma sample_client_logged: "client_ok 1 ((sample_client (Some 1000))\<lparr>connection_id := Some 4\<rparr>)"
  by (simp add: client_ok_def sample_client_def client_info_new_def fragments_inv_def fragment_total_def)


text \<open>In every state a run of the secure server reaches, through any
  datagrams, expiries and ends of connections, the storage satisfies its invariant and the
  table of clients its own, provided no removal names a session id under another type.\<close>

lemma secure_server_storage:
  assumes "storage_inv (ss_db w)"
    and "server_runs (start_secure at (guarded request_typed (secure_protocols env ctx z)) cfg) (server_new w) st"
  shows "storage_inv (ss_db (srv_world st)) \<and> server_inv st"
proof
  show "storage_inv (ss_db (srv_world st))"
    using secure_world.runs_world [OF assms(2)] assms(1) by (simp add: server_new_def storage_ok_def)
  have "handlers_sane (start_secure at (guarded request_typed (secure_protocols env ctx z)) cfg)"
    by (rule start_secure_sane [OF guarded_sane [OF registry_respects_secure]])
  then show "server_inv st"
    using server_runs_reachable [OF assms(2)] server_reachable_inv by blast
qed

definition secure_config :: "(storage_state, unit) server_config" where
  "secure_config = \<lparr>srv_ctx = sample_context, srv_zlib = stored_zlib, srv_crypto = sample_crypto,
     stream_handlers = [], user_handler = None, expired_client_handler = None, disconnect_handler = None,
     default_additional = (), rng = (\<lambda>n. of_nat n + 7)\<rparr>"

lemma secure_server_storage_witness:
  "\<exists>st out. handle_packet (start_secure (\<lambda>_ _. 9) (guarded request_typed (secure_protocols sample_env sample_context stored_zlib))
       secure_config) 0 0 (sample_packet Syn []) sample_addr (server_new (sample_storage_state hosted_db)) = Some (st, out)
     \<and> storage_inv (ss_db (srv_world st)) \<and> server_inv st"
proof -
  let ?cfg = "start_secure (\<lambda>_ _. 9) (guarded request_typed (secure_protocols sample_env sample_context stored_zlib)) secure_config"
  have "config_ok ?cfg"
    using stored_zlib_ok sample_context_key [of "[]", folded sample_context_def]
    by (simp add: config_ok_def start_secure_def rvsec_config_def register_handler_def secure_config_def)
  from handle_syn_total [OF this sample_packet_ok, of Syn]
  have "handle_packet ?cfg 0 0 (sample_packet Syn []) sample_addr (server_new (sample_storage_state hosted_db)) \<noteq> None"
    by (simp add: handle_packet_def sample_packet_def del: not_None_eq)
  then obtain st out where run:
    "handle_packet ?cfg 0 0 (sample_packet Syn []) sample_addr (server_new (sample_storage_state hosted_db)) = Some (st, out)"
    by auto
  then have "server_runs ?cfg (server_new (sample_storage_state hosted_db)) st"
    unfolding server_runs_def by (intro r_into_rtranclp server_step.packet)
  from secure_server_storage [OF _ this] run show ?thesis
    by (auto simp: sample_storage_state_def hosted_inv)
qed

end
