(* ===== verification/Service_Config.thy ===== *)
theory Service_Config
  imports Account_Services
begin

text \<open>
  The configuration of the servers (\<open>quazal/src/config.rs\<close>,
  \<open>dedicated-server/config/src/lib.rs\<close>): the online configuration and the replacement of its
  addresses, which services run, the defaults; and the two HTTP servers of
  \<open>dedicated-server/src/simple_http.rs\<close>. TOML and JSON are external: decoding is an argument.
  \<open>None\<close> is a panic.
\<close>

section \<open>The online configuration\<close>

record online_item =
  oi_name :: string
  oi_values :: "string list"

datatype online_content = RawContent string | TypedContent "online_item list"

record online_config =
  oc_listen :: socket_addr
  oc_content :: online_content

text \<open>An \<open>IpAddr\<close>, by its text.\<close>

datatype ip_addr = IpV4 string | IpV6 string

fun show_ip :: "ip_addr \<Rightarrow> string" where
  "show_ip (IpV4 s) = s"
| "show_ip (IpV6 s) = s"

fun show_socket :: "ip_addr \<Rightarrow> nat \<Rightarrow> string" where
  "show_socket (IpV4 s) p = s @ '':'' @ show_nat p"
| "show_socket (IpV6 s) p = ''['' @ s @ '']:'' @ show_nat p"

text \<open>\<open>str::find\<close>: the index of the first occurrence.\<close>

fun find_str :: "string \<Rightarrow> string \<Rightarrow> nat option" where
  "find_str p [] = (if p = [] then Some 0 else None)"
| "find_str p (c # cs) = (if starts_with p (c # cs) then Some 0 else map_option Suc (find_str p cs))"

text \<open>
  \<open>split_off(start)\<close>, then the new text and the rest from \<open>end - start\<close> on: an end before the
  start is an underflow, or a slice out of range.
\<close>

definition splice :: "string \<Rightarrow> nat \<Rightarrow> nat \<Rightarrow> string \<Rightarrow> string option" where
  "splice s start stop new = (if stop < start then None else Some (take start s @ new @ drop stop s))"

definition replace_address :: "string \<Rightarrow> string \<Rightarrow> string option" where
  "replace_address ip value =
    (case find_str ''address='' value of
       None \<Rightarrow> Some value
     | Some i \<Rightarrow>
        (case find_str '';port'' value of
           None \<Rightarrow> Some value
         | Some stop \<Rightarrow> splice value (i + length ''address='') stop ip))"

text \<open>
  \<open>parse::<SocketAddr>\<close> of an IPv4 text, whose port may have leading zeros; what replacing the
  address gives for an IPv6 text is the argument \<open>v6\<close>.
\<close>

definition parse_socket_v4 :: "string \<Rightarrow> nat option" where
  "parse_socket_v4 s =
    Option.bind (split_once '':'' s) (\<lambda>(host, p).
    if parse_ipv4 host = None \<or> p = [] then None
    else Option.bind (parse_digits 0 p) (\<lambda>n. if n < 65536 then Some n else None))"

definition replace_socket :: "(string \<Rightarrow> ip_addr \<Rightarrow> string option) \<Rightarrow> ip_addr \<Rightarrow> string \<Rightarrow> string" where
  "replace_socket v6 ip value =
    (case parse_socket_v4 value of
       Some p \<Rightarrow> show_socket ip p
     | None \<Rightarrow> (case v6 value ip of None \<Rightarrow> value | Some t \<Rightarrow> t))"

definition replace_item :: "(string \<Rightarrow> ip_addr \<Rightarrow> string option) \<Rightarrow> ip_addr \<Rightarrow> online_item \<Rightarrow> online_item option" where
  "replace_item v6 ip item =
    (if oi_name item = ''SandboxUrl''
     then map_option (\<lambda>vs. item\<lparr>oi_values := vs\<rparr>) (collect_options (map (replace_address (show_ip ip)) (oi_values item)))
     else if oi_name item = ''SandboxUrlWS''
     then Some (item\<lparr>oi_values := map (replace_socket v6 ip) (oi_values item)\<rparr>)
     else Some item)"

text \<open>One replacement in the raw text: after \<open>name\<close>, what stands between \<open>before\<close> and \<open>after\<close>.\<close>

definition replace_raw :: "string \<Rightarrow> string \<Rightarrow> string \<Rightarrow> string \<Rightarrow> string \<Rightarrow> (string \<times> bool) option" where
  "replace_raw name before behind ip s =
    (case find_str name s of
       None \<Rightarrow> Some (s, False)
     | Some idx \<Rightarrow>
        (case find_str before (drop idx s) of
           None \<Rightarrow> Some (s, False)
         | Some i \<Rightarrow>
            (case find_str behind (drop idx s) of
               None \<Rightarrow> Some (s, False)
             | Some j \<Rightarrow> map_option (\<lambda>s. (s, True)) (splice s (i + length before + idx) (j + idx) ip))))"

definition set_ips_raw :: "string \<Rightarrow> string \<Rightarrow> string option" where
  "set_ips_raw ip s =
    Option.bind (replace_raw ''\"Name\":\"SandboxUrl\",'' ''address='' '';port'' ip s) (\<lambda>(s, go).
    if \<not> go then Some s
    else map_option fst (replace_raw ''\"Name\":\"SandboxUrlWS\",'' ''\"Values\":[\"'' ''\"]'' ip s))"

definition set_ips :: "(string \<Rightarrow> ip_addr \<Rightarrow> string option) \<Rightarrow> ip_addr \<Rightarrow> ip_addr \<Rightarrow> online_config \<Rightarrow> online_config option" where
  "set_ips v6 ip public_ip c =
    (let c = c\<lparr>oc_listen := (show_ip ip, snd (oc_listen c))\<rparr> in
     map_option (\<lambda>content. c\<lparr>oc_content := content\<rparr>)
       (case oc_content c of
          RawContent s \<Rightarrow> map_option RawContent (set_ips_raw (show_ip public_ip) s)
        | TypedContent items \<Rightarrow> map_option TypedContent (collect_options (map (replace_item v6 public_ip) items))))"

definition online_config_text :: "(online_item list \<Rightarrow> string option) \<Rightarrow> online_config \<Rightarrow> string" where
  "online_config_text to_json c =
    (case oc_content c of
       RawContent s \<Rightarrow> s
     | TypedContent items \<Rightarrow> (case to_json items of None \<Rightarrow> '''' | Some s \<Rightarrow> s))"

definition online_config_default :: online_config where
  "online_config_default = \<lparr>oc_listen = (''0.0.0.0'', 80), oc_content = TypedContent
     [\<lparr>oi_name = ''SandboxUrl'', oi_values = [''prudp:/address=127.0.0.1;port=21126'']\<rparr>,
      \<lparr>oi_name = ''SandboxUrlWS'', oi_values = [''127.0.0.1:21126'']\<rparr>]\<rparr>"

section \<open>Services\<close>

record content_server =
  cs_listen :: socket_addr
  cs_files :: "string \<rightharpoonup> string"

definition content_server_default :: content_server where
  "content_server_default = \<lparr>cs_listen = (''127.0.0.1'', 8000),
     cs_files = [''/mp_balancing.ini'' \<mapsto> ''./data/mp_balancing.ini'']\<rparr>"

datatype quazal_service =
    AuthenticationService quazal_context
  | SecureService quazal_context
  | ConfigService online_config
  | ContentService content_server

datatype service_tag = TagAuthentication | TagSecure | TagConfig | TagContent

text \<open>
  Decoding a service: \<open>tag\<close> is its type, if it has one; the other arguments are what decoding
  the value as each of the structs gives.
\<close>

definition decode_service ::
    "('e + service_tag) option \<Rightarrow> 'e + quazal_context \<Rightarrow> 'e + online_config \<Rightarrow> 'e + content_server \<Rightarrow> 'e + quazal_service" where
  "decode_service tag ctx cfg content =
    (case tag of
       Some (Inl e) \<Rightarrow> Inl e
     | Some (Inr TagAuthentication) \<Rightarrow> map_sum id AuthenticationService ctx
     | Some (Inr TagSecure) \<Rightarrow> map_sum id SecureService ctx
     | Some (Inr TagConfig) \<Rightarrow> map_sum id ConfigService cfg
     | Some (Inr TagContent) \<Rightarrow> map_sum id ContentService content
     | None \<Rightarrow> map_sum id (\<lambda>c. if secure_server_addr c \<noteq> None then AuthenticationService c else SecureService c) ctx)"

text \<open>\<open>into_services\<close>: the entries in the order of the map, and the names without an entry.\<close>

fun remove_services :: "string set \<Rightarrow> (string \<times> 's) list \<Rightarrow> (string \<times> 's) list \<times> string set" where
  "remove_services services [] = ([], services)"
| "remove_services services ((n, c) # entries) =
    (if n \<in> services
     then (let (found, rest) = remove_services (services - {n}) entries in ((n, c) # found, rest))
     else remove_services services entries)"

definition into_services :: "string set \<Rightarrow> (string \<times> 's) list \<Rightarrow> string set + (string \<times> 's) list" where
  "into_services services entries =
    (let (found, rest) = remove_services services entries in if rest = {} then Inr found else Inl rest)"

text \<open>The default configuration of the dedicated server; \<open>tkey\<close> is the generated ticket key.\<close>

definition default_secure_context :: "bytes \<Rightarrow> quazal_context" where
  "default_secure_context tkey = (splinter_cell_blacklist tkey)\<lparr>ctx_listen := (''0.0.0.0'', 21126 + 1),
     ctx_settings := [''storage_host'' \<mapsto> ''127.0.0.1:8000'', ''storage_path'' \<mapsto> ''/mp_balancing.ini'']\<rparr>"

definition default_authentication_context :: "bytes \<Rightarrow> quazal_context" where
  "default_authentication_context tkey = (splinter_cell_blacklist tkey)\<lparr>ctx_listen := (''0.0.0.0'', 21126),
     secure_server_addr := Some (''127.0.0.1'', snd (ctx_listen (default_secure_context tkey)))\<rparr>"

definition default_services :: "bytes \<Rightarrow> string set \<times> (string \<times> quazal_service) list" where
  "default_services tkey =
    ({''onlineconfig'', ''content'', ''sc_bl_secure'', ''sc_bl_auth''},
     [(''sc_bl_auth'', AuthenticationService (default_authentication_context tkey)),
      (''sc_bl_secure'', SecureService (default_secure_context tkey)),
      (''onlineconfig'', ConfigService online_config_default),
      (''content'', ContentService (content_server_default\<lparr>cs_listen := (''0.0.0.0'', 8000)\<rparr>))])"

section \<open>The HTTP servers\<close>

definition crlf :: string where "crlf = [CHR 0x0D, CHR 0x0A]"

definition http_ok :: "bytes \<Rightarrow> bytes" where
  "http_ok data = str_bytes (''HTTP/1.0 200 OK'' @ crlf @ ''Content-Type: application/octet-stream'' @ crlf
     @ ''Content-Length: '' @ show_nat (length data) @ crlf @ crlf) @ data"

text \<open>\<open>serve\<close> answers every line with the one text.\<close>

definition serve_one :: "string \<Rightarrow> string option \<Rightarrow> bytes option" where
  "serve_one content line = map_option (\<lambda>_. http_ok (str_bytes content)) line"

text \<open>
  The outcome of a connection: an answer, none (the line could not be read), the end of the
  server (a listed file could not be read), or a panic. \<open>fs\<close> is the file system.
\<close>

datatype http_outcome = Answer bytes | NoAnswer | ServerEnds | ServerPanics

definition http_error :: "string \<Rightarrow> bytes" where
  "http_error status = str_bytes (''HTTP/1.0 '' @ status @ crlf @ crlf)"

definition get_prefix :: string where "get_prefix = ''GET ''"
definition http_suffix :: string where "http_suffix = '' HTTP/1.1'' @ crlf"

definition serve_many_step ::
    "(string \<rightharpoonup> string) \<Rightarrow> (string \<Rightarrow> bytes option) \<Rightarrow> string option \<Rightarrow> http_outcome" where
  "serve_many_step files fs line =
    (case line of
       None \<Rightarrow> NoAnswer
     | Some l \<Rightarrow>
        if \<not> starts_with get_prefix l then Answer (http_error ''405 Method Not Allowed'')
        else if \<not> starts_with (rev http_suffix) (rev l) then Answer (http_error ''400 Bad Request'')
        else if length l < length get_prefix + length http_suffix then ServerPanics
        else (case files (drop (length get_prefix) (take (length l - length http_suffix) l)) of
            Some file \<Rightarrow> (case fs file of None \<Rightarrow> ServerEnds | Some data \<Rightarrow> Answer (http_ok data))
          | None \<Rightarrow> Answer (http_error ''404 Not Found'')))"

text \<open>The loop: the answers to a sequence of connections, and whether the server still runs.\<close>

fun serve_many :: "(string \<rightharpoonup> string) \<Rightarrow> (string \<Rightarrow> bytes option) \<Rightarrow> string option list \<Rightarrow> bytes option list \<times> bool" where
  "serve_many files fs [] = ([], True)"
| "serve_many files fs (l # ls) =
    (case serve_many_step files fs l of
       Answer b \<Rightarrow> (let (bs, ok) = serve_many files fs ls in (Some b # bs, ok))
     | NoAnswer \<Rightarrow> (let (bs, ok) = serve_many files fs ls in (None # bs, ok))
     | ServerEnds \<Rightarrow> ([], False)
     | ServerPanics \<Rightarrow> ([], False))"

section \<open>What the content server answers\<close>

definition get_request :: "string \<Rightarrow> string" where
  "get_request path = get_prefix @ path @ http_suffix"

text \<open>The one line that begins and ends right but is too short: the blank of both is shared.\<close>

definition short_request :: string where "short_request = ''GET HTTP/1.1'' @ crlf"

lemma ends_with_iff: "starts_with (rev p) (rev s) \<longleftrightarrow> (\<exists>r. s = r @ p)"
proof
  assume "starts_with (rev p) (rev s)"
  then obtain r where "rev s = rev p @ r" by (auto simp: starts_with_iff)
  then have "s = rev r @ p" by (metis rev_append rev_rev_ident)
  then show "\<exists>r. s = r @ p" ..
qed auto

lemma request_lengths: "length get_prefix = 4" "length http_suffix = 11"
  by (simp_all add: get_prefix_def http_suffix_def crlf_def)

lemma framed_request:
  assumes "starts_with get_prefix l" and "starts_with (rev http_suffix) (rev l)"
  shows "l = short_request \<or> (\<exists>path. l = get_request path)"
proof -
  from assms obtain a b where a: "l = get_prefix @ a" and b: "l = b @ http_suffix"
    unfolding ends_with_iff unfolding starts_with_iff by blast
  then have "get_prefix @ a = b @ http_suffix" by simp
  then obtain u where "get_prefix = b @ u \<and> u @ a = http_suffix \<or> get_prefix @ u = b \<and> a = u @ http_suffix"
    unfolding append_eq_append_conv2 by blast
  then show ?thesis
  proof
    assume "get_prefix @ u = b \<and> a = u @ http_suffix"
    with a show ?thesis by (auto simp: get_request_def)
  next
    assume "get_prefix = b @ u \<and> u @ a = http_suffix"
    then have u: "b @ u = ''GET ''" and "u @ a = http_suffix" by (simp_all add: get_prefix_def)
    then show ?thesis using a
      by (auto simp: get_prefix_def http_suffix_def crlf_def short_request_def get_request_def
        append_eq_Cons_conv)
  qed
qed

lemma step_get_request: "serve_many_step files fs (Some (get_request path)) =
    (case files path of
       None \<Rightarrow> Answer (http_error ''404 Not Found'')
     | Some file \<Rightarrow> (case fs file of None \<Rightarrow> ServerEnds | Some data \<Rightarrow> Answer (http_ok data)))"
proof -
  have "starts_with (rev http_suffix) (rev (get_request path))"
    unfolding ends_with_iff get_request_def by (metis append.assoc)
  then show ?thesis
    by (simp add: serve_many_step_def get_request_def split: option.split)
qed

lemma step_short_request: "serve_many_step files fs (Some short_request) = ServerPanics"
  by (simp add: serve_many_step_def short_request_def get_prefix_def http_suffix_def crlf_def)

lemma get_request_not_short: "get_request path \<noteq> short_request"
proof
  assume "get_request path = short_request"
  from arg_cong [OF this, of length] show False
    by (simp add: get_request_def request_lengths short_request_def crlf_def)
qed

lemma get_request_inj: "get_request p = get_request q \<longleftrightarrow> p = q"
  by (simp add: get_request_def)

lemma step_other_line:
  assumes "l \<noteq> short_request" and "\<nexists>path. l = get_request path"
  shows "\<exists>e. serve_many_step files fs (Some l) = Answer (http_error e)"
  using assms framed_request [of l] by (auto simp: serve_many_step_def)

definition request_breaks :: "(string \<rightharpoonup> string) \<Rightarrow> (string \<Rightarrow> bytes option) \<Rightarrow> string option \<Rightarrow> bool" where
  "request_breaks files fs line \<longleftrightarrow> line = Some short_request \<or>
     (\<exists>path file. line = Some (get_request path) \<and> files path = Some file \<and> fs file = None)"

lemma step_breaks: "request_breaks files fs line \<longleftrightarrow>
    serve_many_step files fs line = ServerPanics \<or> serve_many_step files fs line = ServerEnds"
proof (cases line)
  case None
  then show ?thesis by (simp add: request_breaks_def serve_many_step_def)
next
  case (Some l)
  consider "l = short_request" | path where "l = get_request path"
    | "l \<noteq> short_request" "\<nexists>path. l = get_request path" by blast
  then show ?thesis
  proof cases
    case 1
    then show ?thesis using Some by (simp add: step_short_request request_breaks_def)
  next
    case 2
    then show ?thesis using Some
      by (auto simp: step_get_request request_breaks_def get_request_inj get_request_not_short
        split: option.split)
  next
    case 3
    then show ?thesis using Some step_other_line [OF 3, of files fs]
      by (auto simp: request_breaks_def)
  qed
qed

text \<open>The content server answers connections until one of them asks,
  with a well-formed request line, for a listed file that cannot be read, or sends the one line
  \<open>GET HTTP/1.1\<close> whose path would have a negative length; nothing else a client sends stops
  it, and every earlier connection has been handled.
\<close>

lemma content_server_stops_iff:
  "(snd (serve_many files fs lines) \<longleftrightarrow> \<not> (\<exists>l \<in> set lines. request_breaks files fs l))
    \<and> length (fst (serve_many files fs lines)) = length (takeWhile (\<lambda>l. \<not> request_breaks files fs l) lines)"
proof (induction lines)
  case (Cons l lines)
  then show ?case by (auto simp: step_breaks split: http_outcome.split prod.split)
qed simp

section \<open>The services that run\<close>

lemma remove_services_filter:
  "distinct (map fst entries) \<Longrightarrow> remove_services names entries =
     (filter (\<lambda>e. fst e \<in> names) entries, names - fst ` set entries)"
proof (induction entries arbitrary: names)
  case (Cons e entries)
  obtain n c where e: "e = (n, c)" by (cases e)
  have "filter (\<lambda>e. fst e \<in> names - {n}) entries = filter (\<lambda>e. fst e \<in> names) entries"
    using Cons.prems e by (intro filter_cong refl) force
  then show ?case using Cons e by auto
qed simp

text \<open>
  When the configuration names each service once, \<open>into_services\<close> gives
  exactly the entries that are enabled, in the order of the table, if every enabled name has an
  entry; otherwise it gives exactly the enabled names that have none.
\<close>

lemma services_exact:
  assumes "distinct (map fst entries)"
  shows "into_services names entries =
    (if names \<subseteq> fst ` set entries then Inr (filter (\<lambda>e. fst e \<in> names) entries)
     else Inl (names - fst ` set entries))"
  using assms by (auto simp: into_services_def remove_services_filter Diff_eq_empty_iff)

lemma services_exact_witness:
  "into_services {''content'', ''web''} [(''content'', 1 :: nat), (''onlineconfig'', 2)] = Inl {''web''}"
proof -
  have "into_services {''content'', ''web''} [(''content'', 1 :: nat), (''onlineconfig'', 2)] =
      (if {''content'', ''web''} \<subseteq> fst ` set [(''content'', 1 :: nat), (''onlineconfig'', 2)]
       then Inr (filter (\<lambda>e. fst e \<in> {''content'', ''web''}) [(''content'', 1 :: nat), (''onlineconfig'', 2)])
       else Inl ({''content'', ''web''} - fst ` set [(''content'', 1 :: nat), (''onlineconfig'', 2)]))"
    by (rule services_exact) simp
  then show ?thesis by (auto simp: insert_Diff_if split: if_splits)
qed

section \<open>The default deployment\<close>

lemma default_parts:
  "into_services (fst (default_services k)) (snd (default_services k)) = Inr (snd (default_services k))"
  "set_ips v6 (IpV4 ip) (IpV4 public) online_config_default =
     Some \<lparr>oc_listen = (ip, 80), oc_content = TypedContent
       [\<lparr>oi_name = ''SandboxUrl'', oi_values = [''prudp:/address='' @ public @ '';port=''
          @ show_nat (unat (snd (ctx_listen (default_authentication_context k))))]\<rparr>,
        \<lparr>oi_name = ''SandboxUrlWS'', oi_values = [public @ '':''
          @ show_nat (unat (snd (ctx_listen (default_authentication_context k))))]\<rparr>]\<rparr>"
  "map_option snd (secure_server_addr (default_authentication_context k)) = Some (snd (ctx_listen (default_secure_context k)))"
  "ticket_key (default_authentication_context k) = ticket_key (default_secure_context k)"
  "\<exists>url. get_content_url (default_secure_context k) (ci\<lparr>user_id := Some u\<rparr>) q = Some (Inr url)
     \<and> serve_many_step (cs_files content_server_default) fs (Some (get_request (cu_path url))) =
         (case fs ''./data/mp_balancing.ini'' of None \<Rightarrow> ServerEnds | Some data \<Rightarrow> Answer (http_ok data))"
proof -
  show "into_services (fst (default_services k)) (snd (default_services k)) = Inr (snd (default_services k))"
    by (auto simp: into_services_def default_services_def remove_services_filter)
  have port: "show_nat 21126 = ''21126''" 
    by (simp add: show_nat.simps, code_simp)
  moreover have "parse_socket_v4 ''127.0.0.1:21126'' = Some 21126"
  proof -
    have "split_once '':'' ''127.0.0.1:21126'' = Some (''127.0.0.1'', ''21126'')" by code_simp
    moreover have "(parse_ipv4 ''127.0.0.1'' = None) = False" by code_simp
    moreover have "parse_digits 0 ''21126'' = Some 21126" using parse_digits_show [of 21126] port by simp
    ultimately show ?thesis by (simp only: parse_socket_v4_def) simp
  qed
  moreover have "replace_address public ''prudp:/address=127.0.0.1;port=21126'' =
      Some (''prudp:/address='' @ public @ '';port=21126'')"
    by (simp add: replace_address_def splice_def)
  ultimately show "set_ips v6 (IpV4 ip) (IpV4 public) online_config_default =
     Some \<lparr>oc_listen = (ip, 80), oc_content = TypedContent
       [\<lparr>oi_name = ''SandboxUrl'', oi_values = [''prudp:/address='' @ public @ '';port=''
          @ show_nat (unat (snd (ctx_listen (default_authentication_context k))))]\<rparr>,
        \<lparr>oi_name = ''SandboxUrlWS'', oi_values = [public @ '':''
          @ show_nat (unat (snd (ctx_listen (default_authentication_context k))))]\<rparr>]\<rparr>"
    by (simp add: set_ips_def online_config_default_def replace_item_def replace_socket_def
      default_authentication_context_def Let_def)
  show "map_option snd (secure_server_addr (default_authentication_context k)) =
      Some (snd (ctx_listen (default_secure_context k)))"
    by (simp add: default_authentication_context_def)
  show "ticket_key (default_authentication_context k) = ticket_key (default_secure_context k)"
    by (simp add: default_authentication_context_def default_secure_context_def)
  show "\<exists>url. get_content_url (default_secure_context k) (ci\<lparr>user_id := Some u\<rparr>) q = Some (Inr url)
     \<and> serve_many_step (cs_files content_server_default) fs (Some (get_request (cu_path url))) =
         (case fs ''./data/mp_balancing.ini'' of None \<Rightarrow> ServerEnds | Some data \<Rightarrow> Answer (http_ok data))"
    by (rule exI [of _ "\<lparr>cu_protocol = ''http://'', cu_host = ''127.0.0.1:8000'',
        cu_path = ''/mp_balancing.ini''\<rparr>"])
      (simp add: get_content_url_def logged_in_def default_secure_context_def login_required_def
        step_get_request content_server_default_def)
qed

text \<open>The default configuration fits together: all four services have an
  entry and run; setting the addresses puts the public address, and only it, into both URLs of
  the online configuration, whose port is the one the authentication server listens on; the
  address in the tickets is the port the secure server listens on, and both servers share the
  ticket key; and for a client that has logged in, the content URL names a path that the
  content server serves from its file.
\<close>

lemma default_deployment:
  "(into_services (fst (default_services k)) (snd (default_services k)) = Inr (snd (default_services k)))
    \<and> (set_ips v6 (IpV4 ip) (IpV4 public) online_config_default =
     Some \<lparr>oc_listen = (ip, 80), oc_content = TypedContent
       [\<lparr>oi_name = ''SandboxUrl'', oi_values = [''prudp:/address='' @ public @ '';port=''
          @ show_nat (unat (snd (ctx_listen (default_authentication_context k))))]\<rparr>,
        \<lparr>oi_name = ''SandboxUrlWS'', oi_values = [public @ '':''
          @ show_nat (unat (snd (ctx_listen (default_authentication_context k))))]\<rparr>]\<rparr>)
    \<and> (map_option snd (secure_server_addr (default_authentication_context k)) = Some (snd (ctx_listen (default_secure_context k))))
    \<and> (ticket_key (default_authentication_context k) = ticket_key (default_secure_context k))
    \<and> (\<exists>url. get_content_url (default_secure_context k) (ci\<lparr>user_id := Some u\<rparr>) q = Some (Inr url)
     \<and> serve_many_step (cs_files content_server_default) fs (Some (get_request (cu_path url))) =
         (case fs ''./data/mp_balancing.ini'' of None \<Rightarrow> ServerEnds | Some data \<Rightarrow> Answer (http_ok data)))"
  by (intro conjI default_parts)

section \<open>Raw configurations\<close>

definition raw_example :: string where
  "raw_example = ''[{\"Name\":\"SandboxUrl\",\"Values\":[\"prudp:/address=127.0.0.1;port=21126\"]},{\"Name\":\"SandboxUrlWS\",\"Values\":[\"127.0.0.1:21126\"]}]''"

text \<open>In a raw text the second URL loses its port, which the typed form keeps.\<close>

lemma raw_websocket_port_lost: "set_ips_raw ''10.0.0.5'' raw_example =
    Some ''[{\"Name\":\"SandboxUrl\",\"Values\":[\"prudp:/address=10.0.0.5;port=21126\"]},{\"Name\":\"SandboxUrlWS\",\"Values\":[\"10.0.0.5\"]}]''"
  unfolding raw_example_def by code_simp

text \<open>A port in front of the address makes the end of the replacement precede its start.\<close>

lemma port_first_panics: "replace_address ip ''prudp:/x;port=1;address=h'' = None"
  by (simp add: replace_address_def splice_def)

end
