(* ===== verification/Client_Config.thy ===== *)
theory Client_Config
  imports Service_Config
begin

text \<open>
  The configuration of the hooks in the game process
  (\<open>client/hooks/hooks-config\<close>), what the hooks on the network functions of the system make
  of it (\<open>get_adapters_info\<close>, \<open>gethostbyname\<close> and \<open>getaddrinfo\<close> of \<open>client/hooks/src/hooks.rs\<close>), and the wrapper
  \<open>forwardable_export\<close> (\<open>hooks-proc\<close>) that decides whether an exported function runs its own
  body or the original library. TOML is external: decoding is an argument.
\<close>

section \<open>The configuration\<close>

datatype hook =
    Printer | LeaveState | NextState | NetResultBase | Goal | SetStep | Thread | ChangeState | NetCore
  | NetResultCore | NetResultSession | NetResultRdvSession | NetResultLobby | StormHostPortToString
  | GetAdaptersInfo | Gethostbyname | GenerateID | StormSetState | StormStateMachineActionExecute
  | StormErrorFormatter | GearStrDestructor | StormEventDispatcher | StormPackets | RMCMessages
  | OverridePackaged

definition hook_variants :: "bool \<Rightarrow> hook list" where
  "hook_variants modding =
    [Printer, LeaveState, NextState, NetResultBase, Goal, SetStep, Thread, ChangeState, NetCore,
     NetResultCore, NetResultSession, NetResultRdvSession, NetResultLobby, StormHostPortToString,
     GetAdaptersInfo, Gethostbyname, GenerateID, StormSetState, StormStateMachineActionExecute,
     StormErrorFormatter, GearStrDestructor, StormEventDispatcher, StormPackets, RMCMessages]
    @ (if modding then [OverridePackaged] else [])"

datatype save_dir = InstallLocation | Roaming | Custom string

record networking =
  nw_ip_address :: "string option"
  nw_adapter :: "string option"

datatype log_level = Trace | Debug | Info | Warning | Error

record client_user =
  cu_username :: string
  cu_password :: string
  cu_cd_keys :: "string list"
  cu_account_id :: string

text \<open>An \<open>Ipv4Addr\<close> is kept as its text; \<open>api_server\<close> is the text of a parsed URL.\<close>

record client_config =
  cc_user :: client_user
  cc_save :: save_dir
  cc_forward_calls :: "string list"
  cc_forward_all_calls :: bool
  cc_internal_command_line :: string
  cc_enable_hooks :: "hook set"
  cc_enable_all_hooks :: bool
  cc_enable_overlay :: bool
  cc_config_server :: "string option"
  cc_api_server :: string
  cc_networking :: networking
  cc_level :: log_level
  cc_auto_join_invite :: bool

definition save_is_default :: "save_dir \<Rightarrow> bool" where
  "save_is_default d \<longleftrightarrow> d = Roaming"

definition networking_is_default :: "networking \<Rightarrow> bool" where
  "networking_is_default n \<longleftrightarrow> nw_ip_address n = None \<and> nw_adapter n = None"

definition logging_is_default :: "log_level \<Rightarrow> bool" where
  "logging_is_default l \<longleftrightarrow> l = Info"

definition required_hooks :: "hook list" where
  "required_hooks = [Goal, SetStep, NextState, ChangeState, LeaveState, NetResultBase, NetResultCore,
     NetResultSession, NetResultRdvSession, NetResultLobby, RMCMessages, StormEventDispatcher]"

definition apply_scbl_required_hooks :: "client_config \<Rightarrow> client_config" where
  "apply_scbl_required_hooks cfg = cfg\<lparr>cc_enable_hooks := fold insert required_hooks
     (insert Gethostbyname (insert GetAdaptersInfo (cc_enable_hooks cfg)))\<rparr>"

definition parse_scbl_config :: "(string \<Rightarrow> client_config option) \<Rightarrow> string \<Rightarrow> client_config option" where
  "parse_scbl_config toml content = map_option apply_scbl_required_hooks (toml content)"

definition default_config :: client_config where
  "default_config = \<lparr>cc_user = \<lparr>cu_username = ''sam_the_fisher'', cu_password = ''password1234'',
       cu_cd_keys = [], cu_account_id = ''00000000-0000-4000-0000-000000000000''\<rparr>,
     cc_save = Roaming, cc_forward_calls = [], cc_forward_all_calls = False, cc_internal_command_line = '''',
     cc_enable_hooks = {}, cc_enable_all_hooks = False, cc_enable_overlay = True,
     cc_config_server = Some ''127.0.0.1'', cc_api_server = ''http://127.0.0.1:50051/'',
     cc_networking = \<lparr>nw_ip_address = None, nw_adapter = None\<rparr>, cc_level = Info, cc_auto_join_invite = False\<rparr>"

section \<open>Adapters\<close>

text \<open>
  What the system lists: a name, and the first unicast address if there is one, \<open>None\<close> inside
  when it is of another family. A name that does not decode is \<open>None\<close>.
\<close>

record adapter =
  ad_name :: "string option"
  ad_address :: "string option option"

text \<open>\<open>None\<close> is an error, \<open>Some None\<close> no such adapter.\<close>

fun find_ipaddress :: "string \<Rightarrow> adapter list \<Rightarrow> string option option" where
  "find_ipaddress target [] = Some None"
| "find_ipaddress target (a # as) =
    (case ad_name a of
       None \<Rightarrow> None
     | Some n \<Rightarrow>
        if n = target then (case ad_address a of Some (Some ip) \<Rightarrow> Some (Some ip) | _ \<Rightarrow> find_ipaddress target as)
        else find_ipaddress target as)"

section \<open>Loading\<close>

text \<open>The two cells that are set once.\<close>

record config_cells =
  cell_config :: "client_config option"
  cell_url :: "string option"

text \<open>Reading the file gives its text, tells that it is missing, or fails otherwise.\<close>

datatype file_text = FileText string | FileMissing | FileUnreadable

datatype load_result = Loaded client_config | LoadError | ProcessExits

definition adapt_config :: "adapter list option \<Rightarrow> client_config \<Rightarrow> client_config option" where
  "adapt_config adapters cfg =
    (let cfg = (if cu_cd_keys (cc_user cfg) = []
        then cfg\<lparr>cc_forward_calls := cc_forward_calls cfg @ [''UPLAY_Startup'', ''UPLAY_Quit''],
               cc_user := (cc_user cfg)\<lparr>cu_cd_keys := [''ABCD-EFGH-IJKL-MNOP'']\<rparr>\<rparr>
        else cfg) in
     case (nw_ip_address (cc_networking cfg), nw_adapter (cc_networking cfg)) of
       (None, Some target) \<Rightarrow>
         (case adapters of
            None \<Rightarrow> None
          | Some as \<Rightarrow> map_option (\<lambda>ip. cfg\<lparr>cc_networking := (cc_networking cfg)\<lparr>nw_ip_address := ip\<rparr>\<rparr>)
              (find_ipaddress target as))
     | _ \<Rightarrow> Some cfg)"

definition get_or_load ::
    "(string \<Rightarrow> client_config option) \<Rightarrow> adapter list option \<Rightarrow> file_text \<Rightarrow> config_cells \<Rightarrow> load_result \<times> config_cells" where
  "get_or_load toml adapters file cells =
    (case cell_config cells of
       Some cfg \<Rightarrow> (Loaded cfg, cells)
     | None \<Rightarrow>
        (case file of
           FileMissing \<Rightarrow> (ProcessExits, cells)
         | FileUnreadable \<Rightarrow> (LoadError, cells)
         | FileText content \<Rightarrow>
            (case Option.bind (parse_scbl_config toml content) (adapt_config adapters) of
               None \<Rightarrow> (LoadError, cells)
             | Some cfg \<Rightarrow>
                if cell_url cells \<noteq> None then (LoadError, cells)
                else (Loaded cfg, \<lparr>cell_config = Some cfg, cell_url = Some (cc_api_server cfg)\<rparr>))))"

section \<open>Forwarding\<close>

text \<open>
  What \<open>forwardable_export\<close> makes of a function: without a configuration the default answer; the
  original function where the configuration asks for it, after the body if the hook is marked
  \<open>always_call\<close>; else the body. \<open>built_in\<close> is the feature \<open>forward_calls\<close>.
\<close>

definition do_forward :: "bool \<Rightarrow> string \<Rightarrow> client_config \<Rightarrow> bool" where
  "do_forward built_in name cfg \<longleftrightarrow> built_in \<or> cc_forward_all_calls cfg \<or> name \<in> set (cc_forward_calls cfg)"

definition forwardable ::
    "bool \<Rightarrow> client_config option \<Rightarrow> string \<Rightarrow> bool \<Rightarrow> 'r \<Rightarrow> ('s \<Rightarrow> 'r \<times> 's) \<Rightarrow> ('s \<Rightarrow> 'r \<times> 's) \<Rightarrow> 's \<Rightarrow> 'r \<times> 's" where
  "forwardable built_in config name always_call default_answer original body s =
    (case config of
       None \<Rightarrow> (default_answer, s)
     | Some cfg \<Rightarrow>
        if do_forward built_in name cfg
        then original (if always_call then snd (body s) else s)
        else body s)"

section \<open>Hooks on the network functions\<close>

text \<open>
  The list of adapters after \<open>get_adapters_info\<close>: only the one with the configured address, if it
  is there. Each entry is the text of its address with what else it holds.
\<close>

definition get_adapters_info :: "client_config \<Rightarrow> (string \<times> 'a) list \<Rightarrow> (string \<times> 'a) list" where
  "get_adapters_info cfg adapters =
    (case nw_ip_address (cc_networking cfg) of
       None \<Rightarrow> adapters
     | Some ip \<Rightarrow> (case find (\<lambda>a. fst a = ip) adapters of None \<Rightarrow> adapters | Some a \<Rightarrow> [a]))"

text \<open>
  The addresses \<open>gethostbyname\<close> answers for the machine's own name: the first slot holds the one
  found and the list ends after it; for another name, or if the address is not there, they are
  left alone.
\<close>

definition gethostbyname :: "client_config \<Rightarrow> bool \<Rightarrow> string list \<Rightarrow> string list" where
  "gethostbyname cfg own_name addresses =
    (if \<not> own_name then addresses
     else (case nw_ip_address (cc_networking cfg) of
        None \<Rightarrow> addresses
      | Some ip \<Rightarrow> if ip \<in> set addresses then [ip] else addresses))"

text \<open>The node name \<open>getaddrinfo\<close> looks up; a configured server with a NUL is not used.\<close>

definition getaddrinfo_node :: "client_config option \<Rightarrow> string \<Rightarrow> string \<Rightarrow> string" where
  "getaddrinfo_node config node service =
    (if node = ''onlineconfigservice.ubi.com'' \<and> service = ''80''
     then (case Option.bind config cc_config_server of
             Some srv \<Rightarrow> if CHR 0x00 \<in> set srv then node else srv
           | None \<Rightarrow> node)
     else node)"

section \<open>Properties of the configuration\<close>

lemma required_hooks_enabled:
  assumes "parse_scbl_config toml content = Some cfg"
  shows "insert GetAdaptersInfo (insert Gethostbyname (set required_hooks)) \<subseteq> cc_enable_hooks cfg"
  using assms by (auto simp: parse_scbl_config_def apply_scbl_required_hooks_def required_hooks_def)

lemma find_ipaddress_Some:
  "find_ipaddress target as = Some (Some ip) \<Longrightarrow> \<exists>a\<in>set as. ad_name a = Some target \<and> ad_address a = Some (Some ip)"
  by (induction as) (auto split: option.splits if_splits)

lemma loaded_once:
  assumes "get_or_load toml adapters file cells = (Loaded cfg, cells')"
  shows "get_or_load toml' adapters' file' cells' = (Loaded cfg, cells')"
  using assms by (auto simp: get_or_load_def split: option.splits file_text.splits if_splits)

definition cells_ok :: "config_cells \<Rightarrow> bool" where
  "cells_ok cells \<longleftrightarrow> map_option cc_api_server (cell_config cells) = cell_url cells"

lemma get_or_load_cells: "cells_ok cells \<Longrightarrow> cells_ok (snd (get_or_load toml adapters file cells))"
  by (auto simp: cells_ok_def get_or_load_def split: option.splits file_text.splits if_splits)

text \<open>A configuration that was loaded has cd keys, so the keys of the user are never empty.\<close>

lemma adapt_cd_keys: "adapt_config adapters cfg = Some cfg' \<Longrightarrow> cu_cd_keys (cc_user cfg') \<noteq> []"
  by (auto simp: adapt_config_def Let_def split: option.splits if_splits)

text \<open>
  With a configured address that the machine has, the game sees exactly this adapter and this
  address of its own host.
\<close>

lemma one_address:
  assumes "nw_ip_address (cc_networking cfg) = Some ip" and "ip \<in> fst ` set adapters" and "ip \<in> set addresses"
  shows "map fst (get_adapters_info cfg adapters) = [ip] \<and> gethostbyname cfg True addresses = [ip]"
proof -
  have "find (\<lambda>a. fst a = ip) adapters \<noteq> None"
    using assms(2) by (auto simp: find_None_iff simp del: not_None_eq)
  then obtain a where a: "find (\<lambda>a. fst a = ip) adapters = Some a" by blast
  then have "fst a = ip" by (auto simp: find_Some_iff simp del: split_paired_Ex)
  with a show ?thesis using assms(1,3) by (simp add: get_adapters_info_def gethostbyname_def)
qed

end
