(* ===== verification/Api_Access.thy ===== *)
theory Api_Access
  imports Session_Matchmaking Ticket_Granting
begin

text \<open>
  Who may call the gRPC services of \<open>dedicated-server/src/api.rs\<close>: the login that hands out a
  token, the interceptor \<open>check_token\<close> that turns a token back into a user, the preshared key
  of the administrative services and its Base32 text. The Base64 codec of sodiumoxide is the
  pair \<open>token_codec\<close>; the nonce of a login is an argument.
\<close>

section \<open>Calls\<close>

text \<open>A status by its code; the messages are left out.\<close>

datatype status =
    Unauthenticated | NotFound | InvalidArgument | FailedPrecondition | AlreadyExists
  | PermissionDenied | DeadlineExceeded | Unknown | Internal | StatusUnimplemented

text \<open>A metadata value, as \<open>to_str\<close> gives it.\<close>

datatype meta_value = MetaText string | MetaOpaque

type_synonym metadata = "string \<rightharpoonup> meta_value"

record uplay_game_session =
  up_id :: u64
  up_data :: bytes
  up_flags :: u32
  up_invite_only :: bool

text \<open>What the services share: the storage and the published Uplay sessions by user.\<close>

record api_state =
  as_db :: db
  as_games :: "nat \<rightharpoonup> uplay_game_session"

type_synonym 'p api = "api_state \<Rightarrow> (status + 'p) \<times> api_state"

definition api_return :: "'p \<Rightarrow> 'p api" where "api_return x s = (Inr x, s)"
definition api_fail :: "status \<Rightarrow> 'p api" where "api_fail e s = (Inl e, s)"

definition api_bind :: "'p api \<Rightarrow> ('p \<Rightarrow> 'q api) \<Rightarrow> 'q api" where
  "api_bind m f s = (case m s of (Inl e, s) \<Rightarrow> (Inl e, s) | (Inr x, s) \<Rightarrow> f x s)"

definition api_of :: "status + 'p \<Rightarrow> 'p api" where
  "api_of r s = (r, s)"

text \<open>A transaction of the storage, whose failure is answered with a status.\<close>

definition api_store :: "(db_error \<Rightarrow> status) \<Rightarrow> 'p txn \<Rightarrow> 'p api" where
  "api_store f m s = (case m (as_db s) of Inl e \<Rightarrow> (Inl (f e), s) | Inr (x, d) \<Rightarrow> (Inr x, s\<lparr>as_db := d\<rparr>))"

abbreviation api_db :: "'p txn \<Rightarrow> 'p api" where
  "api_db \<equiv> api_store (\<lambda>_. Internal)"

section \<open>Tokens\<close>

record token_codec =
  tc_encode :: "bytes \<Rightarrow> string"
  tc_decode :: "string \<Rightarrow> bytes option"

definition authenticated_user_id :: "metadata \<Rightarrow> status + nat" where
  "authenticated_user_id meta =
    (case meta ''user_id'' of
       Some (MetaText s) \<Rightarrow> (case parse_uint (2 ^ 32) s of None \<Rightarrow> Inl Unauthenticated | Some u \<Rightarrow> Inr u)
     | _ \<Rightarrow> Inl Unauthenticated)"

text \<open>The user a token names, before the storage is asked.\<close>

definition token_user :: "crypto \<Rightarrow> token_codec \<Rightarrow> bytes \<Rightarrow> string \<Rightarrow> nat option" where
  "token_user cr tc key token =
    (case split_char (CHR ''.'') token of
       [c, n] \<Rightarrow>
         Option.bind (tc_decode tc c) (\<lambda>c.
         Option.bind (tc_decode tc n) (\<lambda>n.
         if length n \<noteq> NONCEBYTES then None
         else Option.bind (secretbox_open cr c n key) (\<lambda>u.
           if \<not> utf8_valid u then None else parse_uint (2 ^ 32) (bytes_str u))))
     | _ \<Rightarrow> None)"

definition check_token :: "crypto \<Rightarrow> token_codec \<Rightarrow> bytes \<Rightarrow> nat \<Rightarrow> metadata \<Rightarrow> metadata api" where
  "check_token cr tc key now meta =
    (case meta ''authorization'' of
       Some (MetaText token) \<Rightarrow>
         (case token_user cr tc key token of
            None \<Rightarrow> api_fail Unauthenticated
          | Some uid \<Rightarrow>
              api_bind (api_store (\<lambda>_. Unauthenticated) (tread (find_username_by_user_id uid))) (\<lambda>user.
              case user of
                None \<Rightarrow> api_fail Unauthenticated
              | Some _ \<Rightarrow> api_bind (api_db (touch_api_presence now uid)) (\<lambda>_.
                  api_return (meta(''user_id'' \<mapsto> MetaText (show_nat uid))))))
     | _ \<Rightarrow> api_fail Unauthenticated)"

text \<open>\<open>Users\<close>, the service anybody may call. The answers hold the token, or an error text.\<close>

definition users_login ::
    "crypto \<Rightarrow> token_codec \<Rightarrow> bytes \<Rightarrow> (string \<Rightarrow> string \<Rightarrow> bool option) \<Rightarrow> nat \<Rightarrow> bytes
      \<Rightarrow> string \<Rightarrow> string \<Rightarrow> string api" where
  "users_login cr tc key verify now nonce username password =
    api_bind (api_db (login_user verify now username password)) (\<lambda>user.
    case user of
      Inl InvalidPassword \<Rightarrow> api_fail Unauthenticated
    | Inl UserNotFound \<Rightarrow> api_fail NotFound
    | Inr uid \<Rightarrow> api_return (tc_encode tc (secretbox_seal cr (str_bytes (show_nat uid)) nonce key)
        @ ''.'' @ tc_encode tc nonce))"

definition users_register :: "(string \<Rightarrow> string option) \<Rightarrow> string \<Rightarrow> string \<Rightarrow> string \<Rightarrow> string api" where
  "users_register hash username password ubi_id s =
    (case register_user hash username password (Some ubi_id) (as_db s) of
       Inl UniqueViolation \<Rightarrow> (Inl AlreadyExists, s)
     | Inl StateError \<Rightarrow> (Inr ''password hashing failed'', s)
     | Inl _ \<Rightarrow> (Inl Internal, s)
     | Inr (_, d) \<Rightarrow> (Inr '''', s\<lparr>as_db := d\<rparr>))"

text \<open>The interceptor of the services behind a token.\<close>

definition authenticated ::
    "crypto \<Rightarrow> token_codec \<Rightarrow> bytes \<Rightarrow> nat \<Rightarrow> (metadata \<Rightarrow> 'p api) \<Rightarrow> metadata \<Rightarrow> 'p api" where
  "authenticated cr tc key now service meta = api_bind (check_token cr tc key now meta) service"

section \<open>The administrator's key\<close>

definition preshared_authentication :: "string \<Rightarrow> (metadata \<Rightarrow> 'p api) \<Rightarrow> metadata \<Rightarrow> 'p api" where
  "preshared_authentication key service meta =
    (case meta ''authorization'' of
       Some (MetaText token) \<Rightarrow> if token = key then service meta else api_fail PermissionDenied
     | _ \<Rightarrow> api_fail Unauthenticated)"

definition base32_digit :: "nat \<Rightarrow> char" where
  "base32_digit b = (if b < 10 then char_of (48 + b) else char_of (65 + b - 10))"

text \<open>A chunk of at most five bytes, left-aligned in forty of the 64 bits of \<open>value\<close>.\<close>

definition base32_value :: "bytes \<Rightarrow> nat" where
  "base32_value chunk = foldl (\<lambda>v c. v * 256 + unat c) 0 chunk * 256 ^ (5 - length chunk)"

definition base32_chunk :: "bytes \<Rightarrow> string" where
  "base32_chunk chunk = map (\<lambda>i. base32_digit (base32_value chunk div 32 ^ i mod 32))
     (rev [8 - (length chunk * 8 + 4) div 5..<8])"

definition base32 :: "bytes \<Rightarrow> string" where
  "base32 data = concat (map base32_chunk (chunks 5 data))"

section \<open>The Base32 text\<close>

lemma base32_digit_inj: "a < 32 \<Longrightarrow> b < 32 \<Longrightarrow> base32_digit a = base32_digit b \<Longrightarrow> a = b"
  by (auto simp: base32_digit_def split: if_splits dest!: arg_cong [where f = "of_char :: char \<Rightarrow> nat"])

lemma digits_determine:
  assumes "\<And>i. i < n \<Longrightarrow> a div 32 ^ i mod 32 = b div 32 ^ i mod (32 :: nat)" and "a < 32 ^ n" and "b < 32 ^ n"
  shows "a = b"
  using assms
proof (induction n arbitrary: a b)
  case (Suc n)
  have "a div 32 = b div 32"
  proof (rule Suc.IH)
    show "a div 32 div 32 ^ i mod 32 = b div 32 div 32 ^ i mod 32" if "i < n" for i
      using Suc.prems(1) [of "Suc i"] that by (simp add: div_mult2_eq)
  qed (use Suc.prems(2,3) in \<open>auto simp: less_mult_imp_div_less\<close>)
  moreover have "a mod 32 = b mod 32" using Suc.prems(1) [of 0] by simp
  ultimately show ?case by (metis div_mult_mod_eq)
qed simp

lemma horner_eq: "m * 256 + a = n * 256 + b \<Longrightarrow> a < 256 \<Longrightarrow> b < 256 \<Longrightarrow> m = n \<and> a = (b :: nat)"
proof -
  assume eq: "m * 256 + a = n * 256 + b" and less: "a < 256" "b < 256"
  have "(m * 256 + a) div 256 = m" "(n * 256 + b) div 256 = n" using less by simp_all
  with eq show ?thesis by simp
qed

lemma big_endian_inj:
  "length a = length b \<Longrightarrow> foldl (\<lambda>v c. v * 256 + unat c) 0 a = foldl (\<lambda>v c. v * 256 + unat (c :: u8)) 0 b \<Longrightarrow> a = b"
proof (induction a arbitrary: b rule: rev_induct)
  case (snoc x xs)
  then obtain ys y where b: "b = ys @ [y]" by (cases b rule: rev_cases) auto
  define m where "m = foldl (\<lambda>v c. v * 256 + unat (c :: u8)) 0 xs"
  define n where "n = foldl (\<lambda>v c. v * 256 + unat (c :: u8)) 0 ys"
  have eq: "m * 256 + unat x = n * 256 + unat y" using snoc.prems(2) by (simp add: b m_def n_def)
  have less: "unat x < 256" "unat y < 256" using unsigned_less [of x] unsigned_less [of y] by simp_all
  from horner_eq [OF eq less] have "m = n \<and> x = y" by (simp add: word_unat_eq_iff)
  then show ?case using snoc.IH [of ys] snoc.prems(1) b by (simp add: m_def n_def)
qed simp

lemma horner_less: "m < p \<Longrightarrow> a < 256 \<Longrightarrow> m * 256 + a < p * (256 :: nat)"
  by linarith

lemma big_endian_less: "foldl (\<lambda>v c. v * 256 + unat (c :: u8)) 0 xs < 256 ^ length xs"
proof (induction xs rule: rev_induct)
  case (snoc x xs)
  from horner_less [OF snoc] unsigned_less [of x] show ?case by (simp add: mult.commute)
qed simp

text \<open>The bits below those the text shows are zero.\<close>

lemma base32_value_shown:
  assumes "length c \<le> 5"
  shows "\<exists>w. base32_value c = w * 32 ^ (8 - (length c * 8 + 4) div 5)" and "base32_value c < 32 ^ 8"
proof -
  define N where "N = foldl (\<lambda>v c. v * 256 + unat (c :: u8)) 0 c"
  have v: "base32_value c = N * 256 ^ (5 - length c)" by (simp add: base32_value_def N_def)
  have k: "length c = 0 \<or> length c = 1 \<or> length c = 2 \<or> length c = 3 \<or> length c = 4 \<or> length c = 5"
    using assms by linarith
  have "(32 :: nat) ^ (8 - (length c * 8 + 4) div 5) dvd 256 ^ (5 - length c)"
    using k by (elim disjE) simp_all
  then obtain d where "256 ^ (5 - length c) = (32 :: nat) ^ (8 - (length c * 8 + 4) div 5) * d" by (rule dvdE)
  then have "base32_value c = (N * d) * 32 ^ (8 - (length c * 8 + 4) div 5)" unfolding v by (simp only: ac_simps)
  then show "\<exists>w. base32_value c = w * 32 ^ (8 - (length c * 8 + 4) div 5)" by (rule exI)
  have "N < 256 ^ length c" unfolding N_def by (rule big_endian_less)
  then show "base32_value c < 32 ^ 8"
    unfolding v using k by (elim disjE) simp_all
qed

lemma base32_chunk_inj:
  assumes "length a = length b" and "length b \<le> 5" and "base32_chunk a = base32_chunk b"
  shows "a = b"
proof -
  define l where "l = 8 - (length b * 8 + 4) div 5"
  have dig: "base32_value a div 32 ^ i mod 32 = base32_value b div 32 ^ i mod 32" if "l \<le> i" "i < 8" for i
  proof -
    have "base32_digit (base32_value a div 32 ^ i mod 32) = base32_digit (base32_value b div 32 ^ i mod 32)"
      using assms(1,3) that unfolding base32_chunk_def l_def by (simp add: rev_map [symmetric])
    then show ?thesis by (intro base32_digit_inj) simp_all
  qed
  obtain x y where x: "base32_value a = x * 32 ^ l" and y: "base32_value b = y * 32 ^ l"
    using base32_value_shown(1) [of a] base32_value_shown(1) [of b] assms(1,2) unfolding l_def by auto
  have l8: "l \<le> 8" by (simp add: l_def)
  have small: "x < 32 ^ (8 - l)" if "x * 32 ^ l < 32 ^ 8" for x :: nat
  proof -
    have "(32 :: nat) ^ 8 = 32 ^ (8 - l) * 32 ^ l" using l8 by (metis le_add_diff_inverse2 power_add)
    with that have "x * 32 ^ l < 32 ^ (8 - l) * 32 ^ l" by (simp only:)
    then show ?thesis by (simp only: mult_less_cancel2)
  qed
  have "x = y"
  proof (rule digits_determine)
    fix i assume i: "i < 8 - l"
    have "z * 32 ^ l div 32 ^ (l + i) = z div 32 ^ i" for z :: nat
      by (simp add: power_add div_mult2_eq)
    with dig [of "l + i"] i show "x div 32 ^ i mod 32 = y div 32 ^ i mod 32" by (simp add: x y)
  qed (use small base32_value_shown(2) [of a] base32_value_shown(2) [of b] assms(1,2) x y in simp_all)
  then have "base32_value a = base32_value b" using x y by simp
  then show ?thesis using assms(1) by (intro big_endian_inj) (simp_all add: base32_value_def)
qed

lemma length_base32_chunk: "length c \<le> 5 \<Longrightarrow> length (base32_chunk c) = (length c * 8 + 4) div 5"
  by (simp add: base32_chunk_def)

lemma length_base32: "length (base32 xs) = (length xs * 8 + 4) div 5"
proof (induction xs rule: length_induct)
  case (1 xs)
  show ?case
  proof (cases xs)
    case (Cons b bs)
    have split: "base32 xs = base32_chunk (take 5 xs) @ base32 (drop 5 xs)"
      by (simp add: base32_def Cons)
    have rec: "length (base32 (drop 5 xs)) = (length (drop 5 xs) * 8 + 4) div 5"
      using 1 Cons by auto
    have chunk: "length (base32_chunk (take 5 xs)) = (length (take 5 xs) * 8 + 4) div 5"
      by (rule length_base32_chunk) simp
    with rec show ?thesis
    proof (cases "length xs \<le> 5")
      case False
      then obtain n where n: "length xs = n + 5" by (metis add.commute le_Suc_ex nat_le_linear)
      have "(n * 8 + 4) div 5 + 8 = (n * 8 + 4 + 8 * 5) div 5" by (simp only: div_mult_self1) 
      with chunk rec n show ?thesis unfolding split length_append by (simp add: algebra_simps)
    qed (use chunk split in \<open>simp add: base32_def\<close>)
  qed (simp add: base32_def)
qed

lemma base32_inj_length: "length xs = length ys \<Longrightarrow> base32 xs = base32 ys \<Longrightarrow> xs = ys"
proof (induction xs arbitrary: ys rule: length_induct)
  case (1 xs)
  show ?case
  proof (cases xs)
    case (Cons b bs)
    with 1(2) obtain c cs where ys: "ys = c # cs" by (cases ys) auto
    have "base32 zs = base32_chunk (take 5 zs) @ base32 (drop 5 zs)" if "zs \<noteq> []" for zs
      using that by (cases zs) (simp_all add: base32_def)
    from this [of xs] this [of ys] 1(3) Cons ys
    have "base32_chunk (take 5 xs) @ base32 (drop 5 xs) = base32_chunk (take 5 ys) @ base32 (drop 5 ys)" by simp
    moreover have "length (base32_chunk (take 5 xs)) = length (base32_chunk (take 5 ys))"
      using 1(2) by (simp add: length_base32_chunk)
    ultimately have "base32_chunk (take 5 xs) = base32_chunk (take 5 ys)" "base32 (drop 5 xs) = base32 (drop 5 ys)"
      by simp_all
    then have "take 5 xs = take 5 ys" "drop 5 xs = drop 5 ys"
      using 1 Cons by (auto intro: base32_chunk_inj)
    then show ?thesis by (metis append_take_drop_id)
  qed (use 1 in simp)
qed

lemma shown_less: "a < b \<Longrightarrow> (a * 8 + 4) div 5 < (b * 8 + 4) div (5 :: nat)"
proof -
  assume "a < b"
  then have "(a * 8 + 4 + 1 * 5) div 5 \<le> (b * 8 + 4) div 5" by (intro div_le_mono) simp
  then show ?thesis by simp
qed

lemma base32_injective: "base32 xs = base32 ys \<longleftrightarrow> xs = ys"
proof
  assume eq: "base32 xs = base32 ys"
  then have "(length xs * 8 + 4) div 5 = (length ys * 8 + 4) div 5" by (simp add: length_base32 [symmetric])
  then have "length xs = length ys" using shown_less [of "length xs" "length ys"] shown_less [of "length ys" "length xs"] by linarith
  with eq show "xs = ys" by (rule base32_inj_length [rotated])
qed simp

section \<open>Calls behind a token\<close>

lemma api_simps [simp]:
  "api_return x s = (Inr x, s)" "api_fail e s = (Inl e, s)" "api_of r s = (r, s)"
  "api_bind (api_return x) f s = f x s" "api_bind (api_fail e) f s = (Inl e, s)"
  "api_bind (api_store g (tread h)) f s = f (h (as_db s)) s"
  by (simp_all add: api_return_def api_fail_def api_of_def api_bind_def api_store_def)

lemma api_bind_assoc: "api_bind (api_bind m f) g = api_bind m (\<lambda>x. api_bind (f x) g)"
  by (rule ext) (simp add: api_bind_def split: prod.split sum.split)

definition meta_text :: "metadata \<Rightarrow> string \<Rightarrow> string option" where
  "meta_text meta k = (case meta k of Some (MetaText s) \<Rightarrow> Some s | _ \<Rightarrow> None)"

text \<open>The existing user the token of a call names.\<close>

definition caller :: "crypto \<Rightarrow> token_codec \<Rightarrow> bytes \<Rightarrow> db \<Rightarrow> metadata \<Rightarrow> nat option" where
  "caller cr tc key db meta =
    Option.bind (meta_text meta ''authorization'') (\<lambda>token.
    Option.bind (token_user cr tc key token) (\<lambda>uid.
    if uid \<in> set (user_ids db) then Some uid else None))"

lemma find_username: "find_username_by_user_id uid db = None \<longleftrightarrow> uid \<notin> set (user_ids db)"
  by (auto simp: find_username_by_user_id_def user_named_def user_ids_def find_None_iff)

definition touched :: "nat \<Rightarrow> nat \<Rightarrow> db \<Rightarrow> db" where
  "touched now uid = update_users (\<lambda>u. u_id u = uid) (\<lambda>u. u\<lparr>u_last_api_seen := Some now\<rparr>)"

lemma check_token_exact:
  "check_token cr tc key now meta s =
    (case caller cr tc key (as_db s) meta of
       None \<Rightarrow> (Inl Unauthenticated, s)
     | Some uid \<Rightarrow> (Inr (meta(''user_id'' \<mapsto> MetaText (show_nat uid))), s\<lparr>as_db := touched now uid (as_db s)\<rparr>))"
proof (cases "meta_text meta ''authorization''")
  case None
  then show ?thesis
    by (auto simp: check_token_def caller_def meta_text_def split: option.splits meta_value.splits)
next
  case (Some token)
  then have auth: "meta ''authorization'' = Some (MetaText token)"
    by (auto simp: meta_text_def split: option.splits meta_value.splits)
  show ?thesis
  proof (cases "token_user cr tc key token")
    case None
    with Some auth show ?thesis by (simp add: check_token_def caller_def)
  next
    case (Some uid)
    show ?thesis
    proof (cases "find_username_by_user_id uid (as_db s)")
      case None
      then have "uid \<notin> set (user_ids (as_db s))" by (simp add: find_username)
      with None show ?thesis using auth Some \<open>meta_text meta ''authorization'' = Some token\<close>
        by (simp add: check_token_def caller_def)
    next
      case (Some name)
      then have "uid \<in> set (user_ids (as_db s))" using find_username [of uid "as_db s"] by auto
      then show ?thesis
        using auth Some \<open>token_user cr tc key token = Some uid\<close> \<open>meta_text meta ''authorization'' = Some token\<close>
        by (simp add: check_token_def caller_def api_bind_def api_store_def touch_api_presence_def touched_def)
    qed
  qed
qed

lemma token_user_bound: "token_user cr tc key token = Some uid \<Longrightarrow> uid < 2 ^ 32"
  by (auto simp: token_user_def parse_uint_def Let_def bind_eq_Some_conv split: list.splits if_splits option.splits)

lemma identity_inserted:
  "uid < 2 ^ 32 \<Longrightarrow> authenticated_user_id (meta(''user_id'' \<mapsto> MetaText (show_nat uid))) = Inr uid"
  by (simp add: authenticated_user_id_def)

section \<open>Properties\<close>

definition codec_ok :: "token_codec \<Rightarrow> bool" where
  "codec_ok tc \<longleftrightarrow> (\<forall>b. tc_decode tc (tc_encode tc b) = Some b \<and> CHR ''.'' \<notin> set (tc_encode tc b))"

lemma login_user_result:
  assumes "login_user verify now name password db = Inr (Inr uid, d)"
  shows "uid \<in> set (user_ids db) \<and> user_ids d = user_ids db"
proof -
  obtain u where "find (\<lambda>u. u_name u = name) (users db) = Some u" "u_id u = uid" "d = update_login now uid db"
    using assms by (auto simp: login_user_def check_password_def split: option.splits sum.splits if_splits)
  then show ?thesis
    by (auto simp: update_login_def user_ids_def [of db] find_Some_iff)
qed

lemma token_of_login:
  assumes "crypto_ok cr" and "codec_ok tc" and "length nonce = NONCEBYTES" and "uid < 2 ^ 32"
  shows "token_user cr tc key (tc_encode tc (secretbox_seal cr (str_bytes (show_nat uid)) nonce key)
    @ ''.'' @ tc_encode tc nonce) = Some uid"
proof -
  have split: "split_char (CHR ''.'') (tc_encode tc c @ CHR ''.'' # tc_encode tc nonce) = [tc_encode tc c, tc_encode tc nonce]" for c
    using assms(2) by (simp add: split_char_append_sep split_char_no_sep codec_ok_def)
  have digits: "\<forall>b\<in>set (str_bytes (show_nat uid)). unat b < 128"
  proof
    fix b assume "b \<in> set (str_bytes (show_nat uid))"
    then obtain c where c: "c \<in> set (show_nat uid)" "b = byte_of_char c" by (auto simp: str_bytes_def)
    then show "unat b < 128" using show_nat_digits [OF c(1)] by (simp add: byte_of_char_def unat_of_nat)
  qed
  show ?thesis
    using assms split utf8_valid_ascii [OF digits] by (simp add: token_user_def codec_ok_def crypto_ok_def)
qed

text \<open>The token of a successful login lets its holder call the services
  behind a token for as long as the user exists: the call runs as exactly this user, whatever
  user id the call's own metadata claim, and counts as a sign of life of the user.\<close>

lemma login_token_accepted:
  assumes "crypto_ok cr" and "codec_ok tc" and "length nonce = NONCEBYTES" and "\<forall>u\<in>set (user_ids (as_db s)). u < 2 ^ 32"
    and "users_login cr tc key verify now nonce name password s = (Inr token, s')"
  shows "\<exists>uid. login_user verify now name password (as_db s) = Inr (Inr uid, as_db s')
    \<and> (\<forall>t meta s'' (service :: metadata \<Rightarrow> 'p api). meta ''authorization'' = Some (MetaText token) \<longrightarrow> uid \<in> set (user_ids (as_db s'')) \<longrightarrow>
        authenticated cr tc key t service meta s''
          = service (meta(''user_id'' \<mapsto> MetaText (show_nat uid))) (s''\<lparr>as_db := touched t uid (as_db s'')\<rparr>)
        \<and> authenticated_user_id (meta(''user_id'' \<mapsto> MetaText (show_nat uid))) = Inr uid)"
proof -
  obtain uid d where login: "login_user verify now name password (as_db s) = Inr (Inr uid, d)"
    and tok: "token = tc_encode tc (secretbox_seal cr (str_bytes (show_nat uid)) nonce key) @ ''.'' @ tc_encode tc nonce"
    and s': "s' = s\<lparr>as_db := d\<rparr>"
    using assms(5) by (auto simp: users_login_def api_bind_def api_store_def split: sum.splits login_error.splits)
  have uid: "uid < 2 ^ 32" using login_user_result [OF login] assms(4) by blast
  have call: "authenticated cr tc key t service meta s''
      = service (meta(''user_id'' \<mapsto> MetaText (show_nat uid))) (s''\<lparr>as_db := touched t uid (as_db s'')\<rparr>)"
    if "meta ''authorization'' = Some (MetaText token)" "uid \<in> set (user_ids (as_db s''))"
    for t meta s'' and service :: "metadata \<Rightarrow> 'p api"
  proof -
    have "caller cr tc key (as_db s'') meta = Some uid"
      using that token_of_login [OF assms(1-3) uid] by (simp add: caller_def meta_text_def tok)
    then show ?thesis by (simp add: authenticated_def api_bind_def check_token_exact)
  qed
  show ?thesis
    using login s' call identity_inserted [OF uid]
    by (intro exI [of _ uid] conjI allI impI) (simp_all del: fun_upd_apply)
qed


text \<open>The services of the administrator answer a call exactly when its
  authorization is the Base32 text of the key, and two keys have the same text only if they are equal.\<close>

lemma administrator_key:
  "(\<forall>s. preshared_authentication (base32 key) service meta s = (if meta_text meta ''authorization'' = None
      then (Inl Unauthenticated, s)
      else if meta_text meta ''authorization'' = Some (base32 key) then service meta s else (Inl PermissionDenied, s)))
    \<and> (base32 key' = base32 key \<longleftrightarrow> key' = key) \<and> length (base32 key) = (8 * length key + 4) div 5"
  by (auto simp: preshared_authentication_def meta_text_def base32_injective length_base32 mult.commute
      split: option.split meta_value.split)

text \<open>Samples: two letters for a byte as the codec.\<close>

definition letter :: "nat \<Rightarrow> char" where "letter n = char_of (65 + n)"

fun sample_decode :: "string \<Rightarrow> bytes" where
  "sample_decode (a # b # r) = of_nat ((of_char a - 65) * 16 + (of_char b - 65)) # sample_decode r"
| "sample_decode _ = []"

definition sample_codec :: token_codec where
  "sample_codec = \<lparr>tc_encode = (\<lambda>bs. concat (map (\<lambda>b. [letter (unat b div 16), letter (unat b mod 16)]) bs)),
     tc_decode = Some \<circ> sample_decode\<rparr>"

lemma sample_codec_ok: "codec_ok sample_codec"
proof -
  have l: "(of_char (letter n) :: nat) = 65 + n" if "n < 16" for n
    using that by (simp add: letter_def)
  have q: "unat b div 16 < 16" for b :: u8
    by (rule less_mult_imp_div_less, rule order.strict_trans2 [OF unsigned_less]) simp
  have "sample_decode (tc_encode sample_codec bs) = bs" for bs
    by (induction bs) (simp_all add: sample_codec_def l q)
  moreover have "CHR ''.'' \<noteq> letter n" if "n < 16" for n
  proof
    assume "CHR ''.'' = letter n"
    from arg_cong [where f = "of_char :: char \<Rightarrow> nat", OF this] show False by (simp add: l that)
  qed
  ultimately show ?thesis using q by (auto simp: codec_ok_def sample_codec_def)
qed

lemma login_token_accepted_witness:
  "\<exists>token s'. users_login sample_crypto sample_codec [] (\<lambda>_ _. None) 5 (replicate 24 3) ''sam'' ''pw''
      \<lparr>as_db = hosted_db, as_games = Map.empty\<rparr> = (Inr token, s')
    \<and> authenticated sample_crypto sample_codec [] 6 (\<lambda>meta. api_of (authenticated_user_id meta))
        [''authorization'' \<mapsto> MetaText token, ''user_id'' \<mapsto> MetaText ''1001''] s'
      = (Inr 1000, s'\<lparr>as_db := touched 6 1000 (as_db s')\<rparr>)"
proof -
  let ?s = "\<lparr>as_db = hosted_db, as_games = Map.empty\<rparr>"
  obtain token s' where login: "users_login sample_crypto sample_codec [] (\<lambda>_ _. None) 5 (replicate 24 3) ''sam'' ''pw'' ?s
      = (Inr token, s')" and s': "as_db s' = update_login 5 1000 hosted_db"
    by (simp add: users_login_def api_bind_def api_store_def login_user_def check_password_def hosted_db_def sample_defs)
  have ids: "user_ids (as_db s') = [1000, 1001, 1002]" unfolding s' update_login_def by (simp add: sample_ids)
  have small: "\<forall>u\<in>set (user_ids (as_db ?s)). u < 2 ^ 32" by (simp add: sample_ids)
  have nonce: "length (replicate 24 3 :: bytes) = NONCEBYTES" by (simp add: NONCEBYTES_def)
  obtain uid where u: "login_user (\<lambda>_ _. None) 5 ''sam'' ''pw'' hosted_db = Inr (Inr uid, as_db s')"
    and call: "\<And>t meta s'' (service :: metadata \<Rightarrow> nat api). meta ''authorization'' = Some (MetaText token) \<Longrightarrow>
      uid \<in> set (user_ids (as_db s'')) \<Longrightarrow> authenticated sample_crypto sample_codec [] t service meta s''
        = service (meta(''user_id'' \<mapsto> MetaText (show_nat uid))) (s''\<lparr>as_db := touched t uid (as_db s'')\<rparr>)"
    using login_token_accepted [OF sample_crypto_ok sample_codec_ok nonce small login, where 'p = nat] by auto
  have "uid = 1000"
    using u by (simp add: login_user_def check_password_def hosted_db_def sample_defs)
  with call [of "[''authorization'' \<mapsto> MetaText token, ''user_id'' \<mapsto> MetaText ''1001'']" s' 6] ids
    identity_inserted [of 1000 "[''authorization'' \<mapsto> MetaText token]"]
  show ?thesis by (intro exI [of _ token] exI [of _ s'] conjI login) simp
qed

end
