(* ===== verification/Client_Party.thy ===== *)
theory Client_Party
  imports Client_Config Api_Access
begin

text \<open>
  The party of the Uplay library as the hooks keep it
  (\<open>client/hooks/src/uplay_r1_loader/party.rs\<close>): its flags and members, the target of an
  accepted private invitation, the context of the diagnostic traces, and every exported
  function. Writing the trace file is left out; what the traces keep is not. A pointer the game
  passes is an option, \<open>None\<close> the null pointer.
\<close>

section \<open>Asynchronous results\<close>

record uplay_overlapped =
  uo_unk :: u32
  uo_is_completed :: u32
  uo_result :: nat

definition set_completed :: "bool \<Rightarrow> uplay_overlapped \<Rightarrow> uplay_overlapped" where
  "set_completed completed o' = o'\<lparr>uo_is_completed := (if completed then 1 else 0)\<rparr>"

definition set_result :: "nat \<Rightarrow> uplay_overlapped \<Rightarrow> uplay_overlapped" where
  "set_result result o' = (set_completed True o')\<lparr>uo_result := result\<rparr>"

definition set_success :: "uplay_overlapped \<Rightarrow> uplay_overlapped" where
  "set_success = set_result 0"

definition complete_success :: "uplay_overlapped option \<Rightarrow> uplay_overlapped option" where
  "complete_success = map_option set_success"

text \<open>\<open>UPLAY_GetOverlappedOperationResult\<close>: the result written, and the answer.\<close>

definition get_overlapped_result :: "uplay_overlapped option \<Rightarrow> nat option \<Rightarrow> nat option \<times> bool" where
  "get_overlapped_result overlapped result =
    (case (overlapped, result) of
       (Some o', Some r) \<Rightarrow> if uo_is_completed o' \<noteq> 0 then (Some (uo_result o'), True) else (result, False)
     | _ \<Rightarrow> (result, False))"

definition has_overlapped_completed :: "uplay_overlapped option \<Rightarrow> bool" where
  "has_overlapped_completed overlapped = (case overlapped of None \<Rightarrow> False | Some o' \<Rightarrow> uo_is_completed o' \<noteq> 0)"

section \<open>State\<close>

definition MEMBER_FLAG_LEADER :: u32 where "MEMBER_FLAG_LEADER = 1"
definition MEMBER_FLAG_LOCAL :: u32 where "MEMBER_FLAG_LOCAL = 2"
definition MAX_TEXT :: nat where "MAX_TEXT = 128"

record party_member =
  pm_account_id :: string
  pm_username :: string
  pm_flags :: u32

record proof_context =
  pc_kind :: int
  pc_invitation_id :: int
  pc_expected_session_id :: u64
  pc_sender_id :: string

record proof_signature =
  sg_initialized :: bool
  sg_social_party_active :: bool
  sg_game_invite_active :: bool
  sg_game_invite_accepted :: bool
  sg_members :: nat
  sg_kind :: int
  sg_invitation_id :: int
  sg_expected_session_id :: u64
  sg_result :: int
  sg_returned_count :: nat
  sg_native_frames :: "nat list"

record proof_last =
  pl_calls :: nat
  pl_last :: "proof_signature option"

record party =
  pt_initialized :: bool
  pt_social_party_active :: bool
  pt_game_invite_active :: bool
  pt_game_invite_accepted :: bool
  pt_members :: "party_member list"
  pt_match_target :: u64
  pt_proof_context :: proof_context
  pt_proof_last :: "string \<rightharpoonup> proof_last"

definition initial_party :: party where
  "initial_party = \<lparr>pt_initialized = False, pt_social_party_active = False, pt_game_invite_active = False,
     pt_game_invite_accepted = False, pt_members = [], pt_match_target = 0,
     pt_proof_context = \<lparr>pc_kind = 0, pc_invitation_id = 0, pc_expected_session_id = 0, pc_sender_id = ''''\<rparr>,
     pt_proof_last = Map.empty\<rparr>"

section \<open>The target of a private invitation\<close>

definition arm_party_presence_proof :: "int \<Rightarrow> int \<Rightarrow> u64 \<Rightarrow> string \<Rightarrow> party \<Rightarrow> party" where
  "arm_party_presence_proof kind invitation_id expected_session_id sender_id p =
    p\<lparr>pt_match_target := (if kind = 1 then expected_session_id else 0),
      pt_proof_context := \<lparr>pc_kind = kind, pc_invitation_id = invitation_id,
        pc_expected_session_id = expected_session_id, pc_sender_id = sender_id\<rparr>\<rparr>"

definition take_private_invite_match_target :: "party \<Rightarrow> u64 option" where
  "take_private_invite_match_target p = (if pt_match_target p \<noteq> 0 then Some (pt_match_target p) else None)"

definition acknowledge_match_target :: "u64 \<Rightarrow> party \<Rightarrow> party" where
  "acknowledge_match_target expected p = (if pt_match_target p = expected then p\<lparr>pt_match_target := 0\<rparr> else p)"

section \<open>Traces\<close>

text \<open>
  \<open>trace_party_presence_proof\<close>: the call is counted and its signature kept; it is logged for the
  first calls, on a change, and now and then. \<open>frames\<close> is the captured stack.
\<close>

definition proof_signature_of :: "int \<Rightarrow> nat \<Rightarrow> nat list \<Rightarrow> party \<Rightarrow> proof_signature" where
  "proof_signature_of result returned_count frames p =
    \<lparr>sg_initialized = pt_initialized p, sg_social_party_active = pt_social_party_active p,
     sg_game_invite_active = pt_game_invite_active p, sg_game_invite_accepted = pt_game_invite_accepted p,
     sg_members = length (pt_members p), sg_kind = pc_kind (pt_proof_context p),
     sg_invitation_id = pc_invitation_id (pt_proof_context p),
     sg_expected_session_id = pc_expected_session_id (pt_proof_context p), sg_result = result,
     sg_returned_count = returned_count,
     sg_native_frames = take 4 (frames @ replicate 4 0)\<rparr>"

definition trace_party_presence_proof :: "string \<Rightarrow> int \<Rightarrow> nat \<Rightarrow> nat list \<Rightarrow> party \<Rightarrow> bool \<times> party" where
  "trace_party_presence_proof api_name result returned_count frames p =
    (let signature = proof_signature_of result returned_count frames p;
         last = (case pt_proof_last p api_name of None \<Rightarrow> \<lparr>pl_calls = 0, pl_last = None\<rparr> | Some l \<Rightarrow> l);
         calls = pl_calls last + 1;
         changed = (pl_last last \<noteq> Some signature)
     in (calls \<le> 12 \<or> changed \<or> calls mod 120 = 0,
         p\<lparr>pt_proof_last := (pt_proof_last p)(api_name \<mapsto> \<lparr>pl_calls = calls, pl_last = Some signature\<rparr>)\<rparr>))"

section \<open>Members\<close>

text \<open>\<open>local_identity\<close>: account and name of the configured user, if there is a configuration.\<close>

type_synonym identity = "(string \<times> string) option"

definition local_identity :: "client_config option \<Rightarrow> identity" where
  "local_identity config = map_option (\<lambda>c. (cu_account_id (cc_user c), cu_username (cc_user c))) config"

definition local_member :: "identity \<Rightarrow> u32 \<Rightarrow> party_member list" where
  "local_member ident flags =
    (case ident of None \<Rightarrow> []
     | Some (account, name) \<Rightarrow> [\<lparr>pm_account_id = account, pm_username = name, pm_flags = flags\<rparr>])"

definition set_receiver_party :: "identity \<Rightarrow> string \<Rightarrow> string \<Rightarrow> party \<Rightarrow> party" where
  "set_receiver_party ident sender_id sender_name p =
    p\<lparr>pt_members := \<lparr>pm_account_id = sender_id, pm_username = sender_name, pm_flags = MEMBER_FLAG_LEADER\<rparr>
        # local_member ident MEMBER_FLAG_LOCAL\<rparr>"

text \<open>\<open>friends\<close> is what the API lists, by id and name; nothing if it cannot be reached.\<close>

definition set_local_leader_party :: "identity \<Rightarrow> (string \<times> string) list \<Rightarrow> string \<Rightarrow> party \<Rightarrow> party" where
  "set_local_leader_party ident friends invitee_id p =
    p\<lparr>pt_members := local_member ident (MEMBER_FLAG_LEADER OR MEMBER_FLAG_LOCAL)
        @ [\<lparr>pm_account_id = invitee_id,
            pm_username = (case find (\<lambda>f. fst f = invitee_id) friends of None \<Rightarrow> invitee_id | Some f \<Rightarrow> snd f),
            pm_flags = 0\<rparr>]\<rparr>"

definition party_presence :: "bool \<Rightarrow> bool \<Rightarrow> bool \<Rightarrow> bool" where
  "party_presence initialized social_party_active game_invite_active \<longleftrightarrow>
    initialized \<and> (social_party_active \<or> game_invite_active)"

definition observe_friend_game_invite_accepted :: "identity \<Rightarrow> string \<Rightarrow> string \<Rightarrow> party \<Rightarrow> party" where
  "observe_friend_game_invite_accepted ident account_id username p =
    set_receiver_party ident account_id username (p\<lparr>pt_initialized := True, pt_social_party_active := True\<rparr>)"

definition observe_party_game_invite_accepted :: "identity \<Rightarrow> int \<Rightarrow> string \<Rightarrow> string \<Rightarrow> party \<Rightarrow> party" where
  "observe_party_game_invite_accepted ident kind account_id username p =
    (let p = p\<lparr>pt_initialized := True, pt_game_invite_active := True, pt_game_invite_accepted := True\<rparr> in
     if kind = 3 then set_receiver_party ident account_id username (p\<lparr>pt_social_party_active := True\<rparr>) else p)"

section \<open>The member list\<close>

text \<open>\<open>copy_text\<close> into a zeroed array, cut so that a NUL stays behind the text.\<close>

definition copy_text :: "string \<Rightarrow> bytes" where
  "copy_text value =
    (let b = take (MAX_TEXT - 1) (str_bytes value) in b @ replicate (MAX_TEXT - length b) 0)"

text \<open>The structure the game gets for a member; the fields that stay null are left out.\<close>

record party_member_raw =
  mr_account_id :: bytes
  mr_nick :: bytes
  mr_flags :: u32

text \<open>The caller's list: \<open>None\<close> for a null or unaligned pointer, else what is written to it.\<close>

definition write_member_list :: "bool \<Rightarrow> party \<Rightarrow> party_member_raw list option" where
  "write_member_list usable p =
    (if \<not> usable then None
     else Some (map (\<lambda>m. \<lparr>mr_account_id = copy_text (pm_account_id m), mr_nick = copy_text (pm_username m),
                          mr_flags = pm_flags m\<rparr>) (take 2 (pt_members p))))"

section \<open>Exported functions\<close>

text \<open>A call with its arguments; an answer with what it writes.\<close>

datatype party_call =
    DisablePartyMemberMenuItem u32
  | EnablePartyMemberMenuItem u32 u32
  | GetFullMemberList bool "nat list"
  | GetId "nat list"
  | GetInGameMemberList bool "nat list"
  | PartyInit u32
  | InvitePartyToGame "uplay_overlapped option"
  | InviteToParty "string option" "uplay_overlapped option"
  | IsInParty "string option" "nat list"
  | IsPartyLeader "string option" "nat list"
  | PromoteToLeader "string option" "uplay_overlapped option"
  | RespondToGameInvite u32 bool
  | SetGuest "string option" "uplay_overlapped option"
  | SetUserData
  | ShowGameInviteOverlayUI u32

datatype party_answer =
    Flag bool
  | Number int
  | Members bool "party_member_raw list"
  | FlagWith bool "uplay_overlapped option"

definition account_id_text :: "string option \<Rightarrow> string" where
  "account_id_text a = (case a of None \<Rightarrow> ''<null>'' | Some s \<Rightarrow> s)"

definition list_members :: "string \<Rightarrow> bool \<Rightarrow> nat list \<Rightarrow> party \<Rightarrow> party_answer \<times> party" where
  "list_members api_name usable frames p =
    (let written = write_member_list usable p;
         returned = (case written of None \<Rightarrow> 0 | Some ms \<Rightarrow> length ms);
         p = snd (trace_party_presence_proof api_name (if written = None then 0 else 1) returned frames p)
     in (case written of None \<Rightarrow> Members False [] | Some ms \<Rightarrow> Members True ms, p))"

definition promote :: "string \<Rightarrow> party_member \<Rightarrow> party_member" where
  "promote account m = (if pm_account_id m = account then m\<lparr>pm_flags := pm_flags m OR MEMBER_FLAG_LEADER\<rparr>
     else m\<lparr>pm_flags := pm_flags m AND NOT MEMBER_FLAG_LEADER\<rparr>)"

fun party_api :: "identity \<Rightarrow> (string \<times> string) list \<Rightarrow> party_call \<Rightarrow> party \<Rightarrow> party_answer \<times> party" where
  "party_api ident friends (DisablePartyMemberMenuItem i) p = (Flag True, p)"
| "party_api ident friends (EnablePartyMemberMenuItem i mode) p = (Flag True, p)"
| "party_api ident friends (GetFullMemberList usable frames) p = list_members ''GetFullMemberList'' usable frames p"
| "party_api ident friends (GetId frames) p =
    (let result = (if pt_social_party_active p then 1 else 0)
     in (Number result, snd (trace_party_presence_proof ''GetId'' result 0 frames p)))"
| "party_api ident friends (GetInGameMemberList usable frames) p = list_members ''GetInGameMemberList'' usable frames p"
| "party_api ident friends (PartyInit flags) p = (Flag True, p\<lparr>pt_initialized := True\<rparr>)"
| "party_api ident friends (InvitePartyToGame overlapped) p =
    (FlagWith True (complete_success overlapped), p\<lparr>pt_initialized := True, pt_social_party_active := True\<rparr>)"
| "party_api ident friends (InviteToParty account overlapped) p =
    (if account_id_text account = ''<null>'' then (FlagWith False overlapped, p)
     else (FlagWith True (complete_success overlapped),
       set_local_leader_party ident friends (account_id_text account)
         (p\<lparr>pt_initialized := True, pt_social_party_active := True\<rparr>)))"
| "party_api ident friends (IsInParty account frames) p =
    (let result = party_presence (pt_initialized p) (pt_social_party_active p) (pt_game_invite_active p)
     in (Flag result, snd (trace_party_presence_proof ''IsInParty'' (if result then 1 else 0) 0 frames p)))"
| "party_api ident friends (IsPartyLeader account frames) p =
    (let result = (\<exists>m\<in>set (pt_members p). pm_account_id m = account_id_text account
           \<and> pm_flags m AND MEMBER_FLAG_LEADER \<noteq> 0)
     in (Flag result, snd (trace_party_presence_proof ''IsPartyLeader'' (if result then 1 else 0) 0 frames p)))"
| "party_api ident friends (PromoteToLeader account overlapped) p =
    (let found = (\<exists>m\<in>set (pt_members p). pm_account_id m = account_id_text account)
     in (FlagWith found (if found then complete_success overlapped else overlapped),
         p\<lparr>pt_members := map (promote (account_id_text account)) (pt_members p)\<rparr>))"
| "party_api ident friends (RespondToGameInvite i accept) p =
    (Flag True, p\<lparr>pt_initialized := True, pt_game_invite_active := accept, pt_game_invite_accepted := accept\<rparr>)"
| "party_api ident friends (SetGuest guest overlapped) p = (FlagWith True (complete_success overlapped), p)"
| "party_api ident friends SetUserData p = (Flag True, p)"
| "party_api ident friends (ShowGameInviteOverlayUI i) p = (Flag True, p)"

section \<open>Everything that happens to the party\<close>

datatype party_step =
    PartyCall party_call
  | FriendAccepted string string
  | PartyAccepted int string string
  | Armed int int u64 string
  | Acknowledged u64

fun run_step :: "identity \<Rightarrow> (string \<times> string) list \<Rightarrow> party_step \<Rightarrow> party \<Rightarrow> party_answer option \<times> party" where
  "run_step ident friends (PartyCall c) p = (let (a, q) = party_api ident friends c p in (Some a, q))"
| "run_step ident friends (FriendAccepted i n) p = (None, observe_friend_game_invite_accepted ident i n p)"
| "run_step ident friends (PartyAccepted k i n) p = (None, observe_party_game_invite_accepted ident k i n p)"
| "run_step ident friends (Armed k i e n) p = (None, arm_party_presence_proof k i e n p)"
| "run_step ident friends (Acknowledged e) p = (None, acknowledge_match_target e p)"

fun run_steps :: "identity \<Rightarrow> (string \<times> string) list \<Rightarrow> party_step list \<Rightarrow> party \<Rightarrow> party_answer option list \<times> party" where
  "run_steps ident friends [] p = ([], p)"
| "run_steps ident friends (c # cs) p =
    (let (a, q) = run_step ident friends c p; (as, r) = run_steps ident friends cs q in (a # as, r))"

section \<open>The invariant\<close>

definition is_leader :: "party_member \<Rightarrow> bool" where
  "is_leader m \<longleftrightarrow> pm_flags m AND MEMBER_FLAG_LEADER \<noteq> 0"

text \<open>
  At most two members, so the two slots of the member list suffice; leaders are one account; an
  active party is initialised.
\<close>

definition members_ok :: "party_member list \<Rightarrow> bool" where
  "members_ok ms \<longleftrightarrow> length ms \<le> 2
    \<and> (\<forall>m\<in>set ms. \<forall>n\<in>set ms. is_leader m \<and> is_leader n \<longrightarrow> pm_account_id m = pm_account_id n)"

definition party_ok :: "party \<Rightarrow> bool" where
  "party_ok p \<longleftrightarrow> members_ok (pt_members p)
    \<and> (pt_social_party_active p \<or> pt_game_invite_active p \<longrightarrow> pt_initialized p)"

lemma trace_frame [simp]:
  "pt_members (snd (trace_party_presence_proof a r n f p)) = pt_members p"
  "pt_initialized (snd (trace_party_presence_proof a r n f p)) = pt_initialized p"
  "pt_social_party_active (snd (trace_party_presence_proof a r n f p)) = pt_social_party_active p"
  "pt_game_invite_active (snd (trace_party_presence_proof a r n f p)) = pt_game_invite_active p"
  by (simp_all add: trace_party_presence_proof_def Let_def)

lemma member_flags:
  "is_leader \<lparr>pm_account_id = a, pm_username = n, pm_flags = MEMBER_FLAG_LEADER\<rparr>"
  "\<not> is_leader \<lparr>pm_account_id = a, pm_username = n, pm_flags = MEMBER_FLAG_LOCAL\<rparr>"
  "\<not> is_leader \<lparr>pm_account_id = a, pm_username = n, pm_flags = 0\<rparr>"
  by (simp_all add: is_leader_def MEMBER_FLAG_LEADER_def MEMBER_FLAG_LOCAL_def)

lemma promote_leader: "is_leader (promote account m) \<longleftrightarrow> pm_account_id m = account"
proof -
  have "(x OR 1) AND 1 = (1 :: u32)" and "(x AND NOT 1) AND 1 = (0 :: u32)" for x
    by (rule bit_word_eqI, auto simp: bit_simps)+
  then show ?thesis by (simp add: is_leader_def promote_def MEMBER_FLAG_LEADER_def)
qed

lemma promote_account [simp]: "pm_account_id (promote account m) = pm_account_id m"
  by (simp add: promote_def)

lemma members_promote: "members_ok ms \<Longrightarrow> members_ok (map (promote account) ms)"
  by (simp add: members_ok_def promote_leader)

lemma members_receiver: "members_ok (pt_members (set_receiver_party ident i n p))"
  by (cases ident) (auto simp: members_ok_def set_receiver_party_def local_member_def member_flags)

lemma members_leader: "members_ok (pt_members (set_local_leader_party ident friends i p))"
  by (cases ident) (auto simp: members_ok_def set_local_leader_party_def local_member_def member_flags)

lemma set_party_frame [simp]:
  "pt_initialized (set_receiver_party ident i n p) = pt_initialized p"
  "pt_initialized (set_local_leader_party ident friends i p) = pt_initialized p"
  by (simp_all add: set_receiver_party_def set_local_leader_party_def)

lemma list_members_ok: "party_ok p \<Longrightarrow> party_ok (snd (list_members a u f p))"
  by (simp add: party_ok_def list_members_def Let_def)

lemma party_call_ok: "party_ok p \<Longrightarrow> party_ok (snd (party_api ident friends c p))"
  by (cases c) (auto simp: list_members_ok Let_def, auto simp: party_ok_def members_promote members_leader)

lemma party_step_ok: "party_ok p \<Longrightarrow> party_ok (snd (run_step ident friends c p))"
proof (cases c)
  case (PartyCall c')
  then show "party_ok p \<Longrightarrow> ?thesis" using party_call_ok [of p ident friends c'] by (auto split: prod.split)
next
  case (PartyAccepted k i n)
  then show "party_ok p \<Longrightarrow> ?thesis"
    by (cases "k = 3") (simp_all add: observe_party_game_invite_accepted_def members_receiver party_ok_def)
qed (auto simp: arm_party_presence_proof_def acknowledge_match_target_def party_ok_def
    observe_friend_game_invite_accepted_def members_receiver)

lemma party_steps_ok: "party_ok p \<Longrightarrow> party_ok (snd (run_steps ident friends cs p))"
proof (induction cs arbitrary: p)
  case (Cons c cs)
  obtain a q where q: "run_step ident friends c p = (a, q)" by fastforce
  then have "party_ok q" using party_step_ok [OF Cons.prems, of ident friends c] by simp
  with Cons.IH [of q] q show ?case by (simp split: prod.split) (metis snd_conv)
qed simp

lemma initial_party_ok: "party_ok initial_party"
  by (simp add: party_ok_def initial_party_def members_ok_def)

section \<open>The traces\<close>

text \<open>A party without what only the traces read.\<close>

definition untraced :: "party \<Rightarrow> party" where
  "untraced p = p\<lparr>pt_proof_context := pt_proof_context initial_party, pt_proof_last := Map.empty\<rparr>"

lemma untraced_trace [simp]: "untraced (snd (trace_party_presence_proof a r n f p)) = untraced p"
  by (simp add: untraced_def trace_party_presence_proof_def Let_def)

lemma untraced_eq:
  "untraced p = untraced q \<longleftrightarrow> pt_initialized p = pt_initialized q
    \<and> pt_social_party_active p = pt_social_party_active q \<and> pt_game_invite_active p = pt_game_invite_active q
    \<and> pt_game_invite_accepted p = pt_game_invite_accepted q \<and> pt_members p = pt_members q
    \<and> pt_match_target p = pt_match_target q"
  by (cases p; cases q) (auto simp: untraced_def)

lemma untraced_list:
  "untraced p = untraced q \<Longrightarrow> fst (list_members a u f p) = fst (list_members a u f q)
    \<and> untraced (snd (list_members a u f p)) = untraced (snd (list_members a u f q))"
  by (auto simp: list_members_def Let_def write_member_list_def untraced_eq)

lemma untraced_step:
  assumes "untraced p = untraced q"
  shows "fst (run_step ident friends c p) = fst (run_step ident friends c q)
    \<and> untraced (snd (run_step ident friends c p)) = untraced (snd (run_step ident friends c q))"
proof (cases c)
  case (PartyCall c')
  note eq = assms [unfolded untraced_eq]
  have "fst (party_api ident friends c' p) = fst (party_api ident friends c' q)
      \<and> untraced (snd (party_api ident friends c' p)) = untraced (snd (party_api ident friends c' q))"
    using assms eq untraced_list [OF assms]
    by (cases c') (auto simp: Let_def untraced_eq set_local_leader_party_def)
  with PartyCall show ?thesis by (auto split: prod.split)
qed (use assms in \<open>auto simp: untraced_eq observe_friend_game_invite_accepted_def
    observe_party_game_invite_accepted_def set_receiver_party_def arm_party_presence_proof_def
    acknowledge_match_target_def Let_def\<close>)

text \<open>The answers and the state that decides them do not depend on the diagnostic context.\<close>

lemma traces_do_not_matter:
  "untraced p = untraced q \<Longrightarrow> fst (run_steps ident friends cs p) = fst (run_steps ident friends cs q)
    \<and> untraced (snd (run_steps ident friends cs p)) = untraced (snd (run_steps ident friends cs q))"
proof (induction cs arbitrary: p q)
  case (Cons c cs)
  obtain a p' b q' where "run_step ident friends c p = (a, p')" "run_step ident friends c q = (b, q')" by fastforce
  with untraced_step [OF Cons.prems, of ident friends c] Cons.IH [of p' q']
  show ?case by (auto split: prod.split)
qed simp

section \<open>What the game reads\<close>

lemma copy_text_length: "length (copy_text v) = MAX_TEXT"
  by (simp add: copy_text_def Let_def MAX_TEXT_def)

text \<open>The text up to the first NUL.\<close>

definition c_text :: "bytes \<Rightarrow> string" where
  "c_text b = bytes_str (takeWhile (\<lambda>x. x \<noteq> 0) b)"

lemma c_text_copy: "CHR 0x00 \<notin> set v \<Longrightarrow> c_text (copy_text v) = take 127 v"
proof -
  assume v: "CHR 0x00 \<notin> set v"
  have "x \<noteq> 0" if "x \<in> set (take 127 (str_bytes v))" for x
  proof
    assume "x = 0"
    then have "0 \<in> set (str_bytes v)" using that in_set_takeD by fastforce
    then obtain c where "c \<in> set v" "byte_of_char c = 0" by (auto simp: str_bytes_def)
    then have "char_of_byte 0 = c" by (metis char_of_byte_of_char)
    moreover have "char_of_byte 0 = CHR 0x00" by (simp add: char_of_byte_def char_of_eq_iff)
    ultimately show False using v \<open>c \<in> set v\<close> by simp
  qed
  then have "takeWhile (\<lambda>x. x \<noteq> 0) (copy_text v) = take 127 (str_bytes v)"
    by (simp add: copy_text_def Let_def MAX_TEXT_def takeWhile_append takeWhile_eq_all_conv takeWhile_replicate)
  moreover have "take 127 (str_bytes v) = str_bytes (take 127 v)" by (simp add: str_bytes_def take_map)
  ultimately show ?thesis by (simp add: c_text_def)
qed

lemma copy_text_ends: "0 \<in> set (copy_text v)"
  by (simp add: copy_text_def Let_def MAX_TEXT_def)

definition row_ok :: "party_member_raw \<Rightarrow> party_member \<Rightarrow> bool" where
  "row_ok row m \<longleftrightarrow> length (mr_account_id row) = 128 \<and> length (mr_nick row) = 128
    \<and> 0 \<in> set (mr_account_id row) \<and> 0 \<in> set (mr_nick row) \<and> mr_flags row = pm_flags m
    \<and> (CHR 0x00 \<notin> set (pm_account_id m) \<longrightarrow> c_text (mr_account_id row) = take 127 (pm_account_id m))
    \<and> (CHR 0x00 \<notin> set (pm_username m) \<longrightarrow> c_text (mr_nick row) = take 127 (pm_username m))"

text \<open>C21 (member_list_well_formed). Whatever the game calls and whatever invitations are accepted, in any
  order from the start: the party has at most two members, all leaders among them are the same account, and a
  party that is active is initialised; so the two static slots hold every member, and the list the game
  reads has one row per member, in order, whose texts are 128 bytes long, end with a NUL inside them and are the
  account and the name, cut after 127 bytes, with the member's flags.
\<close>

theorem member_list_well_formed:
  assumes "run_steps ident friends cs initial_party = (answers, p)"
  shows "length (pt_members p) \<le> 2
    \<and> (\<forall>m n. m \<in> set (pt_members p) \<and> n \<in> set (pt_members p) \<and> is_leader m \<and> is_leader n \<longrightarrow> pm_account_id m = pm_account_id n)
    \<and> (pt_social_party_active p \<or> pt_game_invite_active p \<longrightarrow> pt_initialized p)
    \<and> (\<exists>rows. write_member_list True p = Some rows \<and> list_all2 row_ok rows (pt_members p))"
proof -
  have ok: "party_ok p" using party_steps_ok [OF initial_party_ok, of ident friends cs] assms by simp
  then have "length (pt_members p) \<le> 2" by (simp add: party_ok_def members_ok_def)
  then have "list_all2 row_ok (map (\<lambda>m. \<lparr>mr_account_id = copy_text (pm_account_id m), mr_nick = copy_text (pm_username m),
      mr_flags = pm_flags m\<rparr>) (take 2 (pt_members p))) (pt_members p)"
    by (simp add: list_all2_map1 list_all2_same row_ok_def copy_text_length copy_text_ends c_text_copy)
      (simp add: MAX_TEXT_def)
  with ok show ?thesis by (auto simp: write_member_list_def party_ok_def members_ok_def)
qed

theorem member_list_well_formed_witness:
  "\<exists>rows. write_member_list True (snd (run_steps (Some (''1'', ''sam'')) []
      [PartyCall (InviteToParty (Some ''7'') None)] initial_party)) = Some rows \<and> length rows = 2"
proof -
  obtain a p where p: "run_steps (Some (''1'', ''sam'')) [] [PartyCall (InviteToParty (Some ''7'') None)] initial_party = (a, p)"
    by fastforce
  moreover from p have "length (pt_members p) = 2"
    by (auto simp: account_id_text_def set_local_leader_party_def local_member_def Let_def)
  moreover obtain rows where "write_member_list True p = Some rows" "list_all2 row_ok rows (pt_members p)"
    using member_list_well_formed [OF p] by blast
  ultimately show ?thesis by (auto dest: list_all2_lengthD)
qed

end
