(* ===== verification/Client_Events.thy ===== *)
theory Client_Events
  imports Client_Party
begin

text \<open>
  The events the hooks hand to the game (\<open>client/hooks/src/uplay_r1_loader.rs\<close>): the blob of a
  friend's invitation, the replay of a private invitation the game was not ready for, and
  \<open>UPLAY_GetNextEvent\<close>; and the session the game publishes (\<open>uplay_r1_loader/user.rs\<close>). Time
  is in milliseconds. Evidence files and hashes are diagnostics and left out.
\<close>

section \<open>Session data\<close>

definition PRIVATE_INVITE_BLOB_BYTES :: nat where "PRIVATE_INVITE_BLOB_BYTES = 0x1f0"
definition PRIVATE_INVITE_ACCOUNT_OFFSET :: nat where "PRIVATE_INVITE_ACCOUNT_OFFSET = 0x08"
definition PRIVATE_INVITE_ACCOUNT_BYTES :: nat where "PRIVATE_INVITE_ACCOUNT_BYTES = 0x80"
definition PRIVATE_INVITE_PAYLOAD_OFFSET :: nat where "PRIVATE_INVITE_PAYLOAD_OFFSET = 0x88"
definition PRIVATE_INVITE_PAYLOAD_CAPACITY :: nat where "PRIVATE_INVITE_PAYLOAD_CAPACITY = 0x164"
definition PRIVATE_INVITE_PAYLOAD_SIZE_OFFSET :: nat where "PRIVATE_INVITE_PAYLOAD_SIZE_OFFSET = 0x1ec"

lemmas blob_layout = PRIVATE_INVITE_BLOB_BYTES_def PRIVATE_INVITE_ACCOUNT_OFFSET_def PRIVATE_INVITE_ACCOUNT_BYTES_def
  PRIVATE_INVITE_PAYLOAD_OFFSET_def PRIVATE_INVITE_PAYLOAD_CAPACITY_def PRIVATE_INVITE_PAYLOAD_SIZE_OFFSET_def

definition read_u32_le :: "bytes \<Rightarrow> nat \<Rightarrow> u32 option" where
  "read_u32_le b offset = (if offset + 4 \<le> length b then Some (of_nat (nat_of_le (take 4 (drop offset b)))) else None)"

text \<open>The account in a blob, up to a NUL; bytes that are no text are replaced by \<open>lossy\<close>.\<close>

definition blob_account_id :: "(bytes \<Rightarrow> string) \<Rightarrow> bytes \<Rightarrow> string" where
  "blob_account_id lossy b =
    (if length b < PRIVATE_INVITE_ACCOUNT_OFFSET + PRIVATE_INVITE_ACCOUNT_BYTES then ''<unavailable>''
     else lossy (takeWhile (\<lambda>x. x \<noteq> 0) (take PRIVATE_INVITE_ACCOUNT_BYTES (drop PRIVATE_INVITE_ACCOUNT_OFFSET b))))"

text \<open>
  What the game passes to \<open>UPLAY_USER_SetGameSession\<close>: a pointer to the size and the data, the
  data \<open>None\<close> if its pointer is null or unaligned, else the bytes behind it.
\<close>

record session_wrapper =
  sw_data :: "bytes option"
  sw_size :: u32

record captured_session =
  cs_bytes :: bytes
  cs_unknown1 :: u32
  cs_checksum :: u32
  cs_payload_size :: nat

definition copy_game_session_wrapper :: "session_wrapper option \<Rightarrow> captured_session option" where
  "copy_game_session_wrapper wrapper =
    Option.bind wrapper (\<lambda>w.
    if unat (sw_size w) \<noteq> PRIVATE_INVITE_BLOB_BYTES then None
    else Option.bind (sw_data w) (\<lambda>memory.
    let b = take PRIVATE_INVITE_BLOB_BYTES memory;
        stored = nat_of_le (take 4 (drop PRIVATE_INVITE_PAYLOAD_SIZE_OFFSET b))
    in if PRIVATE_INVITE_PAYLOAD_CAPACITY < stored then None
       else Some \<lparr>cs_bytes = b, cs_unknown1 = of_nat (nat_of_le (take 4 b)),
         cs_checksum = of_nat (nat_of_le (take 4 (drop 4 b))), cs_payload_size = stored\<rparr>))"

text \<open>The session to publish; \<open>None\<close> inside is a rejection, outside the exit of a modified game.\<close>

definition set_game_session :: "bool \<Rightarrow> u32 \<Rightarrow> u32 \<Rightarrow> session_wrapper option \<Rightarrow> bool \<Rightarrow> uplay_game_session option option" where
  "set_game_session modded identifier flags wrapper invite_only =
    (if modded then None
     else Some (map_option (\<lambda>c. \<lparr>up_id = ucast identifier, up_data = cs_bytes c, up_flags = flags,
         up_invite_only = invite_only\<rparr>) (copy_game_session_wrapper wrapper)))"

section \<open>Blobs\<close>

datatype invite_mode = Baseline | HostBlobExact | HostPayloadOnly | HostBlobAccountPatched

definition current_private_invite_ab_mode :: invite_mode where
  "current_private_invite_ab_mode = Baseline"

definition copy_account_id :: "string \<Rightarrow> bytes \<Rightarrow> bytes" where
  "copy_account_id account target =
    (let text = take (PRIVATE_INVITE_ACCOUNT_BYTES - 1) (str_bytes account)
     in take PRIVATE_INVITE_ACCOUNT_OFFSET target @ text @ replicate (PRIVATE_INVITE_ACCOUNT_BYTES - length text) 0
        @ drop (PRIVATE_INVITE_ACCOUNT_OFFSET + PRIVATE_INVITE_ACCOUNT_BYTES) target)"

definition empty_friend_blob :: bytes where
  "empty_friend_blob = [1, 0, 0, 0] @ replicate (PRIVATE_INVITE_BLOB_BYTES - 4) 0"

datatype blob_error = SessionDataMissing | NotBlobSize | FirstWordNotOne | PayloadSizeMissing | PayloadTooLarge

definition build_private_friend_blob :: "invite_mode \<Rightarrow> string \<Rightarrow> bytes option \<Rightarrow> blob_error + bytes" where
  "build_private_friend_blob mode account_id host_blob =
    (let out = copy_account_id account_id empty_friend_blob in
     if mode = Baseline then Inr out
     else (case host_blob of
        None \<Rightarrow> Inl SessionDataMissing
      | Some host \<Rightarrow>
         if length host \<noteq> PRIVATE_INVITE_BLOB_BYTES then Inl NotBlobSize
         else if read_u32_le host 0 \<noteq> Some 1 then Inl FirstWordNotOne
         else (case read_u32_le host PRIVATE_INVITE_PAYLOAD_SIZE_OFFSET of
            None \<Rightarrow> Inl PayloadSizeMissing
          | Some stored \<Rightarrow>
             if PRIVATE_INVITE_PAYLOAD_CAPACITY < unat stored then Inl PayloadTooLarge
             else Inr (case mode of
                Baseline \<Rightarrow> out
              | HostBlobExact \<Rightarrow> host
              | HostPayloadOnly \<Rightarrow> take PRIVATE_INVITE_PAYLOAD_OFFSET out @ drop PRIVATE_INVITE_PAYLOAD_OFFSET host
              | HostBlobAccountPatched \<Rightarrow> copy_account_id account_id host))))"

section \<open>Events\<close>

record party_game_invite =
  gi_invitation_id :: u32
  gi_kind :: int
  gi_sender_id :: string
  gi_sender_name :: string
  gi_game_session :: uplay_game_session

datatype client_event =
    UserAccountSharing
  | FriendsGameInviteAccepted u32 string string
  | FriendsPrivateBlobInviteAccepted party_game_invite invite_mode
  | PartyGameInviteAccepted party_game_invite

text \<open>What the game finds behind the event it is handed.\<close>

datatype game_event =
    GameAccountSharing
  | GameFriendAccepted bytes
  | GamePartyAccepted u32 u64 bytes

definition MAX_EVENT_DATA :: nat where "MAX_EVENT_DATA = 16 * 1024"
definition PRIVATE_INVITE_REPLAY_DELAY :: nat where "PRIVATE_INVITE_REPLAY_DELAY = 5000"

record pending_replay =
  rp_due :: nat
  rp_expected :: u64
  rp_event :: client_event

text \<open>The channel is there once the overlay has been set up.\<close>

record loader =
  ld_party :: party
  ld_channel :: "client_event list option"
  ld_replay :: "pending_replay option"

fun private_invite_expected_session_id :: "client_event \<Rightarrow> u64 option" where
  "private_invite_expected_session_id (FriendsPrivateBlobInviteAccepted invite mode) = Some (up_id (gi_game_session invite))"
| "private_invite_expected_session_id _ = None"

definition schedule_private_invite_replay :: "nat \<Rightarrow> client_event \<Rightarrow> loader \<Rightarrow> loader" where
  "schedule_private_invite_replay now event l =
    (case private_invite_expected_session_id event of
       None \<Rightarrow> l
     | Some expected \<Rightarrow> l\<lparr>ld_replay := Some \<lparr>rp_due = now + PRIVATE_INVITE_REPLAY_DELAY, rp_expected = expected,
         rp_event = event\<rparr>\<rparr>)"

definition take_due_private_invite_replay :: "nat \<Rightarrow> loader \<Rightarrow> client_event option \<times> loader" where
  "take_due_private_invite_replay now l =
    (case ld_replay l of
       Some r \<Rightarrow> if rp_due r \<le> now then (Some (rp_event r), l\<lparr>ld_replay := None\<rparr>) else (None, l)
     | None \<Rightarrow> (None, l))"

definition acknowledge_private_invite :: "u64 \<Rightarrow> loader \<Rightarrow> loader" where
  "acknowledge_private_invite expected l =
    (let l = (case ld_replay l of
        Some r \<Rightarrow> if rp_expected r = expected then l\<lparr>ld_replay := None\<rparr> else l
      | None \<Rightarrow> l)
     in l\<lparr>ld_party := acknowledge_match_target expected (ld_party l)\<rparr>)"

definition into_friend_invite_accepted :: "string \<Rightarrow> game_event option" where
  "into_friend_invite_accepted account_id =
    (case build_private_friend_blob Baseline account_id None of Inl _ \<Rightarrow> None | Inr b \<Rightarrow> Some (GameFriendAccepted b))"

definition into_friend_private_blob_invite_accepted :: "party_game_invite \<Rightarrow> invite_mode \<Rightarrow> game_event option" where
  "into_friend_private_blob_invite_accepted invite mode =
    (case build_private_friend_blob mode (gi_sender_id invite) (Some (up_data (gi_game_session invite))) of
       Inl _ \<Rightarrow> None | Inr b \<Rightarrow> Some (GameFriendAccepted b))"

definition into_party_invite_accepted :: "party_game_invite \<Rightarrow> game_event option" where
  "into_party_invite_accepted invite =
    (let data = up_data (gi_game_session invite) in
     if data = [] \<or> MAX_EVENT_DATA < length data then None
     else Some (GamePartyAccepted (gi_invitation_id invite) (up_id (gi_game_session invite)) data))"

text \<open>One event handled: the party observes it, the game gets it unless it is rejected.\<close>

fun deliver_event :: "identity \<Rightarrow> client_event \<Rightarrow> party \<Rightarrow> game_event option \<times> party" where
  "deliver_event ident UserAccountSharing p = (Some GameAccountSharing, p)"
| "deliver_event ident (FriendsGameInviteAccepted i user name) p =
    (into_friend_invite_accepted user, observe_friend_game_invite_accepted ident user name p)"
| "deliver_event ident (FriendsPrivateBlobInviteAccepted invite mode) p =
    (into_friend_private_blob_invite_accepted invite mode,
     observe_friend_game_invite_accepted ident (gi_sender_id invite) (gi_sender_name invite) p)"
| "deliver_event ident (PartyGameInviteAccepted invite) p =
    (into_party_invite_accepted invite,
     observe_party_game_invite_accepted ident (gi_kind invite) (gi_sender_id invite) (gi_sender_name invite) p)"

definition next_event :: "nat \<Rightarrow> loader \<Rightarrow> (client_event \<times> bool) option \<times> loader" where
  "next_event now l =
    (case ld_channel l of
       Some (e # es) \<Rightarrow> (Some (e, False), l\<lparr>ld_channel := Some es\<rparr>)
     | _ \<Rightarrow> (let (e, l) = take_due_private_invite_replay now l in (map_option (\<lambda>e. (e, True)) e, l)))"

text \<open>\<open>UPLAY_GetNextEvent\<close>: the event, if one is returned.\<close>

definition get_next_event :: "identity \<Rightarrow> bool \<Rightarrow> nat \<Rightarrow> loader \<Rightarrow> game_event option \<times> loader" where
  "get_next_event ident usable now l =
    (if \<not> usable then (None, l)
     else (let (evt, l) = next_event now l in
       case evt of
         None \<Rightarrow> (None, l)
       | Some (e, replayed) \<Rightarrow>
          let l = (if replayed then l else schedule_private_invite_replay now e l);
              (g, p) = deliver_event ident e (ld_party l)
          in (g, l\<lparr>ld_party := p\<rparr>)))"

text \<open>A poll of the game, or the acknowledgement of a target by its match controller.\<close>

datatype loader_step = Poll nat | MatchSelected u64

fun loader_run :: "identity \<Rightarrow> loader_step list \<Rightarrow> loader \<Rightarrow> game_event list \<times> loader" where
  "loader_run ident [] l = ([], l)"
| "loader_run ident (Poll now # cs) l =
    (let (g, l) = get_next_event ident True now l; (gs, l) = loader_run ident cs l
     in ((case g of None \<Rightarrow> gs | Some g \<Rightarrow> g # gs), l))"
| "loader_run ident (MatchSelected e # cs) l = loader_run ident cs (acknowledge_private_invite e l)"

section \<open>Blobs the game accepts\<close>

lemma copy_account_length: "length target = PRIVATE_INVITE_BLOB_BYTES \<Longrightarrow> length (copy_account_id a target) = PRIVATE_INVITE_BLOB_BYTES"
  by (simp add: copy_account_id_def Let_def blob_layout)

lemma empty_friend_blob_length: "length empty_friend_blob = PRIVATE_INVITE_BLOB_BYTES"
  by (simp add: empty_friend_blob_def blob_layout)

lemma copy_account_word: "8 \<le> length target \<Longrightarrow> read_u32_le (copy_account_id a target) 0 = read_u32_le target 0"
  by (simp add: copy_account_id_def Let_def read_u32_le_def blob_layout min_def)

lemma copy_account_text:
  assumes "length target = PRIVATE_INVITE_BLOB_BYTES" and "CHR 0x00 \<notin> set a"
  shows "blob_account_id bytes_str (copy_account_id a target) = take 127 a"
proof -
  let ?t = "take 127 (str_bytes a)"
  have "take 128 (drop 8 (copy_account_id a target)) = ?t @ replicate (128 - length ?t) 0"
    using assms(1) by (simp add: copy_account_id_def Let_def blob_layout)
  also have "\<dots> = copy_text a" by (simp add: copy_text_def Let_def MAX_TEXT_def)
  finally show ?thesis
    using copy_account_length [OF assms(1), of a] c_text_copy [OF assms(2)]
    by (simp add: blob_account_id_def blob_layout c_text_def)
qed

lemma blob_payload: "length target = PRIVATE_INVITE_BLOB_BYTES \<Longrightarrow>
    drop PRIVATE_INVITE_PAYLOAD_OFFSET (copy_account_id a target) = drop PRIVATE_INVITE_PAYLOAD_OFFSET target"
  by (simp add: copy_account_id_def Let_def blob_layout)

text \<open>
  Every blob that is built has the size the game validates and 1 in its first word; except for
  the host's own blob it carries the sender's account, and except for the baseline the host's
  payload.
\<close>

lemma friend_blob_exact:
  assumes "build_private_friend_blob mode account host = Inr b" and "CHR 0x00 \<notin> set account"
  shows "length b = PRIVATE_INVITE_BLOB_BYTES \<and> read_u32_le b 0 = Some 1
    \<and> (mode \<noteq> HostBlobExact \<longrightarrow> blob_account_id bytes_str b = take 127 account)
    \<and> (mode \<noteq> Baseline \<longrightarrow> (\<exists>h. host = Some h \<and> drop PRIVATE_INVITE_PAYLOAD_OFFSET b = drop PRIVATE_INVITE_PAYLOAD_OFFSET h))"
proof -
  let ?out = "copy_account_id account empty_friend_blob"
  have out: "length ?out = PRIVATE_INVITE_BLOB_BYTES" "read_u32_le ?out 0 = Some 1"
      "blob_account_id bytes_str ?out = take 127 account"
    using copy_account_length [OF empty_friend_blob_length] copy_account_text [OF empty_friend_blob_length assms(2)]
      copy_account_word [of empty_friend_blob account] empty_friend_blob_length
    by (simp_all add: blob_layout) (simp add: read_u32_le_def empty_friend_blob_def blob_layout)
  have account: "blob_account_id bytes_str (take 136 ?out @ r) = take 127 account" if "length r = 360" for r
    using that out by (simp add: blob_account_id_def blob_layout drop_take)
  have word: "read_u32_le (take 136 ?out @ r) 0 = Some 1" for r
    using out(1,2) by (simp add: read_u32_le_def blob_layout)
  show ?thesis
  proof (cases mode)
    case Baseline
    with assms(1) out show ?thesis by (simp add: build_private_friend_blob_def Let_def)
  next
    case HostBlobExact
    with assms(1) show ?thesis
      by (auto simp: build_private_friend_blob_def Let_def split: option.splits if_splits)
  next
    case HostPayloadOnly
    with assms(1) obtain h where "host = Some h" "length h = 496" "b = take 136 ?out @ drop 136 h"
      by (auto simp: build_private_friend_blob_def Let_def blob_layout split: option.splits if_splits)
    then show ?thesis using account [of "drop 136 h"] word [of "drop 136 h"] HostPayloadOnly out(1)
      by (simp add: blob_layout)
  next
    case HostBlobAccountPatched
    with assms(1) obtain h where "host = Some h" "length h = PRIVATE_INVITE_BLOB_BYTES" "read_u32_le h 0 = Some 1"
        "b = copy_account_id account h"
      by (auto simp: build_private_friend_blob_def Let_def split: option.splits if_splits)
    then show ?thesis
      using HostBlobAccountPatched copy_account_length [of h account] copy_account_text [of h account, OF _ assms(2)]
        copy_account_word [of h account] blob_payload [of h account]
      by (simp add: blob_layout)
  qed
qed

section \<open>The replay\<close>

lemma loader_run_append:
  "loader_run ident (cs @ ds) l = (fst (loader_run ident cs l) @ fst (loader_run ident ds (snd (loader_run ident cs l))),
    snd (loader_run ident ds (snd (loader_run ident cs l))))"
proof (induction cs arbitrary: l)
  case (Cons c cs)
  then show ?case by (cases c) (auto simp: split_beta split: option.split)
qed simp

lemma polls_nothing:
  assumes "ld_channel l = Some []" and "\<forall>r. ld_replay l = Some r \<longrightarrow> (\<forall>t\<in>set ts. t < rp_due r)"
  shows "loader_run ident (map Poll ts) l = ([], l)"
  using assms(2)
proof (induction ts)
  case (Cons t ts)
  have "get_next_event ident True t l = (None, l)"
    using assms(1) Cons.prems
    by (auto simp: get_next_event_def next_event_def take_due_private_invite_replay_def split: option.split)
  with Cons show ?case by auto
qed simp

lemma poll_channel:
  assumes "ld_channel l = Some [e]" and "private_invite_expected_session_id e = Some i"
  shows "get_next_event ident True now l = (fst (deliver_event ident e (ld_party l)),
    l\<lparr>ld_channel := Some [], ld_replay := Some \<lparr>rp_due = now + PRIVATE_INVITE_REPLAY_DELAY, rp_expected = i, rp_event = e\<rparr>,
      ld_party := snd (deliver_event ident e (ld_party l))\<rparr>)"
  using assms by (simp add: get_next_event_def next_event_def schedule_private_invite_replay_def split_beta)

lemma poll_replay:
  assumes "ld_channel l = Some []" and "ld_replay l = Some r" and "rp_due r \<le> t"
  shows "get_next_event ident True t l = (fst (deliver_event ident (rp_event r) (ld_party l)),
    l\<lparr>ld_replay := None, ld_party := snd (deliver_event ident (rp_event r) (ld_party l))\<rparr>)"
  using assms by (simp add: get_next_event_def next_event_def take_due_private_invite_replay_def split_beta)

text \<open>C18 (private_invite_replayed). A private invitation taken from the channel is handed to the game
  at once, and once more at the first poll at least five seconds later; if the match controller
  selects the session before, it is not repeated; and after a repetition it never comes again.\<close>

theorem private_invite_replayed:
  assumes "ld_channel l = Some [FriendsPrivateBlobInviteAccepted gi mode]"
    and "build_private_friend_blob mode (gi_sender_id gi) (Some (up_data (gi_game_session gi))) = Inr b"
    and "\<forall>t\<in>set early. t < now + PRIVATE_INVITE_REPLAY_DELAY" and "now + PRIVATE_INVITE_REPLAY_DELAY \<le> t"
  shows "fst (loader_run ident (Poll now # map Poll early @ Poll t # map Poll late) l)
      = [GameFriendAccepted b, GameFriendAccepted b]
    \<and> fst (loader_run ident (Poll now # map Poll early @ MatchSelected (up_id (gi_game_session gi)) # map Poll late) l)
      = [GameFriendAccepted b]"
proof -
  let ?e = "FriendsPrivateBlobInviteAccepted gi mode"
  have g: "fst (deliver_event ident ?e p) = Some (GameFriendAccepted b)" for p
    using assms(2) by (simp add: into_friend_private_blob_invite_accepted_def)
  define m where "m = l\<lparr>ld_channel := Some [], ld_replay := Some \<lparr>rp_due = now + PRIVATE_INVITE_REPLAY_DELAY,
      rp_expected = up_id (gi_game_session gi), rp_event = ?e\<rparr>, ld_party := snd (deliver_event ident ?e (ld_party l))\<rparr>"
  have first: "get_next_event ident True now l = (Some (GameFriendAccepted b), m)"
    using poll_channel [OF assms(1), of _ ident now] g by (simp add: m_def)
  have early: "loader_run ident (map Poll early) m = ([], m)"
    using assms(3) by (intro polls_nothing) (simp_all add: m_def)
  define k where "k = m\<lparr>ld_replay := None, ld_party := snd (deliver_event ident ?e (ld_party m))\<rparr>"
  have second: "get_next_event ident True t m = (Some (GameFriendAccepted b), k)"
    using poll_replay [of m _ t ident] assms(4) g [of "ld_party m"] by (simp add: m_def k_def)
  have "loader_run ident (map Poll late) k = ([], k)"
    by (intro polls_nothing) (simp_all add: k_def m_def)
  moreover have "loader_run ident (map Poll late) (acknowledge_private_invite (up_id (gi_game_session gi)) m)
      = ([], acknowledge_private_invite (up_id (gi_game_session gi)) m)"
    by (intro polls_nothing) (simp_all add: m_def acknowledge_private_invite_def)
  ultimately show ?thesis using first early second by (simp add: loader_run_append)
qed

definition sample_invite :: party_game_invite where
  "sample_invite = \<lparr>gi_invitation_id = 7, gi_kind = 1, gi_sender_id = ''sam'', gi_sender_name = ''Sam'',
     gi_game_session = \<lparr>up_id = 77, up_data = empty_friend_blob, up_flags = 0, up_invite_only = True\<rparr>\<rparr>"

definition sample_loader :: loader where
  "sample_loader = \<lparr>ld_party = initial_party,
     ld_channel = Some [FriendsPrivateBlobInviteAccepted sample_invite Baseline], ld_replay = None\<rparr>"

theorem private_invite_replayed_witness:
  "fst (loader_run None (Poll 10 # map Poll [20, 4000] @ Poll 5010 # map Poll [9000]) sample_loader)
    = [GameFriendAccepted (copy_account_id ''sam'' empty_friend_blob), GameFriendAccepted (copy_account_id ''sam'' empty_friend_blob)]"
  using private_invite_replayed [of sample_loader sample_invite Baseline
      "copy_account_id ''sam'' empty_friend_blob" "[20, 4000]" 10 5010 None "[9000]"]
  by (simp add: sample_loader_def build_private_friend_blob_def sample_invite_def PRIVATE_INVITE_REPLAY_DELAY_def)

end
