(* ===== verification/Api_Services.thy ===== *)
theory Api_Services
  imports Api_Access
begin

text \<open>
  The gRPC services of \<open>dedicated-server/src/api.rs\<close> behind a token: friends and invitations,
  the events of a player and the Uplay sessions players publish, and the services of the
  administrator, with the router \<open>start_server\<close> builds. The messages are those of
  \<open>shared/api/proto\<close>; IP addresses, collected in a \<open>HashSet\<close>, are a set.
\<close>

section \<open>Messages and helpers\<close>

record api_user =
  au_id :: string
  au_username :: string
  au_ips :: "string set"

record friend =
  fr_id :: string
  fr_username :: string
  fr_is_online :: bool

record invite_event =
  ev_id :: nat
  ev_sender :: api_user
  ev_force_join :: bool
  ev_kind :: nat
  ev_game_session :: "uplay_game_session option"

record game =
  ga_id :: nat
  ga_creator :: string
  ga_participants :: "string list"
  ga_game_type :: string

definition MAX_UPLAY_GAME_SESSION_DATA :: nat where "MAX_UPLAY_GAME_SESSION_DATA = 16 * 1024"

definition invite_requires_uplay_game_session :: "nat \<Rightarrow> bool" where
  "invite_requires_uplay_game_session kind \<longleftrightarrow> kind \<in> {INVITE_KIND_PRIVATE_ROOM, INVITE_KIND_PARTY_FOLLOW}"

definition invite_forces_join :: "nat \<Rightarrow> bool" where
  "invite_forces_join kind \<longleftrightarrow> kind \<in> {INVITE_KIND_PARTY_FOLLOW, INVITE_KIND_LOBBY_RESTORE}"

definition validate_uplay_game_session :: "bytes \<Rightarrow> bool" where
  "validate_uplay_game_session data \<longleftrightarrow> data \<noteq> [] \<and> length data \<le> MAX_UPLAY_GAME_SESSION_DATA"

definition project_invite_uplay_game_session ::
    "nat \<Rightarrow> nat \<Rightarrow> uplay_game_session option \<Rightarrow> uplay_game_session option" where
  "project_invite_uplay_game_session kind sid published =
    map_option (\<lambda>u. if kind = INVITE_KIND_PRIVATE_ROOM then u\<lparr>up_id := of_nat sid\<rparr> else u) published"

definition property_invite_kind :: "property \<Rightarrow> nat option" where
  "property_invite_kind p = (if prop_id p \<noteq> 113 then None
     else if prop_value p = 0 then Some INVITE_KIND_PRIVATE_ROOM
     else if prop_value p = 1 then Some INVITE_KIND_LOBBY_PARTY else None)"

definition session_invite_kind :: "game_session \<Rightarrow> nat option" where
  "session_invite_kind s = Option.bind (parse_properties (gs_attributes s)) (find_map property_invite_kind)"

definition api_of_db :: "db_error + 'p \<Rightarrow> 'p api" where
  "api_of_db r = api_of (case r of Inl _ \<Rightarrow> Inl Internal | Inr x \<Rightarrow> Inr x)"

section \<open>Friends\<close>

definition friends_invite :: "nat \<Rightarrow> string \<Rightarrow> metadata \<Rightarrow> unit api" where
  "friends_invite now receiver meta =
    api_bind (api_of (authenticated_user_id meta)) (\<lambda>sender.
    api_bind (api_db (tread (find_user_id_by_ubi_id receiver))) (\<lambda>found.
    case found of
      None \<Rightarrow> api_fail NotFound
    | Some receiver_id \<Rightarrow>
        if receiver_id = sender then api_fail InvalidArgument
        else api_bind (api_db (tread (find_host_sessions sender))) (\<lambda>host_sessions.
          case find_map (\<lambda>s. map_option (Pair s) (session_invite_kind s)) host_sessions of
            None \<Rightarrow> api_fail FailedPrecondition
          | Some (session, kind) \<Rightarrow>
              api_bind (api_db (add_invite now sender receiver_id kind (gs_type session) (gs_id session))) (\<lambda>invite.
              case invite of None \<Rightarrow> api_fail FailedPrecondition | Some _ \<Rightarrow> api_return ()))))"

definition friends_list :: "nat \<Rightarrow> bool \<Rightarrow> metadata \<Rightarrow> friend list api" where
  "friends_list now mark_all_as_online meta =
    api_bind (api_of (authenticated_user_id meta)) (\<lambda>_.
    api_bind (api_db (list_users now)) (\<lambda>users.
    api_return (map (\<lambda>u. \<lparr>fr_id = us_ubi_id u, fr_username = us_name u,
      fr_is_online = us_is_online u \<or> mark_all_as_online\<rparr>) users)))"

section \<open>Events and published sessions\<close>

definition misc_event :: "nat \<Rightarrow> bool \<Rightarrow> metadata \<Rightarrow> invite_event option api" where
  "misc_event now force_joins meta =
    api_bind (api_of (authenticated_user_id meta)) (\<lambda>uid.
    api_bind (api_db (take_invite now uid)) (\<lambda>taken.
    case taken of
      None \<Rightarrow> api_return None
    | Some invite \<Rightarrow>
        api_bind (\<lambda>s. api_of_db (find_user_by_id (i_sender invite) (as_db s)) s) (\<lambda>found.
        case found of
          None \<Rightarrow> api_fail NotFound
        | Some sender \<Rightarrow> (\<lambda>s.
            let published = (if invite_requires_uplay_game_session (i_kind invite)
                  then as_games s (i_sender invite) else None);
                game_session = project_invite_uplay_game_session (i_kind invite) (i_session invite) published
            in api_return (Some \<lparr>ev_id = i_rowid invite,
                 ev_sender = \<lparr>au_id = us_ubi_id sender, au_username = us_name sender, au_ips = {}\<rparr>,
                 ev_force_join = (force_joins \<or> invite_forces_join (i_kind invite)),
                 ev_kind = i_kind invite, ev_game_session = game_session\<rparr>) s))))"

text \<open>A negative id is as unknown as 0: rows are counted from 1.\<close>

definition misc_accept_invite :: "nat \<Rightarrow> int \<Rightarrow> metadata \<Rightarrow> (bool \<times> nat) api" where
  "misc_accept_invite now invite_id meta =
    api_bind (api_of (authenticated_user_id meta)) (\<lambda>uid.
    api_bind (api_db (accept_invite now uid (nat invite_id))) (\<lambda>accepted.
    case accepted of None \<Rightarrow> api_fail NotFound | Some invite \<Rightarrow> api_return (True, i_kind invite)))"

definition misc_set_game_session :: "uplay_game_session \<Rightarrow> metadata \<Rightarrow> unit api" where
  "misc_set_game_session session meta =
    api_bind (api_of (authenticated_user_id meta)) (\<lambda>uid.
    if \<not> validate_uplay_game_session (up_data session) then api_fail InvalidArgument
    else (\<lambda>s. (Inr (), s\<lparr>as_games := (as_games s)(uid \<mapsto> session)\<rparr>)))"

definition misc_clear_game_session :: "metadata \<Rightarrow> unit api" where
  "misc_clear_game_session meta =
    api_bind (api_of (authenticated_user_id meta)) (\<lambda>uid s. (Inr (), s\<lparr>as_games := (as_games s)(uid := None)\<rparr>))"

text \<open>
  The UDP exchange of \<open>test_p2p\<close> is an argument: \<open>None\<close> after the timeout, an I/O error, or
  what the client answered.
\<close>

definition misc_test_p2p ::
    "socket_addr option \<Rightarrow> (socket_addr \<Rightarrow> bytes \<Rightarrow> (unit + bytes) option) \<Rightarrow> bytes \<Rightarrow> metadata \<Rightarrow> bytes api" where
  "misc_test_p2p peer exchange challenge meta =
    (case peer of
       None \<Rightarrow> api_fail FailedPrecondition
     | Some addr \<Rightarrow>
        (case exchange (fst addr, 13000) (str_bytes ''P2P Test - '' @ challenge) of
           None \<Rightarrow> api_fail DeadlineExceeded
         | Some (Inl _) \<Rightarrow> api_fail Unknown
         | Some (Inr answer) \<Rightarrow> api_return (take 1024 answer)))"

section \<open>Administration\<close>

definition url_addresses :: "string list \<Rightarrow> string set" where
  "url_addresses urls = set (List.map_filter
     (\<lambda>u. case parse_station_url u of Inl _ \<Rightarrow> None | Inr url \<Rightarrow> Some (address url)) urls)"

definition admin_user :: "db \<Rightarrow> user \<Rightarrow> api_user" where
  "admin_user db u = \<lparr>au_id = us_ubi_id u, au_username = us_name u, au_ips = url_addresses (list_urls (us_id u) db)\<rparr>"

definition admin_list_users :: "nat \<Rightarrow> metadata \<Rightarrow> api_user list api" where
  "admin_list_users now meta =
    api_bind (api_db (list_users now)) (\<lambda>users s. (Inr (map (admin_user (as_db s)) users), s))"

definition admin_get_user :: "string \<Rightarrow> metadata \<Rightarrow> api_user api" where
  "admin_get_user i meta =
    (case parse_uint (2 ^ 32) i of
       None \<Rightarrow> api_fail InvalidArgument
     | Some uid \<Rightarrow>
        api_bind (\<lambda>s. api_of_db (find_user_by_id uid (as_db s)) s) (\<lambda>found.
        case found of
          None \<Rightarrow> api_fail NotFound
        | Some u \<Rightarrow> (\<lambda>s. (Inr (admin_user (as_db s) u), s))))"

definition admin_delete_user :: "string \<Rightarrow> metadata \<Rightarrow> unit api" where
  "admin_delete_user ubi_id meta =
    api_bind (\<lambda>s. (case find_user_by_ubi_id ubi_id (as_db s) of Inl _ \<Rightarrow> Inl InvalidArgument | Inr u \<Rightarrow> Inr u, s)) (\<lambda>found.
    case found of
      None \<Rightarrow> api_fail NotFound
    | Some u \<Rightarrow> api_db (delete_user (us_id u)))"

definition game_type_name :: "(u32 \<rightharpoonup> u32) \<Rightarrow> string" where
  "game_type_name attributes =
    (case attributes 105 of
       None \<Rightarrow> ''Lobby''
     | Some v \<Rightarrow> if v = 1 then ''SvM'' else if v = 2 then ''Coop'' else ''Unknown('' @ show_nat (unat v) @ '')'')"

definition listed_game :: "game_session \<Rightarrow> game option" where
  "listed_game s =
    (let attributes = (case parse_properties (gs_attributes s) of None \<Rightarrow> [] | Some ps \<Rightarrow> ps) in
     case find (\<lambda>p. pa_user_id p = gs_creator s) (gs_participants s) of
       None \<Rightarrow> None
     | Some creator \<Rightarrow> Some \<lparr>ga_id = gs_id s, ga_creator = pa_name creator,
         ga_participants = map pa_name (filter (\<lambda>p. pa_user_id p \<noteq> gs_creator s) (gs_participants s)),
         ga_game_type = game_type_name (attribute_map attributes)\<rparr>)"

definition admin_list_games :: "metadata \<Rightarrow> game list api" where
  "admin_list_games meta =
    api_bind (api_db (tread list_game_sessions)) (\<lambda>sessions. api_return (List.map_filter listed_game sessions))"

definition admin_delete_game :: "nat \<Rightarrow> nat \<Rightarrow> metadata \<Rightarrow> unit api" where
  "admin_delete_game now sid meta = api_db (delete_game_session_by_id now sid)"

section \<open>The router\<close>

text \<open>What \<open>start_server\<close> is given or draws: keys, flags, the libraries.\<close>

record api_env =
  ae_crypto :: crypto
  ae_codec :: token_codec
  ae_key :: bytes
  ae_admin_key :: "bytes option"
  ae_verify :: "string \<Rightarrow> string \<Rightarrow> bool option"
  ae_hash :: "string \<Rightarrow> string option"
  ae_mark_all_as_online :: bool
  ae_force_joins :: bool
  ae_exchange :: "socket_addr \<Rightarrow> bytes \<Rightarrow> (unit + bytes) option"

datatype token_call =
    FriendsInvite string
  | FriendsList
  | MiscEvent
  | MiscAcceptInvite int
  | MiscSetGameSession uplay_game_session
  | MiscClearGameSession
  | MiscTestP2p "socket_addr option" bytes

datatype admin_call =
    AdminListUsers
  | AdminGetUser string
  | AdminDeleteUser string
  | AdminListGames
  | AdminDeleteGame nat

datatype api_call =
    UsersLogin string string
  | UsersRegister string string string
  | Behind_Token token_call
  | Administrative admin_call

text \<open>\<open>call_done\<close> drops an answer, so that all calls have one type.\<close>

definition call_done :: "'p api \<Rightarrow> unit api" where
  "call_done m = api_bind m (\<lambda>_. api_return ())"

fun serve_token_call :: "api_env \<Rightarrow> nat \<Rightarrow> token_call \<Rightarrow> metadata \<Rightarrow> unit api" where
  "serve_token_call env now (FriendsInvite receiver) meta = friends_invite now receiver meta"
| "serve_token_call env now FriendsList meta = call_done (friends_list now (ae_mark_all_as_online env) meta)"
| "serve_token_call env now MiscEvent meta = call_done (misc_event now (ae_force_joins env) meta)"
| "serve_token_call env now (MiscAcceptInvite i) meta = call_done (misc_accept_invite now i meta)"
| "serve_token_call env now (MiscSetGameSession session) meta = misc_set_game_session session meta"
| "serve_token_call env now MiscClearGameSession meta = misc_clear_game_session meta"
| "serve_token_call env now (MiscTestP2p peer challenge) meta =
     call_done (misc_test_p2p peer (ae_exchange env) challenge meta)"

fun serve_admin_call :: "nat \<Rightarrow> admin_call \<Rightarrow> metadata \<Rightarrow> unit api" where
  "serve_admin_call now AdminListUsers meta = call_done (admin_list_users now meta)"
| "serve_admin_call now (AdminGetUser i) meta = call_done (admin_get_user i meta)"
| "serve_admin_call now (AdminDeleteUser i) meta = admin_delete_user i meta"
| "serve_admin_call now AdminListGames meta = call_done (admin_list_games meta)"
| "serve_admin_call now (AdminDeleteGame sid) meta = admin_delete_game now sid meta"

text \<open>
  \<open>nonce\<close> is drawn for a login. The router answers a call to a service that was not added.
\<close>

fun serve_api :: "api_env \<Rightarrow> nat \<Rightarrow> bytes \<Rightarrow> api_call \<Rightarrow> metadata \<Rightarrow> unit api" where
  "serve_api env now nonce (UsersLogin name password) meta = call_done
     (users_login (ae_crypto env) (ae_codec env) (ae_key env) (ae_verify env) now nonce name password)"
| "serve_api env now nonce (UsersRegister name password ubi_id) meta =
     call_done (users_register (ae_hash env) name password ubi_id)"
| "serve_api env now nonce (Behind_Token call) meta =
     authenticated (ae_crypto env) (ae_codec env) (ae_key env) now (serve_token_call env now call) meta"
| "serve_api env now nonce (Administrative call) meta =
     (case ae_admin_key env of
        None \<Rightarrow> api_fail StatusUnimplemented
      | Some key \<Rightarrow> preshared_authentication (base32 key) (serve_admin_call now call) meta)"

end
