(* ===== verification/Client_Api.thy ===== *)
theory Client_Api
  imports Client_Events Api_Services
begin

text \<open>
  The client of the gRPC services (\<open>client/hooks/src/api.rs\<close>): the local ids that stand for
  the server's invitation ids, the token and the credentials, and the calls. What the server does with
  a call is an argument: a function of the metadata and of the world behind the connection,
  which answers or fails. Calls the client only spawns are made at once.
\<close>

section \<open>Invitation ids\<close>

record invite_ids =
  ii_next_local_id :: int
  ii_server_to_current :: "int \<rightharpoonup> int \<times> bool"
  ii_local_to_server :: "int \<rightharpoonup> int"

definition invite_ids_new :: invite_ids where
  "invite_ids_new = \<lparr>ii_next_local_id = -1, ii_server_to_current = Map.empty, ii_local_to_server = Map.empty\<rparr>"

definition I64_MIN :: int where "I64_MIN = - (2 ^ 63)"

definition saturating_pred :: "int \<Rightarrow> int" where
  "saturating_pred n = (if n \<le> I64_MIN then I64_MIN else n - 1)"

text \<open>The loop skips ids in use; it would not end at the least one.\<close>

partial_function (option) next_free_id :: "(int \<rightharpoonup> int) \<Rightarrow> int \<Rightarrow> int option" where
  "next_free_id used n = (if used n = None then Some n else next_free_id used (saturating_pred n))"

definition allocate_local_id :: "invite_ids \<Rightarrow> (int \<times> invite_ids) option" where
  "allocate_local_id st =
    map_option (\<lambda>n. (n, st\<lparr>ii_next_local_id := saturating_pred n\<rparr>)) (next_free_id (ii_local_to_server st) (ii_next_local_id st))"

definition map_server_event :: "int \<Rightarrow> invite_ids \<Rightarrow> (int \<times> invite_ids) option" where
  "map_server_event server_id st =
    (case ii_server_to_current st server_id of
       Some (local_id, False) \<Rightarrow> Some (local_id, st)
     | _ \<Rightarrow> map_option (\<lambda>(local_id, st).
         (local_id, st\<lparr>ii_server_to_current := (ii_server_to_current st)(server_id \<mapsto> (local_id, False)),
           ii_local_to_server := (ii_local_to_server st)(local_id \<mapsto> server_id)\<rparr>)) (allocate_local_id st))"

definition server_id_for_local :: "int \<Rightarrow> invite_ids \<Rightarrow> int" where
  "server_id_for_local local_id st = (case ii_local_to_server st local_id of None \<Rightarrow> local_id | Some s \<Rightarrow> s)"

definition retire_local :: "int \<Rightarrow> invite_ids \<Rightarrow> invite_ids" where
  "retire_local local_id st =
    (case ii_local_to_server st local_id of
       None \<Rightarrow> st
     | Some server_id \<Rightarrow>
        (case ii_server_to_current st server_id of
           Some (current, retired) \<Rightarrow>
             if current = local_id then st\<lparr>ii_server_to_current := (ii_server_to_current st)(server_id \<mapsto> (current, True))\<rparr>
             else st
         | None \<Rightarrow> st))"

section \<open>Calls\<close>

datatype client_error =
    ClientIo | MissingUrl | TransportError | GrpcStatus status | LoginFailure | InvalidToken | NotConnected

text \<open>\<open>Display\<close> of the errors is left out. What the server may be asked, with its answers.\<close>

record login_reply =
  lp_error :: string
  lp_token :: string

record received_invite =
  ri_id :: int
  ri_sender :: "(string \<times> string) option"
  ri_force_join :: bool
  ri_kind :: int
  ri_game_session :: "uplay_game_session option"

type_synonym ('w, 'r) remote = "metadata \<Rightarrow> 'w \<Rightarrow> (client_error + 'r) \<times> 'w"

record 'w api_remote =
  sv_login :: "string \<Rightarrow> string \<Rightarrow> ('w, login_reply) remote"
  sv_invite :: "string \<Rightarrow> ('w, unit) remote"
  sv_list :: "('w, friend list) remote"
  sv_event :: "('w, received_invite option) remote"
  sv_accept :: "int \<Rightarrow> ('w, bool) remote"
  sv_publish :: "uplay_game_session \<Rightarrow> ('w, unit) remote"
  sv_clear :: "('w, unit) remote"

record client =
  cl_token :: "string option"
  cl_creds :: "(string \<times> string) option"
  cl_local_game_session :: "uplay_game_session option"
  cl_ids :: invite_ids

definition client_new :: client where
  "client_new = \<lparr>cl_token = None, cl_creds = None, cl_local_game_session = None, cl_ids = invite_ids_new\<rparr>"

text \<open>The interceptor of \<open>connect!\<close>.\<close>

definition call_metadata :: "client \<Rightarrow> metadata" where
  "call_metadata c = (case cl_token c of None \<Rightarrow> Map.empty | Some t \<Rightarrow> [''authorization'' \<mapsto> MetaText t])"

text \<open>Parsing a metadata value: visible ASCII, blanks and tabs.\<close>

definition metadata_char :: "char \<Rightarrow> bool" where
  "metadata_char c \<longleftrightarrow> c = CHR 0x09 \<or> (32 \<le> (of_char c :: nat) \<and> (of_char c :: nat) < 127)"

definition parse_token :: "string \<Rightarrow> string option" where
  "parse_token t = (if list_all metadata_char t then Some t else None)"

definition invite_friend :: "'w api_remote \<Rightarrow> string \<Rightarrow> client \<Rightarrow> 'w \<Rightarrow> (client_error + unit) \<times> 'w" where
  "invite_friend sv i c w = sv_invite sv i (call_metadata c) w"

definition list_friends :: "'w api_remote \<Rightarrow> client \<Rightarrow> 'w \<Rightarrow> (client_error + friend list) \<times> 'w" where
  "list_friends sv c w = sv_list sv (call_metadata c) w"

definition accept_invite_call :: "'w api_remote \<Rightarrow> int \<Rightarrow> client \<Rightarrow> 'w \<Rightarrow> (client_error + bool \<times> int) \<times> client \<times> 'w" where
  "accept_invite_call sv local_id c w =
    (let server_id = server_id_for_local local_id (cl_ids c);
         (r, w) = sv_accept sv server_id (call_metadata c) w
     in case r of
          Inl e \<Rightarrow> (Inl e, c, w)
        | Inr accepted \<Rightarrow> (Inr (accepted, server_id), c\<lparr>cl_ids := retire_local local_id (cl_ids c)\<rparr>, w))"

definition publish_game_session_remote :: "'w api_remote \<Rightarrow> uplay_game_session \<Rightarrow> client \<Rightarrow> 'w \<Rightarrow> (client_error + unit) \<times> 'w" where
  "publish_game_session_remote sv session c w = sv_publish sv session (call_metadata c) w"

definition clear_game_session_remote :: "'w api_remote \<Rightarrow> client \<Rightarrow> 'w \<Rightarrow> (client_error + unit) \<times> 'w" where
  "clear_game_session_remote sv c w = sv_clear sv (call_metadata c) w"

definition publish_game_session :: "'w api_remote \<Rightarrow> uplay_game_session \<Rightarrow> client \<Rightarrow> 'w \<Rightarrow> client \<times> 'w" where
  "publish_game_session sv session c w =
    (let c = c\<lparr>cl_local_game_session := Some session\<rparr> in (c, snd (publish_game_session_remote sv session c w)))"

definition clear_game_session :: "'w api_remote \<Rightarrow> client \<Rightarrow> 'w \<Rightarrow> client \<times> 'w" where
  "clear_game_session sv c w =
    (let c = c\<lparr>cl_local_game_session := None\<rparr> in (c, snd (clear_game_session_remote sv c w)))"

definition republish_local_game_session :: "'w api_remote \<Rightarrow> client \<Rightarrow> 'w \<Rightarrow> 'w" where
  "republish_local_game_session sv c w =
    (case cl_local_game_session c of None \<Rightarrow> w | Some session \<Rightarrow> snd (publish_game_session_remote sv session c w))"

definition login_async :: "'w api_remote \<Rightarrow> string \<Rightarrow> string \<Rightarrow> client \<Rightarrow> 'w \<Rightarrow> (client_error + unit) \<times> client \<times> 'w" where
  "login_async sv username password c w =
    (let c = c\<lparr>cl_creds := Some (username, password)\<rparr>;
         (r, w) = sv_login sv username password (call_metadata c) w
     in case r of
          Inl e \<Rightarrow> (Inl e, c, w)
        | Inr reply \<Rightarrow>
           if lp_error reply \<noteq> '''' then (Inl LoginFailure, c, w)
           else if lp_token reply = '''' then (Inr (), c, republish_local_game_session sv c w)
           else (case parse_token (lp_token reply) of
              None \<Rightarrow> (Inl InvalidToken, c, w)
            | Some t \<Rightarrow> let c = c\<lparr>cl_token := Some t\<rparr> in (Inr (), c, republish_local_game_session sv c w)))"

definition relogin :: "'w api_remote \<Rightarrow> client \<Rightarrow> 'w \<Rightarrow> bool \<times> client \<times> 'w" where
  "relogin sv c w =
    (let c = c\<lparr>cl_token := None\<rparr> in
     case cl_creds c of
       None \<Rightarrow> (False, c, w)
     | Some (username, password) \<Rightarrow>
        let (r, c, w) = login_async sv username password c w in (case r of Inl _ \<Rightarrow> False | Inr _ \<Rightarrow> True, c, w))"

text \<open>\<open>event\<close>: the invitation under its local id; \<open>None\<close> outside if no id is found.\<close>

definition poll_event :: "'w api_remote \<Rightarrow> client \<Rightarrow> 'w \<Rightarrow> ((client_error + received_invite option) \<times> client \<times> 'w) option" where
  "poll_event sv c w =
    (let (r, w) = sv_event sv (call_metadata c) w in
     case r of
       Inl e \<Rightarrow> Some (Inl e, c, w)
     | Inr None \<Rightarrow> Some (Inr None, c, w)
     | Inr (Some invite) \<Rightarrow> map_option (\<lambda>(local_id, ids).
         (Inr (Some (invite\<lparr>ri_id := local_id\<rparr>)), c\<lparr>cl_ids := ids\<rparr>, w)) (map_server_event (ri_id invite) (cl_ids c)))"

section \<open>Local ids\<close>

text \<open>
  Ids are given out downwards from -1 and never twice; the current local id of a server id leads
  back to it.
\<close>

definition ids_ok :: "invite_ids \<Rightarrow> bool" where
  "ids_ok st \<longleftrightarrow> (\<forall>l s. ii_local_to_server st l = Some s \<longrightarrow> ii_next_local_id st < l \<and> l < 0)
    \<and> (\<forall>s c. ii_server_to_current st s = Some c \<longrightarrow> ii_local_to_server st (fst c) = Some s)
    \<and> ii_next_local_id st < 0"

lemma ids_new_ok: "ids_ok invite_ids_new"
  by (simp add: ids_ok_def invite_ids_new_def)

lemma allocate_next:
  assumes "ids_ok st"
  shows "allocate_local_id st = Some (ii_next_local_id st, st\<lparr>ii_next_local_id := saturating_pred (ii_next_local_id st)\<rparr>)"
proof -
  have "ii_local_to_server st (ii_next_local_id st) = None"
    using assms by (auto simp: ids_ok_def)
  then show ?thesis by (simp add: allocate_local_id_def next_free_id.simps)
qed

text \<open>The ids still free, counted down to the least one.\<close>

definition ids_left :: "invite_ids \<Rightarrow> nat" where
  "ids_left st = nat (ii_next_local_id st - I64_MIN)"

lemma map_server_event_result:
  assumes "ids_ok st" and "0 < ids_left st"
  obtains l st' where "map_server_event s st = Some (l, st')" "ids_ok st'" "ids_left st \<le> ids_left st' + 1"
    "ii_server_to_current st' s = Some (l, False)" "ii_local_to_server st' l = Some s"
    "ii_local_to_server st \<subseteq>\<^sub>m ii_local_to_server st'"
    "ii_server_to_current st s = Some (l, False) \<and> st' = st \<or> ii_local_to_server st l = None"
proof -
  let ?n = "ii_next_local_id st"
  have n: "I64_MIN < ?n" using assms(2) by (simp add: ids_left_def)
  have free: "ii_local_to_server st ?n = None" using assms(1) by (auto simp: ids_ok_def)
  show ?thesis
  proof (cases "\<exists>l. ii_server_to_current st s = Some (l, False)")
    case True
    then obtain l where l: "ii_server_to_current st s = Some (l, False)" by blast
    moreover from this assms(1) have "ii_local_to_server st l = Some s" by (fastforce simp: ids_ok_def)
    ultimately show ?thesis using that [of l st] assms(1) by (simp add: map_server_event_def)
  next
    case False
    define st' where "st' = st\<lparr>ii_next_local_id := ?n - 1,
        ii_server_to_current := (ii_server_to_current st)(s \<mapsto> (?n, False)),
        ii_local_to_server := (ii_local_to_server st)(?n \<mapsto> s)\<rparr>"
    have "map_server_event s st = Some (?n, st')"
      using False n by (auto simp: map_server_event_def allocate_next [OF assms(1)] st'_def saturating_pred_def
          split: option.split)
    moreover have "ids_ok st'"
      using assms(1) free unfolding ids_ok_def st'_def by (force split: if_splits)
    moreover have "ii_local_to_server st \<subseteq>\<^sub>m ii_local_to_server st'"
      using free by (auto simp: st'_def map_le_def)
    ultimately show ?thesis using that [of ?n st'] free n by (auto simp: st'_def ids_left_def)
  qed
qed

lemma retire_ok: "ids_ok st \<Longrightarrow> ids_ok (retire_local l st)"
  by (auto simp: ids_ok_def retire_local_def split: option.split)

lemma retire_frame [simp]:
  "ii_local_to_server (retire_local l st) = ii_local_to_server st" "ids_left (retire_local l st) = ids_left st"
  by (auto simp: retire_local_def ids_left_def split: option.split)

text \<open>A sequence of deliveries and retirements, with the local ids given out.\<close>

datatype id_step = Deliver int | Retire int

fun id_run :: "id_step list \<Rightarrow> invite_ids \<Rightarrow> ((int \<times> int) list \<times> invite_ids) option" where
  "id_run [] st = Some ([], st)"
| "id_run (Deliver s # cs) st =
    Option.bind (map_server_event s st) (\<lambda>(l, st). map_option (\<lambda>(gs, st). ((s, l) # gs, st)) (id_run cs st))"
| "id_run (Retire l # cs) st = id_run cs (retire_local l st)"

lemma id_run_result:
  assumes "ids_ok st" and "length cs \<le> ids_left st"
  shows "\<exists>gs st'. id_run cs st = Some (gs, st') \<and> ids_ok st' \<and> ii_local_to_server st \<subseteq>\<^sub>m ii_local_to_server st'
    \<and> (\<forall>(s, l)\<in>set gs. ii_local_to_server st' l = Some s)"
  using assms
proof (induction cs arbitrary: st)
  case (Cons c cs)
  show ?case
  proof (cases c)
    case (Deliver s)
    from Cons.prems have "0 < ids_left st" by simp
    with Cons.prems(1) obtain l st1 where st1: "map_server_event s st = Some (l, st1)" "ids_ok st1"
        "ids_left st \<le> ids_left st1 + 1" "ii_local_to_server st1 l = Some s"
        "ii_local_to_server st \<subseteq>\<^sub>m ii_local_to_server st1"
      by (rule map_server_event_result) blast
    then have "length cs \<le> ids_left st1" using Cons.prems(2) by simp
    from Cons.IH [OF st1(2) this] obtain gs st' where st': "id_run cs st1 = Some (gs, st')" "ids_ok st'"
        "ii_local_to_server st1 \<subseteq>\<^sub>m ii_local_to_server st'" "\<forall>(s, l)\<in>set gs. ii_local_to_server st' l = Some s"
      by blast
    moreover have "ii_local_to_server st' l = Some s" using st1(4) st'(3) by (auto simp: map_le_def dom_def)
    moreover have "ii_local_to_server st \<subseteq>\<^sub>m ii_local_to_server st'" using st1(5) st'(3) by (rule map_le_trans)
    ultimately show ?thesis using Deliver st1(1) by auto
  next
    case (Retire l)
    then show ?thesis using Cons.IH [OF retire_ok [OF Cons.prems(1)], of l] Cons.prems(2) by simp
  qed
qed simp

lemma id_run_left:
  assumes "ids_ok st" and "length cs \<le> ids_left st" and "id_run cs st = Some (gs, st')"
  shows "ids_left st \<le> ids_left st' + length cs"
  using assms
proof (induction cs arbitrary: st gs)
  case (Cons c cs)
  show ?case
  proof (cases c)
    case (Deliver s)
    from Cons.prems have "0 < ids_left st" by simp
    with Cons.prems(1) obtain l st1 where st1: "map_server_event s st = Some (l, st1)" "ids_ok st1"
        "ids_left st \<le> ids_left st1 + 1"
      by (rule map_server_event_result) blast
    with Cons.prems Deliver obtain hs where "id_run cs st1 = Some (hs, st')" by (auto split: prod.splits)
    with Cons.IH [OF st1(2)] Cons.prems(2) st1(3) show ?thesis by simp
  next
    case (Retire l)
    then show ?thesis using Cons.IH [OF retire_ok [OF Cons.prems(1)], of l] Cons.prems(2,3) by simp
  qed
qed simp

text \<open>C14 (invitation_ids_sound). However invitations are delivered, repeated and retired, as long as
  fewer than two to the 63rd ids have been needed, finding a local id ends; every local id ever
  given out still leads back to its server id, so no two invitations share one; a repeated
  delivery has the same local id; and after it is retired, as when the server uses an id again,
  the next delivery has one that was never given out.\<close>

theorem invitation_ids_sound:
  assumes "length cs + 2 < 2 ^ 63"
  shows "\<exists>gs st l st1 l' st2. id_run cs invite_ids_new = Some (gs, st)
    \<and> (\<forall>(s, l)\<in>set gs. server_id_for_local l st = s)
    \<and> map_server_event s st = Some (l, st1) \<and> server_id_for_local l st1 = s
    \<and> map_server_event s st1 = Some (l, st1)
    \<and> map_server_event s (retire_local l st1) = Some (l', st2)
    \<and> l' \<noteq> l \<and> l' \<notin> snd ` set gs \<and> server_id_for_local l' st2 = s"
proof -
  have "length cs \<le> ids_left invite_ids_new"
    using assms by (simp add: ids_left_def invite_ids_new_def I64_MIN_def)
  from id_run_result [OF ids_new_ok this] obtain gs st where
    st: "id_run cs invite_ids_new = Some (gs, st)" "ids_ok st" "\<forall>(s, l)\<in>set gs. ii_local_to_server st l = Some s" by blast
  have left: "ids_left invite_ids_new \<le> ids_left st + length cs"
    using id_run_left [OF ids_new_ok \<open>length cs \<le> _\<close> st(1)] .
  then have "2 \<le> ids_left st" using assms by (simp add: ids_left_def invite_ids_new_def I64_MIN_def)
  then have "0 < ids_left st" by simp
  from st(2) this obtain l st1 where st1: "map_server_event s st = Some (l, st1)" "ids_ok st1"
      "ids_left st \<le> ids_left st1 + 1" "ii_server_to_current st1 s = Some (l, False)" "ii_local_to_server st1 l = Some s"
      "ii_local_to_server st \<subseteq>\<^sub>m ii_local_to_server st1"
    by (rule map_server_event_result) blast
  define r where "r = retire_local l st1"
  have r: "ids_ok r" "0 < ids_left r" "ii_server_to_current r s = Some (l, True)"
    using retire_ok [OF st1(2)] st1(3-5) \<open>2 \<le> ids_left st\<close> by (simp_all add: r_def) (simp add: retire_local_def)
  from r(1,2) obtain l' st2 where st2: "map_server_event s r = Some (l', st2)" "ii_local_to_server st2 l' = Some s"
      "ii_server_to_current r s = Some (l', False) \<and> st2 = r \<or> ii_local_to_server r l' = None"
    by (rule map_server_event_result) blast
  then have fresh: "ii_local_to_server st1 l' = None" using r(3) by (simp add: r_def)
  have "l' \<notin> snd ` set gs"
  proof
    assume "l' \<in> snd ` set gs"
    then obtain t where "ii_local_to_server st l' = Some t" using st(3) by auto
    then show False using st1(6) fresh by (auto simp: map_le_def dom_def)
  qed
  moreover have "map_server_event s st1 = Some (l, st1)" using st1(4) by (simp add: map_server_event_def)
  moreover have "\<forall>(s, l)\<in>set gs. server_id_for_local l st = s" using st(3) by (auto simp: server_id_for_local_def)
  ultimately show ?thesis
    using st(1) st1(1,5) st2(1,2) fresh by (intro exI [of _ gs] exI [of _ st] exI [of _ l] exI [of _ st1] exI [of _ l'] exI [of _ st2])
      (auto simp: server_id_for_local_def r_def)
qed

theorem invitation_ids_sound_witness:
  "\<exists>st l st1 l' st2. id_run [Deliver 5, Deliver 5, Retire (-1), Deliver 5] invite_ids_new = Some ([(5, -1), (5, -1), (5, -2)], st)
    \<and> map_server_event 5 st = Some (l, st1) \<and> map_server_event 5 (retire_local l st1) = Some (l', st2) \<and> l' \<noteq> l"
proof -
  obtain gs st l st1 l' st2 where *: "id_run [Deliver 5, Deliver 5, Retire (-1), Deliver 5] invite_ids_new = Some (gs, st)"
      "map_server_event 5 st = Some (l, st1)" "map_server_event 5 (retire_local l st1) = Some (l', st2)" "l' \<noteq> l"
    using invitation_ids_sound [of "[Deliver 5, Deliver 5, Retire (-1), Deliver 5]" 5] by auto
  moreover have "gs = [(5, -1), (5, -1), (5, -2)]"
    using *(1) by (auto simp: map_server_event_def allocate_local_id_def next_free_id.simps invite_ids_new_def
        retire_local_def saturating_pred_def I64_MIN_def)
  ultimately show ?thesis by blast
qed

end
