(* ===== verification/Client_Overlay.thy ===== *)
theory Client_Overlay
  imports Client_Api
begin

text \<open>
  The overlay (\<open>client/hooks/src/overlay.rs\<close>): the invitations it lists, what accepting one does,
  and a frame; the thread of \<open>UPLAY_Startup\<close> that polls the server for it, \<open>InviteToGame\<close>
  (\<open>uplay_r1_loader/friends.rs\<close>) and the hook on \<open>StateAcceptInvite::Enter\<close> (\<open>hooks.rs\<close>).
  The texts on the screen are constructors; the windows and the style are left out. A frame
  reads the clock, in milliseconds, once.
\<close>

section \<open>State\<close>

definition NOTIFICATION_TIMEOUT :: nat where "NOTIFICATION_TIMEOUT = 30 * 1000"
definition INITIAL_POPUP_DURATION :: nat where "INITIAL_POPUP_DURATION = 10 * 1000"
definition PARTY_FOLLOW_ACCEPT_DELAY :: nat where "PARTY_FOLLOW_ACCEPT_DELAY = 750"

datatype engine = DX9 | DX11

text \<open>\<open>lower\<close>: the lower-case name of the executable, if it has one.\<close>

definition detect_engine :: "string option \<Rightarrow> engine option" where
  "detect_engine lower = Option.bind lower (\<lambda>fname.
    if fname = ''blacklist_game.exe'' then Some DX9
    else if fname = ''blacklist_dx11_game.exe'' then Some DX11 else None)"

record listed_invite =
  in_event :: received_invite
  in_accepted :: bool

datatype payload_error = IdOutsideU32 | SessionNotYet | SessionEmpty | SessionNotBlob

datatype notice =
    Message string | ApiFailed client_error | InvalidPayload payload_error | HostSyncing | CannotSubmit
  | Joining int string | NoLongerAvailable | NoPending | Received int string

record overlay =
  ov_status :: "string option"
  ov_shown :: bool
  ov_debounce :: bool
  ov_notification :: "(nat \<times> notice) option"
  ov_new_invites :: "(client_error + received_invite option) list"
  ov_invites :: "listed_invite list"
  ov_connection_error :: "client_error option"
  ov_follow :: "(nat \<times> int) option"
  ov_initial_popup :: nat

definition overlay_new :: "nat \<Rightarrow> overlay" where
  "overlay_new now = \<lparr>ov_status = None, ov_shown = False, ov_debounce = False, ov_notification = None,
     ov_new_invites = [], ov_invites = [], ov_connection_error = None, ov_follow = None,
     ov_initial_popup = now + INITIAL_POPUP_DURATION\<rparr>"

text \<open>All the client keeps, with the world behind its connection.\<close>

record 'w game_client =
  gc_overlay :: overlay
  gc_loader :: loader
  gc_client :: client
  gc_world :: 'w

section \<open>Accepting\<close>

fun rposition :: "('a \<Rightarrow> bool) \<Rightarrow> 'a list \<Rightarrow> nat option" where
  "rposition P [] = None"
| "rposition P (x # xs) = (case rposition P xs of Some i \<Rightarrow> Some (Suc i) | None \<Rightarrow> if P x then Some 0 else None)"

fun position :: "('a \<Rightarrow> bool) \<Rightarrow> 'a list \<Rightarrow> nat option" where
  "position P [] = None"
| "position P (x # xs) = (if P x then Some 0 else map_option Suc (position P xs))"

definition latest_pending_invite_index :: "listed_invite list \<Rightarrow> nat option" where
  "latest_pending_invite_index = rposition (\<lambda>i. \<not> in_accepted i)"

definition u32_try_from :: "int \<Rightarrow> u32 option" where
  "u32_try_from i = (if 0 \<le> i \<and> i < 2 ^ 32 then Some (word_of_int i) else None)"

definition build_party_game_invite ::
    "int \<Rightarrow> int \<Rightarrow> string \<Rightarrow> string \<Rightarrow> uplay_game_session option \<Rightarrow> payload_error + party_game_invite" where
  "build_party_game_invite kind invitation_id sender_id sender_name game_session =
    (case u32_try_from invitation_id of
       None \<Rightarrow> Inl IdOutsideU32
     | Some i \<Rightarrow>
        (case game_session of
           None \<Rightarrow> Inl SessionNotYet
         | Some s \<Rightarrow> if up_data s = [] then Inl SessionEmpty
            else Inr \<lparr>gi_invitation_id = i, gi_kind = kind, gi_sender_id = sender_id, gi_sender_name = sender_name,
              gi_game_session = s\<rparr>))"

definition accepted_event_for_kind_with_mode ::
    "int \<Rightarrow> int \<Rightarrow> string \<Rightarrow> string \<Rightarrow> uplay_game_session option \<Rightarrow> invite_mode \<Rightarrow> payload_error + client_event" where
  "accepted_event_for_kind_with_mode kind invitation_id sender_id sender_name game_session mode =
    (if kind \<in> {2, 4} then
       (case u32_try_from invitation_id of
          None \<Rightarrow> Inl IdOutsideU32 | Some i \<Rightarrow> Inr (FriendsGameInviteAccepted i sender_id sender_name))
     else (case build_party_game_invite kind invitation_id sender_id sender_name game_session of
        Inl e \<Rightarrow> Inl e
      | Inr invite \<Rightarrow>
         if kind = 1 then
           if length (up_data (gi_game_session invite)) \<noteq> 0x1f0 then Inl SessionNotBlob
           else Inr (FriendsPrivateBlobInviteAccepted invite mode)
         else Inr (PartyGameInviteAccepted invite)))"

definition accepted_event_for_kind ::
    "int \<Rightarrow> int \<Rightarrow> string \<Rightarrow> string \<Rightarrow> uplay_game_session option \<Rightarrow> payload_error + client_event" where
  "accepted_event_for_kind kind invitation_id sender_id sender_name game_session =
    accepted_event_for_kind_with_mode kind invitation_id sender_id sender_name game_session current_private_invite_ab_mode"

definition show_notice :: "nat \<Rightarrow> notice \<Rightarrow> 'w game_client \<Rightarrow> 'w game_client" where
  "show_notice now n g = g\<lparr>gc_overlay := (gc_overlay g)\<lparr>ov_notification := Some (now, n)\<rparr>\<rparr>"

definition remove_invite :: "nat \<Rightarrow> 'w game_client \<Rightarrow> 'w game_client" where
  "remove_invite index g = g\<lparr>gc_overlay := (gc_overlay g)
    \<lparr>ov_invites := take index (ov_invites (gc_overlay g)) @ drop (Suc index) (ov_invites (gc_overlay g))\<rparr>\<rparr>"

definition hide :: "'w game_client \<Rightarrow> 'w game_client" where
  "hide g = g\<lparr>gc_overlay := (gc_overlay g)\<lparr>ov_shown := False\<rparr>\<rparr>"

text \<open>The event of an invitation the server let the player accept is sent to the game.\<close>

definition submit_event :: "nat \<Rightarrow> nat \<Rightarrow> received_invite \<Rightarrow> string \<Rightarrow> string \<Rightarrow> int \<Rightarrow> 'w game_client \<Rightarrow> 'w game_client" where
  "submit_event now index ev sender_id sender_name server_id g =
    (case accepted_event_for_kind (ri_kind ev) server_id sender_id sender_name (ri_game_session ev) of
       Inl e \<Rightarrow> show_notice now (InvalidPayload e) g
     | Inr event \<Rightarrow>
        let target = (case ri_game_session ev of None \<Rightarrow> 0 | Some s \<Rightarrow> up_id s);
            l = (gc_loader g)\<lparr>ld_party := arm_party_presence_proof (ri_kind ev) server_id target sender_id (ld_party (gc_loader g))\<rparr>
        in case ld_channel l of
             None \<Rightarrow> show_notice now CannotSubmit (g\<lparr>gc_loader := l\<rparr>)
           | Some es \<Rightarrow> hide (show_notice now (Joining (ri_kind ev) sender_name)
               (remove_invite index (g\<lparr>gc_loader := l\<lparr>ld_channel := Some (es @ [event])\<rparr>\<rparr>))))"

definition accept_invite_at :: "'w api_remote \<Rightarrow> nat \<Rightarrow> nat \<Rightarrow> 'w game_client \<Rightarrow> 'w game_client" where
  "accept_invite_at sv now index g =
    (if length (ov_invites (gc_overlay g)) \<le> index then g
     else let ev = in_event (ov_invites (gc_overlay g) ! index) in
       case ri_sender ev of
         None \<Rightarrow> g
       | Some (sender_id, sender_name) \<Rightarrow>
          if ri_kind ev = 3 \<and> ri_game_session ev = None then show_notice now HostSyncing g
          else let (r, c, w) = accept_invite_call sv (ri_id ev) (gc_client g) (gc_world g);
                   g = g\<lparr>gc_client := c, gc_world := w\<rparr>
               in case r of
                    Inl e \<Rightarrow> show_notice now (ApiFailed e) g
                  | Inr (True, server_id) \<Rightarrow> submit_event now index ev sender_id sender_name server_id g
                  | Inr (False, server_id) \<Rightarrow> show_notice now NoLongerAvailable (remove_invite index g))"

section \<open>A frame\<close>

definition show_status :: "nat \<Rightarrow> 'w game_client \<Rightarrow> 'w game_client" where
  "show_status now g = (case ov_status (gc_overlay g) of
     None \<Rightarrow> g
   | Some message \<Rightarrow> show_notice now (Message message) (g\<lparr>gc_overlay := (gc_overlay g)\<lparr>ov_status := None\<rparr>\<rparr>))"

definition press_f5 :: "'w api_remote \<Rightarrow> nat \<Rightarrow> bool \<Rightarrow> 'w game_client \<Rightarrow> 'w game_client" where
  "press_f5 sv now f5 g =
    (if f5 then
       if \<not> ov_debounce (gc_overlay g) then
         let g = g\<lparr>gc_overlay := (gc_overlay g)\<lparr>ov_debounce := True\<rparr>\<rparr> in
         case latest_pending_invite_index (ov_invites (gc_overlay g)) of
           Some index \<Rightarrow> accept_invite_at sv now index g
         | None \<Rightarrow> show_notice now NoPending g
       else g
     else g\<lparr>gc_overlay := (gc_overlay g)\<lparr>ov_debounce := False\<rparr>\<rparr>)"

definition run_follow :: "'w api_remote \<Rightarrow> nat \<Rightarrow> 'w game_client \<Rightarrow> 'w game_client" where
  "run_follow sv now g =
    (case ov_follow (gc_overlay g) of
       None \<Rightarrow> g
     | Some (deadline, invite_id) \<Rightarrow>
        if deadline \<le> now then
          let g = g\<lparr>gc_overlay := (gc_overlay g)\<lparr>ov_follow := None\<rparr>\<rparr> in
          case position (\<lambda>i. ri_id (in_event i) = invite_id) (ov_invites (gc_overlay g)) of
            Some index \<Rightarrow> accept_invite_at sv now index g
          | None \<Rightarrow> g
        else g)"

text \<open>An invitation that is listed already is replaced, keeping its place; others are shown.\<close>

definition list_invite :: "nat \<Rightarrow> received_invite \<Rightarrow> 'w game_client \<Rightarrow> nat \<times> 'w game_client" where
  "list_invite now ev g =
    (let invites = ov_invites (gc_overlay g) in
     case position (\<lambda>i. ri_id (in_event i) = ri_id ev) invites of
       Some index \<Rightarrow> (index, g\<lparr>gc_overlay := (gc_overlay g)
         \<lparr>ov_invites := invites[index := (invites ! index)\<lparr>in_event := ev\<rparr>]\<rparr>\<rparr>)
     | None \<Rightarrow>
        let g = (case ri_sender ev of None \<Rightarrow> g | Some (_, name) \<Rightarrow> show_notice now (Received (ri_kind ev) name) g)
        in (length invites, g\<lparr>gc_overlay := (gc_overlay g)\<lparr>ov_invites := invites @ [\<lparr>in_event = ev, in_accepted = False\<rparr>]\<rparr>\<rparr>))"

definition take_up_invite :: "'w api_remote \<Rightarrow> client_config option \<Rightarrow> nat \<Rightarrow> received_invite \<Rightarrow> 'w game_client \<Rightarrow> 'w game_client" where
  "take_up_invite sv config now ev g =
    (let (index, g) = list_invite now ev g in
     if ri_force_join ev \<or> (case config of None \<Rightarrow> False | Some c \<Rightarrow> cc_auto_join_invite c) then
       if ri_kind ev = 3
       then g\<lparr>gc_overlay := (gc_overlay g)\<lparr>ov_follow := Some (now + PARTY_FOLLOW_ACCEPT_DELAY, ri_id ev)\<rparr>\<rparr>
       else accept_invite_at sv now index g
     else g)"

definition receive_new :: "'w api_remote \<Rightarrow> client_config option \<Rightarrow> nat \<Rightarrow> 'w game_client \<Rightarrow> 'w game_client" where
  "receive_new sv config now g =
    (case ov_new_invites (gc_overlay g) of
       [] \<Rightarrow> g
     | evt # rest \<Rightarrow>
        let g = g\<lparr>gc_overlay := (gc_overlay g)\<lparr>ov_new_invites := rest\<rparr>\<rparr> in
        case evt of
          Inl e \<Rightarrow> g\<lparr>gc_overlay := (gc_overlay g)\<lparr>ov_connection_error := Some e\<rparr>\<rparr>
        | Inr new \<Rightarrow>
           let g = g\<lparr>gc_overlay := (gc_overlay g)\<lparr>ov_connection_error := None\<rparr>\<rparr> in
           case new of None \<Rightarrow> g | Some ev \<Rightarrow> take_up_invite sv config now ev g)"

definition show_notifications :: "nat \<Rightarrow> 'w game_client \<Rightarrow> 'w game_client" where
  "show_notifications now g =
    (case ov_notification (gc_overlay g) of
       None \<Rightarrow> g
     | Some (created, _) \<Rightarrow>
        if NOTIFICATION_TIMEOUT < now - created then g\<lparr>gc_overlay := (gc_overlay g)\<lparr>ov_notification := None\<rparr>\<rparr> else g)"

definition render :: "'w api_remote \<Rightarrow> client_config option \<Rightarrow> nat \<Rightarrow> bool \<Rightarrow> 'w game_client \<Rightarrow> 'w game_client" where
  "render sv config now f5 g =
    show_notifications now (receive_new sv config now (run_follow sv now (press_f5 sv now f5 (show_status now g))))"

section \<open>The other threads\<close>

text \<open>
  One round of the updates thread, with the failures it counts. Nothing is sent when there is no
  invitation. \<open>listening\<close>: whether the overlay was set up and holds the receiver; sending to a
  dropped one panics. \<open>None\<close>: it panics, or finds no local id.
\<close>

definition send_new :: "bool \<Rightarrow> client_error + received_invite option \<Rightarrow> 'w game_client \<Rightarrow> 'w game_client option" where
  "send_new listening evt g = (if listening
     then Some (g\<lparr>gc_overlay := (gc_overlay g)\<lparr>ov_new_invites := ov_new_invites (gc_overlay g) @ [evt]\<rparr>\<rparr>) else None)"

definition update_round :: "'w api_remote \<Rightarrow> bool \<Rightarrow> nat \<times> 'w game_client \<Rightarrow> (nat \<times> 'w game_client) option" where
  "update_round sv listening s =
    (let (failures, g) = s in
     Option.bind (poll_event sv (gc_client g) (gc_world g)) (\<lambda>(r, c, w).
     let g = g\<lparr>gc_client := c, gc_world := w\<rparr> in
     case r of
       Inr None \<Rightarrow> Some (failures, g)
     | _ \<Rightarrow>
        let failures = (case r of Inl _ \<Rightarrow> failures + 1 | Inr _ \<Rightarrow> 0) in
        Option.bind (send_new listening r g) (\<lambda>g.
        if 0 < failures \<and> failures mod 10 = 0 then
          let (ok, c, w) = relogin sv (gc_client g) (gc_world g);
              g = g\<lparr>gc_client := c, gc_world := w\<rparr>
          in if ok then map_option (Pair failures) (send_new listening (Inr None) g) else Some (failures, g)
        else Some (failures, g))))"

text \<open>
  The account is \<open>None\<close> for a null pointer and \<open>Some None\<close> for bytes that are no text;
  \<open>explain\<close> gives the message shown for the outcome.
\<close>

datatype invite_failure = MissingAccount | InvalidAccount | InviteCallFailed client_error

definition UPLAY_RESULT_FAILED :: nat where "UPLAY_RESULT_FAILED = 6"

definition invite_to_game :: "'w api_remote \<Rightarrow> (invite_failure option \<Rightarrow> string) \<Rightarrow> string option option
    \<Rightarrow> uplay_overlapped option \<Rightarrow> 'w game_client \<Rightarrow> bool \<times> uplay_overlapped option \<times> 'w game_client" where
  "invite_to_game sv explain account overlapped g =
    (let (failure, w) = (case account of
           None \<Rightarrow> (Some MissingAccount, gc_world g)
         | Some None \<Rightarrow> (Some InvalidAccount, gc_world g)
         | Some (Some i) \<Rightarrow>
            (let (r, w) = invite_friend sv i (gc_client g) (gc_world g)
             in (case r of Inl e \<Rightarrow> Some (InviteCallFailed e) | Inr () \<Rightarrow> None, w)));
         success = (failure = None)
     in (success, map_option (if success then set_success else set_result UPLAY_RESULT_FAILED) overlapped,
         g\<lparr>gc_world := w, gc_overlay := (gc_overlay g)\<lparr>ov_status := Some (explain failure)\<rparr>\<rparr>))"

section \<open>The controller of the game\<close>

text \<open>
  The two slots of the owner of \<open>StateAcceptInvite\<close>, each a session descriptor, 0 for none.
  \<open>state\<close> is \<open>None\<close> if it or its owner is null. The retail function runs after.
\<close>

record controller =
  co_party :: nat
  co_match :: nat

definition state_accept_invite_enter :: "controller option \<Rightarrow> loader \<Rightarrow> controller option \<times> loader" where
  "state_accept_invite_enter state l =
    (case (take_private_invite_match_target (ld_party l), state) of
       (Some expected, Some s) \<Rightarrow>
         if co_party s \<noteq> 0 \<and> co_match s = 0
         then (Some (s\<lparr>co_match := co_party s, co_party := 0\<rparr>), acknowledge_private_invite expected l)
         else if co_party s = 0 \<and> co_match s \<noteq> 0 then (Some s, acknowledge_private_invite expected l)
         else (Some s, l)
     | _ \<Rightarrow> (state, l))"

end
