(* ===== verification/Overlay_Behaviour.thy ===== *)
theory Overlay_Behaviour
  imports Client_Overlay
begin

text \<open>
  What the overlay promises whatever the server answers: one key press accepts one invitation,
  a party is followed after the delay only, no invitation is listed twice, a session
  descriptor has one owner; and what its error line does not promise.
\<close>

section \<open>Frames and rounds\<close>

datatype client_step = Frame nat bool | Round

fun client_run :: "'w api_remote \<Rightarrow> client_config option \<Rightarrow> client_step list \<Rightarrow> nat \<times> 'w game_client \<Rightarrow> (nat \<times> 'w game_client) option" where
  "client_run sv config [] s = Some s"
| "client_run sv config (Frame now f5 # cs) (failures, g) = client_run sv config cs (failures, render sv config now f5 g)"
| "client_run sv config (Round # cs) s = Option.bind (update_round sv True s) (client_run sv config cs)"

text \<open>What an accepted invitation may change in the overlay, and what a frame leaves alone.\<close>

lemma notice_simps [simp]:
  "ov_new_invites (gc_overlay (show_notice now n g)) = ov_new_invites (gc_overlay g)"
  "ov_follow (gc_overlay (show_notice now n g)) = ov_follow (gc_overlay g)"
  "ov_debounce (gc_overlay (show_notice now n g)) = ov_debounce (gc_overlay g)"
  "ov_invites (gc_overlay (show_notice now n g)) = ov_invites (gc_overlay g)"
  "ov_connection_error (gc_overlay (show_notice now n g)) = ov_connection_error (gc_overlay g)"
  "ov_status (gc_overlay (show_notice now n g)) = ov_status (gc_overlay g)"
  "gc_loader (show_notice now n g) = gc_loader g" "gc_client (show_notice now n g) = gc_client g" "gc_world (show_notice now n g) = gc_world g"
  by (simp_all add: show_notice_def)

lemma remove_simps [simp]:
  "ov_new_invites (gc_overlay (remove_invite i g)) = ov_new_invites (gc_overlay g)"
  "ov_follow (gc_overlay (remove_invite i g)) = ov_follow (gc_overlay g)"
  "ov_debounce (gc_overlay (remove_invite i g)) = ov_debounce (gc_overlay g)"
  "ov_connection_error (gc_overlay (remove_invite i g)) = ov_connection_error (gc_overlay g)"
  "ov_status (gc_overlay (remove_invite i g)) = ov_status (gc_overlay g)"
  "ov_invites (gc_overlay (remove_invite i g)) = take i (ov_invites (gc_overlay g)) @ drop (Suc i) (ov_invites (gc_overlay g))"
  "gc_loader (remove_invite i g) = gc_loader g" "gc_client (remove_invite i g) = gc_client g"
  "gc_world (remove_invite i g) = gc_world g"
  by (simp_all add: remove_invite_def)

lemma hide_simps [simp]:
  "ov_new_invites (gc_overlay (hide g)) = ov_new_invites (gc_overlay g)"
  "ov_follow (gc_overlay (hide g)) = ov_follow (gc_overlay g)"
  "ov_debounce (gc_overlay (hide g)) = ov_debounce (gc_overlay g)"
  "ov_connection_error (gc_overlay (hide g)) = ov_connection_error (gc_overlay g)"
  "ov_status (gc_overlay (hide g)) = ov_status (gc_overlay g)"
  "ov_invites (gc_overlay (hide g)) = ov_invites (gc_overlay g)"
  "gc_loader (hide g) = gc_loader g" "gc_client (hide g) = gc_client g" "gc_world (hide g) = gc_world g"
  by (simp_all add: hide_def)

lemma accept_frame [simp]:
  "ov_new_invites (gc_overlay (accept_invite_at sv now i g)) = ov_new_invites (gc_overlay g)"
  "ov_follow (gc_overlay (accept_invite_at sv now i g)) = ov_follow (gc_overlay g)"
  "ov_debounce (gc_overlay (accept_invite_at sv now i g)) = ov_debounce (gc_overlay g)"
  "ov_connection_error (gc_overlay (accept_invite_at sv now i g)) = ov_connection_error (gc_overlay g)"
  "ov_status (gc_overlay (accept_invite_at sv now i g)) = ov_status (gc_overlay g)"
  by (simp_all add: accept_invite_at_def submit_event_def Let_def split: option.split prod.split sum.split bool.split)

lemma accept_invites:
  "ov_invites (gc_overlay (accept_invite_at sv now i g))
    \<in> {ov_invites (gc_overlay g), take i (ov_invites (gc_overlay g)) @ drop (Suc i) (ov_invites (gc_overlay g))}"
  by (simp add: accept_invite_at_def submit_event_def Let_def split: option.split prod.split sum.split bool.split)

lemma show_status_simps [simp]:
  "ov_new_invites (gc_overlay (show_status now g)) = ov_new_invites (gc_overlay g)"
  "ov_follow (gc_overlay (show_status now g)) = ov_follow (gc_overlay g)"
  "ov_debounce (gc_overlay (show_status now g)) = ov_debounce (gc_overlay g)"
  "ov_connection_error (gc_overlay (show_status now g)) = ov_connection_error (gc_overlay g)"
  "ov_invites (gc_overlay (show_status now g)) = ov_invites (gc_overlay g)"
  "gc_loader (show_status now g) = gc_loader g" "gc_client (show_status now g) = gc_client g"
  "gc_world (show_status now g) = gc_world g"
  by (simp_all add: show_status_def split: option.split)

lemma show_notifications_simps [simp]:
  "ov_new_invites (gc_overlay (show_notifications now g)) = ov_new_invites (gc_overlay g)"
  "ov_follow (gc_overlay (show_notifications now g)) = ov_follow (gc_overlay g)"
  "ov_debounce (gc_overlay (show_notifications now g)) = ov_debounce (gc_overlay g)"
  "ov_connection_error (gc_overlay (show_notifications now g)) = ov_connection_error (gc_overlay g)"
  "ov_invites (gc_overlay (show_notifications now g)) = ov_invites (gc_overlay g)"
  "ov_status (gc_overlay (show_notifications now g)) = ov_status (gc_overlay g)"
  "gc_loader (show_notifications now g) = gc_loader g" "gc_client (show_notifications now g) = gc_client g"
  "gc_world (show_notifications now g) = gc_world g"
  by (simp_all add: show_notifications_def split: option.split)

lemma press_f5_simps [simp]:
  "ov_new_invites (gc_overlay (press_f5 sv now f5 g)) = ov_new_invites (gc_overlay g)"
  "ov_follow (gc_overlay (press_f5 sv now f5 g)) = ov_follow (gc_overlay g)"
  "ov_debounce (gc_overlay (press_f5 sv now f5 g)) = f5"
  "ov_connection_error (gc_overlay (press_f5 sv now f5 g)) = ov_connection_error (gc_overlay g)"
  by (simp_all add: press_f5_def Let_def split: option.split)

lemma run_follow_simps [simp]:
  "ov_new_invites (gc_overlay (run_follow sv now g)) = ov_new_invites (gc_overlay g)"
  "ov_debounce (gc_overlay (run_follow sv now g)) = ov_debounce (gc_overlay g)"
  "ov_connection_error (gc_overlay (run_follow sv now g)) = ov_connection_error (gc_overlay g)"
  by (simp_all add: run_follow_def Let_def split: option.split)

lemma list_invite_simps [simp]:
  "ov_new_invites (gc_overlay (snd (list_invite now ev g))) = ov_new_invites (gc_overlay g)"
  "ov_follow (gc_overlay (snd (list_invite now ev g))) = ov_follow (gc_overlay g)"
  "ov_debounce (gc_overlay (snd (list_invite now ev g))) = ov_debounce (gc_overlay g)"
  "ov_connection_error (gc_overlay (snd (list_invite now ev g))) = ov_connection_error (gc_overlay g)"
  "gc_loader (snd (list_invite now ev g)) = gc_loader g" "gc_client (snd (list_invite now ev g)) = gc_client g"
  "gc_world (snd (list_invite now ev g)) = gc_world g"
  by (simp_all add: list_invite_def Let_def split: option.split)

lemma receive_new_debounce [simp]:
  "ov_debounce (gc_overlay (receive_new sv config now g)) = ov_debounce (gc_overlay g)"
  by (simp add: receive_new_def take_up_invite_def split_beta Let_def split: list.split sum.split option.split)

section \<open>No invitation twice\<close>

definition listed_ids :: "'w game_client \<Rightarrow> int list" where
  "listed_ids g = map (\<lambda>i. ri_id (in_event i)) (ov_invites (gc_overlay g))"

lemma listed_ids_same: "ov_invites (gc_overlay h) = ov_invites (gc_overlay g) \<Longrightarrow> listed_ids h = listed_ids g"
  by (simp add: listed_ids_def)

lemma position_Some: "position P xs = Some i \<Longrightarrow> i < length xs \<and> P (xs ! i)"
  by (induction xs arbitrary: i) (auto split: if_splits)

lemma position_None: "position P xs = None \<longleftrightarrow> (\<forall>x\<in>set xs. \<not> P x)"
  by (induction xs) auto

lemma rposition_Some: "rposition P xs = Some i \<Longrightarrow> i < length xs \<and> P (xs ! i) \<and> (\<forall>j. i < j \<and> j < length xs \<longrightarrow> \<not> P (xs ! j))"
proof (induction xs arbitrary: i)
  case (Cons x xs)
  show ?case
  proof (cases "rposition P xs")
    case None
    have none: "\<forall>x\<in>set xs. \<not> P x" using None by (induction xs) (auto split: option.splits if_splits)
    have "P x \<and> i = 0" using Cons.prems None by (simp split: if_splits)
    then show ?thesis using none by (auto simp: nth_Cons')
  next
    case (Some k)
    with Cons show ?thesis by (auto simp: nth_Cons split: nat.splits)
  qed
qed simp

lemma distinct_remove: "distinct (map f xs) \<Longrightarrow> distinct (map f (take i xs @ drop (Suc i) xs))"
  by (simp add: distinct_append take_map [symmetric] drop_map [symmetric] set_take_disj_set_drop_if_distinct)

lemma accept_distinct: "distinct (listed_ids g) \<Longrightarrow> distinct (listed_ids (accept_invite_at sv now i g))"
  using accept_invites [of sv now i g] distinct_remove [of "\<lambda>i. ri_id (in_event i)" "ov_invites (gc_overlay g)" i]
  by (auto simp: listed_ids_def)

lemma list_invite_distinct: "distinct (listed_ids g) \<Longrightarrow> distinct (listed_ids (snd (list_invite now ev g)))"
proof (cases "position (\<lambda>i. ri_id (in_event i) = ri_id ev) (ov_invites (gc_overlay g))")
  case None
  moreover note position_None [THEN iffD1, OF None]
  ultimately show "distinct (listed_ids g) \<Longrightarrow> ?thesis"
    by (auto simp: list_invite_def listed_ids_def Let_def split: option.split)
next
  case (Some k)
  then have "k < length (ov_invites (gc_overlay g))" "ri_id (in_event (ov_invites (gc_overlay g) ! k)) = ri_id ev"
    using position_Some [OF Some] by auto
  then have "listed_ids (snd (list_invite now ev g)) = listed_ids g"
    using Some by (auto simp: list_invite_def listed_ids_def Let_def map_update intro!: list_update_same_conv [THEN iffD2])
  then show "distinct (listed_ids g) \<Longrightarrow> ?thesis" by simp
qed

lemma take_up_distinct: "distinct (listed_ids g) \<Longrightarrow> distinct (listed_ids (take_up_invite sv config now ev g))"
  using list_invite_distinct [of g now ev] accept_distinct [of "snd (list_invite now ev g)" sv now "fst (list_invite now ev g)"]
  by (simp add: take_up_invite_def split_beta) (simp add: listed_ids_def)

lemma receive_distinct: "distinct (listed_ids g) \<Longrightarrow> distinct (listed_ids (receive_new sv config now g))"
  by (auto simp: receive_new_def Let_def listed_ids_def
      intro!: take_up_distinct [unfolded listed_ids_def] split: list.split sum.split option.split)

lemma press_f5_distinct: "distinct (listed_ids g) \<Longrightarrow> distinct (listed_ids (press_f5 sv now f5 g))"
  by (auto simp: press_f5_def Let_def listed_ids_def intro!: accept_distinct [unfolded listed_ids_def] split: option.split)

lemma run_follow_distinct: "distinct (listed_ids g) \<Longrightarrow> distinct (listed_ids (run_follow sv now g))"
  by (auto simp: run_follow_def Let_def listed_ids_def intro!: accept_distinct [unfolded listed_ids_def] split: option.split)

lemma render_distinct: "distinct (listed_ids g) \<Longrightarrow> distinct (listed_ids (render sv config now f5 g))"
proof -
  assume "distinct (listed_ids g)"
  then have "distinct (listed_ids (show_status now g))" by (simp add: listed_ids_def)
  from receive_distinct [OF run_follow_distinct [OF press_f5_distinct [OF this, of sv now f5], of sv now], of sv config now]
  show ?thesis by (simp add: render_def listed_ids_def)
qed

lemma send_new_frame:
  "send_new listening e g = Some h \<Longrightarrow> ov_invites (gc_overlay h) = ov_invites (gc_overlay g)"
  by (auto simp: send_new_def split: if_splits)

lemma update_round_invites:
  assumes "update_round sv listening (n, g) = Some (m, h)"
  shows "ov_invites (gc_overlay h) = ov_invites (gc_overlay g)"
proof -
  obtain r c w where p: "poll_event sv (gc_client g) (gc_world g) = Some (r, c, w)"
    using assms by (cases "poll_event sv (gc_client g) (gc_world g)") (auto simp: update_round_def)
  define g1 where "g1 = g\<lparr>gc_client := c, gc_world := w\<rparr>"
  show ?thesis
  proof (cases "r = Inr None")
    case True
    with assms p show ?thesis by (auto simp: update_round_def)
  next
    case False
    obtain g2 where g2: "send_new listening r g1 = Some g2"
      using assms p False by (cases "send_new listening r g1") (auto simp: update_round_def Let_def g1_def split: sum.splits option.splits)
    note send = send_new_frame [OF g2]
    define k where "k = (case r of Inl _ \<Rightarrow> n + 1 | Inr _ \<Rightarrow> 0)"
    obtain ok c' w' where login: "relogin sv (gc_client g2) (gc_world g2) = (ok, c', w')" by (metis prod_cases3)
    have "update_round sv listening (n, g) = (if 0 < k \<and> k mod 10 = 0
        then if ok then map_option (Pair k) (send_new listening (Inr None) (g2\<lparr>gc_client := c', gc_world := w'\<rparr>))
             else Some (k, g2\<lparr>gc_client := c', gc_world := w'\<rparr>)
        else Some (k, g2))"
      using p False g2 login by (auto simp: update_round_def Let_def g1_def k_def split: sum.splits option.splits)
    with assms send send_new_frame [of listening "Inr None" "g2\<lparr>gc_client := c', gc_world := w'\<rparr>"] show ?thesis
      by (auto simp: g1_def split: if_splits)
  qed
qed

lemma client_run_distinct:
  "client_run sv config cs (n, g) = Some (m, h) \<Longrightarrow> distinct (listed_ids g) \<Longrightarrow> distinct (listed_ids h)"
proof (induction cs arbitrary: n g)
  case (Cons c cs)
  show ?case
  proof (cases c)
    case (Frame now f5)
    with Cons.prems Cons.IH [OF _ render_distinct [OF Cons.prems(2)]] show ?thesis by simp
  next
    case Round
    with Cons.prems obtain k x where x: "update_round sv True (n, g) = Some (k, x)" "client_run sv config cs (k, x) = Some (m, h)"
      by (auto simp: bind_eq_Some_conv)
    with Cons.IH [OF x(2)] Cons.prems(2) update_round_invites [OF x(1)] show ?thesis by (simp add: listed_ids_def)
  qed
qed simp

section \<open>Quiet frames\<close>

definition joins_by_itself :: "client_config option \<Rightarrow> (client_error + received_invite option) list \<Rightarrow> bool" where
  "joins_by_itself config evts \<longleftrightarrow> (\<exists>c. config = Some c \<and> cc_auto_join_invite c)
    \<or> (\<exists>ev. Inr (Some ev) \<in> set evts \<and> ri_force_join ev)"

lemma take_up_quiet:
  "\<not> joins_by_itself config [Inr (Some ev)] \<Longrightarrow> take_up_invite sv config now ev g = snd (list_invite now ev g)"
  by (auto simp: take_up_invite_def joins_by_itself_def split_beta split: option.split)

text \<open>The part of the client that an acceptance changes, besides the list and the notice.\<close>

definition core :: "'w game_client \<Rightarrow> loader \<times> client \<times> 'w" where
  "core g = (gc_loader g, gc_client g, gc_world g)"

lemma core_simps [simp]:
  "core (show_status now g) = core g" "core (show_notifications now g) = core g" "core (snd (list_invite now ev g)) = core g"
  "core (show_notice now n g) = core g" "core (g\<lparr>gc_overlay := ov\<rparr>) = core g"
  by (simp_all add: core_def)

lemma receive_quiet:
  assumes "\<not> joins_by_itself config (ov_new_invites (gc_overlay g))"
  shows "core (receive_new sv config now g) = core g
    \<and> ov_follow (gc_overlay (receive_new sv config now g)) = ov_follow (gc_overlay g)
    \<and> ov_new_invites (gc_overlay (receive_new sv config now g)) = tl (ov_new_invites (gc_overlay g))"
proof (cases "ov_new_invites (gc_overlay g)")
  case Nil
  then show ?thesis by (simp add: receive_new_def)
next
  case (Cons e es)
  have "\<not> joins_by_itself config [Inr (Some ev)]" if "e = Inr (Some ev)" for ev
    using assms that Cons by (auto simp: joins_by_itself_def)
  with Cons show ?thesis
    by (auto simp: receive_new_def Let_def take_up_quiet split: sum.split option.split)
qed

lemma held_frame:
  assumes "\<not> joins_by_itself config (ov_new_invites (gc_overlay g))" and "ov_follow (gc_overlay g) = None"
    and "ov_debounce (gc_overlay g)"
  shows "core (render sv config now True g) = core g \<and> ov_follow (gc_overlay (render sv config now True g)) = None
    \<and> ov_debounce (gc_overlay (render sv config now True g))
    \<and> ov_new_invites (gc_overlay (render sv config now True g)) = tl (ov_new_invites (gc_overlay g))"
proof -
  define h where "h = show_status now g"
  have "press_f5 sv now True h = h" using assms(3) by (simp add: press_f5_def h_def)
  moreover have "run_follow sv now h = h" using assms(2) by (simp add: run_follow_def h_def)
  moreover have "\<not> joins_by_itself config (ov_new_invites (gc_overlay h))" using assms(1) by (simp add: h_def)
  note receive_quiet [OF this, of sv now]
  ultimately show ?thesis using assms(2,3) by (simp add: render_def h_def [symmetric]) (simp add: h_def)
qed

lemma joins_tl: "\<not> joins_by_itself config es \<Longrightarrow> \<not> joins_by_itself config (tl es)"
  by (cases es) (auto simp: joins_by_itself_def)

lemma held_frames:
  assumes "\<not> joins_by_itself config (ov_new_invites (gc_overlay g))" and "ov_follow (gc_overlay g) = None"
    and "ov_debounce (gc_overlay g)"
  shows "core (fold (\<lambda>now. render sv config now True) nows g) = core g"
  using assms
proof (induction nows arbitrary: g)
  case (Cons t nows)
  from held_frame [OF Cons.prems, of sv t] show ?case
    using Cons.IH [of "render sv config t True g"] joins_tl [OF Cons.prems(1)] by simp
qed simp

lemma quiet_frame:
  assumes "\<not> joins_by_itself config (ov_new_invites (gc_overlay g))"
    and "\<forall>d i. ov_follow (gc_overlay g) = Some (d, i) \<longrightarrow> now < d"
  shows "core (render sv config now f5 g) = core (press_f5 sv now f5 (show_status now g))
    \<and> ov_follow (gc_overlay (render sv config now f5 g)) = ov_follow (gc_overlay g)
    \<and> ov_new_invites (gc_overlay (render sv config now f5 g)) = tl (ov_new_invites (gc_overlay g))"
proof -
  define h where "h = press_f5 sv now f5 (show_status now g)"
  have "run_follow sv now h = h" using assms(2) by (auto simp: run_follow_def h_def split: option.split)
  moreover have "\<not> joins_by_itself config (ov_new_invites (gc_overlay h))" using assms(1) by (simp add: h_def)
  note receive_quiet [OF this, of sv now]
  ultimately show ?thesis by (simp add: render_def h_def [symmetric]) (simp add: h_def)
qed

lemma pressed_frame:
  assumes "\<not> joins_by_itself config (ov_new_invites (gc_overlay g))" and "ov_follow (gc_overlay g) = None"
    and "\<not> ov_debounce (gc_overlay g)" and "latest_pending_invite_index (ov_invites (gc_overlay g)) = Some i"
  shows "core (render sv config now True g) = core (accept_invite_at sv now i g)
    \<and> ov_follow (gc_overlay (render sv config now True g)) = None
    \<and> ov_debounce (gc_overlay (render sv config now True g))
    \<and> ov_new_invites (gc_overlay (render sv config now True g)) = tl (ov_new_invites (gc_overlay g))"
proof -
  define h where "h = show_status now g"
  have h: "core h = core g" "ov_invites (gc_overlay h) = ov_invites (gc_overlay g)" "\<not> ov_debounce (gc_overlay h)"
    using assms(3) by (simp_all add: h_def)
  have core: "core (accept_invite_at sv now i g') = core (accept_invite_at sv now i g)"
    if "core g' = core g" "ov_invites (gc_overlay g') = ov_invites (gc_overlay g)" for g'
    using that by (simp add: accept_invite_at_def submit_event_def core_def Let_def split: option.split prod.split sum.split bool.split)
  have press: "core (press_f5 sv now True h) = core (accept_invite_at sv now i g)"
    using assms(4) h by (simp add: press_f5_def) (rule core; simp add: core_def)
  moreover have "ov_debounce (gc_overlay (render sv config now True g))" by (simp add: render_def)
  ultimately show ?thesis
    using quiet_frame [OF assms(1), of now sv True] assms(2) by (simp add: h_def)
qed

text \<open>Frames without the key, new invitations or a follow that is due.\<close>

definition idle_until :: "nat \<Rightarrow> 'w game_client \<Rightarrow> bool" where
  "idle_until t g \<longleftrightarrow> ov_new_invites (gc_overlay g) = []
    \<and> (\<forall>d i. ov_follow (gc_overlay g) = Some (d, i) \<longrightarrow> t \<le> d)"

definition listing :: "'w game_client \<Rightarrow> (loader \<times> client \<times> 'w) \<times> listed_invite list \<times> (nat \<times> int) option" where
  "listing g = (core g, ov_invites (gc_overlay g), ov_follow (gc_overlay g))"

lemma idle_frame:
  assumes "idle_until t g" and "now < t"
  shows "listing (render sv config now False g) = listing g \<and> idle_until t (render sv config now False g)"
proof -
  define h where "h = press_f5 sv now False (show_status now g)"
  have h: "listing h = listing g" "ov_new_invites (gc_overlay h) = []" "ov_follow (gc_overlay h) = ov_follow (gc_overlay g)"
    using assms(1) by (simp_all add: h_def press_f5_def listing_def idle_until_def core_def)
  have "run_follow sv now h = h"
    using assms h by (fastforce simp: run_follow_def idle_until_def split: option.split)
  then have "render sv config now False g = show_notifications now h"
    using h by (simp add: render_def h_def [symmetric] receive_new_def)
  with h assms(1) show ?thesis by (simp add: listing_def idle_until_def)
qed

lemma idle_frames:
  assumes "idle_until t g" and "\<forall>now\<in>set nows. now < t"
  shows "listing (fold (\<lambda>now. render sv config now False) nows g) = listing g
    \<and> idle_until t (fold (\<lambda>now. render sv config now False) nows g)"
  using assms
proof (induction nows arbitrary: g)
  case (Cons now nows)
  with idle_frame [OF Cons.prems(1), of now sv config] show ?case by simp
qed simp

lemma due_frame:
  assumes "ov_new_invites (gc_overlay g) = []" and "ov_follow (gc_overlay g) = Some (d, ri_id ev)" and "d \<le> now"
    and "ov_invites (gc_overlay g) = xs @ [\<lparr>in_event = ev, in_accepted = a\<rparr>]"
    and "ri_id ev \<notin> set (map (\<lambda>i. ri_id (in_event i)) xs)"
  shows "\<exists>h. listing h = (core g, ov_invites (gc_overlay g), None)
    \<and> listing (render sv config now False g) = listing (accept_invite_at sv now (length xs) h)
    \<and> ov_new_invites (gc_overlay (render sv config now False g)) = []"
proof -
  define h0 where "h0 = press_f5 sv now False (show_status now g)"
  define h where "h = h0\<lparr>gc_overlay := (gc_overlay h0)\<lparr>ov_follow := None\<rparr>\<rparr>"
  have h0: "ov_invites (gc_overlay h0) = ov_invites (gc_overlay g)" "core h0 = core g" "ov_new_invites (gc_overlay h0) = []"
      "ov_follow (gc_overlay h0) = Some (d, ri_id ev)"
    using assms(1,2) by (simp_all add: h0_def) (simp_all add: press_f5_def)
  have "position (\<lambda>i. ri_id (in_event i) = ri_id ev) (xs @ [\<lparr>in_event = ev, in_accepted = a\<rparr>]) = Some (length xs)"
    using assms(5) by (induction xs) auto
  then have "run_follow sv now h0 = accept_invite_at sv now (length xs) h"
    using h0 assms(3,4) by (simp add: run_follow_def h_def)
  then have "render sv config now False g = show_notifications now (accept_invite_at sv now (length xs) h)"
    using h0(3) by (simp add: render_def h0_def [symmetric] receive_new_def h_def)
  then show ?thesis using h0 by (intro exI [of _ h]) (simp add: listing_def h_def)
qed

lemma listed_frame:
  assumes "ov_new_invites (gc_overlay g) = [Inr (Some ev)]" and "ov_follow (gc_overlay g) = None"
    and "ri_id ev \<notin> set (listed_ids g)"
  shows "\<exists>h. listing h = (core g, ov_invites (gc_overlay g) @ [\<lparr>in_event = ev, in_accepted = False\<rparr>], None)
    \<and> ov_new_invites (gc_overlay h) = []
    \<and> ov_debounce (gc_overlay h) = False
    \<and> render sv config now False g = show_notifications now
      (if ri_force_join ev \<or> (case config of None \<Rightarrow> False | Some c \<Rightarrow> cc_auto_join_invite c) then
         if ri_kind ev = 3
         then h\<lparr>gc_overlay := (gc_overlay h)\<lparr>ov_follow := Some (now + PARTY_FOLLOW_ACCEPT_DELAY, ri_id ev)\<rparr>\<rparr>
         else accept_invite_at sv now (length (ov_invites (gc_overlay g))) h
       else h)"
proof -
  define h0 where "h0 = press_f5 sv now False (show_status now g)"
  have h0: "ov_invites (gc_overlay h0) = ov_invites (gc_overlay g)" "core h0 = core g"
      "ov_new_invites (gc_overlay h0) = [Inr (Some ev)]" "ov_follow (gc_overlay h0) = None" "\<not> ov_debounce (gc_overlay h0)"
    using assms(1,2) by (simp_all add: h0_def) (simp_all add: press_f5_def)
  define h1 where "h1 = h0\<lparr>gc_overlay := (gc_overlay h0)\<lparr>ov_new_invites := [], ov_connection_error := None\<rparr>\<rparr>"
  define h where "h = snd (list_invite now ev h1)"
  have "position (\<lambda>i. ri_id (in_event i) = ri_id ev) (ov_invites (gc_overlay h1)) = None"
    using assms(3) h0(1) by (auto simp: position_None listed_ids_def h1_def image_iff)
  then have l: "fst (list_invite now ev h1) = length (ov_invites (gc_overlay g))"
      "ov_invites (gc_overlay h) = ov_invites (gc_overlay g) @ [\<lparr>in_event = ev, in_accepted = False\<rparr>]"
    using h0(1) by (simp_all add: h_def list_invite_def Let_def h1_def)
  have "run_follow sv now h0 = h0" using h0(4) by (simp add: run_follow_def)
  then have "render sv config now False g = show_notifications now (take_up_invite sv config now ev h1)"
    using h0(3) by (simp add: render_def h0_def [symmetric] receive_new_def h1_def)
  moreover have "listing h = (core g, ov_invites (gc_overlay g) @ [\<lparr>in_event = ev, in_accepted = False\<rparr>], None)"
    using l(2) h0 by (simp add: listing_def) (simp add: h_def h1_def)
  moreover have "ov_new_invites (gc_overlay h) = []" "ov_debounce (gc_overlay h) = False"
    using h0 by (simp_all add: h_def h1_def)
  ultimately show ?thesis
    using l(1) by (intro exI [of _ h]) (simp add: take_up_invite_def split_beta h_def [symmetric])
qed

section \<open>Properties\<close>

text \<open>Whatever frames are drawn, keys pressed and answers received, the
  overlay never lists two invitations with the same id, so that a delivery repeated by the server
  replaces the entry it repeats.\<close>

lemma overlay_lists_once:
  assumes "client_run sv config cs (n, g) = Some (m, h)" and "ov_invites (gc_overlay g) = []"
  shows "distinct (listed_ids h)"
  by (rule client_run_distinct [OF assms(1)]) (simp add: listed_ids_def assms(2))

text \<open>C13 (f5_accepts_once). However long the key is held and whatever invitations arrive meanwhile,
  as long as none of them is forced and joining by itself is not configured, the frames have the
  effect of the first one on the server, the events for the game and the party: the latest
  pending invitation is accepted.\<close>

theorem f5_accepts_once:
  assumes "\<not> joins_by_itself config (ov_new_invites (gc_overlay g))" and "ov_follow (gc_overlay g) = None"
    and "\<not> ov_debounce (gc_overlay g)" and "latest_pending_invite_index (ov_invites (gc_overlay g)) = Some i"
  shows "core (fold (\<lambda>now. render sv config now True) (now # nows) g) = core (accept_invite_at sv now i g)"
proof -
  define r where "r = render sv config now True g"
  note r = pressed_frame [OF assms, of sv now, folded r_def]
  then have "core (fold (\<lambda>now. render sv config now True) nows r) = core (accept_invite_at sv now i g)"
    using held_frames [of config r sv nows] joins_tl [OF assms(1)] by simp
  then show ?thesis by (simp add: r_def)
qed

text \<open>Once a poll has failed, the error stays on the screen although every
  later poll succeeds, as long as no invitation is waiting: an empty answer is not passed on to
  the overlay, and only something passed on clears the error.\<close>

lemma error_line_sticks:
  assumes "\<forall>meta w. fst (sv_event sv meta w) = Inr None"
    and "ov_connection_error (gc_overlay g) = Some e" and "ov_new_invites (gc_overlay g) = []"
  shows "\<exists>h. client_run sv config cs (n, g) = Some (n, h) \<and> ov_connection_error (gc_overlay h) = Some e"
  using assms(2,3)
proof (induction cs arbitrary: g)
  case (Cons c cs)
  show ?case
  proof (cases c)
    case (Frame now f5)
    have "ov_connection_error (gc_overlay (render sv config now f5 g)) = Some e \<and> ov_new_invites (gc_overlay (render sv config now f5 g)) = []"
      using Cons.prems by (simp add: render_def receive_new_def)
    with Cons.IH Frame show ?thesis by simp
  next
    case Round
    obtain w where "sv_event sv (call_metadata (gc_client g)) (gc_world g) = (Inr None, w)"
      using assms(1) by (metis prod.collapse)
    then have "update_round sv True (n, g) = Some (n, g\<lparr>gc_world := w\<rparr>)"
      by (simp add: update_round_def poll_event_def)
    with Cons.IH [of "g\<lparr>gc_world := w\<rparr>"] Cons.prems Round show ?thesis by simp
  qed
qed simp


text \<open>Samples: a server that lets every invitation be accepted and keeps the ids it is asked for.\<close>

definition sample_server :: "int list api_remote" where
  "sample_server = \<lparr>sv_login = (\<lambda>_ _ _ w. (Inr \<lparr>lp_error = '''', lp_token = ''t''\<rparr>, w)), sv_invite = (\<lambda>_ _ w. (Inr (), w)),
     sv_list = (\<lambda>_ w. (Inr [], w)), sv_event = (\<lambda>_ w. (Inr None, w)), sv_accept = (\<lambda>i _ w. (Inr True, w @ [i])),
     sv_publish = (\<lambda>_ _ w. (Inr (), w)), sv_clear = (\<lambda>_ w. (Inr (), w))\<rparr>"

definition sample_event :: "int \<Rightarrow> int \<Rightarrow> bool \<Rightarrow> received_invite" where
  "sample_event i kind force = \<lparr>ri_id = i, ri_sender = Some (''sam'', ''Sam''), ri_force_join = force, ri_kind = kind,
     ri_game_session = Some \<lparr>up_id = 77, up_data = empty_friend_blob, up_flags = 0, up_invite_only = True\<rparr>\<rparr>"

definition sample_game :: "int list game_client" where
  "sample_game = \<lparr>gc_overlay = overlay_new 0, gc_loader = \<lparr>ld_party = initial_party, ld_channel = Some [], ld_replay = None\<rparr>,
     gc_client = client_new, gc_world = []\<rparr>"

definition two_invited :: "int list game_client" where
  "two_invited = sample_game\<lparr>gc_overlay := (overlay_new 0)\<lparr>ov_invites := [\<lparr>in_event = sample_event 4 2 False, in_accepted = False\<rparr>,
     \<lparr>in_event = sample_event 5 2 False, in_accepted = False\<rparr>]\<rparr>\<rparr>"

lemmas sample_client_defs = sample_server_def sample_event_def sample_game_def two_invited_def overlay_new_def client_new_def

lemma sample_accept: "accept_invite_call sample_server i client_new w = (Inr (True, i), client_new, w @ [i])"
  by (simp add: accept_invite_call_def sample_server_def client_new_def server_id_for_local_def invite_ids_new_def retire_local_def)

theorem f5_accepts_once_witness:
  "gc_world (fold (\<lambda>now. render sample_server None now True) [10, 20, 30] two_invited) = [5]"
proof -
  have "core (fold (\<lambda>now. render sample_server None now True) (10 # [20, 30]) two_invited)
      = core (accept_invite_at sample_server 10 1 two_invited)"
    by (rule f5_accepts_once)
      (simp_all add: sample_client_defs joins_by_itself_def latest_pending_invite_index_def)
  moreover have "gc_world (accept_invite_at sample_server 10 1 two_invited) = [5]"
    using sample_accept [of 5 "[]"]
    by (simp add: accept_invite_at_def two_invited_def sample_game_def sample_event_def submit_event_def overlay_new_def
        accepted_event_for_kind_def accepted_event_for_kind_with_mode_def u32_try_from_def Let_def)
  ultimately show ?thesis by (simp add: core_def)
qed

lemma overlay_lists_once_witness:
  "\<exists>h. client_run sample_server None [Frame 10 False, Frame 20 False]
      (0, sample_game\<lparr>gc_overlay := (overlay_new 0)\<lparr>ov_new_invites := [Inr (Some (sample_event 4 2 False)), Inr (Some (sample_event 4 2 False))]\<rparr>\<rparr>)
    = Some (0, h) \<and> distinct (listed_ids h)"
proof -
  let ?g = "sample_game\<lparr>gc_overlay := (overlay_new 0)\<lparr>ov_new_invites := [Inr (Some (sample_event 4 2 False)), Inr (Some (sample_event 4 2 False))]\<rparr>\<rparr>"
  obtain h where h: "client_run sample_server None [Frame 10 False, Frame 20 False] (0, ?g) = Some (0, h)" by simp
  with overlay_lists_once [OF h] show ?thesis by (simp add: overlay_new_def)
qed

lemma error_line_sticks_witness:
  "\<exists>h. client_run sample_server None [Frame 10 False, Round, Frame 20 False, Round, Frame 30 True]
      (3, sample_game\<lparr>gc_overlay := (overlay_new 0)\<lparr>ov_connection_error := Some TransportError\<rparr>\<rparr>) = Some (3, h)
    \<and> ov_connection_error (gc_overlay h) = Some TransportError"
  by (rule error_line_sticks) (simp_all add: sample_server_def overlay_new_def)


end
