(* ===== verification/Api_Behaviour.thy ===== *)
theory Api_Behaviour
  imports Api_Services
begin

text \<open>
  What the API promises: every call keeps the invariant of the storage, the services behind a
  token refuse strangers, and an invitation sent by one player reaches the other, across the
  API and the session protocol of the game.
\<close>

section \<open>The invariant\<close>

definition api_keeps :: "(api_state \<Rightarrow> bool) \<Rightarrow> 'p api \<Rightarrow> bool" where
  "api_keeps I m \<longleftrightarrow> (\<forall>s. I s \<longrightarrow> I (snd (m s)))"

definition api_ok :: "api_state \<Rightarrow> bool" where
  "api_ok s \<longleftrightarrow> storage_inv (as_db s)"

named_theorems api_intros \<open>preservation of an invariant by a call\<close>

lemma api_keeps_plain [api_intros]:
  "api_keeps I (api_return x)" "api_keeps I (api_fail e)" "api_keeps I (api_of r)"
  "api_keeps I (\<lambda>s. (f s, s))" "api_keeps I (\<lambda>s. api_of_db (g s) s)" "api_keeps I (\<lambda>s. api_return (h s) s)"
  by (simp_all add: api_keeps_def api_of_db_def)

lemma api_keeps_bind [api_intros]:
  "api_keeps I m \<Longrightarrow> (\<And>x. api_keeps I (f x)) \<Longrightarrow> api_keeps I (api_bind m f)"
  by (fastforce simp: api_keeps_def api_bind_def split: prod.split sum.split)

lemma api_keeps_store [api_intros]: "keeps storage_inv m \<Longrightarrow> api_keeps api_ok (api_store f m)"
  by (auto simp: api_keeps_def api_store_def api_ok_def split: sum.split dest: keepsD)

lemma api_keeps_games [api_intros]: "api_keeps api_ok (\<lambda>s. (x, s\<lparr>as_games := f s\<rparr>))"
  by (simp add: api_keeps_def api_ok_def)

lemma api_keeps_cases [api_intros]:
  "api_keeps I m \<Longrightarrow> api_keeps I m' \<Longrightarrow> api_keeps I (if b then m else m')"
  "api_keeps I m \<Longrightarrow> (\<And>x. api_keeps I (f x)) \<Longrightarrow> api_keeps I (case z of None \<Rightarrow> m | Some x \<Rightarrow> f x)"
  "(\<And>x y. api_keeps I (g x y)) \<Longrightarrow> api_keeps I (case p of (x, y) \<Rightarrow> g x y)"
  "(\<And>x. api_keeps I (f x)) \<Longrightarrow> (\<And>x. api_keeps I (h x)) \<Longrightarrow> api_keeps I (case r of Inl x \<Rightarrow> f x | Inr x \<Rightarrow> h x)"
  by (simp_all split: option.split prod.split sum.split)

lemma api_keeps_done [api_intros]: "api_keeps I m \<Longrightarrow> api_keeps I (call_done m)"
  unfolding call_done_def by (intro api_intros)

lemmas api_defs = friends_invite_def friends_list_def misc_event_def misc_accept_invite_def misc_set_game_session_def
  misc_clear_game_session_def misc_test_p2p_def admin_list_users_def admin_get_user_def admin_delete_user_def
  admin_list_games_def admin_delete_game_def

lemma token_calls_keep: "api_keeps api_ok (serve_token_call env now call meta)"
  by (cases call) (simp_all only: serve_token_call.simps api_defs Let_def,
    (intro api_intros keeps_read add_invite_keeps list_users_keeps take_invite_keeps accept_invite_keeps)+)

lemma admin_calls_keep: "api_keeps api_ok (serve_admin_call now call meta)"
  by (cases call) (simp_all only: serve_admin_call.simps api_defs Let_def,
    (intro api_intros keeps_read list_users_keeps delete_user_keeps delete_by_id_keeps)+)

lemma login_call_keeps: "api_keeps api_ok (users_login cr tc key verify now nonce name password)"
  unfolding users_login_def
  by (intro api_intros login_keeps) (simp add: api_keeps_plain split: login_error.split)

lemma register_call_keeps: "api_keeps api_ok (users_register hash name password ubi_id)"
  using keepsD [OF register_user_keeps]
  by (fastforce simp: api_keeps_def api_ok_def users_register_def split: sum.split db_error.split)

lemma authenticated_keeps:
  assumes "\<And>meta. api_keeps api_ok (service meta)"
  shows "api_keeps api_ok (authenticated cr tc key now service meta)"
proof -
  have "api_keeps api_ok (check_token cr tc key now meta)"
    unfolding check_token_def
    by (auto split: option.split meta_value.split intro!: api_intros keeps_read touch_keeps)
  then show ?thesis unfolding authenticated_def by (intro api_keeps_bind assms)
qed

lemma serve_api_keeps: "api_keeps api_ok (serve_api env now nonce call meta)"
proof (cases call)
  case (Behind_Token c)
  then show ?thesis by (simp add: authenticated_keeps token_calls_keep)
next
  case (Administrative c)
  then show ?thesis
    using admin_calls_keep [of now c meta]
    by (auto simp: preshared_authentication_def split: option.split meta_value.split intro: api_intros)
qed (simp_all add: api_intros login_call_keeps register_call_keeps)

section \<open>The services as providers of the contract\<close>

definition serve_token :: "api_env \<Rightarrow> nat \<times> metadata \<Rightarrow> token_call \<Rightarrow> unit api" where
  "serve_token env c call = authenticated (ae_crypto env) (ae_codec env) (ae_key env) (fst c)
     (serve_token_call env (fst c) call) (snd c)"

definition known_caller :: "api_env \<Rightarrow> nat \<times> metadata \<Rightarrow> api_state \<Rightarrow> bool" where
  "known_caller env c s \<longleftrightarrow> caller (ae_crypto env) (ae_codec env) (ae_key env) (as_db s) (snd c) \<noteq> None"

interpretation token_svc: request_service api_ok "known_caller env" "\<lambda>_ _. True" Unauthenticated "serve_token env"
proof
  show "serve_token env c q s = (Inl Unauthenticated, s)" if "\<not> known_caller env c s" for c q s
    using that by (simp add: serve_token_def known_caller_def authenticated_def api_bind_def check_token_exact)
  show "api_ok (snd (serve_token env c q s))" if "api_ok s" for c q s
    using authenticated_keeps [of "serve_token_call env (fst c) q", OF token_calls_keep] that
    unfolding api_keeps_def serve_token_def by blast
qed

text \<open>All calls of the router; whom it knows depends on the service.\<close>

definition serve_routed :: "api_env \<Rightarrow> (nat \<times> bytes) \<times> metadata \<Rightarrow> api_call \<Rightarrow> unit api" where
  "serve_routed env c call = serve_api env (fst (fst c)) (snd (fst c)) call (snd c)"

interpretation router_svc: request_service api_ok "\<lambda>_ _. True" "\<lambda>_ _. True" Unauthenticated "serve_routed env"
  using serve_api_keeps by unfold_locales (auto simp: api_keeps_def serve_routed_def)

section \<open>An invitation from player to player\<close>

lemma deliver_new:
  assumes d: "d = db\<lparr>invites := ks @ [n]\<rparr>" and n: "i_rowid n = row" "i_receiver n = uid" "i_consumed n = None"
      "i_accepted n = None" "i_delivered n = None" "i_kind n \<noteq> INVITE_KIND_PARTY_FOLLOW"
    and t: "t < i_expires n" and ok: "invite_target_ok d n" and ks: "\<forall>k\<in>set ks. i_receiver k \<noteq> uid"
    and row: "row \<notin> i_rowid ` set ks"
  shows "\<exists>js. take_invite t uid d = Inr (Some (n\<lparr>i_delivery_count := i_delivery_count n + 1\<rparr>),
      db\<lparr>invites := js @ [mark_delivered t n]\<rparr>) \<and> (\<forall>k\<in>set js. i_receiver k \<noteq> uid)"
proof -
  define js where "js = filter (\<lambda>i. \<not> (dead_invite t i \<or> \<not> invite_target_ok d i)) ks"
  have alive: "\<not> dead_invite t n" using n t by (simp add: dead_invite_def)
  have follow: "\<not> redundant_follow t uid d n" using n(6) by (simp add: redundant_follow_def)
  have "filter (deliverable t uid d) ks = []"
    using ks by (auto simp: filter_empty_conv deliverable_def due_invite_def)
  moreover have "deliverable t uid d n"
    using n t ok follow by (simp add: deliverable_def due_invite_def)
  ultimately have due: "filter (deliverable t uid d) (invites d) = [n]" by (simp add: d)
  have "map (\<lambda>i. if redundant_follow t uid d i then consume t i else i) js = js"
    using ks by (auto simp: js_def redundant_follow_def intro!: map_idI)
  then have sweep: "after_sweep t uid d = db\<lparr>invites := js @ [n]\<rparr>"
    using alive ok follow
    by (simp add: after_sweep_def update_invites_def cleanup_invalid_invites_def delete_invites_def js_def d)
  have "map (\<lambda>j. if i_rowid j = row then mark_delivered t j else j) js = js"
    using row by (auto simp: js_def intro!: map_idI)
  then have "take_invite t uid d = Inr (Some (n\<lparr>i_delivery_count := i_delivery_count n + 1\<rparr>),
      db\<lparr>invites := js @ [mark_delivered t n]\<rparr>)"
    using n(1) by (simp add: take_closed due sweep update_invites_def)
  moreover have "\<forall>k\<in>set js. i_receiver k \<noteq> uid" using ks by (simp add: js_def)
  ultimately show ?thesis by blast
qed

text \<open>What the interceptor does between the calls touches the columns of users only.\<close>

definition user_frame :: "(db \<Rightarrow> db) \<Rightarrow> bool" where
  "user_frame f \<longleftrightarrow> (\<forall>db. \<exists>us. f db = db\<lparr>users := us\<rparr> \<and> map u_id us = map u_id (users db))
    \<and> (\<forall>db. storage_inv db \<longrightarrow> storage_inv (f db))
    \<and> (\<forall>db uid. find_user_by_id uid (f db) = find_user_by_id uid db)
    \<and> (\<forall>db i. find_user_id_by_ubi_id i (f db) = find_user_id_by_ubi_id i db)"

lemma user_frameE:
  assumes "user_frame f"
  obtains us where "f db = db\<lparr>users := us\<rparr>" "map u_id us = map u_id (users db)"
  using assms unfolding user_frame_def by blast

lemma find_map_key:
  "(\<And>x. P (h x) = P x) \<Longrightarrow> find P (map h xs) = map_option h (find P xs)"
  by (induction xs) auto

lemma user_frameI:
  assumes "\<And>db. f db = db\<lparr>users := h db\<rparr>" and "\<And>db. map u_id (h db) = map u_id (users db)"
    and "\<And>db. storage_inv db \<Longrightarrow> storage_inv (f db)"
    and "\<And>db uid. find_user_by_id uid (f db) = find_user_by_id uid db"
    and "\<And>db i. find_user_id_by_ubi_id i (f db) = find_user_id_by_ubi_id i db"
  shows "user_frame f"
  using assms unfolding user_frame_def by blast

lemma user_frame_id: "user_frame (\<lambda>db. db)"
  by (rule user_frameI [of _ users]) simp_all

lemma user_frame_touched: "user_frame (touched now uid)"
proof (rule user_frameI)
  show "touched now uid db = db\<lparr>users := users (touched now uid db)\<rparr>" for db
    by (simp add: touched_def update_users_def)
  show "map u_id (users (touched now uid db)) = map u_id (users db)" for db
    by (simp add: touched_def update_users_def)
  show "storage_inv (touched now uid db)" if "storage_inv db" for db
    using keepsD [OF touch_keeps that, of now uid] by (simp add: touch_api_presence_def touched_def)
  show "find_user_by_id v (touched now uid db) = find_user_by_id v db" for v db
    by (simp add: find_user_by_id_def fetch_user_def touched_def update_users_def find_map_key user_of_def split: option.split)
  show "find_user_id_by_ubi_id i (touched now uid db) = find_user_id_by_ubi_id i db" for i db
    by (simp add: find_user_id_by_ubi_id_def touched_def update_users_def find_map_key option.map_comp comp_def if_distrib [of u_id] cong: if_cong)
qed

lemma life_with_delivery:
  assumes inv: "storage_inv db" and host: "invitable sender ty sid db" and rcv: "receiver \<in> set (user_ids db)"
    and fresh: "\<forall>i\<in>set (invites db). i_receiver i = receiver \<longrightarrow> i_consumed i \<noteq> None"
    and t: "t1 < now + 300" "t2 < now + 300" "t3 < now + 300" and fs: "user_frame f" "user_frame g"
  shows "\<exists>row d n d1 i d2 s d3. add_invite now sender receiver INVITE_KIND_PRIVATE_ROOM ty sid db = Inr (Some row, d)
    \<and> users d = users db
    \<and> take_invite t1 receiver (f d) = Inr (Some n, d1) \<and> users d1 = users (f d)
    \<and> i_rowid n = row \<and> i_sender n = sender \<and> i_kind n = INVITE_KIND_PRIVATE_ROOM \<and> i_session n = sid
    \<and> accept_invite t2 receiver row (g d1) = Inr (Some i, d2) \<and> i_kind i = INVITE_KIND_PRIVATE_ROOM
    \<and> find_accepted_manual_invited_session t3 receiver ty d2 = Some s \<and> gs_id (ig_session s) = sid
    \<and> join_game_session_unbounded t3 receiver ty sid d2 = Inr (True, d3) \<and> is_participant sid receiver d3"
proof -
  define inv where "inv row = new_invite row sender receiver INVITE_KIND_PRIVATE_ROOM ty sid None now 300" for row
  obtain row d ks where add: "add_invite now sender receiver INVITE_KIND_PRIVATE_ROOM ty sid db = Inr (Some row, d)"
    and d: "d = db\<lparr>invites := ks @ [inv row]\<rparr>" and row: "row \<notin> i_rowid ` set ks"
    and ks: "\<forall>k\<in>set ks. i_receiver k \<noteq> receiver" and ok: "invite_target_ok d (inv row)"
    using life_steps [OF assms(1-4) t(1)] unfolding inv_def by blast
  have n: "i_rowid (inv row) = row" "i_receiver (inv row) = receiver" "i_consumed (inv row) = None"
    "i_accepted (inv row) = None" "i_delivered (inv row) = None" "i_kind (inv row) \<noteq> INVITE_KIND_PARTY_FOLLOW"
    "i_expires (inv row) = now + 300" "i_sender (inv row) = sender" "i_type (inv row) = ty" "i_session (inv row) = sid"
    "i_kind (inv row) = INVITE_KIND_PRIVATE_ROOM"
    by (simp_all add: inv_def new_invite_def invite_kinds)
  define e where "e = mark_delivered t1 (inv row)"
  have t1: "t1 < i_expires (inv row)" using t n by simp
  obtain us where fd: "f d = d\<lparr>users := us\<rparr>" "map u_id us = map u_id (users d)" using fs(1) by (rule user_frameE)
  then have fd': "f d = (db\<lparr>users := us\<rparr>)\<lparr>invites := ks @ [inv row]\<rparr>" by (simp add: d)
  have ok': "invite_target_ok (f d) (inv row)" using ok target_ok_frame [of "f d" d] by (simp add: fd)
  obtain js where take: "take_invite t1 receiver (f d) = Inr (Some ((inv row)\<lparr>i_delivery_count := i_delivery_count (inv row) + 1\<rparr>),
      db\<lparr>users := us, invites := js @ [e]\<rparr>)" and js: "\<forall>k\<in>set js. i_receiver k \<noteq> receiver"
    using deliver_new [OF fd' n(1-6) t1 ok' ks row] unfolding e_def by blast
  define d1 where "d1 = db\<lparr>users := us, invites := js @ [e]\<rparr>"
  obtain vs where gd: "g d1 = d1\<lparr>users := vs\<rparr>" "map u_id vs = map u_id (users d1)" using fs(2) by (rule user_frameE)
  then have gd': "g d1 = (db\<lparr>users := vs\<rparr>)\<lparr>invites := js @ [e]\<rparr>" by (simp add: d1_def)
  have e: "i_rowid e = row" "i_receiver e = receiver" "i_consumed e = None" "t2 < i_expires e" "t3 < i_expires e"
      "i_sender e = sender" "i_type e = ty" "i_session e = sid" "i_kind e = INVITE_KIND_PRIVATE_ROOM"
    using t n by (simp_all add: e_def mark_delivered_def)
  have ok_e: "invite_target_ok (g d1) e"
    using ok target_ok_frame [of "g d1" d] by (simp add: invite_target_ok_def e_def mark_delivered_def d gd')
  from accept_new [OF gd' e(1-4) this js] obtain d2 ls where
    acc: "accept_invite t2 receiver row (g d1) = Inr (Some (mark_accepted t2 e), d2)"
    and d2: "d2 = db\<lparr>users := vs, invites := ls @ [mark_accepted t2 e]\<rparr>" and ls: "\<forall>k\<in>set ls. i_receiver k \<noteq> receiver" by auto
  define m where "m = mark_accepted t2 e"
  have m: "i_rowid m = row" "i_receiver m = receiver" "i_consumed m = None" "t3 < i_expires m" "i_sender m = sender"
    "i_type m = ty" "i_session m = sid" "i_kind m = INVITE_KIND_PRIVATE_ROOM" "i_accepted m \<noteq> None"
    using e accepted_mark [of t2 e] by (simp_all add: m_def mark_accepted_def)
  obtain a where a: "find_active ty sid db = Some a"
    using host find_active_None [of ty sid db] unfolding invitable_def by fastforce
  have g2: "find_active ty sid d2 = Some a" using a by (simp add: d2 find_active_def)
  have "invite_target_ok d2 m"
    using ok_e target_ok_frame [of d2 "g d1"] by (simp add: m_def target_mark gd' d2)
  then have acc_m: "accepted_invite t3 receiver ty True d2 m" using m by (simp add: accepted_invite_def)
  obtain s where s: "find_accepted_manual_invited_session t3 receiver ty d2 = Some s" "gs_id (ig_session s) = sid"
    using accepted_session [OF d2 [folded m_def] ls acc_m, unfolded m(6,7), OF g2] by (auto simp: m)
  have keep: "storage_inv (h x)" if "storage_inv x" "user_frame h" for h x
    using that by (simp add: user_frame_def)
  have "storage_inv d" by (rule keepsD [OF add_invite_keeps assms(1) add])
  then have "storage_inv d1" using keepsD [OF take_invite_keeps keep [OF _ fs(1)] take] unfolding d1_def by blast
  then have inv2: "storage_inv d2" using keepsD [OF accept_invite_keeps keep [OF _ fs(2)] acc] by blast
  have "accepted_lobby_invite t3 receiver ty sid d2 = None"
    using ls m by (auto simp: accepted_lobby_invite_def d2 m_def [symmetric] live_accepted_def invite_kinds filter_empty_conv)
  moreover have "map u_id vs = map u_id (users db)" using gd fd by (simp add: d1_def d)
  ultimately obtain d3 where join: "join_game_session_unbounded t3 receiver ty sid d2 = Inr (True, d3)"
    using join_returns [OF inv2 _ g2, of receiver t3] rcv by (auto simp: d2 user_ids_def)
  have "is_participant sid receiver d3" using join_result [OF join] by simp
  with add take [folded d1_def] acc [folded m_def] s join m(8)
  have "add_invite now sender receiver INVITE_KIND_PRIVATE_ROOM ty sid db = Inr (Some row, d) \<and> users d = users db
    \<and> take_invite t1 receiver (f d) = Inr (Some ((inv row)\<lparr>i_delivery_count := i_delivery_count (inv row) + 1\<rparr>), d1)
    \<and> users d1 = users (f d) \<and> accept_invite t2 receiver row (g d1) = Inr (Some m, d2) \<and> i_kind m = INVITE_KIND_PRIVATE_ROOM
    \<and> find_accepted_manual_invited_session t3 receiver ty d2 = Some s \<and> gs_id (ig_session s) = sid
    \<and> join_game_session_unbounded t3 receiver ty sid d2 = Inr (True, d3) \<and> is_participant sid receiver d3"
    using fd(1) by (simp add: d d1_def)
  then show ?thesis using n(1,8,10,11) by fastforce
qed

lemma find_map_Some: "find_map f xs = Some y \<Longrightarrow> \<exists>x\<in>set xs. f x = Some y"
  by (induction xs) (auto split: option.splits)

lemma host_session_invitable:
  assumes "find_map (\<lambda>s. map_option (Pair s) (session_invite_kind s)) (find_host_sessions uid db) = Some (room, kind)"
  shows "invitable uid (gs_type room) (gs_id room) db \<and> session_invite_kind room = Some kind"
proof -
  obtain r where "r \<in> set (find_host_sessions uid db)" "map_option (Pair r) (session_invite_kind r) = Some (room, kind)"
    using find_map_Some [OF assms] by auto
  then have room: "room \<in> set (find_host_sessions uid db)" "session_invite_kind room = Some kind" by auto
  then obtain g where g: "g \<in> set (game_sessions db)" "hosted_by uid db g" "room = session_of [] g"
    by (auto simp: find_host_sessions_def by_session_id_def)
  then show ?thesis
    using room(2) by (auto simp: invitable_def hosted_by_def active_session_def session_of_def)
qed

lemma ubi_id_user: "find_user_id_by_ubi_id i db = Some uid \<Longrightarrow> uid \<in> set (user_ids db)"
  by (auto simp: find_user_id_by_ubi_id_def user_ids_def find_Some_iff)

lemma find_user_frame: "users d = users db \<Longrightarrow> find_user_by_id uid d = find_user_by_id uid db"
  by (simp add: find_user_by_id_def fetch_user_def)

lemma event_of_private_invite:
  assumes "authenticated_user_id meta = Inr uid" and "take_invite now uid (as_db s) = Inr (Some i, d)"
    and "i_kind i = INVITE_KIND_PRIVATE_ROOM" and "find_user_by_id (i_sender i) d = Inr (Some su)"
  shows "misc_event now force meta s = (Inr (Some \<lparr>ev_id = i_rowid i,
      ev_sender = \<lparr>au_id = us_ubi_id su, au_username = us_name su, au_ips = {}\<rparr>, ev_force_join = force,
      ev_kind = INVITE_KIND_PRIVATE_ROOM,
      ev_game_session = map_option (\<lambda>u. u\<lparr>up_id := of_nat (i_session i)\<rparr>) (as_games s (i_sender i))\<rparr>), s\<lparr>as_db := d\<rparr>)"
  using assms
  by (simp add: misc_event_def api_bind_def api_store_def api_of_db_def invite_requires_uplay_game_session_def
      project_invite_uplay_game_session_def invite_forces_join_def Let_def) (simp add: invite_kinds)

lemma private_delivery:
  assumes "storage_inv (as_db s)"
    and "authenticated_user_id ms = Inr sender" and "authenticated_user_id mr = Inr receiver" and "sender \<noteq> receiver"
    and "find_user_id_by_ubi_id rid (as_db s) = Some receiver" and "find_user_by_id sender (as_db s) = Inr (Some su)"
    and "find_map (\<lambda>s. map_option (Pair s) (session_invite_kind s)) (find_host_sessions sender (as_db s))
       = Some (room, INVITE_KIND_PRIVATE_ROOM)"
    and "\<forall>i\<in>set (invites (as_db s)). i_receiver i = receiver \<longrightarrow> i_consumed i \<noteq> None"
    and "t1 < now + 300" and "t2 < now + 300" and "t3 < now + 300" and "user_frame f" and "user_frame g"
  shows "\<exists>s1 row s2 s3 h d. friends_invite now rid ms s = (Inr (), s1)
    \<and> misc_event t1 force mr (s1\<lparr>as_db := f (as_db s1)\<rparr>) = (Inr (Some \<lparr>ev_id = row,
        ev_sender = \<lparr>au_id = us_ubi_id su, au_username = us_name su, au_ips = {}\<rparr>, ev_force_join = force,
        ev_kind = INVITE_KIND_PRIVATE_ROOM,
        ev_game_session = map_option (\<lambda>u. u\<lparr>up_id := of_nat (gs_id room)\<rparr>) (as_games s sender)\<rparr>), s2)
    \<and> misc_accept_invite t2 (int row) mr (s2\<lparr>as_db := g (as_db s2)\<rparr>) = (Inr (True, INVITE_KIND_PRIVATE_ROOM), s3)
    \<and> find_accepted_manual_invited_session t3 receiver (gs_type room) (as_db s3) = Some h
    \<and> gs_id (ig_session h) = gs_id room
    \<and> join_game_session_unbounded t3 receiver (gs_type room) (gs_id room) (as_db s3) = Inr (True, d)
    \<and> is_participant (gs_id room) receiver d
    \<and> map u_id (users (as_db s1)) = map u_id (users (as_db s)) \<and> map u_id (users (as_db s2)) = map u_id (users (as_db s))
    \<and> add_invite now sender receiver INVITE_KIND_PRIVATE_ROOM (gs_type room) (gs_id room) (as_db s) = Inr (Some row, as_db s1)"
proof -
  note host = host_session_invitable [OF assms(7)]
  obtain row d n d1 i d2 h d3 where
    add: "add_invite now sender receiver INVITE_KIND_PRIVATE_ROOM (gs_type room) (gs_id room) (as_db s) = Inr (Some row, d)"
    and us: "users d = users (as_db s)" "users d1 = users (f d)"
    and take: "take_invite t1 receiver (f d) = Inr (Some n, d1)"
    and n: "i_rowid n = row" "i_sender n = sender" "i_kind n = INVITE_KIND_PRIVATE_ROOM" "i_session n = gs_id room"
    and acc: "accept_invite t2 receiver row (g d1) = Inr (Some i, d2)" "i_kind i = INVITE_KIND_PRIVATE_ROOM"
    and found: "find_accepted_manual_invited_session t3 receiver (gs_type room) d2 = Some h" "gs_id (ig_session h) = gs_id room"
    and join: "join_game_session_unbounded t3 receiver (gs_type room) (gs_id room) d2 = Inr (True, d3)"
      "is_participant (gs_id room) receiver d3"
    using life_with_delivery [OF assms(1) host [THEN conjunct1] ubi_id_user [OF assms(5)] assms(8-13)] by blast
  have "find_user_by_id sender d1 = find_user_by_id sender (f d)" using find_user_frame [OF us(2)] .
  moreover have "find_user_by_id sender (f d) = find_user_by_id sender d" using assms(12) by (simp add: user_frame_def)
  moreover have "map u_id (users (f d)) = map u_id (users d)" by (rule user_frameE [OF assms(12), of d]) simp
  ultimately have fd: "find_user_by_id sender d1 = Inr (Some su)" "map u_id (users (f d)) = map u_id (users d)"
    using assms(6) find_user_frame [OF us(1), of sender] by simp_all
  have "friends_invite now rid ms s = (Inr (), s\<lparr>as_db := d\<rparr>)"
    using assms(2,4,5,7) add by (simp add: friends_invite_def api_bind_def api_store_def)
  moreover have "misc_event t1 force mr (s\<lparr>as_db := f d\<rparr>) = (Inr (Some \<lparr>ev_id = row,
        ev_sender = \<lparr>au_id = us_ubi_id su, au_username = us_name su, au_ips = {}\<rparr>, ev_force_join = force,
        ev_kind = INVITE_KIND_PRIVATE_ROOM,
        ev_game_session = map_option (\<lambda>u. u\<lparr>up_id := of_nat (gs_id room)\<rparr>) (as_games s sender)\<rparr>), s\<lparr>as_db := d1\<rparr>)"
    using event_of_private_invite [OF assms(3) _ n(3), of t1 "s\<lparr>as_db := f d\<rparr>" d1 su force] take fd(1) n by simp
  moreover have "misc_accept_invite t2 (int row) mr (s\<lparr>as_db := g d1\<rparr>) = (Inr (True, INVITE_KIND_PRIVATE_ROOM), s\<lparr>as_db := d2\<rparr>)"
    using assms(3) acc by (simp add: misc_accept_invite_def api_bind_def api_store_def)
  ultimately show ?thesis
    using found join add us fd(2) by - (rule exI [of _ "s\<lparr>as_db := d\<rparr>"], rule exI [of _ row],
        rule exI [of _ "s\<lparr>as_db := d1\<rparr>"], rule exI [of _ "s\<lparr>as_db := d2\<rparr>"], rule exI [of _ h], rule exI [of _ d3], simp)
qed

section \<open>Outcomes\<close>

lemma invite_party_returns:
  assumes "inv_except {} db" and "sender \<in> set (user_ids db)"
  shows "\<exists>party d. invite_party sender kind db = Inr (party, d) \<and> same_but_parties db d"
proof (cases "kind = INVITE_KIND_LOBBY_PARTY")
  case True
  obtain pid d where run: "ensure_party_for_leader sender db = Inr (pid, d)"
    using ensure_party_returns [OF assms] by blast
  from ensure_party_result [OF assms(1) run] run True show ?thesis
    by (simp add: invite_party_def tbind_def)
qed (simp add: invite_party_def)

lemma add_invite_returns:
  assumes inv: "storage_inv db" and host: "invitable sender ty sid db"
    and rcv: "receiver \<in> set (user_ids db)" and kind: "kind \<in> {INVITE_KIND_PRIVATE_ROOM, INVITE_KIND_LOBBY_PARTY}"
  shows "\<exists>row d. add_invite now sender receiver kind ty sid db = Inr (Some row, d)"
proof -
  have inv0: "inv_except {} db" using inv by (simp add: storage_inv_def)
  have snd: "sender \<in> set (user_ids db)"
    using host creator_is_user [OF inv0] by (auto simp: invitable_def)
  obtain party a where a: "invite_party sender kind db = Inr (party, a)" and same: "same_but_parties db a"
    using invite_party_returns [OF inv0 snd] by blast
  define b where "b = delete_invites (open_manual receiver) (delete_invites (dead_invite now) a)"
  have "invitable sender ty sid b"
    using host same unfolding invitable_def is_participant_def has_station_url_def b_def delete_invites_simps same_but_parties_def
    by simp
  moreover have "sender \<in> set (user_ids b)" "receiver \<in> set (user_ids b)"
    using snd rcv same by (simp_all add: b_def user_ids_def same_but_parties_def)
  ultimately show ?thesis
    using a kind by (simp add: add_invite_def tbind_def b_def [symmetric] insert_invite_def Let_def del: insert_iff)
qed

lemma invite_kind_manual:
  "session_invite_kind s = Some kind \<Longrightarrow> kind \<in> {INVITE_KIND_PRIVATE_ROOM, INVITE_KIND_LOBBY_PARTY}"
  by (auto simp: session_invite_kind_def property_invite_kind_def bind_eq_Some_conv dest!: find_map_Some split: if_splits)

lemma listed_complete:
  assumes "storage_inv db"
  shows "map ga_id (List.map_filter listed_game (list_game_sessions db))
    = map g_id (filter (\<lambda>g. g_destroyed g = None) (game_sessions db))"
proof -
  have inv: "inv_except {} db" using assms by (simp add: storage_inv_def)
  define part where "part g = List.map_filter (named_participant (\<lambda>u. list_urls u db) db) (table_participants (g_id g) db)" for g :: session_row
  define gs where "gs = filter (\<lambda>g. g_destroyed g = None) (game_sessions db)"
  have ok: "\<exists>x. listed_game (session_of (part g) g) = Some x \<and> ga_id x = g_id g" if "g \<in> set gs" for g
  proof -
    have host: "is_participant (g_id g) (g_creator g) db"
      using inv that by (simp add: inv_except_def hosts_except_def gs_def)
    obtain u where u: "user_named (g_creator g) db = Some u"
      using user_named_Some participant_is_user [OF inv host] by blast
    have "g_creator g \<in> set (table_participants (g_id g) db)"
      using host by (force simp: table_participants_def is_participant_def)
    then have "\<exists>p\<in>set (part g). pa_user_id p = g_creator g"
      using u unfolding part_def set_named_participants by (force simp: named_participant_def)
    then have "find (\<lambda>p. pa_user_id p = g_creator g) (part g) \<noteq> None" by (auto simp: find_None_iff)
    then show ?thesis by (auto simp: listed_game_def session_of_def Let_def)
  qed
  have "map ga_id (List.map_filter listed_game (map (\<lambda>g. session_of (part g) g) hs)) = map g_id hs"
    if "set hs \<subseteq> set gs" for hs
    using that
  proof (induction hs)
    case (Cons g hs)
    obtain x where "listed_game (session_of (part g) g) = Some x" "ga_id x = g_id g" using ok [of g] Cons.prems by auto
    with Cons show ?case by (simp add: List.map_filter_simps)
  qed (simp add: List.map_filter_simps)
  then show ?thesis by (simp add: list_game_sessions_def part_def [symmetric] gs_def [symmetric])
qed

section \<open>Properties\<close>

text \<open>If the newest recognised session a player hosts is a
  private room, inviting another player without open invitations succeeds; within five minutes
  the other player's poll delivers the event, naming the sender and the room's session id in
  place of the published one, accepting it succeeds, and the game's search finds the room and
  its join admits the player.\<close>

lemma private_invitation_delivered:
  assumes "storage_inv (as_db s)"
    and "authenticated_user_id ms = Inr sender" and "authenticated_user_id mr = Inr receiver" and "sender \<noteq> receiver"
    and "find_user_id_by_ubi_id rid (as_db s) = Some receiver" and "find_user_by_id sender (as_db s) = Inr (Some su)"
    and "find_map (\<lambda>s. map_option (Pair s) (session_invite_kind s)) (find_host_sessions sender (as_db s))
       = Some (room, INVITE_KIND_PRIVATE_ROOM)"
    and "\<forall>i\<in>set (invites (as_db s)). i_receiver i = receiver \<longrightarrow> i_consumed i \<noteq> None"
    and "t1 < now + 300" and "t2 < now + 300" and "t3 < now + 300"
  shows "\<exists>s1 row s2 s3 h d. friends_invite now rid ms s = (Inr (), s1)
    \<and> misc_event t1 force mr s1 = (Inr (Some \<lparr>ev_id = row,
        ev_sender = \<lparr>au_id = us_ubi_id su, au_username = us_name su, au_ips = {}\<rparr>, ev_force_join = force,
        ev_kind = INVITE_KIND_PRIVATE_ROOM,
        ev_game_session = map_option (\<lambda>u. u\<lparr>up_id := of_nat (gs_id room)\<rparr>) (as_games s sender)\<rparr>), s2)
    \<and> misc_accept_invite t2 (int row) mr s2 = (Inr (True, INVITE_KIND_PRIVATE_ROOM), s3)
    \<and> find_accepted_manual_invited_session t3 receiver (gs_type room) (as_db s3) = Some h
    \<and> gs_id (ig_session h) = gs_id room
    \<and> join_game_session_unbounded t3 receiver (gs_type room) (gs_id room) (as_db s3) = Inr (True, d)
    \<and> is_participant (gs_id room) receiver d"
  using private_delivery [OF assms user_frame_id user_frame_id, of force] by auto

text \<open>C10 (api_calls_keep_invariant). Any sequence of calls to the API, by anybody and at any times,
  keeps the invariant of the storage; a sequence of calls behind a token by callers the storage
  does not know changes nothing.\<close>

theorem api_calls_keep_invariant:
  assumes "storage_inv (as_db s)"
  shows "storage_inv (as_db (serve_all (serve_routed env) cqs s))
    \<and> ((\<forall>cq\<in>set tqs. \<not> known_caller env (fst cq) s) \<longrightarrow> serve_all (serve_token env) tqs s = s)"
proof -
  have "permitted_run (serve_routed env) (\<lambda>_ _. True) cqs u" for u
    by (induction cqs arbitrary: u) auto
  then show ?thesis
    using router_svc.run_preserves [of s env cqs] token_svc.run_of_strangers [of tqs env s] assms
    by (simp add: api_ok_def)
qed



text \<open>Samples: the storage with the private room of user 1000.\<close>

definition sample_api :: api_state where
  "sample_api = \<lparr>as_db = listed_db, as_games = [1000 \<mapsto> \<lparr>up_id = 465, up_data = [1, 2], up_flags = 7, up_invite_only = True\<rparr>]\<rparr>"

definition as_user :: "string \<Rightarrow> metadata" where
  "as_user uid = [''user_id'' \<mapsto> MetaText uid]"

lemma as_user_id: "uid < 2 ^ 32 \<Longrightarrow> authenticated_user_id (as_user (show_nat uid)) = Inr uid"
  by (simp add: as_user_def authenticated_user_id_def)

lemma sample_kinds:
  "session_invite_kind (session_of [] (sample_session 2 (show_properties sample_room))) = Some INVITE_KIND_PRIVATE_ROOM"
  using parse_show_properties [of sample_room]
  by (simp add: session_invite_kind_def session_of_def sample_session_def sample_room_def property_invite_kind_def)

lemma sample_hosts: "find_host_sessions 1000 listed_db =
   [session_of [] (sample_session 2 (show_properties sample_room)), session_of [] (sample_session 1 ''113 => 1'')]"
  by (simp add: find_host_sessions_def by_session_id_def listed_db_def room_db_def sample_session_def hosted_by_def
      is_participant_def has_station_url_def)

lemma sample_accounts: "find_user_id_by_ubi_id ''kestrel'' listed_db = Some 1002"
  "find_user_by_id 1000 listed_db = Inr (Some \<lparr>us_id = 1000, us_name = ''sam'', us_ubi_id = ''sam'', us_is_online = False\<rparr>)"
  "invites listed_db = []"
  by (simp_all add: find_user_id_by_ubi_id_def find_user_by_id_def fetch_user_def user_of_def listed_db_def sample_defs)

lemma private_invitation_delivered_witness:
  "\<exists>s1 row s2 s3. friends_invite 10 ''kestrel'' (as_user (show_nat 1000)) sample_api = (Inr (), s1)
    \<and> misc_event 12 False (as_user (show_nat 1002)) s1 = (Inr (Some \<lparr>ev_id = row,
        ev_sender = \<lparr>au_id = ''sam'', au_username = ''sam'', au_ips = {}\<rparr>, ev_force_join = False, ev_kind = 1,
        ev_game_session = Some \<lparr>up_id = 2, up_data = [1, 2], up_flags = 7, up_invite_only = True\<rparr>\<rparr>), s2)
    \<and> misc_accept_invite 13 (int row) (as_user (show_nat 1002)) s2 = (Inr (True, 1), s3)"
proof -
  have "find_map (\<lambda>s. map_option (Pair s) (session_invite_kind s)) (find_host_sessions 1000 (as_db sample_api))
      = Some (session_of [] (sample_session 2 (show_properties sample_room)), INVITE_KIND_PRIVATE_ROOM)"
    by (simp add: sample_api_def sample_hosts sample_kinds)
  note room = this
  have inv: "storage_inv (as_db sample_api)" by (simp add: sample_api_def listed_inv)
  have ids: "authenticated_user_id (as_user (show_nat 1000)) = Inr 1000" "authenticated_user_id (as_user (show_nat 1002)) = Inr 1002"
    by (simp_all add: as_user_id)
  have acc: "find_user_id_by_ubi_id ''kestrel'' (as_db sample_api) = Some 1002"
    "find_user_by_id 1000 (as_db sample_api) = Inr (Some \<lparr>us_id = 1000, us_name = ''sam'', us_ubi_id = ''sam'', us_is_online = False\<rparr>)"
    "\<forall>i\<in>set (invites (as_db sample_api)). i_receiver i = 1002 \<longrightarrow> i_consumed i \<noteq> None"
    using sample_accounts by (simp_all add: sample_api_def)
  have game: "map_option (\<lambda>u. u\<lparr>up_id := of_nat (gs_id (session_of [] (sample_session 2 (show_properties sample_room))))\<rparr>)
      (as_games sample_api 1000) = Some \<lparr>up_id = 2, up_data = [1, 2], up_flags = 7, up_invite_only = True\<rparr>"
    by (simp add: sample_api_def session_of_def sample_session_def)
  obtain s1 row s2 s3 where "friends_invite 10 ''kestrel'' (as_user (show_nat 1000)) sample_api = (Inr (), s1)"
    "misc_event 12 False (as_user (show_nat 1002)) s1 = (Inr (Some \<lparr>ev_id = row,
        ev_sender = \<lparr>au_id = ''sam'', au_username = ''sam'', au_ips = {}\<rparr>, ev_force_join = False, ev_kind = INVITE_KIND_PRIVATE_ROOM,
        ev_game_session = Some \<lparr>up_id = 2, up_data = [1, 2], up_flags = 7, up_invite_only = True\<rparr>\<rparr>), s2)"
    "misc_accept_invite 13 (int row) (as_user (show_nat 1002)) s2 = (Inr (True, INVITE_KIND_PRIVATE_ROOM), s3)"
    using private_invitation_delivered [OF inv ids _ acc(1,2) room acc(3), of 12 10 13 14 False]
    unfolding game by auto
  then show ?thesis unfolding invite_kinds by blast
qed



definition sample_api_env :: api_env where
  "sample_api_env = \<lparr>ae_crypto = sample_crypto, ae_codec = sample_codec, ae_key = [], ae_admin_key = Some [1, 2],
     ae_verify = (\<lambda>_ _. None), ae_hash = (\<lambda>_. None), ae_mark_all_as_online = False, ae_force_joins = False,
     ae_exchange = (\<lambda>_ _. None)\<rparr>"

theorem api_calls_keep_invariant_witness:
  "storage_inv (as_db (serve_all (serve_routed sample_api_env) [(((5, []), Map.empty), UsersLogin ''sam'' ''pw''),
     (((6, []), Map.empty), Administrative (AdminDeleteGame 2))] sample_api))"
  using api_calls_keep_invariant [of sample_api] listed_inv by (simp add: sample_api_def)

end
