(* ===== verification/Client_Behaviour.thy ===== *)
theory Client_Behaviour
  imports Overlay_Behaviour Api_Behaviour
begin

text \<open>
  The client against the server of this repository: its calls are answered by the handlers of
  \<open>Api_Services\<close> behind the interceptor, and a private invitation is followed from the game
  of the host to the match controller of the player who accepts it.
\<close>

section \<open>The server behind the client\<close>

definition remote_service :: "api_env \<Rightarrow> nat \<Rightarrow> (metadata \<Rightarrow> 'p api) \<Rightarrow> ('p \<Rightarrow> 'r) \<Rightarrow> (api_state, 'r) remote" where
  "remote_service env now service f meta s =
    (let (r, s) = authenticated (ae_crypto env) (ae_codec env) (ae_key env) now service meta s
     in (map_sum GrpcStatus f r, s))"

text \<open>The messages on the wire: only the fields the client reads.\<close>

definition received :: "invite_event \<Rightarrow> received_invite" where
  "received ev = \<lparr>ri_id = int (ev_id ev), ri_sender = Some (au_id (ev_sender ev), au_username (ev_sender ev)),
     ri_force_join = ev_force_join ev, ri_kind = int (ev_kind ev), ri_game_session = ev_game_session ev\<rparr>"

definition api_server :: "api_env \<Rightarrow> nat \<Rightarrow> bytes \<Rightarrow> api_state api_remote" where
  "api_server env now nonce =
    \<lparr>sv_login = (\<lambda>name password meta s. let (r, s) = users_login (ae_crypto env) (ae_codec env) (ae_key env) (ae_verify env) now nonce name password s
       in (map_sum GrpcStatus (\<lambda>token. \<lparr>lp_error = '''', lp_token = token\<rparr>) r, s)),
     sv_invite = (\<lambda>receiver. remote_service env now (friends_invite now receiver) id),
     sv_list = remote_service env now (friends_list now (ae_mark_all_as_online env)) id,
     sv_event = remote_service env now (misc_event now (ae_force_joins env)) (map_option received),
     sv_accept = (\<lambda>i. remote_service env now (misc_accept_invite now i) fst),
     sv_publish = (\<lambda>session. remote_service env now (misc_set_game_session session) id),
     sv_clear = remote_service env now misc_clear_game_session id\<rparr>"

abbreviation known :: "api_env \<Rightarrow> api_state \<Rightarrow> client \<Rightarrow> nat option" where
  "known env s c \<equiv> caller (ae_crypto env) (ae_codec env) (ae_key env) (as_db s) (call_metadata c)"

definition as_caller :: "client \<Rightarrow> nat \<Rightarrow> metadata" where
  "as_caller c uid = (call_metadata c)(''user_id'' \<mapsto> MetaText (show_nat uid))"

lemma remote_call:
  assumes "known env s c = Some uid"
  shows "remote_service env now service f (call_metadata c) s =
    (let (r, s) = service (as_caller c uid) (s\<lparr>as_db := touched now uid (as_db s)\<rparr>) in (map_sum GrpcStatus f r, s))"
  using assms by (simp add: remote_service_def authenticated_def api_bind_def check_token_exact as_caller_def)

lemma as_caller_id: "known env s c = Some uid \<Longrightarrow> authenticated_user_id (as_caller c uid) = Inr uid"
  using token_user_bound by (auto simp: as_caller_def caller_def bind_eq_Some_conv intro!: identity_inserted split: if_splits)

lemma known_frame:
  "map u_id (users d) = map u_id (users (as_db s)) \<Longrightarrow> known env (s\<lparr>as_db := d\<rparr>) c = known env s c"
  by (simp add: caller_def user_ids_def)

lemma known_same: "map u_id (users (as_db s')) = map u_id (users (as_db s)) \<Longrightarrow> known env s' c = known env s c"
  by (simp add: caller_def user_ids_def)

lemma touched_hosted [simp]: "hosted_by v (touched now uid db) = hosted_by v db"
  by (rule ext) (simp add: hosted_by_def is_participant_def has_station_url_def touched_def update_users_def)

lemma touched_simps [simp]:
  "invites (touched now uid db) = invites db" "map u_id (users (touched now uid db)) = map u_id (users db)"
  "find_user_by_id v (touched now uid db) = find_user_by_id v db"
  "find_user_id_by_ubi_id i (touched now uid db) = find_user_id_by_ubi_id i db"
  "find_host_sessions v (touched now uid db) = find_host_sessions v db"
proof -
  show "invites (touched now uid db) = invites db" "map u_id (users (touched now uid db)) = map u_id (users db)"
    by (simp_all add: touched_def update_users_def)
  show "find_user_by_id v (touched now uid db) = find_user_by_id v db"
    "find_user_id_by_ubi_id i (touched now uid db) = find_user_id_by_ubi_id i db"
    using user_frame_touched [of now uid] by (simp_all add: user_frame_def)
  have "game_sessions (touched now uid db) = game_sessions db" by (simp add: touched_def update_users_def)
  then show "find_host_sessions v (touched now uid db) = find_host_sessions v db" by (simp add: find_host_sessions_def)
qed

lemma touched_caller [simp]: "caller cr tc key (touched now uid db) meta = caller cr tc key db meta"
  by (simp add: caller_def user_ids_def)

text \<open>The server answers an invitation that cannot be accepted with an error, never with false.\<close>

lemma server_never_false: "fst (sv_accept (api_server env now nonce) i meta s) \<noteq> Inr False"
  by (auto simp: api_server_def remote_service_def authenticated_def misc_accept_invite_def api_bind_def api_store_def split_beta
      api_return_def api_fail_def check_token_exact split: sum.splits option.splits prod.splits)

section \<open>The parts of the way\<close>

lemma published:
  assumes "known env s c = Some uid" and "validate_uplay_game_session (up_data session)"
  shows "publish_game_session (api_server env now nonce) session c s = (c\<lparr>cl_local_game_session := Some session\<rparr>,
    s\<lparr>as_db := touched now uid (as_db s), as_games := (as_games s)(uid \<mapsto> session)\<rparr>)"
proof -
  have k: "known env s (c\<lparr>cl_local_game_session := Some session\<rparr>) = Some uid"
    using assms(1) by (simp add: call_metadata_def)
  then show ?thesis
    using as_caller_id [OF k] assms(2)
    by (simp add: remote_call [OF k] publish_game_session_def publish_game_session_remote_def api_server_def misc_set_game_session_def
        api_bind_def api_of_def)
qed

lemma invited:
  assumes "known env s c = Some uid" and "friends_invite now rid (as_caller c uid) (s\<lparr>as_db := touched now uid (as_db s)\<rparr>) = (Inr (), s')"
  shows "invite_friend (api_server env now nonce) rid c s = (Inr (), s')"
  using assms(2) by (simp add: remote_call [OF assms(1)] invite_friend_def api_server_def)

lemma polled:
  assumes k: "known env s (gc_client g) = Some uid" and "gc_world g = s"
    and ev: "misc_event now (ae_force_joins env) (as_caller (gc_client g) uid) (s\<lparr>as_db := touched now uid (as_db s)\<rparr>) = (Inr (Some ev), s')"
    and ids: "map_server_event (int (ev_id ev)) (cl_ids (gc_client g)) = Some (l, ids)"
  shows "update_round (api_server env now nonce) True (n, g) = Some (0, g\<lparr>gc_client := (gc_client g)\<lparr>cl_ids := ids\<rparr>, gc_world := s',
    gc_overlay := (gc_overlay g)\<lparr>ov_new_invites := ov_new_invites (gc_overlay g) @ [Inr (Some ((received ev)\<lparr>ri_id := l\<rparr>))]\<rparr>\<rparr>)"
  using ev ids assms(2)
  by (simp add: remote_call [OF k] update_round_def poll_event_def api_server_def) (simp add: received_def send_new_def)

lemma accepted_call:
  assumes k: "known env s c = Some uid"
    and a: "misc_accept_invite now (int row) (as_caller c uid) (s\<lparr>as_db := touched now uid (as_db s)\<rparr>) = (Inr (True, k), s')"
    and l: "ii_local_to_server (cl_ids c) l = Some (int row)"
  shows "accept_invite_call (api_server env now nonce) l c s = (Inr (True, int row), c\<lparr>cl_ids := retire_local l (cl_ids c)\<rparr>, s')"
  using a l by (simp add: remote_call [OF k] accept_invite_call_def server_id_for_local_def api_server_def)

lemma captured_length:
  assumes "set_game_session False i fl (Some \<lparr>sw_data = Some memory, sw_size = 0x1f0\<rparr>) invite_only = Some (Some session)"
    and "PRIVATE_INVITE_BLOB_BYTES \<le> length memory"
  shows "length (up_data session) = PRIVATE_INVITE_BLOB_BYTES"
  using assms by (auto simp: set_game_session_def copy_game_session_wrapper_def Let_def split: if_splits)

lemma invite_row_bound:
  assumes "add_invite now sender receiver INVITE_KIND_PRIVATE_ROOM ty sid db = Inr (Some row, d)" and "\<forall>i\<in>set (invites db). i_rowid i < n" and "0 < n"
  shows "row \<le> n"
proof -
  have bound: "next_rowid ids \<le> n" if "\<forall>i\<in>set ids. i < n" for ids
  proof -
    have "foldr max ids 0 < n \<or> ids = []" using that by (induction ids) auto
    then show ?thesis using that assms(3) by (auto simp: next_rowid_def)
  qed
  show ?thesis
    using assms bound by (auto simp: add_invite_def tbind_def insert_invite_def invite_party_def invite_kinds Let_def split: sum.splits if_splits prod.splits)
qed

section \<open>Properties\<close>

lemma armed_target:
  "pt_match_target (observe_friend_game_invite_accepted ident user name p) = pt_match_target p"
  by (simp add: observe_friend_game_invite_accepted_def set_receiver_party_def Let_def)

text \<open>The key pressed on the one private invitation listed, up to the controller.\<close>

lemma accepted_by_key:
  assumes "accept_invite_call sv (ri_id ev) (gc_client g) (gc_world g) = (Inr (True, i), c, w)" and "0 \<le> i" and "i < 2 ^ 32"
    and "ri_kind ev = 1" and "ri_sender ev = Some (account, name)" and "ri_game_session ev = Some u"
    and "length (up_data u) = PRIVATE_INVITE_BLOB_BYTES" and "up_id u \<noteq> 0"
    and "ov_new_invites (gc_overlay g) = []" and "ov_follow (gc_overlay g) = None" and "\<not> ov_debounce (gc_overlay g)"
    and "ov_invites (gc_overlay g) = [\<lparr>in_event = ev, in_accepted = False\<rparr>]" and "ld_channel (gc_loader g) = Some []"
    and "\<not> joins_by_itself config []" and "d \<noteq> 0"
  shows "\<exists>l l'. gc_world (render sv config now True g) = w
    \<and> get_next_event ident True t (gc_loader (render sv config now True g))
      = (Some (GameFriendAccepted (copy_account_id account empty_friend_blob)), l)
    \<and> take_private_invite_match_target (ld_party l) = Some (up_id u)
    \<and> state_accept_invite_enter (Some \<lparr>co_party = d, co_match = 0\<rparr>) l = (Some \<lparr>co_party = 0, co_match = d\<rparr>, l')
    \<and> ld_replay l' = None \<and> take_private_invite_match_target (ld_party l') = None"
proof -
  define gi where "gi = \<lparr>gi_invitation_id = word_of_int i, gi_kind = 1, gi_sender_id = account, gi_sender_name = name,
    gi_game_session = u\<rparr>"
  define e where "e = FriendsPrivateBlobInviteAccepted gi Baseline"
  define p where "p = arm_party_presence_proof 1 i (up_id u) account (ld_party (gc_loader g))"
  have "up_data u \<noteq> []" using assms(7) by (auto simp: PRIVATE_INVITE_BLOB_BYTES_def)
  then have event: "accepted_event_for_kind 1 i account name (Some u) = Inr e"
    using assms(2,3,7) by (simp add: accepted_event_for_kind_def accepted_event_for_kind_with_mode_def build_party_game_invite_def
        u32_try_from_def PRIVATE_INVITE_BLOB_BYTES_def current_private_invite_ab_mode_def e_def gi_def)
  have latest: "latest_pending_invite_index (ov_invites (gc_overlay g)) = Some 0"
    by (simp add: latest_pending_invite_index_def assms(12))
  have "core (render sv config now True g) = core (accept_invite_at sv now 0 g)"
    using pressed_frame [of config g 0 sv now] assms(9-11,14) latest by simp
  also have "\<dots> = ((gc_loader g)\<lparr>ld_party := p, ld_channel := Some [e]\<rparr>, c, w)"
    using assms(1,4-6,12,13) event
    by (simp add: accept_invite_at_def submit_event_def core_def p_def)
  finally have render: "gc_world (render sv config now True g) = w"
      "gc_loader (render sv config now True g) = (gc_loader g)\<lparr>ld_party := p, ld_channel := Some [e]\<rparr>"
    by (simp_all add: core_def)
  define l where "l = (gc_loader g)\<lparr>ld_channel := Some [], ld_replay := Some \<lparr>rp_due = t + PRIVATE_INVITE_REPLAY_DELAY,
      rp_expected = up_id u, rp_event = e\<rparr>, ld_party := snd (deliver_event ident e p)\<rparr>"
  have "get_next_event ident True t (gc_loader (render sv config now True g))
      = (Some (GameFriendAccepted (copy_account_id account empty_friend_blob)), l)"
    by (simp add: render(2) poll_channel [of _ e "up_id u"] l_def e_def gi_def into_friend_private_blob_invite_accepted_def
        build_private_friend_blob_def)
  moreover have target: "pt_match_target (ld_party l) = up_id u"
    by (simp add: l_def e_def armed_target p_def arm_party_presence_proof_def)
  then have "take_private_invite_match_target (ld_party l) = Some (up_id u)"
    using assms(8) by (simp add: take_private_invite_match_target_def)
  moreover from this have "state_accept_invite_enter (Some \<lparr>co_party = d, co_match = 0\<rparr>) l
      = (Some \<lparr>co_party = 0, co_match = d\<rparr>, acknowledge_private_invite (up_id u) l)"
    using assms(15) by (simp add: state_accept_invite_enter_def)
  moreover have "ld_replay (acknowledge_private_invite (up_id u) l) = None"
    "take_private_invite_match_target (ld_party (acknowledge_private_invite (up_id u) l)) = None"
    using target by (simp_all add: acknowledge_private_invite_def l_def acknowledge_match_target_def take_private_invite_match_target_def)
  ultimately show ?thesis using render(1) by blast
qed

text \<open>C3 (private_invitation_end_to_end). A player hosts a private room; the game hands its session to
  the client, which publishes it, and the player invites a friend, known to the server by an account
  id, who has no open invitation. Within five minutes a round of the friend's client fetches the
  invitation, a frame lists it and a key press accepts it at the server; then the game is handed
  the blob with the host's account, the match controller takes the session of the party controller
  with the room's own id as its target, nothing is left to repeat, and the server lets the friend join
  that room.\<close>

theorem private_invitation_end_to_end:
  assumes inv: "storage_inv (as_db s)"
    and host: "known env s host = Some sender" and friend: "known env s (gc_client g) = Some receiver" and "sender \<noteq> receiver"
    and "find_user_id_by_ubi_id rid (as_db s) = Some receiver" and su: "find_user_by_id sender (as_db s) = Inr (Some su)"
    and "find_map (\<lambda>s. map_option (Pair s) (session_invite_kind s)) (find_host_sessions sender (as_db s))
       = Some (room, INVITE_KIND_PRIVATE_ROOM)" and room: "0 < gs_id room" "gs_id room < 2 ^ 32"
    and "\<forall>i\<in>set (invites (as_db s)). i_receiver i = receiver \<longrightarrow> i_consumed i \<noteq> None"
    and rows: "\<forall>i\<in>set (invites (as_db s)). i_rowid i < 2 ^ 32 - 1"
    and t: "t2 < t1 + 300" "t3 < t1 + 300" "t4 < t1 + 300"
    and captured: "set_game_session False identifier flags (Some \<lparr>sw_data = Some memory, sw_size = 0x1f0\<rparr>) True = Some (Some session)"
      "PRIVATE_INVITE_BLOB_BYTES \<le> length memory"
    and ids: "ids_ok (cl_ids (gc_client g))" "0 < ids_left (cl_ids (gc_client g))"
    and idle: "ov_new_invites (gc_overlay g) = []" "ov_invites (gc_overlay g) = []" "ov_follow (gc_overlay g) = None"
      "ld_channel (gc_loader g) = Some []"
    and config: "\<not> joins_by_itself config []" "\<not> ae_force_joins env" and d: "d \<noteq> 0"
  shows "\<exists>s1 g1 l l' w.
    invite_friend (api_server env t1 nonce) rid host (snd (publish_game_session (api_server env t0 nonce) session host s)) = (Inr (), s1)
    \<and> update_round (api_server env t2 nonce) True (n, g\<lparr>gc_world := s1\<rparr>) = Some (0, g1)
    \<and> get_next_event ident True now (gc_loader (render (api_server env t3 nonce) config now2 True
        (render (api_server env t2 nonce) config now1 False g1)))
      = (Some (GameFriendAccepted (copy_account_id (us_ubi_id su) empty_friend_blob)), l)
    \<and> take_private_invite_match_target (ld_party l) = Some (of_nat (gs_id room))
    \<and> state_accept_invite_enter (Some \<lparr>co_party = d, co_match = 0\<rparr>) l = (Some \<lparr>co_party = 0, co_match = d\<rparr>, l')
    \<and> ld_replay l' = None \<and> take_private_invite_match_target (ld_party l') = None
    \<and> join_game_session_unbounded t4 receiver (gs_type room) (gs_id room)
        (as_db (gc_world (render (api_server env t3 nonce) config now2 True
          (render (api_server env t2 nonce) config now1 False g1)))) = Inr (True, w)
    \<and> is_participant (gs_id room) receiver w"
proof -
  let ?u = "session\<lparr>up_id := of_nat (gs_id room)\<rparr>"
  define host' where "host' = host\<lparr>cl_local_game_session := Some session\<rparr>"
  define p where "p = s\<lparr>as_db := touched t0 sender (as_db s), as_games := (as_games s)(sender \<mapsto> session)\<rparr>"
  define q where "q = p\<lparr>as_db := touched t1 sender (as_db p)\<rparr>"
  have len: "length (up_data session) = PRIVATE_INVITE_BLOB_BYTES" by (rule captured_length [OF captured])
  then have "validate_uplay_game_session (up_data session)"
    by (auto simp: validate_uplay_game_session_def MAX_UPLAY_GAME_SESSION_DATA_def PRIVATE_INVITE_BLOB_BYTES_def)
  with host have pub: "snd (publish_game_session (api_server env t0 nonce) session host s) = p"
    by (simp add: published p_def)
  have known: "known env p host = Some sender" "known env p (gc_client g) = Some receiver"
    using host friend by (simp_all add: p_def)
  have "authenticated_user_id (as_caller host sender) = Inr sender" "authenticated_user_id (as_caller (gc_client g) receiver) = Inr receiver"
    using as_caller_id [OF host] as_caller_id [OF friend] .
  have inv_q: "storage_inv (as_db q)"
    using inv user_frame_touched by (simp add: q_def p_def user_frame_def)
  have q: "find_user_id_by_ubi_id rid (as_db q) = Some receiver" "find_user_by_id sender (as_db q) = Inr (Some su)"
      "find_map (\<lambda>s. map_option (Pair s) (session_invite_kind s)) (find_host_sessions sender (as_db q)) = Some (room, INVITE_KIND_PRIVATE_ROOM)"
      "\<forall>i\<in>set (invites (as_db q)). i_receiver i = receiver \<longrightarrow> i_consumed i \<noteq> None" "invites (as_db q) = invites (as_db s)"
      "map u_id (users (as_db q)) = map u_id (users (as_db s))" "as_games q sender = Some session"
    using assms(5-7,10) by (simp_all add: q_def p_def)
  obtain s1 row s2 s3 h w where
    invite: "friends_invite t1 rid (as_caller host sender) q = (Inr (), s1)"
    and event: "misc_event t2 (ae_force_joins env) (as_caller (gc_client g) receiver) (s1\<lparr>as_db := touched t2 receiver (as_db s1)\<rparr>)
      = (Inr (Some \<lparr>ev_id = row, ev_sender = \<lparr>au_id = us_ubi_id su, au_username = us_name su, au_ips = {}\<rparr>,
          ev_force_join = ae_force_joins env, ev_kind = INVITE_KIND_PRIVATE_ROOM, ev_game_session = Some ?u\<rparr>), s2)"
    and accept: "misc_accept_invite t3 (int row) (as_caller (gc_client g) receiver) (s2\<lparr>as_db := touched t3 receiver (as_db s2)\<rparr>)
      = (Inr (True, INVITE_KIND_PRIVATE_ROOM), s3)"
    and join: "join_game_session_unbounded t4 receiver (gs_type room) (gs_id room) (as_db s3) = Inr (True, w)"
      "is_participant (gs_id room) receiver w"
    and same: "map u_id (users (as_db s1)) = map u_id (users (as_db q))" "map u_id (users (as_db s2)) = map u_id (users (as_db q))"
    and add: "add_invite t1 sender receiver INVITE_KIND_PRIVATE_ROOM (gs_type room) (gs_id room) (as_db q) = Inr (Some row, as_db s1)"
    using private_delivery [OF inv_q as_caller_id [OF host] as_caller_id [OF friend] assms(4) q(1-4) t
        user_frame_touched [of t2 receiver] user_frame_touched [of t3 receiver], of "ae_force_joins env"]
    unfolding q(7) option.map by blast
  have row: "row \<le> 2 ^ 32 - 1" using rows by (intro invite_row_bound [OF add]) (simp_all add: q(5))
  have "invite_friend (api_server env t1 nonce) rid host p = (Inr (), s1)"
    using invited [OF known(1)] invite by (simp add: q_def)
  obtain l ids' where l: "map_server_event (int row) (cl_ids (gc_client g)) = Some (l, ids')" "ii_local_to_server ids' l = Some (int row)"
    using ids by (rule map_server_event_result) blast
  define c where "c = (gc_client g)\<lparr>cl_ids := ids'\<rparr>"
  define ev where "ev = \<lparr>ri_id = l, ri_sender = Some (us_ubi_id su, us_name su), ri_force_join = ae_force_joins env,
    ri_kind = 1, ri_game_session = Some ?u\<rparr>"
  define g1 where "g1 = g\<lparr>gc_client := c, gc_world := s2, gc_overlay := (gc_overlay g)\<lparr>ov_new_invites := [Inr (Some ev)]\<rparr>\<rparr>"
  have meta: "call_metadata c = call_metadata (gc_client g)" by (simp add: c_def call_metadata_def)
  have "known env s1 (gc_client g) = Some receiver" "known env s2 c = Some receiver"
    using friend known_same [of s1 s] known_same [of s2 s] same q(6) by (simp_all add: meta)
  have round: "update_round (api_server env t2 nonce) True (n, g\<lparr>gc_world := s1\<rparr>) = Some (0, g1)"
    using polled [of env s1 "g\<lparr>gc_world := s1\<rparr>" receiver t2 _ s2 l ids' nonce n] \<open>known env s1 (gc_client g) = Some receiver\<close> event l(1) idle(1)
    by (simp add: g1_def c_def ev_def received_def invite_kinds)
  obtain k where k: "listing k = (core g1, [\<lparr>in_event = ev, in_accepted = False\<rparr>], None)" "ov_new_invites (gc_overlay k) = []"
      "ov_debounce (gc_overlay k) = False" "render (api_server env t2 nonce) config now1 False g1 = show_notifications now1 k"
    using listed_frame [of g1 ev "api_server env t2 nonce" config now1] idle config
    by (auto simp: g1_def listed_ids_def ev_def joins_by_itself_def split: option.splits)
  define g2 where "g2 = show_notifications now1 k"
  have g2: "gc_client g2 = c" "gc_world g2 = s2" "gc_loader g2 = gc_loader g" "ov_new_invites (gc_overlay g2) = []"
      "ov_follow (gc_overlay g2) = None" "\<not> ov_debounce (gc_overlay g2)" "ov_invites (gc_overlay g2) = [\<lparr>in_event = ev, in_accepted = False\<rparr>]"
    using k by (simp_all add: g2_def listing_def core_def g1_def)
  have call: "accept_invite_call (api_server env t3 nonce) (ri_id ev) (gc_client g2) (gc_world g2)
      = (Inr (True, int row), c\<lparr>cl_ids := retire_local l (cl_ids c)\<rparr>, s3)"
    using accepted_call [OF \<open>known env s2 c = Some receiver\<close>] accept l(2) g2
    by (simp add: ev_def as_caller_def meta) (simp add: c_def)
  have "(of_nat (gs_id room) :: u64) \<noteq> 0"
    using room dvd_imp_le [of "2 ^ 64" "gs_id room"] by (auto simp: of_nat_eq_0_iff word_of_nat_eq_0_iff)
  then obtain m m' where
    "gc_world (render (api_server env t3 nonce) config now2 True g2) = s3"
    "get_next_event ident True now (gc_loader (render (api_server env t3 nonce) config now2 True g2))
      = (Some (GameFriendAccepted (copy_account_id (us_ubi_id su) empty_friend_blob)), m)"
    "take_private_invite_match_target (ld_party m) = Some (of_nat (gs_id room))"
    "state_accept_invite_enter (Some \<lparr>co_party = d, co_match = 0\<rparr>) m = (Some \<lparr>co_party = 0, co_match = d\<rparr>, m')"
    "ld_replay m' = None" "take_private_invite_match_target (ld_party m') = None"
    using accepted_by_key [OF call, of "us_ubi_id su" "us_name su" ?u config d now2 ident now] row g2 idle(4) config(1) d len
    by (auto simp: ev_def)
  then show ?thesis
    using \<open>invite_friend (api_server env t1 nonce) rid host p = (Inr (), s1)\<close> round join pub k(4) g2_def by metis
qed

text \<open>Samples: the host of the private room of \<open>Api_Behaviour\<close> and the friend, both with their tokens.\<close>

definition sample_token :: "nat \<Rightarrow> string" where
  "sample_token uid = tc_encode sample_codec (secretbox_seal sample_crypto (str_bytes (show_nat uid)) (replicate 24 3) [])
     @ ''.'' @ tc_encode sample_codec (replicate 24 3)"

definition logged_in :: "nat \<Rightarrow> client" where
  "logged_in uid = client_new\<lparr>cl_token := Some (sample_token uid)\<rparr>"

definition friends_game :: "api_state game_client" where
  "friends_game = \<lparr>gc_overlay = overlay_new 0, gc_loader = \<lparr>ld_party = initial_party, ld_channel = Some [], ld_replay = None\<rparr>,
     gc_client = logged_in 1002, gc_world = sample_api\<rparr>"

definition sample_session_data :: uplay_game_session where
  "sample_session_data = \<lparr>up_id = 465, up_data = replicate 496 0, up_flags = 7, up_invite_only = True\<rparr>"

lemma sample_known: "uid \<in> {1000, 1001, 1002} \<Longrightarrow> known sample_api_env sample_api (logged_in uid) = Some uid"
proof -
  assume uid: "uid \<in> {1000, 1001, 1002}"
  then have "token_user sample_crypto sample_codec [] (sample_token uid) = Some uid"
    using token_of_login [OF sample_crypto_ok sample_codec_ok, of "replicate 24 3" uid "[]"]
    by (auto simp: sample_token_def NONCEBYTES_def)
  moreover have "uid \<in> set (user_ids listed_db)"
    using uid by (auto simp: listed_db_def sample_defs user_ids_def)
  ultimately show ?thesis
    by (simp add: caller_def call_metadata_def logged_in_def client_new_def meta_text_def sample_api_env_def sample_api_def)
qed

lemma sample_captured: "set_game_session False 465 7 (Some \<lparr>sw_data = Some (replicate 496 0), sw_size = 0x1f0\<rparr>) True
    = Some (Some sample_session_data)"
proof -
  have "nat_of_le (replicate 4 0) = 0" by (simp add: numeral_eq_Suc)
  then show ?thesis
    by (simp add: set_game_session_def copy_game_session_wrapper_def sample_session_data_def blob_layout)
qed

theorem private_invitation_end_to_end_witness:
  "\<exists>s1 g1 l. invite_friend (api_server sample_api_env 10 []) ''kestrel'' (logged_in 1000)
      (snd (publish_game_session (api_server sample_api_env 5 []) sample_session_data (logged_in 1000) sample_api)) = (Inr (), s1)
    \<and> update_round (api_server sample_api_env 12 []) True (0, friends_game\<lparr>gc_world := s1\<rparr>) = Some (0, g1)
    \<and> get_next_event None True 900 (gc_loader (render (api_server sample_api_env 13 []) None 800 True
        (render (api_server sample_api_env 12 []) None 700 False g1)))
      = (Some (GameFriendAccepted (copy_account_id ''sam'' empty_friend_blob)), l)
    \<and> take_private_invite_match_target (ld_party l) = Some 2"
proof -
  let ?room = "session_of [] (sample_session 2 (show_properties sample_room))"
  have room: "find_map (\<lambda>s. map_option (Pair s) (session_invite_kind s)) (find_host_sessions 1000 (as_db sample_api))
      = Some (?room, INVITE_KIND_PRIVATE_ROOM)" "gs_id ?room = 2"
    by (simp_all add: sample_api_def sample_hosts sample_kinds) (simp add: session_of_def sample_session_def)
  have inv: "storage_inv (as_db sample_api)" by (simp add: sample_api_def listed_inv)
  have acc: "find_user_id_by_ubi_id ''kestrel'' (as_db sample_api) = Some 1002"
    "find_user_by_id 1000 (as_db sample_api) = Inr (Some \<lparr>us_id = 1000, us_name = ''sam'', us_ubi_id = ''sam'', us_is_online = False\<rparr>)"
    "invites (as_db sample_api) = []"
    using sample_accounts by (simp_all add: sample_api_def)
  have friend: "known sample_api_env sample_api (gc_client friends_game) = Some 1002"
    by (simp add: friends_game_def sample_known)
  have ids: "ids_ok (cl_ids (gc_client friends_game))" "0 < ids_left (cl_ids (gc_client friends_game))"
    by (simp_all add: friends_game_def logged_in_def client_new_def ids_new_ok) (simp add: ids_left_def invite_ids_new_def I64_MIN_def)
  have idle: "ov_new_invites (gc_overlay friends_game) = []" "ov_invites (gc_overlay friends_game) = []"
    "ov_follow (gc_overlay friends_game) = None" "ld_channel (gc_loader friends_game) = Some []"
    by (simp_all add: friends_game_def overlay_new_def)
  have config: "\<not> joins_by_itself None []" "\<not> ae_force_joins sample_api_env"
    by (simp_all add: joins_by_itself_def sample_api_env_def)
  show ?thesis
    using private_invitation_end_to_end [OF inv sample_known [of 1000] friend _ acc(1,2) room(1), of 12 10 13 14 465 7
        "replicate 496 0" sample_session_data None 1 "[]" 5 0 None 900 800 700] acc(3) room(2) sample_captured ids idle config
    by (auto simp: PRIVATE_INVITE_BLOB_BYTES_def)
qed

text \<open>C26 (expired_invitation_blocks). If the server answers for the latest invitation with an error,
  as the server of this repository does for every one that can no longer be accepted, pressing
  the key however often leaves it in the list and never takes an older one, which stays unreachable.\<close>

theorem expired_invitation_blocks:
  assumes "\<forall>t\<in>set ts. \<forall>meta w. \<exists>e. fst (sv_accept (fst t) (server_id_for_local i (cl_ids (gc_client g))) meta w) = Inl e"
    and "ov_invites (gc_overlay g) = xs @ [\<lparr>in_event = ev, in_accepted = False\<rparr>]" and "ri_id ev = i" and "ri_kind ev \<noteq> 3"
    and "ov_new_invites (gc_overlay g) = []" and "ov_follow (gc_overlay g) = None"
  shows "ov_invites (gc_overlay (fold (\<lambda>t. render (fst t) config (fst (snd t)) (snd (snd t))) ts g)) = ov_invites (gc_overlay g)
    \<and> gc_loader (fold (\<lambda>t. render (fst t) config (fst (snd t)) (snd (snd t))) ts g) = gc_loader g"
  using assms
proof (induction ts arbitrary: g)
  case (Cons t ts)
  obtain sv now f5 where t: "t = (sv, now, f5)" by (metis prod_cases3)
  define h where "h = show_status now g"
  have h: "ov_invites (gc_overlay h) = ov_invites (gc_overlay g)" "gc_loader h = gc_loader g" "gc_client h = gc_client g"
      "gc_world h = gc_world g" "ov_new_invites (gc_overlay h) = []" "ov_follow (gc_overlay h) = None"
    using Cons.prems by (simp_all add: h_def)
  have refused: "ov_invites (gc_overlay (accept_invite_at sv now (length xs) k)) = ov_invites (gc_overlay k)
      \<and> gc_loader (accept_invite_at sv now (length xs) k) = gc_loader k \<and> gc_client (accept_invite_at sv now (length xs) k) = gc_client k"
    if "ov_invites (gc_overlay k) = xs @ [\<lparr>in_event = ev, in_accepted = False\<rparr>]" "gc_client k = gc_client g" for k
  proof -
    obtain e w where "sv_accept sv (server_id_for_local i (cl_ids (gc_client g))) (call_metadata (gc_client g)) (gc_world k) = (Inl e, w)"
      using Cons.prems(1) t by (metis fst_conv list.set_intros(1) prod.collapse)
    then show ?thesis using that Cons.prems(3,4)
      by (simp add: accept_invite_at_def accept_invite_call_def split: option.split)
  qed
  have "latest_pending_invite_index (xs @ [\<lparr>in_event = ev, in_accepted = False\<rparr>]) = Some (length xs)"
    by (induction xs) (simp_all add: latest_pending_invite_index_def)
  then have press: "ov_invites (gc_overlay (press_f5 sv now f5 h)) = ov_invites (gc_overlay g)
      \<and> gc_loader (press_f5 sv now f5 h) = gc_loader g \<and> gc_client (press_f5 sv now f5 h) = gc_client g"
    using h Cons.prems(2) refused [of "h\<lparr>gc_overlay := (gc_overlay h)\<lparr>ov_debounce := True\<rparr>\<rparr>"]
    by (simp add: press_f5_def)
  define r where "r = render sv config now f5 g"
  have "r = show_notifications now (press_f5 sv now f5 h)"
    using h by (simp add: r_def render_def h_def [symmetric] run_follow_def receive_new_def)
  then have r: "ov_invites (gc_overlay r) = ov_invites (gc_overlay g)" "gc_loader r = gc_loader g" "gc_client r = gc_client g"
      "ov_new_invites (gc_overlay r) = []" "ov_follow (gc_overlay r) = None"
    using press h by simp_all
  have "\<forall>t\<in>set ts. \<forall>meta w. \<exists>e. fst (sv_accept (fst t) (server_id_for_local i (cl_ids (gc_client r))) meta w) = Inl e"
    using Cons.prems(1) by (simp add: r)
  from Cons.IH [OF this _ Cons.prems(3,4) r(4,5)] Cons.prems(2) r show ?case by (simp add: t r_def)
qed simp

theorem expired_invitation_blocks_witness:
  "ov_invites (gc_overlay (fold (\<lambda>t. render (fst t) None (fst (snd t)) (snd (snd t)))
      [(sample_server\<lparr>sv_accept := \<lambda>_ _ w. (Inl (GrpcStatus NotFound), w)\<rparr>, 10, True),
       (sample_server\<lparr>sv_accept := \<lambda>_ _ w. (Inl (GrpcStatus NotFound), w)\<rparr>, 20, False),
       (sample_server\<lparr>sv_accept := \<lambda>_ _ w. (Inl (GrpcStatus NotFound), w)\<rparr>, 30, True)] two_invited))
    = ov_invites (gc_overlay two_invited)"
proof -
  let ?sv = "sample_server\<lparr>sv_accept := \<lambda>_ _ w. (Inl (GrpcStatus NotFound), w)\<rparr>"
  show ?thesis
    using expired_invitation_blocks [of "[(?sv, 10, True), (?sv, 20, False), (?sv, 30, True)]" 5 two_invited
        "[\<lparr>in_event = sample_event 4 2 False, in_accepted = False\<rparr>]" "sample_event 5 2 False" None]
    by (simp add: two_invited_def sample_game_def overlay_new_def sample_event_def)
qed

end
