(* ===== verification/Client_Sockets.thy ===== *)
theory Client_Sockets
  imports Client_Config
begin

text \<open>
  The detours on Winsock (\<open>client/hooks/src/hooks/storm.rs\<close>) that keep the game on the
  configured adapter: \<open>bind\<close>, \<open>connect\<close>, \<open>WSAConnect\<close>, \<open>closesocket\<close>, \<open>sendto\<close> and
  \<open>recvfrom\<close>. Winsock is an argument, a function from calls to results over a state of its
  own. The log of the calls made, with their results, is kept for the statements only.
\<close>

section \<open>Addresses\<close>

type_synonym ipv4 = "u8 list"

record sockaddr =
  sa_family :: u16
  sa_data :: bytes

definition AF_INET :: u16 where "AF_INET = 2"

text \<open>A pointer, \<open>None\<close> for null, with its length; there are always 14 bytes of data behind it.\<close>

type_synonym sock_name = "sockaddr option \<times> int"

definition sockaddr_ipv4 :: "sock_name \<Rightarrow> ipv4 option" where
  "sockaddr_ipv4 name = (case fst name of
     None \<Rightarrow> None
   | Some a \<Rightarrow> if snd name < 8 then None else if sa_family a \<noteq> AF_INET then None
      else Some [sa_data a ! 2, sa_data a ! 3, sa_data a ! 4, sa_data a ! 5])"

definition sockaddr_port :: "sock_name \<Rightarrow> u16 option" where
  "sockaddr_port name = (case fst name of
     None \<Rightarrow> None
   | Some a \<Rightarrow> if snd name < 4 then None else if sa_family a \<noteq> AF_INET then None
      else Some (word_rcat [sa_data a ! 0, sa_data a ! 1]))"

definition sockaddr_port_bytes :: "sock_name \<Rightarrow> u8 \<times> u8" where
  "sockaddr_port_bytes name = (case fst name of
     None \<Rightarrow> (0, 0) | Some a \<Rightarrow> if snd name < 4 then (0, 0) else (sa_data a ! 0, sa_data a ! 1))"

definition is_loopback :: "ipv4 \<Rightarrow> bool" where
  "is_loopback ip \<longleftrightarrow> ip ! 0 = 127"

definition make_bind_addr :: "ipv4 \<Rightarrow> u8 \<times> u8 \<Rightarrow> sock_name" where
  "make_bind_addr ip p = (Some \<lparr>sa_family = 2, sa_data = [fst p, snd p] @ ip @ replicate 8 0\<rparr>, 16)"

definition should_rewrite_explicit_bind :: "ipv4 \<Rightarrow> ipv4 \<Rightarrow> bool" where
  "should_rewrite_explicit_bind original_ip bind_ip \<longleftrightarrow> original_ip \<noteq> bind_ip \<and> \<not> is_loopback original_ip"

section \<open>Winsock\<close>

datatype wsa_call =
    WsBind nat sock_name
  | WsConnect nat sock_name
  | WsWsaConnect nat sock_name
  | WsClose nat
  | WsSendTo nat bytes int sock_name
  | WsRecvFrom nat int int
  | WsSetLastError int

record 'w winsock =
  ws_call :: "wsa_call \<Rightarrow> 'w \<Rightarrow> int \<times> 'w"
  ws_last_error :: "'w \<Rightarrow> int"

record 'w net =
  net_world :: 'w
  net_bound :: "nat set"
  net_log :: "(wsa_call \<times> int) list"

definition system_call :: "'w winsock \<Rightarrow> wsa_call \<Rightarrow> 'w net \<Rightarrow> int \<times> 'w net" where
  "system_call ws c n = (let (r, w) = ws_call ws c (net_world n)
     in (r, n\<lparr>net_world := w, net_log := net_log n @ [(c, r)]\<rparr>))"

definition restore_wsa_last_error :: "'w winsock \<Rightarrow> int \<Rightarrow> 'w net \<Rightarrow> 'w net" where
  "restore_wsa_last_error ws e n = snd (system_call ws (WsSetLastError e) n)"

text \<open>Logging a failure may change the last error, so it is read before and set again.\<close>

definition report :: "'w winsock \<Rightarrow> ('w \<Rightarrow> 'w) \<Rightarrow> 'w net \<Rightarrow> 'w net" where
  "report ws logging n = (let e = ws_last_error ws (net_world n)
     in restore_wsa_last_error ws e (n\<lparr>net_world := logging (net_world n)\<rparr>))"

definition mark_socket_bound :: "nat \<Rightarrow> 'w net \<Rightarrow> 'w net" where
  "mark_socket_bound s n = n\<lparr>net_bound := insert s (net_bound n)\<rparr>"

definition unmark_socket_bound :: "nat \<Rightarrow> 'w net \<Rightarrow> 'w net" where
  "unmark_socket_bound s n = n\<lparr>net_bound := net_bound n - {s}\<rparr>"

section \<open>Detours\<close>

definition WSAEWOULDBLOCK_CODE :: int where "WSAEWOULDBLOCK_CODE = 10035"
definition WSAEINPROGRESS_CODE :: int where "WSAEINPROGRESS_CODE = 10036"
definition WSAEALREADY_CODE :: int where "WSAEALREADY_CODE = 10037"

text \<open>Whether a failed connection is logged as pending or as failed.\<close>

definition is_connect_pending_error :: "int \<Rightarrow> bool" where
  "is_connect_pending_error e \<longleftrightarrow> e \<in> {WSAEWOULDBLOCK_CODE, WSAEINPROGRESS_CODE, WSAEALREADY_CODE}"

definition force_bind_socket :: "'w winsock \<Rightarrow> ('w \<Rightarrow> 'w) \<Rightarrow> ipv4 option \<Rightarrow> nat \<Rightarrow> sock_name \<Rightarrow> 'w net \<Rightarrow> 'w net" where
  "force_bind_socket ws logging ip s target n =
    (case ip of
       None \<Rightarrow> n
     | Some bind_ip \<Rightarrow>
        if s \<in> net_bound n then n
        else if sockaddr_ipv4 target = None then n
        else let (r, n) = system_call ws (WsBind s (make_bind_addr bind_ip (0, 0))) n
             in if r = 0 then (mark_socket_bound s n)\<lparr>net_world := logging (net_world n)\<rparr> else report ws logging n)"

definition bind_socket :: "'w winsock \<Rightarrow> ('w \<Rightarrow> 'w) \<Rightarrow> ipv4 option \<Rightarrow> nat \<Rightarrow> sock_name \<Rightarrow> 'w net \<Rightarrow> int \<times> 'w net" where
  "bind_socket ws logging ip s name n =
    (case (ip, sockaddr_ipv4 name) of
       (Some bind_ip, Some original_ip) \<Rightarrow>
         let (r, n) = (if should_rewrite_explicit_bind original_ip bind_ip
               then system_call ws (WsBind s (make_bind_addr bind_ip (sockaddr_port_bytes name)))
                      (n\<lparr>net_world := logging (net_world n)\<rparr>)
               else system_call ws (WsBind s name) n)
         in (r, if r = 0 then mark_socket_bound s n else report ws logging n)
     | _ \<Rightarrow> let (r, n) = system_call ws (WsBind s name) n in (r, if r = 0 then mark_socket_bound s n else n))"

text \<open>Success is logged when packets are.\<close>

definition connect_socket ::
    "'w winsock \<Rightarrow> ('w \<Rightarrow> 'w) \<Rightarrow> bool \<Rightarrow> ipv4 option \<Rightarrow> nat \<Rightarrow> sock_name \<Rightarrow> 'w net \<Rightarrow> int \<times> 'w net" where
  "connect_socket ws logging verbose ip s name n =
    (let (r, n) = system_call ws (WsConnect s name) (force_bind_socket ws logging ip s name n)
     in (r, if r \<noteq> 0 then report ws logging n
            else if verbose then n\<lparr>net_world := logging (net_world n)\<rparr> else n))"

definition wsa_connect_socket ::
    "'w winsock \<Rightarrow> ('w \<Rightarrow> 'w) \<Rightarrow> bool \<Rightarrow> ipv4 option \<Rightarrow> nat \<Rightarrow> sock_name \<Rightarrow> 'w net \<Rightarrow> int \<times> 'w net" where
  "wsa_connect_socket ws logging verbose ip s name n =
    (let (r, n) = system_call ws (WsWsaConnect s name) (force_bind_socket ws logging ip s name n)
     in (r, if r \<noteq> 0 then report ws logging n
            else if verbose then n\<lparr>net_world := logging (net_world n)\<rparr> else n))"

definition close_socket :: "'w winsock \<Rightarrow> ('w \<Rightarrow> 'w) \<Rightarrow> nat \<Rightarrow> 'w net \<Rightarrow> int \<times> 'w net" where
  "close_socket ws logging s n =
    (let (r, n) = system_call ws (WsClose s) n in (r, if r = 0 then unmark_socket_bound s n else report ws logging n))"

definition sendto_socket ::
    "'w winsock \<Rightarrow> ('w \<Rightarrow> 'w) \<Rightarrow> bool \<Rightarrow> ipv4 option \<Rightarrow> nat \<Rightarrow> bytes \<Rightarrow> int \<Rightarrow> sock_name \<Rightarrow> 'w net \<Rightarrow> int \<times> 'w net" where
  "sendto_socket ws logging verbose ip s buf flag target n =
    (let n = force_bind_socket ws logging ip s target n;
         n = (if verbose \<and> sockaddr_port target = Some 13000 then n\<lparr>net_world := logging (net_world n)\<rparr> else n);
         (r, n) = system_call ws (WsSendTo s buf flag target) n
     in (r, if r < 0 then report ws logging n else n))"

text \<open>\<open>from_game_port\<close>: whether the source the system filled in has port 13000.\<close>

definition recvfrom_socket ::
    "'w winsock \<Rightarrow> ('w \<Rightarrow> 'w) \<Rightarrow> bool \<Rightarrow> ('w \<Rightarrow> bool) \<Rightarrow> nat \<Rightarrow> int \<Rightarrow> int \<Rightarrow> 'w net \<Rightarrow> int \<times> 'w net" where
  "recvfrom_socket ws logging verbose from_game_port s len flag n =
    (let (r, n) = system_call ws (WsRecvFrom s len flag) n
     in (r, if r < 0 then report ws logging n
            else if verbose \<and> from_game_port (net_world n) \<and> 0 < r then n\<lparr>net_world := logging (net_world n)\<rparr> else n))"

text \<open>Which functions \<open>init_hooks\<close> detours.\<close>

datatype detour = DBind | DConnect | DWsaConnect | DClose | DSendTo | DRecvFrom

definition socket_detours :: "client_config \<Rightarrow> detour set" where
  "socket_detours cfg =
    (if nw_ip_address (cc_networking cfg) \<noteq> None then {DBind, DConnect, DWsaConnect, DClose, DSendTo, DRecvFrom}
     else if cc_enable_all_hooks cfg \<or> StormPackets \<in> cc_enable_hooks cfg then {DSendTo, DRecvFrom} else {})"

definition log_storm_packets :: "client_config \<Rightarrow> bool" where
  "log_storm_packets cfg \<longleftrightarrow> cc_enable_all_hooks cfg \<or> StormPackets \<in> cc_enable_hooks cfg"

section \<open>Runs\<close>

text \<open>What the game calls.\<close>

datatype net_call =
    Bind nat sock_name
  | Connect nat sock_name
  | WsaConnect nat sock_name
  | CloseSocket nat
  | SendTo nat bytes int sock_name
  | RecvFrom nat int int

fun detoured ::
    "'w winsock \<Rightarrow> ('w \<Rightarrow> 'w) \<Rightarrow> ('w \<Rightarrow> bool) \<Rightarrow> bool \<Rightarrow> ipv4 option \<Rightarrow> net_call \<Rightarrow> 'w net \<Rightarrow> int \<times> 'w net" where
  "detoured ws logging gp verbose ip (Bind s name) n = bind_socket ws logging ip s name n"
| "detoured ws logging gp verbose ip (Connect s name) n = connect_socket ws logging verbose ip s name n"
| "detoured ws logging gp verbose ip (WsaConnect s name) n = wsa_connect_socket ws logging verbose ip s name n"
| "detoured ws logging gp verbose ip (CloseSocket s) n = close_socket ws logging s n"
| "detoured ws logging gp verbose ip (SendTo s buf flag target) n = sendto_socket ws logging verbose ip s buf flag target n"
| "detoured ws logging gp verbose ip (RecvFrom s len flag) n = recvfrom_socket ws logging verbose gp s len flag n"

definition run_net ::
    "'w winsock \<Rightarrow> ('w \<Rightarrow> 'w) \<Rightarrow> ('w \<Rightarrow> bool) \<Rightarrow> bool \<Rightarrow> ipv4 option \<Rightarrow> net_call list \<Rightarrow> 'w net \<Rightarrow> 'w net" where
  "run_net ws logging gp verbose ip cs n = fold (\<lambda>c n. snd (detoured ws logging gp verbose ip c n)) cs n"

section \<open>The log\<close>

text \<open>The sockets bound according to the log, and what a call to the system must look like there.\<close>

fun bound_after :: "(wsa_call \<times> int) list \<Rightarrow> nat set \<Rightarrow> nat set" where
  "bound_after [] b = b"
| "bound_after ((WsBind s name, r) # l) b = bound_after l (if r = 0 then insert s b else b)"
| "bound_after ((WsClose s, r) # l) b = bound_after l (if r = 0 then b - {s} else b)"
| "bound_after (_ # l) b = bound_after l b"

definition forced :: "ipv4 \<Rightarrow> nat \<Rightarrow> wsa_call" where
  "forced ip s = WsBind s (make_bind_addr ip (0, 0))"

text \<open>
  Going through the log with the sockets bound and the socket whose forced binding was just
  refused: bindings to an IPv4 address are to the configured or a loopback one, and what is sent
  or connected to an IPv4 address comes from a socket that is bound or was just refused.
\<close>

fun target_of :: "wsa_call \<Rightarrow> (nat \<times> sock_name) option" where
  "target_of (WsConnect s name) = Some (s, name)"
| "target_of (WsWsaConnect s name) = Some (s, name)"
| "target_of (WsSendTo s buf flag name) = Some (s, name)"
| "target_of _ = None"

definition call_ok :: "ipv4 \<Rightarrow> nat set \<Rightarrow> nat option \<Rightarrow> wsa_call \<Rightarrow> bool" where
  "call_ok ip b refused c \<longleftrightarrow>
    (\<forall>s name x. c = WsBind s name \<and> sockaddr_ipv4 name = Some x \<longrightarrow> x = ip \<or> is_loopback x)
    \<and> (\<forall>s name. target_of c = Some (s, name) \<and> sockaddr_ipv4 name \<noteq> None \<longrightarrow> s \<in> b \<or> refused = Some s)"

fun refused_after :: "ipv4 \<Rightarrow> wsa_call \<times> int \<Rightarrow> nat option \<Rightarrow> nat option" where
  "refused_after ip (WsBind s name, r) refused = (if WsBind s name = forced ip s \<and> r \<noteq> 0 then Some s else None)"
| "refused_after ip (WsSetLastError e, r) refused = refused"
| "refused_after ip (_, r) refused = None"

fun log_ok :: "ipv4 \<Rightarrow> nat set \<Rightarrow> nat option \<Rightarrow> (wsa_call \<times> int) list \<Rightarrow> bool" where
  "log_ok ip b refused [] \<longleftrightarrow> True"
| "log_ok ip b refused (e # l) \<longleftrightarrow> call_ok ip b refused (fst e) \<and> log_ok ip (bound_after [e] b) (refused_after ip e refused) l"

section \<open>Confinement\<close>

lemma bound_after_append [simp]: "bound_after (l @ m) b = bound_after m (bound_after l b)"
  by (induction l b rule: bound_after.induct) auto

lemma log_ok_append:
  "log_ok ip b refused (l @ m) \<longleftrightarrow> log_ok ip b refused l \<and> log_ok ip (bound_after l b) (fold (refused_after ip) l refused) m"
proof (induction l arbitrary: b refused)
  case (Cons e l)
  have "bound_after (e # l) b = bound_after l (bound_after [e] b)"
    using bound_after_append [of "[e]" l b] by simp
  with Cons show ?case by simp
qed simp

lemma log_ok_weaken: "log_ok ip b None l \<Longrightarrow> log_ok ip b refused l"
proof (induction l arbitrary: b refused)
  case (Cons e l)
  obtain c r where e: "e = (c, r)" by (cases e)
  have "refused_after ip e refused = refused_after ip e None \<or> refused_after ip e None = None"
    by (cases c) (simp_all add: e)
  then have "log_ok ip (bound_after [e] b) (refused_after ip e refused) l"
    using Cons.prems Cons.IH by fastforce
  moreover have "call_ok ip b refused (fst e)" using Cons.prems by (auto simp: call_ok_def)
  ultimately show ?case by simp
qed simp

lemma bind_addr_ipv4: "length ip = 4 \<Longrightarrow> sockaddr_ipv4 (make_bind_addr ip p) = Some ip"
  by (auto simp: sockaddr_ipv4_def make_bind_addr_def AF_INET_def numeral_eq_Suc length_Suc_conv)

lemma bind_ok: "length ip = 4 \<Longrightarrow> call_ok ip b refused (WsBind s (make_bind_addr ip p))"
  by (simp add: call_ok_def bind_addr_ipv4 del: split_paired_All)

text \<open>A step of a detour: what it adds to the log is allowed, and the marks follow the log.\<close>

definition extends :: "ipv4 \<Rightarrow> 'w net \<Rightarrow> 'w net \<Rightarrow> (wsa_call \<times> int) list \<Rightarrow> bool" where
  "extends ip n m seg \<longleftrightarrow> net_log m = net_log n @ seg \<and> net_bound m = bound_after seg (net_bound n)"

lemma system_call_log:
  "system_call ws c n = (r, m) \<Longrightarrow> net_log m = net_log n @ [(c, r)] \<and> net_bound m = net_bound n"
  by (auto simp: system_call_def split: prod.splits)

lemma report_log: "\<exists>r. net_log (report ws logging n) = net_log n @ [(WsSetLastError (ws_last_error ws (net_world n)), r)]
    \<and> net_bound (report ws logging n) = net_bound n"
  by (simp add: report_def restore_wsa_last_error_def system_call_def Let_def split_beta)

lemma force_bind_extends:
  assumes "length ip = 4" and "force_bind_socket ws logging (Some ip) s target n = m"
  shows "\<exists>seg. extends ip n m seg \<and> log_ok ip (net_bound n) None seg
    \<and> (sockaddr_ipv4 target \<noteq> None \<longrightarrow> s \<in> net_bound m \<or> fold (refused_after ip) seg None = Some s)"
proof (cases "s \<in> net_bound n \<or> sockaddr_ipv4 target = None")
  case True
  then have "m = n" using assms(2) by (auto simp: force_bind_socket_def)
  with True show ?thesis by (intro exI [of _ "[]"]) (auto simp: extends_def)
next
  case False
  obtain r k where k: "system_call ws (WsBind s (make_bind_addr ip (0, 0))) n = (r, k)" by (metis prod.exhaust)
  note log = system_call_log [OF k]
  note ok = bind_ok [OF assms(1)]
  show ?thesis
  proof (cases "r = 0")
    case True
    then have "m = (mark_socket_bound s k)\<lparr>net_world := logging (net_world k)\<rparr>"
      using assms(2) False k by (auto simp: force_bind_socket_def)
    with log True ok show ?thesis
      by (intro exI [of _ "[(WsBind s (make_bind_addr ip (0, 0)), r)]"]) (simp add: extends_def mark_socket_bound_def)
  next
    case refused: False
    then have m: "m = report ws logging k" using assms(2) False k by (auto simp: force_bind_socket_def)
    obtain e where "net_log m = net_log k @ [(WsSetLastError (ws_last_error ws (net_world k)), e)]" "net_bound m = net_bound k"
      using report_log [of ws logging k] m by blast
    with log refused ok show ?thesis
      by (intro exI [of _ "[(WsBind s (make_bind_addr ip (0, 0)), r), (WsSetLastError (ws_last_error ws (net_world k)), e)]"])
        (simp add: extends_def forced_def call_ok_def)
  qed
qed

lemma extends_trans: "extends ip n m seg \<Longrightarrow> extends ip m k seg' \<Longrightarrow> extends ip n k (seg @ seg')"
  by (simp add: extends_def)

text \<open>A call of the system with what follows it, after the socket was dealt with.\<close>

lemma call_extends:
  assumes "extends ip n m seg" and "log_ok ip (net_bound n) None seg"
    and "call_ok ip (net_bound m) (fold (refused_after ip) seg None) c"
    and "system_call ws c m' = (r, k)" and "net_log m' = net_log m" and "net_bound m' = net_bound m"
    and "k' \<in> {k, k\<lparr>net_world := logging (net_world k)\<rparr>, report ws logging k} \<and> net_bound k = bound_after [(c, r)] (net_bound m)
      \<or> k' = mark_socket_bound s k \<and> bound_after [(c, r)] (net_bound m) = insert s (net_bound m)
      \<or> k' = unmark_socket_bound s k \<and> bound_after [(c, r)] (net_bound m) = net_bound m - {s}"
  shows "\<exists>seg. extends ip n k' seg \<and> log_ok ip (net_bound n) None seg"
proof -
  have k: "net_log k = net_log m @ [(c, r)]" "net_bound k = net_bound m"
    using system_call_log [OF assms(4)] assms(5,6) by simp_all
  have b: "net_bound m = bound_after seg (net_bound n)" using assms(1) by (simp add: extends_def)
  have ok: "log_ok ip (net_bound n) None (seg @ [(c, r)])"
    using assms(2,3) by (simp add: log_ok_append b)
  show ?thesis
  proof (cases "k' = report ws logging k \<and> net_bound k = bound_after [(c, r)] (net_bound m)")
    case True
    obtain e where e: "net_log k' = net_log k @ [(WsSetLastError (ws_last_error ws (net_world k)), e)]" "net_bound k' = net_bound k"
      using report_log [of ws logging k] True by blast
    have "log_ok ip (net_bound n) None ((seg @ [(c, r)]) @ [(WsSetLastError (ws_last_error ws (net_world k)), e)])"
      using ok unfolding log_ok_append [of _ _ _ "seg @ [(c, r)]"] by (simp add: call_ok_def)
    moreover have "bound_after [(c, r), x] z = bound_after [x] (bound_after [(c, r)] z)" for x z
      using bound_after_append [of "[(c, r)]" "[x]" z] by simp
    ultimately show ?thesis using e k True b assms(1)
      by (intro exI [of _ "(seg @ [(c, r)]) @ [(WsSetLastError (ws_last_error ws (net_world k)), e)]"]) (auto simp: extends_def)
  next
    case False
    then have "net_log k' = net_log k" "net_bound k' = bound_after [(c, r)] (net_bound m)"
      using assms(7) k by (auto simp: mark_socket_bound_def unmark_socket_bound_def)
    with ok k assms(1) b show ?thesis
      by (intro exI [of _ "seg @ [(c, r)]"]) (auto simp: extends_def)
  qed
qed

lemma detoured_extends:
  assumes ip: "length ip = 4"
  shows "\<exists>seg. extends ip n (snd (detoured ws logging gp verbose (Some ip) c n)) seg \<and> log_ok ip (net_bound n) None seg"
proof -
  have refl: "extends ip n n []" "log_ok ip (net_bound n) None []" by (simp_all add: extends_def)
  show ?thesis
  proof (cases c)
    case (Bind s name)
    define name' where "name' = (case sockaddr_ipv4 name of Some x \<Rightarrow> if should_rewrite_explicit_bind x ip
        then make_bind_addr ip (sockaddr_port_bytes name) else name | None \<Rightarrow> name)"
    have ok: "call_ok ip (net_bound n) None (WsBind s name')"
      using bind_ok [OF ip] by (simp add: name'_def split: option.split)
        (auto simp: call_ok_def should_rewrite_explicit_bind_def)
    define m where "m = (case sockaddr_ipv4 name of Some x \<Rightarrow> if should_rewrite_explicit_bind x ip
        then n\<lparr>net_world := logging (net_world n)\<rparr> else n | None \<Rightarrow> n)"
    then have m: "net_log m = net_log n" "net_bound m = net_bound n" by (simp_all split: option.split)
    have snd: "snd (detoured ws logging gp verbose (Some ip) c n) = (let (r, k) = system_call ws (WsBind s name') m
        in if r = 0 then mark_socket_bound s k else if sockaddr_ipv4 name = None then k else report ws logging k)"
      by (simp add: Bind bind_socket_def name'_def m_def split_beta split: option.split)
    obtain r k where k: "system_call ws (WsBind s name') m = (r, k)" by (metis prod.exhaust)
    note log = system_call_log [OF k]
    show ?thesis
      by (rule call_extends [OF refl _ k, where logging = logging and s = s])
        (use ok m log in \<open>auto simp: snd k\<close>)
  next
    case (CloseSocket s)
    obtain r k where k: "system_call ws (WsClose s) n = (r, k)" by (metis prod.exhaust)
    note log = system_call_log [OF k]
    show ?thesis
      by (rule call_extends [OF refl _ k, where logging = logging and s = s])
        (use log in \<open>auto simp: CloseSocket close_socket_def k call_ok_def\<close>)
  next
    case (RecvFrom s len flag)
    obtain r k where k: "system_call ws (WsRecvFrom s len flag) n = (r, k)" by (metis prod.exhaust)
    note log = system_call_log [OF k]
    show ?thesis
      by (rule call_extends [OF refl _ k, where logging = logging and s = s])
        (use log in \<open>auto simp: RecvFrom recvfrom_socket_def k call_ok_def\<close>)
  next
    case (Connect s name)
    define m where "m = force_bind_socket ws logging (Some ip) s name n"
    obtain seg where seg: "extends ip n m seg" "log_ok ip (net_bound n) None seg"
        "sockaddr_ipv4 name \<noteq> None \<longrightarrow> s \<in> net_bound m \<or> fold (refused_after ip) seg None = Some s"
      using force_bind_extends [OF ip, of ws logging s name n m] by (auto simp: m_def)
    obtain r k where k: "system_call ws (WsConnect s name) m = (r, k)" by (metis prod.exhaust)
    note log = system_call_log [OF k]
    show ?thesis
      by (rule call_extends [OF seg(1,2) _ k, where logging = logging and s = s])
        (use log seg(3) in \<open>auto simp: Connect connect_socket_def k call_ok_def m_def [symmetric]\<close>)
  next
    case (WsaConnect s name)
    define m where "m = force_bind_socket ws logging (Some ip) s name n"
    obtain seg where seg: "extends ip n m seg" "log_ok ip (net_bound n) None seg"
        "sockaddr_ipv4 name \<noteq> None \<longrightarrow> s \<in> net_bound m \<or> fold (refused_after ip) seg None = Some s"
      using force_bind_extends [OF ip, of ws logging s name n m] by (auto simp: m_def)
    obtain r k where k: "system_call ws (WsWsaConnect s name) m = (r, k)" by (metis prod.exhaust)
    note log = system_call_log [OF k]
    show ?thesis
      by (rule call_extends [OF seg(1,2) _ k, where logging = logging and s = s])
        (use log seg(3) in \<open>auto simp: WsaConnect wsa_connect_socket_def k call_ok_def m_def [symmetric]\<close>)
  next
    case (SendTo s buf flag name)
    define m where "m = force_bind_socket ws logging (Some ip) s name n"
    obtain seg where seg: "extends ip n m seg" "log_ok ip (net_bound n) None seg"
        "sockaddr_ipv4 name \<noteq> None \<longrightarrow> s \<in> net_bound m \<or> fold (refused_after ip) seg None = Some s"
      using force_bind_extends [OF ip, of ws logging s name n m] by (auto simp: m_def)
    define m' where "m' = (if verbose \<and> sockaddr_port name = Some 13000 then m\<lparr>net_world := logging (net_world m)\<rparr> else m)"
    have m': "net_log m' = net_log m" "net_bound m' = net_bound m" by (simp_all add: m'_def)
    obtain r k where k: "system_call ws (WsSendTo s buf flag name) m' = (r, k)" by (metis prod.exhaust)
    note log = system_call_log [OF k]
    have snd: "snd (detoured ws logging gp verbose (Some ip) c n) = (if r < 0 then report ws logging k else k)"
      using k unfolding m'_def by (cases "verbose \<and> sockaddr_port name = Some 13000")
        (auto simp: SendTo sendto_socket_def m_def [symmetric] Let_def)
    show ?thesis
      by (rule call_extends [OF seg(1,2) _ k, where logging = logging and s = s])
        (use log seg(3) m' in \<open>auto simp: snd call_ok_def\<close>)
  qed
qed

lemma run_extends:
  assumes "length ip = 4"
  shows "\<exists>seg. extends ip n (run_net ws logging gp verbose (Some ip) cs n) seg \<and> log_ok ip (net_bound n) None seg"
proof (induction cs arbitrary: n)
  case Nil
  show ?case by (intro exI [of _ "[]"]) (simp add: run_net_def extends_def)
next
  case (Cons c cs)
  define m where "m = snd (detoured ws logging gp verbose (Some ip) c n)"
  obtain s where s: "extends ip n m s" "log_ok ip (net_bound n) None s"
    using detoured_extends [OF assms, of n ws logging gp verbose c] by (auto simp: m_def)
  obtain t where t: "extends ip m (run_net ws logging gp verbose (Some ip) cs m) t" "log_ok ip (net_bound m) None t"
    using Cons.IH [of m] by blast
  have "log_ok ip (net_bound n) None (s @ t)"
    using s t log_ok_weaken by (simp add: log_ok_append extends_def)
  moreover have "run_net ws logging gp verbose (Some ip) (c # cs) n = run_net ws logging gp verbose (Some ip) cs m"
    by (simp add: run_net_def m_def)
  ultimately show ?case using extends_trans [OF s(1) t(1)] by auto
qed

section \<open>Properties\<close>

text \<open>C15 (traffic_confined). With a configured address, whatever the game calls and the system answers:
  every binding to an IPv4 address is to the configured one or to a loopback address, nothing is sent
  or connected to an IPv4 address from a socket that is not bound, unless binding it to the
  configured address has just been refused, and the detours know exactly the sockets that are bound.\<close>

theorem traffic_confined:
  assumes "length ip = 4" and "net_bound n = {}" and "net_log n = []"
  shows "log_ok ip {} None (net_log (run_net ws logging gp verbose (Some ip) cs n))
    \<and> net_bound (run_net ws logging gp verbose (Some ip) cs n) = bound_after (net_log (run_net ws logging gp verbose (Some ip) cs n)) {}"
  using run_extends [OF assms(1), of n ws logging gp verbose cs] assms(2,3) by (auto simp: extends_def)

text \<open>The call of the system a call of the game becomes, and whether it failed.\<close>

fun forwarded :: "ipv4 option \<Rightarrow> net_call \<Rightarrow> wsa_call" where
  "forwarded ip (Bind s name) = WsBind s (case (ip, sockaddr_ipv4 name) of
     (Some b, Some x) \<Rightarrow> if should_rewrite_explicit_bind x b then make_bind_addr b (sockaddr_port_bytes name) else name
   | _ \<Rightarrow> name)"
| "forwarded ip (Connect s name) = WsConnect s name"
| "forwarded ip (WsaConnect s name) = WsWsaConnect s name"
| "forwarded ip (CloseSocket s) = WsClose s"
| "forwarded ip (SendTo s buf flag target) = WsSendTo s buf flag target"
| "forwarded ip (RecvFrom s len flag) = WsRecvFrom s len flag"

fun failed :: "net_call \<Rightarrow> int \<Rightarrow> bool" where
  "failed (SendTo _ _ _ _) r \<longleftrightarrow> r < 0"
| "failed (RecvFrom _ _ _) r \<longleftrightarrow> r < 0"
| "failed _ r \<longleftrightarrow> r \<noteq> 0"

lemma report_error:
  assumes "\<forall>e w. ws_last_error ws (snd (ws_call ws (WsSetLastError e) w)) = e"
  shows "ws_last_error ws (net_world (report ws logging n)) = ws_last_error ws (net_world n)"
  using assms by (simp add: report_def restore_wsa_last_error_def system_call_def Let_def split_beta)

text \<open>A detoured call returns what the system answered to the one call it
  stands for, in which at most the address of a binding was replaced; and if that failed, the last
  error the game then reads is the one of this call, whatever binding a socket and logging did in
  between, provided that setting the last error does set it.\<close>

lemma errors_reach_the_game:
  assumes "\<forall>e w. ws_last_error ws (snd (ws_call ws (WsSetLastError e) w)) = e"
  shows "\<exists>w. fst (detoured ws logging gp verbose ip c n) = fst (ws_call ws (forwarded ip c) w)
    \<and> (failed c (fst (ws_call ws (forwarded ip c) w)) \<longrightarrow>
        ws_last_error ws (net_world (snd (detoured ws logging gp verbose ip c n)))
          = ws_last_error ws (snd (ws_call ws (forwarded ip c) w)))"
proof (cases c)
  case (Bind s name)
  show ?thesis
  proof (cases "\<exists>b x. ip = Some b \<and> sockaddr_ipv4 name = Some x")
    case True
    then obtain b x where b: "ip = Some b" "sockaddr_ipv4 name = Some x" by blast
    define w where "w = (if should_rewrite_explicit_bind x b then logging (net_world n) else net_world n)"
    show ?thesis
      by (rule exI [of _ w])
        (simp add: Bind b w_def bind_socket_def system_call_def Let_def split_beta report_error [OF assms])
  next
    case False
    then show ?thesis
      by (intro exI [of _ "net_world n"])
        (auto simp: Bind bind_socket_def system_call_def Let_def split_beta split: option.split)
  qed
next
  case (Connect s name)
  show ?thesis
    by (rule exI [of _ "net_world (force_bind_socket ws logging ip s name n)"])
      (simp add: Connect connect_socket_def system_call_def Let_def split_beta report_error [OF assms])
next
  case (WsaConnect s name)
  show ?thesis
    by (rule exI [of _ "net_world (force_bind_socket ws logging ip s name n)"])
      (simp add: WsaConnect wsa_connect_socket_def system_call_def Let_def split_beta report_error [OF assms])
next
  case (CloseSocket s)
  show ?thesis
    by (rule exI [of _ "net_world n"])
      (simp add: CloseSocket close_socket_def system_call_def Let_def split_beta report_error [OF assms])
next
  case (SendTo s buf flag name)
  define m where "m = force_bind_socket ws logging ip s name n"
  show ?thesis
    by (rule exI [of _ "if verbose \<and> sockaddr_port name = Some 13000 then logging (net_world m) else net_world m"])
      (simp add: SendTo sendto_socket_def m_def [symmetric] system_call_def Let_def split_beta report_error [OF assms])
next
  case (RecvFrom s len flag)
  show ?thesis
    by (rule exI [of _ "net_world n"])
      (simp add: RecvFrom recvfrom_socket_def system_call_def Let_def split_beta report_error [OF assms])
qed

text \<open>Samples: a system whose state is the last error; sending from socket 7 fails.\<close>

definition sample_winsock :: "int winsock" where
  "sample_winsock = \<lparr>ws_call = (\<lambda>c e. case c of WsSetLastError e \<Rightarrow> (0, e) | WsSendTo s _ _ _ \<Rightarrow> if s = 7 then (-1, 10065) else (5, e)
      | _ \<Rightarrow> (0, e)), ws_last_error = id\<rparr>"

definition sample_target :: sock_name where
  "sample_target = (Some \<lparr>sa_family = 2, sa_data = [0x32, 0xC8, 10, 66, 0, 9] @ replicate 8 0\<rparr>, 16)"

theorem traffic_confined_witness:
  "log_ok [10, 66, 0, 3] {} None (net_log (run_net sample_winsock id (\<lambda>_. False) False (Some [10, 66, 0, 3])
      [Bind 4 sample_target, SendTo 5 [1] 0 sample_target, CloseSocket 5, Connect 5 sample_target] \<lparr>net_world = 0, net_bound = {}, net_log = []\<rparr>))"
  using traffic_confined [of "[10, 66, 0, 3]" "\<lparr>net_world = 0, net_bound = {}, net_log = []\<rparr>" sample_winsock id "\<lambda>_. False" False]
  by simp

lemma errors_reach_the_game_witness:
  "ws_last_error sample_winsock (net_world (snd (detoured sample_winsock (\<lambda>_. 0) (\<lambda>_. False) True (Some [10, 66, 0, 3])
      (SendTo 7 [1] 0 sample_target) \<lparr>net_world = 0, net_bound = {}, net_log = []\<rparr>))) = 10065"
proof -
  have "\<forall>e w. ws_last_error sample_winsock (snd (ws_call sample_winsock (WsSetLastError e) w)) = e"
    by (simp add: sample_winsock_def)
  from errors_reach_the_game [OF this, of "\<lambda>_. 0" "\<lambda>_. False" True "Some [10, 66, 0, 3]" "SendTo 7 [1] 0 sample_target"
      "\<lparr>net_world = 0, net_bound = {}, net_log = []\<rparr>"]
  show ?thesis by (auto simp: sample_winsock_def)
qed

end
