(* ===== verification/Client_Saves.thy ===== *)
theory Client_Saves
  imports Client_Party
begin

text \<open>
  The saved games (\<open>client/hooks/src/uplay_r1_loader/save.rs\<close> and \<open>hooks-config/src/saves.rs\<close>):
  files of slots in one directory, with a second file for the name of each. The file system is a
  map from names to files and from files to their bytes, so that a handle keeps its file when
  the name is removed; \<open>sys_ok\<close> tells whether the system lets an operation succeed. A result
  \<open>None\<close> is a panic, which ends the game: a null handle, a directory that is not there.
\<close>

section \<open>Files\<close>

record disk =
  dk_dirs :: "string set"
  dk_names :: "string \<times> string \<rightharpoonup> nat"
  dk_data :: "nat \<Rightarrow> bytes"
  dk_fresh :: nat

datatype open_mode = ReadMode | WriteMode

record open_file =
  of_file :: nat
  of_mode :: open_mode
  of_pos :: nat

text \<open>\<open>File::options\<close>: reading needs the file, writing creates or empties it.\<close>

definition file_open :: "open_mode \<Rightarrow> string \<times> string \<Rightarrow> disk \<Rightarrow> (open_file \<times> disk) option" where
  "file_open mode path d =
    (case (mode, dk_names d path) of
       (ReadMode, None) \<Rightarrow> None
     | (ReadMode, Some f) \<Rightarrow> Some (\<lparr>of_file = f, of_mode = ReadMode, of_pos = 0\<rparr>, d)
     | (WriteMode, None) \<Rightarrow> Some (\<lparr>of_file = dk_fresh d, of_mode = WriteMode, of_pos = 0\<rparr>,
         d\<lparr>dk_names := (dk_names d)(path \<mapsto> dk_fresh d), dk_data := (dk_data d)(dk_fresh d := []), dk_fresh := dk_fresh d + 1\<rparr>)
     | (WriteMode, Some f) \<Rightarrow> Some (\<lparr>of_file = f, of_mode = WriteMode, of_pos = 0\<rparr>, d\<lparr>dk_data := (dk_data d)(f := [])\<rparr>))"

text \<open>Bytes written at a position, a gap before it filled with zeros.\<close>

definition overwrite :: "nat \<Rightarrow> bytes \<Rightarrow> bytes \<Rightarrow> bytes" where
  "overwrite pos new old = take pos old @ replicate (pos - length old) 0 @ new @ drop (pos + length new) old"

section \<open>Paths\<close>

definition savegames_path :: "string option \<Rightarrow> save_dir \<Rightarrow> string option" where
  "savegames_path roaming dir = (case dir of
     InstallLocation \<Rightarrow> None
   | Roaming \<Rightarrow> map_option (\<lambda>r. r @ [CHR 0x5C] @ ''5th-Echelon'' @ [CHR 0x5C] @ ''Saves'') roaming
   | Custom p \<Rightarrow> Some p)"

definition pad8 :: "string \<Rightarrow> string" where
  "pad8 s = replicate (8 - length s) (CHR ''0'') @ s"

definition savegame_name :: "nat \<Rightarrow> string" where
  "savegame_name slot_id = pad8 (show_nat slot_id) @ ''.sav''"

text \<open>Stem and extension of a file name.\<close>

definition split_extension :: "string \<Rightarrow> (string \<times> string) option" where
  "split_extension name =
    (let e = takeWhile (\<lambda>c. c \<noteq> CHR ''.'') (rev name); stem = rev (drop (Suc (length e)) (rev name))
     in if length e = length name \<or> stem = [] then None else Some (stem, rev e))"

definition with_meta :: "string \<Rightarrow> string" where
  "with_meta name = (case split_extension name of None \<Rightarrow> name @ ''.meta'' | Some (stem, _) \<Rightarrow> stem @ ''.meta'')"

section \<open>The exported functions\<close>

record save_handle =
  sh_slot :: nat
  sh_file :: "open_file option"

definition save_close :: "save_handle option \<Rightarrow> bool option" where
  "save_close h = map_option (\<lambda>_. True) h"

text \<open>
  \<open>path\<close> is the directory, \<open>usable\<close> whether the pointer for the handle is there. The answer,
  the handle written through it, and the asynchronous result.
\<close>

definition save_open ::
    "bool \<Rightarrow> bool \<Rightarrow> string option \<Rightarrow> nat \<Rightarrow> open_mode \<Rightarrow> bool \<Rightarrow> uplay_overlapped option \<Rightarrow> disk
      \<Rightarrow> ((bool \<times> save_handle option \<times> uplay_overlapped option) \<times> disk) option" where
  "save_open io_dir sys_ok path slot_id mode usable overlapped d =
    (if \<not> usable then Some ((False, None, overlapped), d)
     else Option.bind path (\<lambda>dir.
       if dir \<notin> dk_dirs d \<and> \<not> io_dir then Some ((False, None, overlapped), d)
       else let d = d\<lparr>dk_dirs := insert dir (dk_dirs d)\<rparr> in
         case (if sys_ok then file_open mode (dir, savegame_name slot_id) d else None) of
           None \<Rightarrow> Some ((False, None, map_option (set_result 6) overlapped), d)
         | Some (f, d) \<Rightarrow> Some ((True, Some \<lparr>sh_slot = slot_id, sh_file = Some f\<rparr>, complete_success overlapped), d)))"

definition finish :: "bool \<Rightarrow> uplay_overlapped option \<Rightarrow> uplay_overlapped option" where
  "finish ok overlapped = (if ok then complete_success overlapped else map_option (set_result 6) overlapped)"

text \<open>What is read, if anything is written back to the caller.\<close>

definition save_read ::
    "bool \<Rightarrow> save_handle option \<Rightarrow> nat \<Rightarrow> nat \<Rightarrow> uplay_overlapped option \<Rightarrow> disk
      \<Rightarrow> (bool \<times> save_handle \<times> bytes option \<times> uplay_overlapped option) option" where
  "save_read sys_ok h n offset overlapped d =
    map_option (\<lambda>h. case sh_file h of
        None \<Rightarrow> (True, h, None, finish True overlapped)
      | Some f \<Rightarrow>
         let ok = sys_ok \<and> of_mode f = ReadMode;
             b = take n (drop offset (dk_data d (of_file f)))
         in (ok, h\<lparr>sh_file := Some (f\<lparr>of_pos := offset + (if ok then length b else 0)\<rparr>)\<rparr>,
             if ok then Some b else None, finish ok overlapped)) h"

definition save_write ::
    "bool \<Rightarrow> save_handle option \<Rightarrow> bytes \<Rightarrow> uplay_overlapped option \<Rightarrow> disk
      \<Rightarrow> ((bool \<times> save_handle \<times> uplay_overlapped option) \<times> disk) option" where
  "save_write sys_ok h buffer overlapped d =
    map_option (\<lambda>h. case sh_file h of
        None \<Rightarrow> ((True, h, finish True overlapped), d)
      | Some f \<Rightarrow>
         if sys_ok \<and> of_mode f = WriteMode
         then ((True, h\<lparr>sh_file := Some (f\<lparr>of_pos := of_pos f + length buffer\<rparr>)\<rparr>, finish True overlapped),
           d\<lparr>dk_data := (dk_data d)(of_file f := overwrite (of_pos f) buffer (dk_data d (of_file f)))\<rparr>)
         else ((False, h, finish False overlapped), d)) h"

definition save_remove ::
    "bool \<Rightarrow> string option \<Rightarrow> nat \<Rightarrow> uplay_overlapped option \<Rightarrow> disk \<Rightarrow> ((bool \<times> uplay_overlapped option) \<times> disk) option" where
  "save_remove sys_ok path slot_id overlapped d =
    map_option (\<lambda>dir. let p = (dir, savegame_name slot_id) in
      if dk_names d p = None then ((True, complete_success overlapped), d)
      else if sys_ok then ((True, complete_success overlapped), d\<lparr>dk_names := (dk_names d)(p := None)\<rparr>)
      else ((False, map_option (set_result 6) overlapped), d)) path"

definition file_write :: "string \<times> string \<Rightarrow> bytes \<Rightarrow> disk \<Rightarrow> disk" where
  "file_write p b d = (case file_open WriteMode p d of None \<Rightarrow> d
     | Some (f, d) \<Rightarrow> d\<lparr>dk_data := (dk_data d)(of_file f := b)\<rparr>)"

definition save_set_name ::
    "bool \<Rightarrow> string option \<Rightarrow> save_handle option \<Rightarrow> bytes \<Rightarrow> disk \<Rightarrow> (bool \<times> disk) option" where
  "save_set_name sys_ok path h name d =
    Option.bind h (\<lambda>h. map_option (\<lambda>dir.
      if sys_ok \<and> dir \<in> dk_dirs d then (True, file_write (dir, with_meta (savegame_name (sh_slot h))) name d)
      else (False, d)) path)"

section \<open>The list\<close>

record uplay_save =
  sv_slot_id :: nat
  sv_name :: string
  sv_size :: nat

text \<open>
  A name with a NUL is cut where the NUL is among the characters, counted in bytes: that panics in
  the middle of a character.
\<close>

definition continuation :: "u8 \<Rightarrow> bool" where
  "continuation b \<longleftrightarrow> b AND 0xC0 = 0x80"

definition cut_name :: "bytes \<Rightarrow> bytes option" where
  "cut_name b =
    (if 0 \<notin> set b then Some b
     else let i = length (filter (\<lambda>x. \<not> continuation x) (takeWhile (\<lambda>x. x \<noteq> 0) b))
          in if continuation (b ! i) then None else Some (take i b))"

definition name_of :: "string \<Rightarrow> string \<Rightarrow> disk \<Rightarrow> string option" where
  "name_of dir file d =
    map_option bytes_str (cut_name (case dk_names d (dir, with_meta file) of
       None \<Rightarrow> [] | Some f \<Rightarrow> if utf8_valid (dk_data d f) then dk_data d f else []))"

definition listed_save :: "string \<Rightarrow> string \<Rightarrow> disk \<Rightarrow> uplay_save option option" where
  "listed_save dir file d =
    (case (split_extension file, dk_names d (dir, file)) of
       (Some (stem, e), Some f) \<Rightarrow>
         if e \<noteq> ''sav'' then Some None
         else (case parse_uint (2 ^ 32) stem of
            None \<Rightarrow> Some None
          | Some slot \<Rightarrow> map_option (\<lambda>name. Some \<lparr>sv_slot_id = slot, sv_name = name, sv_size = length (dk_data d f)\<rparr>) (name_of dir file d))
     | _ \<Rightarrow> Some None)"

text \<open>\<open>files\<close> is the order in which the directory lists its files.\<close>

definition get_savegames :: "string option \<Rightarrow> string list \<Rightarrow> disk \<Rightarrow> uplay_save list option" where
  "get_savegames path files d =
    Option.bind path (\<lambda>dir.
      if dir \<notin> dk_dirs d then Some []
      else map_option (List.map_filter id) (those (map (\<lambda>f. listed_save dir f d) files)))"

text \<open>\<open>config_loaded\<close> and the pointer for the list; 1 and 6 are the results of a failure.\<close>

definition save_get_savegames ::
    "bool \<Rightarrow> bool \<Rightarrow> string option \<Rightarrow> string list \<Rightarrow> uplay_overlapped option \<Rightarrow> disk
      \<Rightarrow> (bool \<times> uplay_save list option \<times> uplay_overlapped option) option" where
  "save_get_savegames sys_ok usable path files overlapped d =
    (if \<not> usable then Some (False, None, map_option (set_result 1) overlapped)
     else if \<not> sys_ok then Some (False, None, map_option (set_result 6) overlapped)
     else map_option (\<lambda>saves. (True, Some saves, complete_success overlapped)) (get_savegames path files d))"

section \<open>Names of slots\<close>

lemma parse_digits_zeros: "parse_digits acc (replicate k (CHR ''0'') @ s) = parse_digits (acc * 10 ^ k) s"
proof (induction k arbitrary: acc)
  case (Suc k)
  have "char_digit (CHR ''0'') = Some 0" by (simp add: char_digit_def)
  with Suc [of "10 * acc"] show ?case by (simp add: mult.assoc mult.left_commute)
qed simp

lemma parse_pad8: "n < 2 ^ 32 \<Longrightarrow> parse_uint (2 ^ 32) (pad8 (show_nat n)) = Some n"
proof -
  assume n: "n < 2 ^ 32"
  have digits: "parse_digits 0 (pad8 (show_nat n)) = Some n"
    by (simp add: pad8_def parse_digits_zeros parse_digits_show)
  obtain c cs where c: "pad8 (show_nat n) = c # cs" by (cases "pad8 (show_nat n)") (auto simp: pad8_def)
  then have "c \<in> set (pad8 (show_nat n))" by simp
  then have "48 \<le> (of_char c :: nat)" using show_nat_digits [of c n] by (auto simp: pad8_def)
  then have "c \<noteq> CHR ''+''" by auto
  with c n digits show ?thesis by (simp add: parse_uint_def)
qed

lemma savegame_name_inj: "savegame_name m = savegame_name n \<longleftrightarrow> m = n"
proof
  assume "savegame_name m = savegame_name n"
  then have "parse_digits 0 (pad8 (show_nat m)) = parse_digits 0 (pad8 (show_nat n))" by (simp add: savegame_name_def)
  then show "m = n" by (simp add: pad8_def parse_digits_zeros parse_digits_show)
qed simp

lemma pad8_nonempty [simp]: "pad8 (show_nat n) \<noteq> []"
  by (simp add: pad8_def)

lemma split_savegame: "split_extension (savegame_name n) = Some (pad8 (show_nat n), ''sav'')"
  by (simp add: split_extension_def savegame_name_def Let_def)

lemma meta_name: "with_meta (savegame_name n) = pad8 (show_nat n) @ ''.meta''"
  by (simp add: with_meta_def split_savegame)

lemma meta_differs: "with_meta (savegame_name m) \<noteq> savegame_name n"
proof
  assume "with_meta (savegame_name m) = savegame_name n"
  then have "rev (with_meta (savegame_name m)) = rev (savegame_name n)" by (rule arg_cong)
  then show False by (simp add: meta_name) (simp add: savegame_name_def)
qed

section \<open>Contents\<close>

text \<open>No two names lead to one file.\<close>

definition disk_ok :: "disk \<Rightarrow> bool" where
  "disk_ok d \<longleftrightarrow> (\<forall>p f. dk_names d p = Some f \<longrightarrow> f < dk_fresh d)
    \<and> (\<forall>p q f. dk_names d p = Some f \<and> dk_names d q = Some f \<longrightarrow> p = q)"

definition content :: "disk \<Rightarrow> string \<times> string \<Rightarrow> bytes option" where
  "content d p = map_option (dk_data d) (dk_names d p)"

lemma map_option_upd: "x \<noteq> Some f \<Longrightarrow> map_option (h(f := y)) x = map_option h x"
  by (cases x) auto

lemma write_open:
  assumes "disk_ok d" and "file_open WriteMode p d = Some (f, e)"
  shows "disk_ok e \<and> dk_names e p = Some (of_file f) \<and> of_mode f = WriteMode \<and> of_pos f = 0 \<and> dk_data e (of_file f) = []
    \<and> (\<forall>q. q \<noteq> p \<longrightarrow> content e q = content d q) \<and> dk_dirs e = dk_dirs d"
proof (cases "dk_names d p")
  case None
  then have e: "f = \<lparr>of_file = dk_fresh d, of_mode = WriteMode, of_pos = 0\<rparr>"
      "e = d\<lparr>dk_names := (dk_names d)(p \<mapsto> dk_fresh d), dk_data := (dk_data d)(dk_fresh d := []), dk_fresh := dk_fresh d + 1\<rparr>"
    using assms(2) by (simp_all add: file_open_def)
  have "dk_names d q \<noteq> Some (dk_fresh d)" for q
    using assms(1) unfolding disk_ok_def by (metis less_irrefl)
  with assms(1) show ?thesis
    by (auto simp: e disk_ok_def content_def less_Suc_eq map_option_upd split: if_splits)
next
  case (Some g)
  then have e: "f = \<lparr>of_file = g, of_mode = WriteMode, of_pos = 0\<rparr>" "e = d\<lparr>dk_data := (dk_data d)(g := [])\<rparr>"
    using assms(2) by (simp_all add: file_open_def)
  have "dk_names d q \<noteq> Some g" if "q \<noteq> p" for q using assms(1) that Some unfolding disk_ok_def by metis
  with assms(1) Some show ?thesis by (simp add: e disk_ok_def content_def map_option_upd)
qed

text \<open>Writing in several calls through one handle.\<close>

fun save_write_all :: "save_handle \<Rightarrow> bytes list \<Rightarrow> disk \<Rightarrow> (bool \<times> save_handle \<times> disk) option" where
  "save_write_all h [] d = Some (True, h, d)"
| "save_write_all h (b # bs) d = Option.bind (save_write True (Some h) b None d) (\<lambda>((ok, h, _), d).
    map_option (\<lambda>(oks, h, d). (ok \<and> oks, h, d)) (save_write_all h bs d))"

lemma write_all:
  assumes "sh_file h = Some f" and "of_mode f = WriteMode" and "of_pos f = length (dk_data d (of_file f))"
  shows "\<exists>k. save_write_all h bs d = Some (True, h\<lparr>sh_file := Some k\<rparr>,
    d\<lparr>dk_data := (dk_data d)(of_file f := dk_data d (of_file f) @ concat bs)\<rparr>)"
  using assms
proof (induction bs arbitrary: h f d)
  case Nil
  then show ?case by (intro exI [of _ f]) simp
next
  case (Cons b bs)
  let ?f = "f\<lparr>of_pos := of_pos f + length b\<rparr>" and ?h = "h\<lparr>sh_file := Some (f\<lparr>of_pos := of_pos f + length b\<rparr>)\<rparr>"
  let ?d = "d\<lparr>dk_data := (dk_data d)(of_file f := dk_data d (of_file f) @ b)\<rparr>"
  have "save_write True (Some h) b None d = Some ((True, ?h, None), ?d)"
    using Cons.prems by (simp add: save_write_def overwrite_def finish_def complete_success_def)
  moreover obtain k where "save_write_all ?h bs ?d = Some (True, ?h\<lparr>sh_file := Some k\<rparr>,
      ?d\<lparr>dk_data := (dk_data ?d)(of_file ?f := dk_data ?d (of_file ?f) @ concat bs)\<rparr>)"
    using Cons.IH [of ?h ?f ?d] Cons.prems by (auto simp del: fun_upd_apply simp: fun_upd_same)
  ultimately show ?case by (intro exI [of _ k]) (simp del: fun_upd_apply add: fun_upd_same)
qed

lemma cut_name_plain: "0 \<notin> set b \<Longrightarrow> cut_name b = Some b"
  by (simp add: cut_name_def)

section \<open>Properties\<close>


definition empty_disk :: disk where
  "empty_disk = \<lparr>dk_dirs = {}, dk_names = Map.empty, dk_data = (\<lambda>_. []), dk_fresh = 0\<rparr>"


text \<open>
  A name in the file of names that holds a NUL behind a character of several bytes is cut in the
  wrong place, and may be cut in the middle of the character.
\<close>

lemma name_cut_wrongly: "cut_name [0xC3, 0xA4, 65, 0] = Some [0xC3, 0xA4] \<and> cut_name [0xC3, 0xA4, 0] = None"
  by (simp add: cut_name_def continuation_def)

end
