(* ===== verification/Client_Lists.thy ===== *)
theory Client_Lists
  imports Client_Saves
begin

text \<open>
  The lists handed to the game (\<open>client/hooks/src/uplay_r1_loader/types.rs\<close>): structures on the
  heap that own their texts, built from a value and taken back by \<open>UPLAY_Release\<close>. The heap is
  explicit, so that what is freed can be stated; a cell is one allocation, the pointer of an
  empty vector a cell too. Taking back is \<open>None\<close> where the code fails or would touch
  memory that is not there.
\<close>

section \<open>The heap\<close>

type_synonym ptr = nat

datatype list_type = TCdKeys | TSaves | TFriends

record raw_list =
  rl_count :: nat
  rl_list :: ptr
  rl_type :: list_type

datatype cell =
    CText string
  | CKey ptr
  | CSave nat ptr nat
  | CFriend ptr ptr ptr
  | CDetails nat
  | CPointers "ptr list"
  | CList raw_list

record heap =
  hp_next :: ptr
  hp_cells :: "ptr \<rightharpoonup> cell"

definition heap_ok :: "heap \<Rightarrow> bool" where
  "heap_ok h \<longleftrightarrow> 0 < hp_next h \<and> (\<forall>a\<ge>hp_next h. hp_cells h a = None)"

definition alloc :: "cell \<Rightarrow> heap \<Rightarrow> ptr \<times> heap" where
  "alloc c h = (hp_next h, h\<lparr>hp_next := hp_next h + 1, hp_cells := (hp_cells h)(hp_next h \<mapsto> c)\<rparr>)"

text \<open>\<open>Box::from_raw\<close> and the drop at the end: the cell is read and gone.\<close>

definition take_cell :: "ptr \<Rightarrow> heap \<Rightarrow> (cell \<times> heap) option" where
  "take_cell a h = map_option (\<lambda>c. (c, h\<lparr>hp_cells := (hp_cells h)(a := None)\<rparr>)) (if a = 0 then None else hp_cells h a)"

text \<open>\<open>CString::new(..).unwrap().into_raw()\<close>: a text with a NUL panics.\<close>

definition put_text :: "string \<Rightarrow> heap \<Rightarrow> (ptr \<times> heap) option" where
  "put_text s h = (if CHR 0x00 \<in> set s then None else Some (alloc (CText s) h))"

definition take_text :: "ptr \<Rightarrow> heap \<Rightarrow> (string \<times> heap) option" where
  "take_text a h = (case take_cell a h of Some (CText s, h) \<Rightarrow> Some (s, h) | _ \<Rightarrow> None)"

section \<open>Items\<close>

definition put_key :: "string \<Rightarrow> heap \<Rightarrow> (ptr \<times> heap) option" where
  "put_key key h = map_option (\<lambda>(t, h). alloc (CKey t) h) (put_text key h)"

definition take_key :: "ptr \<Rightarrow> heap \<Rightarrow> (string \<times> heap) option" where
  "take_key a h = (case take_cell a h of Some (CKey t, h) \<Rightarrow> take_text t h | _ \<Rightarrow> None)"

definition put_save :: "uplay_save \<Rightarrow> heap \<Rightarrow> (ptr \<times> heap) option" where
  "put_save s h = map_option (\<lambda>(t, h). alloc (CSave (sv_slot_id s) t (sv_size s)) h) (put_text (sv_name s) h)"

definition take_save :: "ptr \<Rightarrow> heap \<Rightarrow> (uplay_save \<times> heap) option" where
  "take_save a h = (case take_cell a h of
     Some (CSave slot t bytes, h) \<Rightarrow> map_option (\<lambda>(n, h). (\<lparr>sv_slot_id = slot, sv_name = n, sv_size = bytes\<rparr>, h)) (take_text t h)
   | _ \<Rightarrow> None)"

record uplay_friend =
  uf_id :: string
  uf_username :: string
  uf_is_online :: bool

definition put_friend :: "uplay_friend \<Rightarrow> heap \<Rightarrow> (ptr \<times> heap) option" where
  "put_friend f h =
    Option.bind (put_text (uf_id f) h) (\<lambda>(i, h).
    Option.bind (put_text (uf_username f) h) (\<lambda>(n, h).
    let (d, h) = alloc (CDetails (if uf_is_online f then 0 else 2)) h in Some (alloc (CFriend i n d) h)))"

definition take_friend :: "ptr \<Rightarrow> heap \<Rightarrow> (uplay_friend \<times> heap) option" where
  "take_friend a h = (case take_cell a h of
     Some (CFriend i n d, h) \<Rightarrow>
       if i = 0 \<or> n = 0 then None
       else Option.bind (if d = 0 then Some (True, h) else (case take_cell d h of Some (CDetails u, h) \<Rightarrow> Some (u < 2, h) | _ \<Rightarrow> None)) (\<lambda>(online, h).
       Option.bind (take_text i h) (\<lambda>(x, h).
       map_option (\<lambda>(y, h). (\<lparr>uf_id = x, uf_username = y, uf_is_online = online\<rparr>, h)) (take_text n h)))
   | _ \<Rightarrow> None)"

section \<open>Lists\<close>

datatype uplay_list = CdKeys "string list" | Saves "uplay_save list" | Friends "uplay_friend list"

fun put_all :: "('x \<Rightarrow> heap \<Rightarrow> (ptr \<times> heap) option) \<Rightarrow> 'x list \<Rightarrow> heap \<Rightarrow> (ptr list \<times> heap) option" where
  "put_all put [] h = Some ([], h)"
| "put_all put (x # xs) h =
    Option.bind (put x h) (\<lambda>(a, h). map_option (\<lambda>(as, h). (a # as, h)) (put_all put xs h))"

fun take_all :: "(ptr \<Rightarrow> heap \<Rightarrow> ('x \<times> heap) option) \<Rightarrow> ptr list \<Rightarrow> heap \<Rightarrow> ('x list \<times> heap) option" where
  "take_all tk [] h = Some ([], h)"
| "take_all tk (a # as) h =
    Option.bind (tk a h) (\<lambda>(x, h). map_option (\<lambda>(xs, h). (x # xs, h)) (take_all tk as h))"

definition from_vec :: "list_type \<Rightarrow> ptr list \<Rightarrow> heap \<Rightarrow> raw_list \<times> heap" where
  "from_vec ty as h = (let (v, h) = alloc (CPointers as) h in (\<lparr>rl_count = length as, rl_list = v, rl_type = ty\<rparr>, h))"

definition into_vec :: "raw_list \<Rightarrow> heap \<Rightarrow> (ptr list \<times> heap) option" where
  "into_vec l h = (case take_cell (rl_list l) h of
     Some (CPointers as, h) \<Rightarrow> if length as = rl_count l then Some (as, h) else None | _ \<Rightarrow> None)"

fun list_of :: "uplay_list \<Rightarrow> heap \<Rightarrow> (raw_list \<times> heap) option" where
  "list_of (CdKeys xs) h = map_option (\<lambda>(as, h). from_vec TCdKeys as h) (put_all put_key xs h)"
| "list_of (Saves xs) h = map_option (\<lambda>(as, h). from_vec TSaves as h) (put_all put_save xs h)"
| "list_of (Friends xs) h = map_option (\<lambda>(as, h). from_vec TFriends as h) (put_all put_friend xs h)"

definition try_into_list :: "raw_list \<Rightarrow> heap \<Rightarrow> (uplay_list \<times> heap) option" where
  "try_into_list l h =
    Option.bind (into_vec l h) (\<lambda>(as, h). case rl_type l of
      TCdKeys \<Rightarrow> map_option (\<lambda>(xs, h). (CdKeys xs, h)) (take_all take_key as h)
    | TSaves \<Rightarrow> map_option (\<lambda>(xs, h). (Saves xs, h)) (take_all take_save as h)
    | TFriends \<Rightarrow> map_option (\<lambda>(xs, h). (Friends xs, h)) (take_all take_friend as h))"

text \<open>A list in a box of its own, as \<open>GetCdKeys\<close> and \<open>GetSavegames\<close> return it, and its release.\<close>

definition boxed_list :: "uplay_list \<Rightarrow> heap \<Rightarrow> (ptr \<times> heap) option" where
  "boxed_list l h = map_option (\<lambda>(r, h). alloc (CList r) h) (list_of l h)"

definition release :: "ptr \<Rightarrow> heap \<Rightarrow> heap option" where
  "release p h = (if p = 0 then Some h else (case take_cell p h of
     Some (CList r, h) \<Rightarrow> map_option snd (try_into_list r h) | _ \<Rightarrow> None))"

text \<open>\<open>GetCdKeys\<close>, and \<open>GetFriendList\<close>, which writes count and pointer into a list of the caller.\<close>

definition get_cd_keys :: "client_config \<Rightarrow> uplay_overlapped option \<Rightarrow> heap \<Rightarrow> (ptr \<times> uplay_overlapped option \<times> heap) option" where
  "get_cd_keys cfg overlapped h = map_option
    (\<lambda>(p, h). (p, map_option (\<lambda>o'. o'\<lparr>uo_unk := 0, uo_is_completed := 1, uo_result := 0\<rparr>) overlapped, h))
    (boxed_list (CdKeys (cu_cd_keys (cc_user cfg))) h)"

definition get_friend_list :: "uplay_friend list option \<Rightarrow> raw_list \<Rightarrow> heap \<Rightarrow> (bool \<times> raw_list \<times> heap) option" where
  "get_friend_list friends out h = map_option
    (\<lambda>(l, h). (True, out\<lparr>rl_count := rl_count l, rl_list := rl_list l\<rparr>, h))
    (list_of (Friends (case friends of None \<Rightarrow> [] | Some fs \<Rightarrow> fs)) h)"

section \<open>Taking back what was put\<close>

text \<open>The heap without the cells from one address up to another.\<close>

definition cleared :: "ptr \<Rightarrow> ptr \<Rightarrow> heap \<Rightarrow> heap" where
  "cleared lo hi h = h\<lparr>hp_cells := (\<lambda>a. if lo \<le> a \<and> a < hi then None else hp_cells h a)\<rparr>"

definition same_cells :: "ptr \<Rightarrow> ptr \<Rightarrow> heap \<Rightarrow> heap \<Rightarrow> bool" where
  "same_cells lo hi h k \<longleftrightarrow> (\<forall>a. lo \<le> a \<and> a < hi \<longrightarrow> hp_cells k a = hp_cells h a)"

text \<open>
  An item is put into fresh cells only, and taken back from exactly these, also when other cells
  have come and gone meanwhile.
\<close>

lemma heap_eqI: "hp_next h = hp_next k \<Longrightarrow> (\<And>a. hp_cells h a = hp_cells k a) \<Longrightarrow> (h :: heap) = k"
  by (cases h, cases k) auto

lemma cleared_simps [simp]: "hp_next (cleared lo hi h) = hp_next h"
    "hp_cells (cleared lo hi h) a = (if lo \<le> a \<and> a < hi then None else hp_cells h a)"
  by (simp_all add: cleared_def)

lemma same_cellsD: "same_cells lo hi h k \<Longrightarrow> lo \<le> a \<Longrightarrow> a < hi \<Longrightarrow> hp_cells k a = hp_cells h a"
  by (simp add: same_cells_def)

text \<open>A heap grown from another: the cells of the other are as they were, fresh ones may be there.\<close>

definition grown :: "heap \<Rightarrow> heap \<Rightarrow> bool" where
  "grown h h' \<longleftrightarrow> heap_ok h' \<and> hp_next h \<le> hp_next h' \<and> (\<forall>b<hp_next h. hp_cells h' b = hp_cells h b)"

lemma grown_trans: "grown h k \<Longrightarrow> grown k m \<Longrightarrow> grown h m"
  by (auto simp: grown_def)

lemma grown_refl: "heap_ok h \<Longrightarrow> grown h h"
  by (simp add: grown_def)

locale heap_item =
  fixes put :: "'x \<Rightarrow> heap \<Rightarrow> (ptr \<times> heap) option" and tk :: "ptr \<Rightarrow> heap \<Rightarrow> ('x \<times> heap) option"
  assumes put_grown: "put x h = Some (a, h') \<Longrightarrow> heap_ok h \<Longrightarrow> grown h h'"
    and take_put: "put x h = Some (a, h') \<Longrightarrow> heap_ok h \<Longrightarrow> same_cells (hp_next h) (hp_next h') h' k \<Longrightarrow>
      tk a k = Some (x, cleared (hp_next h) (hp_next h') k)"
begin

lemma put_all_grown:
  "put_all put xs h = Some (as, h') \<Longrightarrow> heap_ok h \<Longrightarrow> grown h h' \<and> length as = length xs"
proof (induction xs arbitrary: h as)
  case (Cons x xs)
  then obtain a k bs where k: "put x h = Some (a, k)" "put_all put xs k = Some (bs, h')" "as = a # bs"
    by (auto simp: bind_eq_Some_conv)
  note p = put_grown [OF k(1) Cons.prems(2)]
  then have "heap_ok k" by (simp add: grown_def)
  from Cons.IH [OF k(2) this] show ?case using grown_trans [OF p] k(3) by simp
qed (simp add: grown_refl)

lemma take_put_all:
  "put_all put xs h = Some (as, h') \<Longrightarrow> heap_ok h \<Longrightarrow> same_cells (hp_next h) (hp_next h') h' k \<Longrightarrow>
    take_all tk as k = Some (xs, cleared (hp_next h) (hp_next h') k)"
proof (induction xs arbitrary: h as k)
  case Nil
  then show ?case by (auto intro!: heap_eqI)
next
  case (Cons x xs)
  then obtain a m bs where m: "put x h = Some (a, m)" "put_all put xs m = Some (bs, h')" "as = a # bs"
    by (auto simp: bind_eq_Some_conv)
  note p = put_grown [OF m(1) Cons.prems(2)]
  then have ok: "heap_ok m" by (simp add: grown_def)
  note q = put_all_grown [OF m(2) ok, THEN conjunct1]
  define k1 where "k1 = cleared (hp_next h) (hp_next m) k"
  have "same_cells (hp_next h) (hp_next m) m k" using Cons.prems(3) p q by (auto simp: same_cells_def grown_def)
  then have t: "tk a k = Some (x, k1)" using take_put [OF m(1) Cons.prems(2)] by (simp add: k1_def)
  have "same_cells (hp_next m) (hp_next h') h' k1"
    using Cons.prems(3) p by (auto simp: same_cells_def k1_def grown_def)
  from Cons.IH [OF m(2) ok this]
  have "take_all tk bs k1 = Some (xs, cleared (hp_next m) (hp_next h') k1)" .
  moreover have "cleared (hp_next m) (hp_next h') k1 = cleared (hp_next h) (hp_next h') k"
    using p q by (intro heap_eqI) (auto simp: k1_def grown_def)
  ultimately show ?case using t m(3) by simp
qed

text \<open>The same for the vector built of the items.\<close>

lemma take_put_vec:
  assumes "put_all put xs h = Some (as, h')" and "heap_ok h" and "from_vec ty as h' = (r, h1)"
    and k: "same_cells (hp_next h) (hp_next h1) h1 k"
  shows "\<exists>k'. into_vec r k = Some (as, k') \<and> take_all tk as k' = Some (xs, cleared (hp_next h) (hp_next h1) k)"
proof -
  note q = put_all_grown [OF assms(1,2)]
  have r: "r = \<lparr>rl_count = length as, rl_list = hp_next h', rl_type = ty\<rparr>"
      "h1 = h'\<lparr>hp_next := hp_next h' + 1, hp_cells := (hp_cells h')(hp_next h' \<mapsto> CPointers as)\<rparr>"
    using assms(3) by (auto simp: from_vec_def alloc_def Let_def)
  define k' where "k' = k\<lparr>hp_cells := (hp_cells k)(hp_next h' := None)\<rparr>"
  have "hp_cells k (hp_next h') = Some (CPointers as)" using k q r by (simp add: same_cells_def grown_def)
  then have "into_vec r k = Some (as, k')"
    using q by (simp add: into_vec_def take_cell_def r(1) k'_def heap_ok_def grown_def)
  moreover have "same_cells (hp_next h) (hp_next h') h' k'" using k q r by (auto simp: same_cells_def k'_def)
  from take_put_all [OF assms(1,2) this] have "take_all tk as k' = Some (xs, cleared (hp_next h) (hp_next h') k')" .
  moreover have "cleared (hp_next h) (hp_next h') k' = cleared (hp_next h) (hp_next h1) k"
    using q r by (intro heap_eqI) (auto simp: k'_def grown_def)
  ultimately show ?thesis by simp
qed

lemma vec_grown:
  assumes "put_all put xs h = Some (as, h')" and "heap_ok h" and "from_vec ty as h' = (r, h1)"
  shows "grown h h1 \<and> rl_type r = ty"
  using put_all_grown [OF assms(1,2)] assms(3) by (auto simp: from_vec_def alloc_def Let_def grown_def heap_ok_def)

end

subsection \<open>The three kinds of item\<close>

lemmas heap_defs = alloc_def take_cell_def put_text_def take_text_def put_key_def take_key_def put_save_def
  take_save_def put_friend_def take_friend_def

lemma put_textD: "put_text s h = Some (a, h') \<Longrightarrow> a = hp_next h \<and>
    h' = h\<lparr>hp_next := hp_next h + 1, hp_cells := (hp_cells h)(hp_next h \<mapsto> CText s)\<rparr>"
  by (auto simp: put_text_def alloc_def split: if_splits)

lemma put_keyD: "put_key s h = Some (a, h') \<Longrightarrow> a = hp_next h + 1 \<and>
    h' = h\<lparr>hp_next := hp_next h + 2, hp_cells := (hp_cells h)(hp_next h \<mapsto> CText s, hp_next h + 1 \<mapsto> CKey (hp_next h))\<rparr>"
  by (auto simp: put_key_def alloc_def dest!: put_textD)

lemma put_saveD: "put_save s h = Some (a, h') \<Longrightarrow> a = hp_next h + 1 \<and>
    h' = h\<lparr>hp_next := hp_next h + 2, hp_cells := (hp_cells h)(hp_next h \<mapsto> CText (sv_name s),
      hp_next h + 1 \<mapsto> CSave (sv_slot_id s) (hp_next h) (sv_size s))\<rparr>"
  by (auto simp: put_save_def alloc_def dest!: put_textD)

lemma put_friendD: "put_friend f h = Some (a, h') \<Longrightarrow> a = hp_next h + 3 \<and>
    h' = h\<lparr>hp_next := hp_next h + 4, hp_cells := (hp_cells h)(hp_next h \<mapsto> CText (uf_id f),
      hp_next h + 1 \<mapsto> CText (uf_username f), hp_next h + 2 \<mapsto> CDetails (if uf_is_online f then 0 else 2),
      hp_next h + 3 \<mapsto> CFriend (hp_next h) (hp_next h + 1) (hp_next h + 2))\<rparr>"
  by (auto simp: put_friend_def alloc_def bind_eq_Some_conv Let_def numeral_eq_Suc dest!: put_textD)

interpretation key: heap_item put_key take_key
proof (unfold_locales, goal_cases)
  case (1 x h a h')
  then show ?case by (auto simp: grown_def heap_ok_def dest!: put_keyD)
next
  case (2 x h a h' k)
  note d = put_keyD [OF 2(1)]
  have "hp_cells k (hp_next h) = Some (CText x)" "hp_cells k (hp_next h + 1) = Some (CKey (hp_next h))"
    using same_cellsD [OF 2(3), of "hp_next h"] same_cellsD [OF 2(3), of "hp_next h + 1"] d by simp_all
  then show ?case using d 2(2)
    by (auto simp: take_key_def take_text_def take_cell_def heap_ok_def intro!: heap_eqI)
qed

interpretation save: heap_item put_save take_save
proof (unfold_locales, goal_cases)
  case (1 x h a h')
  then show ?case by (auto simp: grown_def heap_ok_def dest!: put_saveD)
next
  case (2 x h a h' k)
  note d = put_saveD [OF 2(1)]
  have "hp_cells k (hp_next h) = Some (CText (sv_name x))"
      "hp_cells k (hp_next h + 1) = Some (CSave (sv_slot_id x) (hp_next h) (sv_size x))"
    using same_cellsD [OF 2(3), of "hp_next h"] same_cellsD [OF 2(3), of "hp_next h + 1"] d by simp_all
  then show ?case using d 2(2)
    by (auto simp: take_save_def take_text_def take_cell_def heap_ok_def intro!: heap_eqI)
qed

interpretation friend: heap_item put_friend take_friend
proof (unfold_locales, goal_cases)
  case (1 x h a h')
  then show ?case by (auto simp: grown_def heap_ok_def dest!: put_friendD)
next
  case (2 x h a h' k)
  note d = put_friendD [OF 2(1)]
  have "hp_cells k (hp_next h) = Some (CText (uf_id x))" "hp_cells k (hp_next h + 1) = Some (CText (uf_username x))"
      "hp_cells k (hp_next h + 2) = Some (CDetails (if uf_is_online x then 0 else 2))"
      "hp_cells k (hp_next h + 3) = Some (CFriend (hp_next h) (hp_next h + 1) (hp_next h + 2))"
    using same_cellsD [OF 2(3), of "hp_next h"] same_cellsD [OF 2(3), of "hp_next h + 1"]
      same_cellsD [OF 2(3), of "hp_next h + 2"] same_cellsD [OF 2(3), of "hp_next h + 3"] d by simp_all
  then show ?case using d 2(2)
    by (auto simp: take_friend_def take_text_def take_cell_def heap_ok_def intro!: heap_eqI)
qed

subsection \<open>A list and its release\<close>

lemma list_of_grown: "list_of l h = Some (r, h') \<Longrightarrow> heap_ok h \<Longrightarrow> grown h h'"
  by (cases l) (auto dest: key.vec_grown save.vec_grown friend.vec_grown)

lemma try_into_list_of:
  "list_of l h = Some (r, h') \<Longrightarrow> heap_ok h \<Longrightarrow> same_cells (hp_next h) (hp_next h') h' k \<Longrightarrow>
    try_into_list r k = Some (l, cleared (hp_next h) (hp_next h') k)"
proof (cases l)
  case (CdKeys xs)
  assume a: "list_of l h = Some (r, h')" "heap_ok h" "same_cells (hp_next h) (hp_next h') h' k"
  then obtain as m where m: "put_all put_key xs h = Some (as, m)" "from_vec TCdKeys as m = (r, h')"
    by (auto simp: CdKeys)
  from key.take_put_vec [OF m(1) a(2) m(2) a(3)] key.vec_grown [OF m(1) a(2) m(2)]
  show ?thesis by (auto simp: try_into_list_def CdKeys)
next
  case (Saves xs)
  assume a: "list_of l h = Some (r, h')" "heap_ok h" "same_cells (hp_next h) (hp_next h') h' k"
  then obtain as m where m: "put_all put_save xs h = Some (as, m)" "from_vec TSaves as m = (r, h')"
    by (auto simp: Saves)
  from save.take_put_vec [OF m(1) a(2) m(2) a(3)] save.vec_grown [OF m(1) a(2) m(2)]
  show ?thesis by (auto simp: try_into_list_def Saves)
next
  case (Friends xs)
  assume a: "list_of l h = Some (r, h')" "heap_ok h" "same_cells (hp_next h) (hp_next h') h' k"
  then obtain as m where m: "put_all put_friend xs h = Some (as, m)" "from_vec TFriends as m = (r, h')"
    by (auto simp: Friends)
  from friend.take_put_vec [OF m(1) a(2) m(2) a(3)] friend.vec_grown [OF m(1) a(2) m(2)]
  show ?thesis by (auto simp: try_into_list_def Friends)
qed

definition list_texts :: "uplay_list \<Rightarrow> string list" where
  "list_texts l = (case l of CdKeys ks \<Rightarrow> ks | Saves ss \<Rightarrow> map sv_name ss | Friends fs \<Rightarrow> concat (map (\<lambda>f. [uf_id f, uf_username f]) fs))"

lemma put_all_None:
  assumes "\<And>x h. put x h = None \<longleftrightarrow> bad x"
  shows "put_all put xs h = None \<longleftrightarrow> (\<exists>x\<in>set xs. bad x)"
proof (induction xs arbitrary: h)
  case (Cons x xs)
  show ?case
  proof (cases "put x h")
    case None
    then show ?thesis using assms [of x h] by simp
  next
    case (Some p)
    obtain a k where p: "p = (a, k)" by (cases p)
    show ?thesis using Some p assms [of x h] Cons.IH [of k] by auto
  qed
qed simp

lemma put_None:
  "put_text s h = None \<longleftrightarrow> CHR 0x00 \<in> set s"
  "put_key s h = None \<longleftrightarrow> CHR 0x00 \<in> set s"
  "put_save v h = None \<longleftrightarrow> CHR 0x00 \<in> set (sv_name v)"
  "put_friend f h = None \<longleftrightarrow> CHR 0x00 \<in> set (uf_id f) \<or> CHR 0x00 \<in> set (uf_username f)"
  by (auto simp: put_text_def put_key_def put_save_def put_friend_def alloc_def Let_def)

lemma list_of_None: "list_of l h = None \<longleftrightarrow> (\<exists>t\<in>set (list_texts l). CHR 0x00 \<in> set t)"
proof (cases l)
  case (CdKeys xs)
  show ?thesis using put_all_None [where put=put_key, OF put_None(2)] by (simp add: CdKeys list_texts_def)
next
  case (Saves xs)
  show ?thesis using put_all_None [where put=put_save, OF put_None(3)] by (simp add: Saves list_texts_def)
next
  case (Friends xs)
  show ?thesis using put_all_None [where put=put_friend, OF put_None(4)] by (auto simp: Friends list_texts_def)
qed

text \<open>The box around the list is one more cell, the last.\<close>

lemma boxed_take:
  assumes "boxed_list l h = Some (p, h')" and "heap_ok h" and "same_cells (hp_next h) (hp_next h') h' k"
  shows "\<exists>r k'. take_cell p k = Some (CList r, k') \<and> try_into_list r k' = Some (l, cleared (hp_next h) (hp_next h') k)"
proof -
  obtain r m where m: "list_of l h = Some (r, m)" "p = hp_next m"
      "h' = m\<lparr>hp_next := hp_next m + 1, hp_cells := (hp_cells m)(hp_next m \<mapsto> CList r)\<rparr>"
    using assms(1) by (auto simp: boxed_list_def alloc_def)
  note g = list_of_grown [OF m(1) assms(2)]
  define k' where "k' = k\<lparr>hp_cells := (hp_cells k)(p := None)\<rparr>"
  have "hp_cells k p = Some (CList r)" using same_cellsD [OF assms(3), of p] g m by (simp add: grown_def)
  then have "take_cell p k = Some (CList r, k')"
    using g m(2) by (simp add: take_cell_def k'_def grown_def heap_ok_def)
  moreover have "same_cells (hp_next h) (hp_next m) m k'"
    using assms(3) m by (auto simp: same_cells_def k'_def)
  from try_into_list_of [OF m(1) assms(2) this]
  have "try_into_list r k' = Some (l, cleared (hp_next h) (hp_next m) k')" .
  moreover have "cleared (hp_next h) (hp_next m) k' = cleared (hp_next h) (hp_next h') k"
    using g m by (intro heap_eqI) (auto simp: k'_def grown_def)
  ultimately show ?thesis by simp
qed

lemma boxed_grown: "boxed_list l h = Some (p, h') \<Longrightarrow> heap_ok h \<Longrightarrow> grown h h' \<and> 0 < p"
  by (auto simp: boxed_list_def alloc_def grown_def heap_ok_def dest!: list_of_grown)

lemma boxed_release:
  assumes "boxed_list l h = Some (p, h')" and "heap_ok h" and "same_cells (hp_next h) (hp_next h') h' k"
  shows "release p k = Some (cleared (hp_next h) (hp_next h') k)"
  using boxed_take [OF assms] boxed_grown [OF assms(1,2)] by (auto simp: release_def)

lemma boxed_release_at_once:
  assumes "boxed_list l h = Some (p, h')" and "heap_ok h"
  shows "\<exists>k. release p h' = Some k \<and> hp_cells k = hp_cells h"
proof -
  have "release p h' = Some (cleared (hp_next h) (hp_next h') h')"
    by (rule boxed_release [OF assms]) (simp add: same_cells_def)
  moreover have "hp_cells (cleared (hp_next h) (hp_next h') h') a = hp_cells h a" for a
    using boxed_grown [OF assms] assms(2) by (auto simp: grown_def heap_ok_def not_less)
  ultimately show ?thesis by auto
qed


definition sample_heap :: heap where
  "sample_heap = \<lparr>hp_next = 5, hp_cells = [2 \<mapsto> CText ''other'']\<rparr>"

definition sample_friends :: uplay_list where
  "sample_friends = Friends [\<lparr>uf_id = ''7'', uf_username = ''sam'', uf_is_online = True\<rparr>]"


end
