(* ===== verification/Game_Patterns.thy ===== *)
theory Game_Patterns
  imports Prelude
begin

text \<open>
  Patterns of bytes in the game's image (\<open>client/hooks/hooks-addresses/src/patterns.rs\<close>): parsing, printing,
  matching and searching.
\<close>

section \<open>Nibbles\<close>

datatype pattern_nibble = Wildcard | Exact u8

text \<open>\<open>char::to_digit(16)\<close>, and a byte as \<open>{:X}\<close> prints it.\<close>

definition to_digit16 :: "char \<Rightarrow> nat option" where
  "to_digit16 c =
    (let n = of_char c :: nat in
     if 48 \<le> n \<and> n \<le> 57 then Some (n - 48)
     else if 65 \<le> n \<and> n \<le> 70 then Some (n - 55)
     else if 97 \<le> n \<and> n \<le> 102 then Some (n - 87) else None)"

definition upper_digit :: "nat \<Rightarrow> char" where
  "upper_digit n = (if n < 10 then char_of (48 + n) else char_of (55 + n))"

definition upper_hex :: "u8 \<Rightarrow> string" where
  "upper_hex b = (if unat b < 16 then [] else [upper_digit (unat b div 16)]) @ [upper_digit (unat b mod 16)]"

definition parse_nibble :: "char \<Rightarrow> pattern_nibble option" where
  "parse_nibble c = (if c = CHR ''?'' then Some Wildcard else map_option (\<lambda>n. Exact (of_nat n)) (to_digit16 c))"

fun nibble_matches :: "pattern_nibble \<Rightarrow> u8 \<Rightarrow> bool" where
  "nibble_matches Wildcard n \<longleftrightarrow> True"
| "nibble_matches (Exact m) n \<longleftrightarrow> m = n"

fun show_nibble :: "pattern_nibble \<Rightarrow> string" where
  "show_nibble Wildcard = ''?''"
| "show_nibble (Exact n) = upper_hex n"

section \<open>Octets\<close>

datatype pattern_octet = Full pattern_nibble pattern_nibble | Partial pattern_nibble

definition octet_new :: "u8 \<Rightarrow> pattern_octet" where
  "octet_new byte = Full (Exact (drop_bit 4 byte)) (Exact (byte AND 0xF))"

fun octet_matches :: "pattern_octet \<Rightarrow> u8 \<Rightarrow> bool" where
  "octet_matches (Full high low) byte \<longleftrightarrow> nibble_matches high (drop_bit 4 byte) \<and> nibble_matches low (byte AND 0xF)"
| "octet_matches (Partial n) byte \<longleftrightarrow> nibble_matches n (drop_bit 4 byte)"

fun show_octet :: "pattern_octet \<Rightarrow> string" where
  "show_octet (Full high low) = show_nibble high @ show_nibble low"
| "show_octet (Partial n) = show_nibble n @ ''?''"

section \<open>Patterns\<close>

type_synonym pattern = "pattern_octet list"

fun chunk_nibbles :: "pattern_nibble list \<Rightarrow> pattern" where
  "chunk_nibbles [] = []"
| "chunk_nibbles [n] = [Partial n]"
| "chunk_nibbles (m # n # ns) = Full m n # chunk_nibbles ns"

definition parse_pattern :: "string \<Rightarrow> pattern option" where
  "parse_pattern s = map_option chunk_nibbles (those (map parse_nibble (filter (\<lambda>c. c \<noteq> CHR '' '') s)))"

fun show_pattern :: "pattern \<Rightarrow> string" where
  "show_pattern [] = ''''"
| "show_pattern [x] = show_octet x"
| "show_pattern (x # xs) = show_octet x @ '' '' @ show_pattern xs"

definition pattern_matches :: "pattern \<Rightarrow> bytes \<Rightarrow> bool" where
  "pattern_matches p data \<longleftrightarrow> length p \<le> length data \<and> list_all (\<lambda>(x, b). octet_matches x b) (zip p data)"

text \<open>\<open>windows\<close>, from an index on; it panics for the length 0, so the two searches do.\<close>

fun windows :: "nat \<Rightarrow> nat \<Rightarrow> bytes \<Rightarrow> (nat \<times> bytes) list" where
  "windows n i data = (if length data < n then [] else
    (i, take n data) # (case data of [] \<Rightarrow> [] | _ # ds \<Rightarrow> windows n (Suc i) ds))"

fun search_windows :: "pattern \<Rightarrow> (nat \<times> bytes) list \<Rightarrow> nat option" where
  "search_windows p [] = None"
| "search_windows p ((i, w) # ws) = (if pattern_matches p w then Some i else search_windows p ws)"

definition pattern_search :: "pattern \<Rightarrow> bytes \<Rightarrow> nat option option" where
  "pattern_search p data = (if p = [] then None else Some (search_windows p (windows (length p) 0 data)))"

fun unique_window :: "pattern \<Rightarrow> bool \<Rightarrow> (nat \<times> bytes) list \<Rightarrow> bool" where
  "unique_window p found [] \<longleftrightarrow> found"
| "unique_window p found ((i, w) # ws) \<longleftrightarrow>
    (if pattern_matches p w then if found then False else unique_window p True ws else unique_window p found ws)"

definition is_unique :: "pattern \<Rightarrow> bytes \<Rightarrow> bool option" where
  "is_unique p data = (if p = [] then None else Some (unique_window p False (windows (length p) 0 data)))"

section \<open>Searching\<close>

text \<open>The pattern fits the bytes from an offset on.\<close>

definition occurs :: "pattern \<Rightarrow> bytes \<Rightarrow> nat \<Rightarrow> bool" where
  "occurs p data i \<longleftrightarrow> i + length p \<le> length data \<and> (\<forall>k<length p. octet_matches (p ! k) (data ! (i + k)))"

lemma matches_nth: "pattern_matches p w \<longleftrightarrow> length p \<le> length w \<and> (\<forall>k<length p. octet_matches (p ! k) (w ! k))"
  by (auto simp: pattern_matches_def list_all_length)

declare windows.simps [simp del]

lemma windows_eq: "windows n i data = map (\<lambda>k. (i + k, take n (drop k data))) [0..<Suc (length data) - n]"
proof (induction data arbitrary: i)
  case Nil
  show ?case by (subst windows.simps) (cases n, simp_all)
next
  case (Cons b ds)
  show ?case
  proof (cases "length (b # ds) < n")
    case True
    then show ?thesis by (simp add: windows.simps [of n])
  next
    case False
    then have "[0..<Suc (length (b # ds)) - n] = 0 # map Suc [0..<Suc (length ds) - n]"
      by (simp add: Suc_diff_le upt_conv_Cons map_Suc_upt del: upt_Suc)
    with False show ?thesis by (simp add: windows.simps [of n i "b # ds"] Cons.IH del: upt_Suc)
  qed
qed

lemma window_matches: "i + length p \<le> length data \<Longrightarrow> pattern_matches p (take (length p) (drop i data)) \<longleftrightarrow> occurs p data i"
  by (auto simp: matches_nth occurs_def)

lemma occurs_iff: "occurs p data i \<longleftrightarrow> i < Suc (length data) - length p \<and> pattern_matches p (take (length p) (drop i data))"
proof (cases "i + length p \<le> length data")
  case True
  then show ?thesis using window_matches [OF True] by auto
qed (auto simp: occurs_def)

lemma search_windows_map:
  "search_windows p (map (\<lambda>k. (k, f k)) ks) = find (\<lambda>k. pattern_matches p (f k)) ks"
  by (induction ks) auto

lemma unique_windows_map:
  "distinct ks \<Longrightarrow> unique_window p found (map (\<lambda>k. (k, f k)) ks) \<longleftrightarrow>
    (if found then \<forall>k\<in>set ks. \<not> pattern_matches p (f k) else \<exists>!k. k \<in> set ks \<and> pattern_matches p (f k))"
proof (induction ks arbitrary: found)
  case (Cons k ks)
  then show ?case by (cases found; cases "pattern_matches p (f k)") auto
qed auto

lemma search_is_find:
  "p \<noteq> [] \<Longrightarrow> pattern_search p data = Some (find (occurs p data) [0..<Suc (length data) - length p])"
proof -
  assume p: "p \<noteq> []"
  have "find (\<lambda>k. pattern_matches p (take (length p) (drop k data))) [0..<Suc (length data) - length p]
      = find (occurs p data) [0..<Suc (length data) - length p]"
    by (rule find_cong) (simp_all add: occurs_iff)
  with p show ?thesis by (simp add: pattern_search_def windows_eq search_windows_map del: upt_Suc)
qed

lemma find_upt: "find P [0..<n] = (if \<exists>i<n. P i then Some (LEAST i. P i) else None)"
proof (cases "find P [0..<n]")
  case None
  then show ?thesis by (auto simp: find_None_iff)
next
  case (Some i)
  then have i: "i < n" "P i" "\<forall>j<i. \<not> P j" by (auto simp: find_Some_iff)
  then have "(LEAST i. P i) = i" by (metis Least_equality not_less)
  with Some i show ?thesis by auto
qed

lemma search_spec:
  assumes "p \<noteq> []"
  shows "pattern_search p data = Some (if \<exists>i. occurs p data i then Some (LEAST i. occurs p data i) else None)"
proof -
  have "i < Suc (length data) - length p" if "occurs p data i" for i using that by (simp add: occurs_iff)
  then show ?thesis using assms by (auto simp: search_is_find find_upt simp del: upt_Suc)
qed

text \<open>C24 (pattern_search_exact). For a pattern that is not empty, \<open>search\<close> answers the first offset
  at which every octet of the pattern agrees with the byte there, none if there is no such offset,
  and \<open>is_unique\<close> tells whether there is exactly one; for the empty pattern both panic.\<close>

theorem pattern_search_exact:
  "(if p = [] then pattern_search p data = None \<and> is_unique p data = None
    else pattern_search p data = Some (if Ex (occurs p data) then Some (LEAST i. occurs p data i) else None)
      \<and> is_unique p data = Some (\<exists>!i. occurs p data i))"
proof (cases "p = []")
  case False
  have "is_unique p data = Some (\<exists>!i. occurs p data i)"
    using False by (simp add: is_unique_def windows_eq unique_windows_map occurs_iff del: upt_Suc)
  then show ?thesis using False by (simp add: search_spec)
qed (simp add: pattern_search_def is_unique_def)

section \<open>Printing and parsing\<close>

fun nibble_ok :: "pattern_nibble \<Rightarrow> bool" where
  "nibble_ok Wildcard \<longleftrightarrow> True"
| "nibble_ok (Exact n) \<longleftrightarrow> n < 16"

fun octet_ok :: "pattern_octet \<Rightarrow> bool" where
  "octet_ok (Full m n) \<longleftrightarrow> nibble_ok m \<and> nibble_ok n"
| "octet_ok (Partial n) \<longleftrightarrow> nibble_ok n"

text \<open>What a printed octet is read as.\<close>

fun whole :: "pattern_octet \<Rightarrow> pattern_octet" where
  "whole (Full m n) = Full m n"
| "whole (Partial n) = Full n Wildcard"

fun nibbles_of :: "pattern_octet \<Rightarrow> pattern_nibble list" where
  "nibbles_of (Full m n) = [m, n]"
| "nibbles_of (Partial n) = [n, Wildcard]"

lemma whole_matches [simp]: "octet_matches (whole x) b = octet_matches x b"
  by (cases x) simp_all

lemma digit_back: "n < 16 \<Longrightarrow> to_digit16 (upper_digit n) = Some n \<and> upper_digit n \<noteq> CHR '' '' \<and> upper_digit n \<noteq> CHR ''?''"
proof -
  assume n: "n < 16"
  then have c: "(of_char (upper_digit n) :: nat) = (if n < 10 then 48 + n else 55 + n)"
    by (simp add: upper_digit_def)
  have "upper_digit n = CHR '' '' \<Longrightarrow> (of_char (upper_digit n) :: nat) = 32"
      "upper_digit n = CHR ''?'' \<Longrightarrow> (of_char (upper_digit n) :: nat) = 63" by simp_all
  with n c show ?thesis by (auto simp: to_digit16_def Let_def split: if_splits)
qed

lemma nibble_back:
  assumes "nibble_ok n"
  shows "\<exists>c. show_nibble n = [c] \<and> c \<noteq> CHR '' '' \<and> parse_nibble c = Some n"
proof (cases n)
  case (Exact b)
  then have "unat b < 16" using assms by (simp add: word_less_nat_alt)
  with Exact show ?thesis
    using digit_back [of "unat b"] by (intro exI [of _ "upper_digit (unat b)"]) (simp add: upper_hex_def parse_nibble_def)
qed (simp add: parse_nibble_def)

lemma octet_back:
  assumes "octet_ok x"
  shows "\<exists>c d. show_octet x = [c, d] \<and> c \<noteq> CHR '' '' \<and> d \<noteq> CHR '' '' \<and> map parse_nibble [c, d] = map Some (nibbles_of x)"
proof (cases x)
  case (Full m n)
  then show ?thesis using assms nibble_back [of m] nibble_back [of n] by auto
next
  case (Partial n)
  then obtain c where "show_nibble n = [c]" "c \<noteq> CHR '' ''" "parse_nibble c = Some n"
    using assms nibble_back [of n] by auto
  then show ?thesis using Partial
    by (intro exI [of _ c] exI [of _ "CHR ''?''"]) (simp add: parse_nibble_def)
qed

lemma show_nibbles:
  "list_all octet_ok p \<Longrightarrow>
    map parse_nibble (filter (\<lambda>c. c \<noteq> CHR '' '') (show_pattern p)) = map Some (concat (map nibbles_of p))"
proof (induction p rule: show_pattern.induct)
  case (2 x)
  then show ?case using octet_back [of x] by auto
next
  case (3 x y ys)
  then show ?case using octet_back [of x] by auto
qed simp

lemma chunk_back: "chunk_nibbles (concat (map nibbles_of p)) = map whole p"
proof (induction p)
  case (Cons x xs)
  then show ?case by (cases x) simp_all
qed simp

lemma those_length: "those xs = Some ys \<Longrightarrow> length ys = length xs"
  by (induction xs arbitrary: ys) (auto split: option.splits)

lemma those_all: "\<forall>c\<in>set cs. f c \<noteq> None \<Longrightarrow> \<exists>ns. those (map f cs) = Some ns"
  by (induction cs) auto

lemma those_member: "those (map f xs) = Some ys \<Longrightarrow> y \<in> set ys \<Longrightarrow> \<exists>x\<in>set xs. f x = Some y"
  by (induction xs arbitrary: ys) (auto split: option.splits)

lemma those_Some: "those (map Some xs) = Some xs"
  by (induction xs) simp_all

lemma parsed_ok:
  assumes "parse_pattern s = Some p"
  shows "list_all octet_ok p"
proof -
  have "those (map parse_nibble cs) = Some ns \<Longrightarrow> list_all nibble_ok ns" for cs ns
  proof (induction cs arbitrary: ns)
    case (Cons c cs)
    have "to_digit16 c = Some d \<Longrightarrow> d < 16" for d by (auto simp: to_digit16_def Let_def split: if_splits)
    then have "parse_nibble c = Some n \<Longrightarrow> nibble_ok n" for n
      by (auto simp: parse_nibble_def word_less_nat_alt unat_of_nat split: if_splits)
    with Cons show ?case by (auto split: option.splits)
  qed simp
  moreover have "list_all nibble_ok ns \<Longrightarrow> list_all octet_ok (chunk_nibbles ns)" for ns
    by (induction ns rule: chunk_nibbles.induct) simp_all
  ultimately show ?thesis using assms by (auto simp: parse_pattern_def)
qed

lemma show_parse: "list_all octet_ok p \<Longrightarrow> parse_pattern (show_pattern p) = Some (map whole p)"
  by (simp add: parse_pattern_def show_nibbles those_Some chunk_back)

lemma whole_pattern_matches: "pattern_matches (map whole p) = pattern_matches p"
  by (rule ext) (simp add: matches_nth)

text \<open>What was parsed can be printed, and what is printed is parsed
  again as a pattern that matches the same bytes and prints the same; a half octet at the end has become
  a whole one with a wildcard.\<close>

lemma pattern_text_roundtrip:
  assumes "parse_pattern s = Some p"
  shows "\<exists>q. parse_pattern (show_pattern p) = Some q \<and> pattern_matches q = pattern_matches p \<and> show_pattern q = show_pattern p
    \<and> parse_pattern (show_pattern q) = Some q"
proof -
  have ok: "list_all octet_ok p" by (rule parsed_ok [OF assms])
  have same: "show_pattern (map whole p) = show_pattern p"
  proof (induction p rule: show_pattern.induct)
    case (2 x)
    then show ?case by (cases x) simp_all
  next
    case (3 x y ys)
    then show ?case by (cases x) simp_all
  qed simp
  show ?thesis using show_parse [OF ok] whole_pattern_matches same by auto
qed

lemma pattern_text_roundtrip_witness:
  "\<exists>q. parse_pattern (show_pattern [Full (Exact 0xA) Wildcard, Partial (Exact 5)]) = Some q
    \<and> pattern_matches q = pattern_matches [Full (Exact 0xA) Wildcard, Partial (Exact 5)]"
proof -
  have "parse_pattern ''a? 5'' = Some [Full (Exact 0xA) Wildcard, Partial (Exact 5)]" by code_simp
  from pattern_text_roundtrip [OF this] show ?thesis by blast
qed

end
