(* ===== verification/Game_Addresses.thy ===== *)
theory Game_Addresses
  imports Game_Patterns Client_Config
begin

text \<open>
  Where the functions of the game are (\<open>client/hooks/hooks-addresses/src/lib.rs\<close>): tables for known versions of the
  executable, a file with more of them, and the search for patterns in an unknown one. Parsing the
  executable, decoding an instruction, SHA-256 and JSON are arguments. Addresses are natural
  numbers: those of an image that can be loaded do not overflow.
\<close>

section \<open>Addresses\<close>

record addresses =
  global_onlineconfig_client :: "nat"
  onlineconfig_url :: "nat"
  unreal_commandline :: "nat option"
  debug_print :: "(nat \<times> (nat \<times> nat) list) option"
  func_printer :: "nat option"
  func_net_finite_state_machine_next_state :: "nat option"
  func_net_finite_state_leave_state :: "nat option"
  func_net_result_base :: "nat option"
  func_something_with_goal :: "nat option"
  func_quazal_stepsequencejob_setstep :: "nat option"
  func_thread_starter :: "nat option"
  func_goal_change_state :: "nat option"
  func_net_core :: "nat option"
  func_net_result_core :: "nat option"
  func_net_result_session :: "nat option"
  func_net_result_lobby :: "nat option"
  func_storm_host_port_to_str :: "nat option"
  func_generate_id :: "nat option"
  func_storm_maybe_set_state :: "nat option"
  func_storm_statemachineaction_execute :: "nat option"
  func_storm_some_error_formatter :: "nat option"
  func_gear_str_destructor :: "nat option"
  func_storm_event_dispatch :: "nat option"
  func_storm_event_dispatch2 :: "nat option"
  func_storm_event_maybe_queue_pop :: "nat option"
  func_some_gear_str_constructor :: "nat option"
  func_net_result_rdv_session :: "nat option"
  func_rmc_init_message :: "nat option"
  func_rmc_add_method_id :: "nat option"
  func_rmc_send_message :: "nat option"
  func_storm_event_handler :: "nat option"
  func_another_gear_str_destructor :: "nat option"
  func_open_file_from_archive :: "nat option"
  func_storm_join_admission_trace :: "nat option"
  func_storm_session_lock_trace :: "nat option"
  func_storm_session_unlock_trace :: "nat option"
  func_state_join_on_enter_trace :: "nat option"
  func_join_session_rmc_trace :: "nat option"
  func_join_completion_event_trace :: "nat option"
  func_state_join_update_trace :: "nat option"
  func_storm_session_snapshot_apply_trace :: "nat option"
  func_rdv_completion_router_trace :: "nat option"
  func_rdv_route_filter_trace :: "nat option"
  func_state_join_reset_trace :: "nat option"
  func_rdv_event_fanout_trace :: "nat option"
  func_rdv_listener_factory_trace :: "nat option"

text \<open>A slot for every address, filled from the front; the ones there are.\<close>

definition slot :: "nat list \<Rightarrow> nat \<Rightarrow> nat option" where
  "slot as k = (if k < length as then Some (as ! k) else None)"

definition option2vec :: "nat option list \<Rightarrow> nat list option" where
  "option2vec xs = (case List.map_filter id xs of [] \<Rightarrow> None | y # ys \<Rightarrow> Some (y # ys))"

fun hook_addr :: "addresses \<Rightarrow> hook \<Rightarrow> nat list option" where
  "hook_addr a Printer = option2vec [func_printer a]"
| "hook_addr a LeaveState = option2vec [func_net_finite_state_leave_state a]"
| "hook_addr a NextState = option2vec [func_net_finite_state_machine_next_state a]"
| "hook_addr a NetResultBase = option2vec [func_net_result_base a]"
| "hook_addr a Goal = option2vec [func_something_with_goal a]"
| "hook_addr a SetStep = option2vec [func_quazal_stepsequencejob_setstep a]"
| "hook_addr a Thread = option2vec [func_thread_starter a]"
| "hook_addr a ChangeState = option2vec [func_goal_change_state a]"
| "hook_addr a NetCore = option2vec [func_net_core a]"
| "hook_addr a NetResultCore = option2vec [func_net_result_core a]"
| "hook_addr a NetResultSession = option2vec [func_net_result_session a]"
| "hook_addr a NetResultRdvSession = option2vec [func_net_result_rdv_session a]"
| "hook_addr a NetResultLobby = option2vec [func_net_result_lobby a]"
| "hook_addr a StormHostPortToString = option2vec [func_storm_host_port_to_str a]"
| "hook_addr a GenerateID = option2vec [func_generate_id a]"
| "hook_addr a StormSetState = option2vec [func_storm_maybe_set_state a]"
| "hook_addr a StormStateMachineActionExecute = option2vec [func_storm_statemachineaction_execute a]"
| "hook_addr a StormErrorFormatter = option2vec [func_storm_some_error_formatter a]"
| "hook_addr a GearStrDestructor =
    option2vec [func_gear_str_destructor a, func_another_gear_str_destructor a, func_some_gear_str_constructor a]"
| "hook_addr a StormEventDispatcher =
    option2vec [func_storm_event_dispatch a, func_storm_event_dispatch2 a, func_storm_event_maybe_queue_pop a,
      func_storm_event_handler a]"
| "hook_addr a RMCMessages = option2vec [func_rmc_init_message a, func_rmc_add_method_id a, func_rmc_send_message a]"
| "hook_addr a GetAdaptersInfo = Some []"
| "hook_addr a Gethostbyname = Some []"
| "hook_addr a StormPackets = Some []"
| "hook_addr a OverridePackaged = option2vec [func_open_file_from_archive a]"

fun set_hook_addrs :: "hook \<Rightarrow> nat list \<Rightarrow> addresses \<Rightarrow> addresses" where
  "set_hook_addrs Printer as a = a\<lparr>func_printer := slot as 0\<rparr>"
| "set_hook_addrs LeaveState as a = a\<lparr>func_net_finite_state_leave_state := slot as 0\<rparr>"
| "set_hook_addrs NextState as a = a\<lparr>func_net_finite_state_machine_next_state := slot as 0\<rparr>"
| "set_hook_addrs NetResultBase as a = a\<lparr>func_net_result_base := slot as 0\<rparr>"
| "set_hook_addrs Goal as a = a\<lparr>func_something_with_goal := slot as 0\<rparr>"
| "set_hook_addrs SetStep as a = a\<lparr>func_quazal_stepsequencejob_setstep := slot as 0\<rparr>"
| "set_hook_addrs Thread as a = a\<lparr>func_thread_starter := slot as 0\<rparr>"
| "set_hook_addrs ChangeState as a = a\<lparr>func_goal_change_state := slot as 0\<rparr>"
| "set_hook_addrs NetCore as a = a\<lparr>func_net_core := slot as 0\<rparr>"
| "set_hook_addrs NetResultCore as a = a\<lparr>func_net_result_core := slot as 0\<rparr>"
| "set_hook_addrs NetResultSession as a = a\<lparr>func_net_result_session := slot as 0\<rparr>"
| "set_hook_addrs NetResultRdvSession as a = a\<lparr>func_net_result_rdv_session := slot as 0\<rparr>"
| "set_hook_addrs NetResultLobby as a = a\<lparr>func_net_result_lobby := slot as 0\<rparr>"
| "set_hook_addrs StormHostPortToString as a = a\<lparr>func_storm_host_port_to_str := slot as 0\<rparr>"
| "set_hook_addrs GenerateID as a = a\<lparr>func_generate_id := slot as 0\<rparr>"
| "set_hook_addrs StormSetState as a = a\<lparr>func_storm_maybe_set_state := slot as 0\<rparr>"
| "set_hook_addrs StormStateMachineActionExecute as a = a\<lparr>func_storm_statemachineaction_execute := slot as 0\<rparr>"
| "set_hook_addrs StormErrorFormatter as a = a\<lparr>func_storm_some_error_formatter := slot as 0\<rparr>"
| "set_hook_addrs GearStrDestructor as a = a\<lparr>func_gear_str_destructor := slot as 0,
    func_another_gear_str_destructor := slot as 1, func_some_gear_str_constructor := slot as 2\<rparr>"
| "set_hook_addrs StormEventDispatcher as a = a\<lparr>func_storm_event_dispatch := slot as 0,
    func_storm_event_dispatch2 := slot as 1, func_storm_event_maybe_queue_pop := slot as 2,
    func_storm_event_handler := slot as 3\<rparr>"
| "set_hook_addrs RMCMessages as a = a\<lparr>func_rmc_init_message := slot as 0,
    func_rmc_add_method_id := slot as 1, func_rmc_send_message := slot as 2\<rparr>"
| "set_hook_addrs GetAdaptersInfo as a = a"
| "set_hook_addrs Gethostbyname as a = a"
| "set_hook_addrs StormPackets as a = a"
| "set_hook_addrs OverridePackaged as a = a\<lparr>func_open_file_from_archive := slot as 0\<rparr>"

section \<open>Known versions\<close>

definition dx9_hashes :: "bytes list" where
  "dx9_hashes = [
     [0x15, 0x8e, 0xfc, 0x5d, 0x09, 0x40, 0xfc, 0xaf, 0x3e, 0x4b, 0x16, 0x95, 0x2c, 0x8f, 0x88, 0x61,
      0xe1, 0x60, 0x61, 0x50, 0x9d, 0x9e, 0xb8, 0xeb, 0x5f, 0xf4, 0xae, 0x32, 0x49, 0xbb, 0x5a, 0x05],
     [0x7f, 0xcd, 0x3a, 0x18, 0xd4, 0xdc, 0xc6, 0x92, 0x71, 0x99, 0x84, 0xb0, 0x72, 0x68, 0xbd, 0x42,
      0x76, 0x41, 0x08, 0xe7, 0xdf, 0x37, 0x04, 0x9f, 0x14, 0x90, 0xf2, 0x09, 0x29, 0xf9, 0x92, 0x5d],
     [0xaf, 0x06, 0x72, 0x09, 0x45, 0x88, 0x04, 0xe6, 0xad, 0xce, 0xca, 0x43, 0x2b, 0x50, 0xfb, 0x25,
      0x52, 0x08, 0x71, 0x6f, 0xb2, 0x30, 0x37, 0xe8, 0x25, 0x24, 0x4d, 0xbc, 0x9f, 0x3b, 0x19, 0x5c]]"

definition dx9_addrs :: addresses where
  "dx9_addrs = \<lparr>
    global_onlineconfig_client = 0x32bf5bc, onlineconfig_url = 0x2cc0650,
    unreal_commandline = Some 0x323b97c,
    debug_print = Some (0x33d5c94, [(0x21f1144, 0x21f1144 + 5), (0x21f1167, 0x21f1167 + 4)]),
    func_printer = Some 0x4b19e0, func_net_finite_state_machine_next_state = Some 0xad0260,
    func_net_finite_state_leave_state = Some 0xa9aa40, func_net_result_base = Some 0xa9a180,
    func_something_with_goal = Some 0xae5130, func_quazal_stepsequencejob_setstep = Some 0x2138f10,
    func_thread_starter = Some 0x7be840, func_goal_change_state = Some 0xaf3e20,
    func_net_core = Some 0xb1cc10, func_net_result_core = Some 0xab9a80,
    func_net_result_session = Some 0xab98b0, func_net_result_lobby = Some 0xa9d7f0,
    func_storm_host_port_to_str = Some 0x20b9860, func_generate_id = Some 0x20b0240,
    func_storm_maybe_set_state = Some 0x20cad40, func_storm_statemachineaction_execute = Some 0x20dc860,
    func_storm_some_error_formatter = Some 0x20bb250, func_gear_str_destructor = Some 0x4c58a0,
    func_storm_event_dispatch = Some 0x2055600, func_storm_event_dispatch2 = Some 0x20ce030,
    func_storm_event_maybe_queue_pop = Some 0x20c46e0, func_some_gear_str_constructor = Some 0x4b19e0,
    func_net_result_rdv_session = Some 0xa9c4b0, func_rmc_init_message = Some 0x21a6550,
    func_rmc_add_method_id = Some 0x21a6210, func_rmc_send_message = Some 0x21b7050,
    func_storm_event_handler = Some 0x20ca850, func_another_gear_str_destructor = Some 0x4c58a0,
    func_open_file_from_archive = Some 0x709040, func_storm_join_admission_trace = Some 0xaf4c40,
    func_storm_session_lock_trace = Some 0xb05370, func_storm_session_unlock_trace = Some 0xb053f0,
    func_state_join_on_enter_trace = None, func_join_session_rmc_trace = None,
    func_join_completion_event_trace = None, func_state_join_update_trace = None,
    func_storm_session_snapshot_apply_trace = None, func_rdv_completion_router_trace = None,
    func_rdv_route_filter_trace = None, func_state_join_reset_trace = None,
    func_rdv_event_fanout_trace = None, func_rdv_listener_factory_trace = None\<rparr>"

definition dx11_hashes :: "bytes list" where
  "dx11_hashes = [
     [0xc6, 0xb9, 0xf3, 0x30, 0xfa, 0xc1, 0x41, 0x2f, 0x19, 0xf3, 0x2a, 0x6f, 0xd8, 0x6e, 0xdb, 0x4c,
      0x66, 0x29, 0x1a, 0x69, 0x02, 0x61, 0x1e, 0x94, 0x33, 0xb9, 0xb0, 0xea, 0x65, 0x9e, 0xb4, 0xbc],
     [0xc5, 0x2b, 0x3d, 0x09, 0x27, 0x59, 0x1e, 0x47, 0x74, 0x24, 0xf3, 0x89, 0xff, 0x0b, 0x13, 0x14,
      0xa3, 0x00, 0x93, 0x8e, 0x19, 0xce, 0x61, 0xa7, 0xb0, 0xa7, 0xbc, 0x09, 0xf8, 0x1c, 0x2c, 0x89],
     [0xb5, 0x21, 0xc4, 0xb0, 0x23, 0x62, 0x72, 0xe7, 0x3f, 0xcb, 0xf9, 0x35, 0xdb, 0x33, 0x80, 0xa8,
      0x4b, 0x7c, 0x0f, 0xa9, 0x80, 0x47, 0x66, 0x43, 0x77, 0xdb, 0x1c, 0xda, 0xaf, 0xde, 0x06, 0x7f]]"

definition dx11_addrs :: addresses where
  "dx11_addrs = \<lparr>
    global_onlineconfig_client = 0x338d5fc, onlineconfig_url = 0x2d12b60,
    unreal_commandline = Some 0x33099b4,
    debug_print = Some (0x34ca4d4, [(0x2218634, 0x2218634 + 5), (0x2218657, 0x2218657 + 4)]),
    func_printer = Some 0x636d20, func_net_finite_state_machine_next_state = Some 0x834ff0,
    func_net_finite_state_leave_state = Some 0x7fe000, func_net_result_base = Some 0x7fd740,
    func_something_with_goal = Some 0x849f80, func_quazal_stepsequencejob_setstep = Some 0x2160400,
    func_thread_starter = Some 0x5132c0, func_goal_change_state = Some 0x858ed0,
    func_net_core = Some 0x8820c0, func_net_result_core = Some 0x81e020,
    func_net_result_session = Some 0x81de50, func_net_result_lobby = Some 0x801260,
    func_storm_host_port_to_str = Some 0x20e0d50, func_generate_id = Some 0x20d7730,
    func_storm_maybe_set_state = Some 0x20f2230, func_storm_statemachineaction_execute = Some 0x2103d50,
    func_storm_some_error_formatter = Some 0x20e2740, func_gear_str_destructor = Some 0x41f630,
    func_storm_event_dispatch = Some 0x207caf0, func_storm_event_dispatch2 = Some 0x20f5520,
    func_storm_event_maybe_queue_pop = Some 0x20ebbd0, func_some_gear_str_constructor = Some 0x636d20,
    func_net_result_rdv_session = Some 0x7ffd30, func_rmc_init_message = Some 0x21cda40,
    func_rmc_add_method_id = Some 0x21cd700, func_rmc_send_message = Some 0x21de540,
    func_storm_event_handler = Some 0x20f1d40, func_another_gear_str_destructor = Some 0x41f630,
    func_open_file_from_archive = Some 0x45ab20, func_storm_join_admission_trace = Some 0x859cf0,
    func_storm_session_lock_trace = Some 0x86a6a0, func_storm_session_unlock_trace = Some 0x86a720,
    func_state_join_on_enter_trace = Some 0x84da70, func_join_session_rmc_trace = Some 0x22be610,
    func_join_completion_event_trace = Some 0x7bdfb0, func_state_join_update_trace = Some 0x836f90,
    func_storm_session_snapshot_apply_trace = Some 0x86a1e0,
    func_rdv_completion_router_trace = Some 0x77da30, func_rdv_route_filter_trace = Some 0x77db80,
    func_state_join_reset_trace = Some 0x77c6f0, func_rdv_event_fanout_trace = None,
    func_rdv_listener_factory_trace = None\<rparr>"

type_synonym game_table = "(bytes \<times> addresses) list"

definition dx9_addresses :: game_table where
  "dx9_addresses = map (\<lambda>h. (h, dx9_addrs)) dx9_hashes"

definition dx11_addresses :: game_table where
  "dx11_addresses = map (\<lambda>h. (h, dx11_addrs)) dx11_hashes"

definition inbuilt_addresses :: "string \<Rightarrow> game_table option" where
  "inbuilt_addresses name =
    (if name = ''blacklist_game.exe'' then Some dx9_addresses
     else if name = ''blacklist_dx11_game.exe'' then Some dx11_addresses else None)"

section \<open>The file of addresses\<close>

definition lower_digit :: "nat \<Rightarrow> char" where
  "lower_digit n = (if n < 10 then char_of (48 + n) else char_of (87 + n))"

definition hex :: "bytes \<Rightarrow> string" where
  "hex data = concat (map (\<lambda>b. [lower_digit (unat b div 16), lower_digit (unat b mod 16)]) data)"

fun hex_pairs :: "string \<Rightarrow> bytes option" where
  "hex_pairs [] = Some []"
| "hex_pairs [c] = None"
| "hex_pairs (c # d # cs) =
    (case (to_digit16 c, to_digit16 d) of
       (Some m, Some n) \<Rightarrow> map_option ((#) (of_nat (16 * m + n))) (hex_pairs cs)
     | _ \<Rightarrow> None)"

definition dehex :: "string \<Rightarrow> bytes option" where
  "dehex s = (if length s \<noteq> 64 then None else hex_pairs s)"

text \<open>A later entry with the same key replaces an earlier one.\<close>

definition insert_game :: "game_table \<Rightarrow> bytes \<times> addresses \<Rightarrow> game_table" where
  "insert_game t e = filter (\<lambda>x. fst x \<noteq> fst e) t @ [e]"

definition dehex_table :: "(string \<times> addresses) list \<Rightarrow> game_table option" where
  "dehex_table xs = map_option (foldl insert_game []) (those (map (\<lambda>(k, v). map_option (\<lambda>h. (h, v)) (dehex k)) xs))"

definition hex_table :: "game_table \<Rightarrow> (string \<times> addresses) list" where
  "hex_table t = map (\<lambda>(k, v). (hex k, v)) t"

record saved_addresses =
  saved_dx9 :: "(string \<times> addresses) list"
  saved_dx11 :: "(string \<times> addresses) list"

text \<open>
  The file in every directory, if there is one. \<open>to_json\<close> and \<open>from_json\<close> are serde's;
  \<open>can_create\<close> tells whether the file can be made. Writing to a file that could be made succeeds.
\<close>

type_synonym address_files = "string \<rightharpoonup> string"

definition save_addresses_impl ::
    "(saved_addresses \<Rightarrow> string) \<Rightarrow> bool \<Rightarrow> string \<Rightarrow> game_table \<Rightarrow> game_table \<Rightarrow> bool \<Rightarrow> address_files \<Rightarrow> address_files" where
  "save_addresses_impl to_json can_create dir dx9 dx11 over files =
    (if \<not> over \<and> files dir \<noteq> None then files
     else if \<not> can_create then files
     else files(dir \<mapsto> to_json \<lparr>saved_dx9 = hex_table dx9, saved_dx11 = hex_table dx11\<rparr>))"

definition save_addresses ::
    "(saved_addresses \<Rightarrow> string) \<Rightarrow> bool \<Rightarrow> string \<Rightarrow> game_table \<Rightarrow> game_table \<Rightarrow> address_files \<Rightarrow> address_files" where
  "save_addresses to_json can_create dir dx9 dx11 files = save_addresses_impl to_json can_create dir dx9 dx11 True files"

text \<open>\<open>exec_dir\<close> is the directory of the running executable, \<open>None\<close> if it cannot be found.\<close>

definition save_builtin_addresses ::
    "(saved_addresses \<Rightarrow> string) \<Rightarrow> bool \<Rightarrow> string option \<Rightarrow> address_files \<Rightarrow> address_files" where
  "save_builtin_addresses to_json can_create exec_dir files =
    (case exec_dir of
       None \<Rightarrow> files
     | Some dir \<Rightarrow> save_addresses_impl to_json can_create dir dx9_addresses dx11_addresses False files)"

definition load_custom_addresses :: "(string \<Rightarrow> saved_addresses option) \<Rightarrow> string option \<Rightarrow> string \<Rightarrow> game_table option" where
  "load_custom_addresses from_json file name =
    (case Option.bind file from_json of
       None \<Rightarrow> None
     | Some saved \<Rightarrow>
        (case (dehex_table (saved_dx9 saved), dehex_table (saved_dx11 saved)) of
           (Some dx9, Some dx11) \<Rightarrow>
             if name = ''blacklist_game.exe'' then Some dx9
             else if name = ''blacklist_dx11_game.exe'' then Some dx11 else None
         | _ \<Rightarrow> None))"

text \<open>\<open>entry(k).or_insert(v)\<close> for every entry of the other table.\<close>

definition or_insert_all :: "game_table \<Rightarrow> game_table \<Rightarrow> game_table" where
  "or_insert_all t custom = foldl (\<lambda>t e. if map_of t (fst e) = None then t @ [e] else t) t custom"

definition build_game_map ::
    "(saved_addresses \<Rightarrow> string) \<Rightarrow> (string \<Rightarrow> saved_addresses option) \<Rightarrow> bool \<Rightarrow> string option \<Rightarrow> string
      \<Rightarrow> address_files \<Rightarrow> (string \<Rightarrow> game_table option) \<times> address_files" where
  "build_game_map to_json from_json can_create exec_dir dir files =
    (let files = save_builtin_addresses to_json can_create exec_dir files in
     (\<lambda>name. map_option (\<lambda>t. case load_custom_addresses from_json (files dir) name of
         None \<Rightarrow> t | Some custom \<Rightarrow> or_insert_all t custom) (inbuilt_addresses name), files))"

datatype address_error = NoFileName | UnknownBinary string | BinaryMismatch string string | AddressIO | IdFailed

definition lower_char :: "char \<Rightarrow> char" where
  "lower_char c = (let n = of_char c :: nat in if 65 \<le> n \<and> n \<le> 90 then char_of (n + 32) else c)"

text \<open>
  \<open>dir\<close> and \<open>file_name\<close> are the parts of the path, \<open>digest\<close> the hash of the file if it can be read.
\<close>

definition get_from_path ::
    "(saved_addresses \<Rightarrow> string) \<Rightarrow> (string \<Rightarrow> saved_addresses option) \<Rightarrow> bool \<Rightarrow> string option \<Rightarrow> string \<Rightarrow> string option
      \<Rightarrow> bytes option \<Rightarrow> address_files \<Rightarrow> (address_error + addresses) \<times> address_files" where
  "get_from_path to_json from_json can_create exec_dir dir file_name digest files =
    (case file_name of
       None \<Rightarrow> (Inl NoFileName, files)
     | Some f \<Rightarrow>
        let name = map lower_char f; (games, files) = build_game_map to_json from_json can_create exec_dir dir files in
        (case games name of
           None \<Rightarrow> Inl (UnknownBinary name)
         | Some t \<Rightarrow>
            (case digest of
               None \<Rightarrow> Inl (BinaryMismatch name '''')
             | Some h \<Rightarrow> (case map_of t h of None \<Rightarrow> Inl (BinaryMismatch name (hex h)) | Some a \<Rightarrow> Inr a)), files))"

section \<open>Unknown versions\<close>

definition ONLINE_CLIENT_CFG_PATTERN :: string where
  "ONLINE_CLIENT_CFG_PATTERN =
    ''A1 ?? ?? ?? ?? 50 8D 4? ?? 51 8B 0D ?? ?? ?? ?? 8D 5? ?? 52 8D 4? ?? 50 E8 ?? ?? ?? ??''"

definition CMDLINE_PATTERN :: string where
  "CMDLINE_PATTERN =
    ''68 ?? ?? ?? ?? E8 ?? ?? ?? ?? 83 C4 ?? A3 ?? ?? ?? ?? 3B FB 0F 85 ?? ?? ?? ?? 68 ?? ?? ?? '' @
       ''?? 8D 9? ?? ?? ?? ?? 53 52 C6 8? ?? ?? ?? ?? ??''"

definition hook_patterns :: "bool \<Rightarrow> (hook \<times> string list) list" where
  "hook_patterns modding =
    [(Printer, [''55 8B EC 56 57 8B F1 E8 ?? ?? ?? ?? 8B 7D ?? 89 06 33 C0 C6 46 ?? ?? 89 46 ?? C7 46 ?? ?? '' @
       ''?? ?? ?? C7 46 ?? ?? ?? ?? ??'']),
     (LeaveState, [''55 8B EC 56 57 8B F1 8D 7E ?? 57 FF 15 ?? ?? ?? ?? 8B 4D ?? 8B 06'']),
     (NextState, [''55 8B EC 6A ?? 68 ?? ?? ?? ?? 64 A1 ?? ?? ?? ?? 50 83 EC ?? 53 56 57 A1 ?? ?? ?? ?? 33 C5 '' @
       ''50 8D 45 ?? 64 A3 ?? ?? ?? ?? 8B F9 8B 45 ?? 33 DB 89 5D ?? 8B 08'']),
     (NetResultBase, [''55 8B EC 6A ?? 68 ?? ?? ?? ?? 64 A1 ?? ?? ?? ?? 50 51 56 A1 ?? ?? ?? ?? 33 C5 50 8D 45 ?? '' @
       ''64 A3 ?? ?? ?? ?? 8B C1 89 45 ?? 8B 4D ?? C7 00 ?? ?? ?? ?? 8B 11 89 50 ?? 8B 51 ?? 89 50 '' @
       ''?? C7 40 ?? ?? ?? ?? ?? C7 40 ?? ?? ?? ?? ?? 8B 51 ?? 85 D2 74 ?? BE ?? ?? ?? ?? F0 0F C1 '' @
       ''32 8B 49 ?? 89 48 ?? EB ?? C7 40 ?? ?? ?? ?? ?? C7 45 ?? ?? ?? ?? ?? 8B 4D ??'']),
     (Goal, []),
     (SetStep, [''55 8B EC 83 EC ?? 56 8D 45 ?? 6A ?? 50 8B F1 E8 ?? ?? ?? ?? 8B 4D ?? 8B 55 ?? 8B 45 ??'']),
     (Thread, [''56 8B F1 8B 46 ?? C6 86 ?? ?? ?? ?? ?? 83 F8 ??'']),
     (ChangeState, [''55 8B EC 56 8B F1 8B 4D ?? 8B 01 57 8B 3D ?? ?? ?? ??'']),
     (NetCore, [''55 8B EC 6A ?? 68 ?? ?? ?? ?? 64 A1 ?? ?? ?? ?? 50 83 EC ?? 53 56 57 A1 ?? ?? ?? ?? 33 C5 '' @
       ''50 8D 45 ?? 64 A3 ?? ?? ?? ?? 8B F1 89 75 ?? E8 ?? ?? ?? ?? 33 DB 89 5D ?? 8D 8E ?? ?? ?? '' @
       ''?? C7 06 ?? ?? ?? ?? E8 ?? ?? ?? ??'']),
     (NetResultCore, []),
     (NetResultSession, []),
     (NetResultRdvSession, []),
     (NetResultLobby, []),
     (StormHostPortToString, [''55 8B EC 83 EC ?? 53 56 6A ?? 8D 45 ?? 6A ??'']),
     (GenerateID, [''55 8B EC 8B 45 ?? 56 8B F1 85 C0 74 ?? 80 38 ?? 74 ?? 80 7D ?? ??'']),
     (StormSetState, [''55 8B EC 8B 41 ?? 8B 55 ?? 85 C0 74 ?? 8B 40 ??'']),
     (StormStateMachineActionExecute, []),
     (StormErrorFormatter, [''55 8B EC 83 EC ?? 56 8B F1 57 8D 4D ?? E8 ?? ?? ?? ?? 68 ?? ?? ?? ??'']),
     (GearStrDestructor, [''55 8B EC 56 57 8B F1 E8 ?? ?? ?? ?? 8B 7D ?? 89 06 33 C0 C6 46 ?? ?? 89 46 ?? C7 46 ?? ?? '' @
       ''?? ?? ?? C7 46 ?? ?? ?? ?? ??'']),
     (StormEventDispatcher, [''55 8B EC 51 53 56 57 8B F9 8D 4D ??'',
      ''55 8B EC 8B 89 ?? ?? ?? ?? 56 85 C9 74 ?? 80 79 ?? ?? 74 ?? 8B 45 ?? 8B 75 ?? 83 F8 ?? 75 '' @
       ''?? 68 ?? ?? ?? ?? 8B CE E8 ?? ?? ?? ?? 8B C6 5E 5D C2 ?? ?? 8B 55 ?? 52'',
      ''55 8B EC 83 EC ?? 53 56 8B F1 57 33 DB'',
      ''55 8B EC 8B 45 ?? 53 56 57 8B F1 85 C0 0F 84 ?? ?? ?? ??'']),
     (RMCMessages, [''55 8B EC 8B 45 ?? 8B 4D ?? 8B 55 ?? 50 51 52 E8 ?? ?? ?? ?? 83 C4 ?? 5D C3 CC CC CC CC CC '' @
       ''CC CC C3'',
      ''55 8B EC 8B 4D ?? 6A ?? 6A ?? 8D 45 ?? 50 E8 ?? ?? ?? ?? 5D C3 CC CC CC CC CC CC CC CC CC '' @
       ''CC CC 55 8B EC 51 8B 4D ??'',
      ''55 8B EC 83 EC ?? 53 8B 5D ?? 56 57 8B F9 85 DB 0F 84 ?? ?? ?? ?? 80 7F ?? ??''])]
    @ (if modding then [(OverridePackaged, [''55 8B EC 6A ?? 68 ?? ?? ?? ?? 64 A1 ?? ?? ?? ?? 50 83 EC ?? 53 56 57 A1 ?? ?? ?? ?? 33 C5 '' @
       ''50 8D 45 ?? 64 A3 ?? ?? ?? ?? 8B F1 8B 45 ?? 50 8D 4D ?? 51''])] else [])"

text \<open>
  An executable: its base, the sections by name with their address and, if it can be read, their data,
  and the operands of the instruction at an offset of the text.
\<close>

record image_section =
  is_address :: nat
  is_data :: "bytes option"

record image =
  im_base :: nat
  im_rdata :: "image_section option"
  im_has_data :: bool
  im_text :: "image_section option"
  im_displacement :: "nat \<Rightarrow> nat"
  im_immediate :: "nat \<Rightarrow> nat"

definition find_subsequence :: "bytes \<Rightarrow> bytes \<Rightarrow> nat option" where
  "find_subsequence haystack needle = map_option fst (find (\<lambda>(i, w). w = needle) (windows (length needle) 0 haystack))"

text \<open>The static patterns are parsed when they are first used, with \<open>unwrap\<close>.\<close>

definition search_text :: "string \<Rightarrow> bytes \<Rightarrow> nat option option" where
  "search_text s text = Option.bind (parse_pattern s) (\<lambda>p. pattern_search p text)"

definition parsed_hook_patterns :: "bool \<Rightarrow> (hook \<times> pattern list) list option" where
  "parsed_hook_patterns modding =
    those (map (\<lambda>(h, ss). map_option (Pair h) (those (map parse_pattern ss))) (hook_patterns modding))"

definition empty_addresses :: "nat \<Rightarrow> nat \<Rightarrow> nat option \<Rightarrow> addresses" where
  "empty_addresses client url cmdline = \<lparr>
    global_onlineconfig_client = client, onlineconfig_url = url, unreal_commandline = cmdline,
    debug_print = None, func_printer = None, func_net_finite_state_machine_next_state = None,
    func_net_finite_state_leave_state = None, func_net_result_base = None,
    func_something_with_goal = None, func_quazal_stepsequencejob_setstep = None,
    func_thread_starter = None, func_goal_change_state = None, func_net_core = None,
    func_net_result_core = None, func_net_result_session = None, func_net_result_lobby = None,
    func_storm_host_port_to_str = None, func_generate_id = None, func_storm_maybe_set_state = None,
    func_storm_statemachineaction_execute = None, func_storm_some_error_formatter = None,
    func_gear_str_destructor = None, func_storm_event_dispatch = None, func_storm_event_dispatch2 = None,
    func_storm_event_maybe_queue_pop = None, func_some_gear_str_constructor = None,
    func_net_result_rdv_session = None, func_rmc_init_message = None, func_rmc_add_method_id = None,
    func_rmc_send_message = None, func_storm_event_handler = None,
    func_another_gear_str_destructor = None, func_open_file_from_archive = None,
    func_storm_join_admission_trace = None, func_storm_session_lock_trace = None,
    func_storm_session_unlock_trace = None, func_state_join_on_enter_trace = None,
    func_join_session_rmc_trace = None, func_join_completion_event_trace = None,
    func_state_join_update_trace = None, func_storm_session_snapshot_apply_trace = None,
    func_rdv_completion_router_trace = None, func_rdv_route_filter_trace = None,
    func_state_join_reset_trace = None, func_rdv_event_fanout_trace = None,
    func_rdv_listener_factory_trace = None\<rparr>"

text \<open>The addresses of the patterns of one hook that are found.\<close>

definition located :: "nat \<Rightarrow> bytes \<Rightarrow> pattern list \<Rightarrow> nat list option" where
  "located start text ps = map_option (List.map_filter (map_option ((+) start))) (those (map (\<lambda>p. pattern_search p text) ps))"

definition locate_hook :: "nat \<Rightarrow> bytes \<Rightarrow> hook \<times> pattern list \<Rightarrow> addresses \<Rightarrow> addresses option" where
  "locate_hook start text hp a = map_option (\<lambda>as. if as = [] then a else set_hook_addrs (fst hp) as a) (located start text (snd hp))"

fun locate_hooks :: "nat \<Rightarrow> bytes \<Rightarrow> (hook \<times> pattern list) list \<Rightarrow> addresses \<Rightarrow> addresses option" where
  "locate_hooks start text [] a = Some a"
| "locate_hooks start text (hp # hps) a = Option.bind (locate_hook start text hp a) (locate_hooks start text hps)"

text \<open>\<open>None\<close> is an executable that cannot be read or parsed.\<close>

definition search_patterns :: "bool \<Rightarrow> image option \<Rightarrow> (address_error, addresses) outcome" where
  "search_patterns modding exe =
    (case exe of
       None \<Rightarrow> Fails AddressIO
     | Some im \<Rightarrow>
        (case (im_rdata im, Option.bind (im_rdata im) is_data, im_has_data im, im_text im, Option.bind (im_text im) is_data) of
           (Some rdata, Some rbytes, True, Some text, Some tbytes) \<Rightarrow>
             let start = is_address text + im_base im in
             (case find_subsequence rbytes (str_bytes ''onlineconfigservice.ubi.com'' @ [0]) of
                None \<Rightarrow> Fails IdFailed
              | Some url \<Rightarrow>
                 (case search_text ONLINE_CLIENT_CFG_PATTERN tbytes of
                    None \<Rightarrow> Panics
                  | Some None \<Rightarrow> Fails IdFailed
                  | Some (Some client) \<Rightarrow>
                     (case (search_text CMDLINE_PATTERN tbytes, parsed_hook_patterns modding) of
                        (Some cmdline, Some hps) \<Rightarrow>
                          (case locate_hooks start tbytes hps (empty_addresses (im_displacement im client)
                              (im_base im + is_address rdata + url) (map_option (im_immediate im) cmdline)) of
                             None \<Rightarrow> Panics
                           | Some a \<Rightarrow> Value a)
                      | _ \<Rightarrow> Panics)))
         | _ \<Rightarrow> Fails AddressIO))"

section \<open>The slots of a hook\<close>

fun hook_slots :: "addresses \<Rightarrow> hook \<Rightarrow> nat option list" where
  "hook_slots a GearStrDestructor =
    [func_gear_str_destructor a, func_another_gear_str_destructor a, func_some_gear_str_constructor a]"
| "hook_slots a StormEventDispatcher =
    [func_storm_event_dispatch a, func_storm_event_dispatch2 a, func_storm_event_maybe_queue_pop a, func_storm_event_handler a]"
| "hook_slots a RMCMessages = [func_rmc_init_message a, func_rmc_add_method_id a, func_rmc_send_message a]"
| "hook_slots a GetAdaptersInfo = []"
| "hook_slots a Gethostbyname = []"
| "hook_slots a StormPackets = []"
| "hook_slots a h = [case h of
      Printer \<Rightarrow> func_printer a | LeaveState \<Rightarrow> func_net_finite_state_leave_state a
    | NextState \<Rightarrow> func_net_finite_state_machine_next_state a | NetResultBase \<Rightarrow> func_net_result_base a
    | Goal \<Rightarrow> func_something_with_goal a | SetStep \<Rightarrow> func_quazal_stepsequencejob_setstep a
    | Thread \<Rightarrow> func_thread_starter a | ChangeState \<Rightarrow> func_goal_change_state a | NetCore \<Rightarrow> func_net_core a
    | NetResultCore \<Rightarrow> func_net_result_core a | NetResultSession \<Rightarrow> func_net_result_session a
    | NetResultRdvSession \<Rightarrow> func_net_result_rdv_session a | NetResultLobby \<Rightarrow> func_net_result_lobby a
    | StormHostPortToString \<Rightarrow> func_storm_host_port_to_str a | GenerateID \<Rightarrow> func_generate_id a
    | StormSetState \<Rightarrow> func_storm_maybe_set_state a
    | StormStateMachineActionExecute \<Rightarrow> func_storm_statemachineaction_execute a
    | StormErrorFormatter \<Rightarrow> func_storm_some_error_formatter a | _ \<Rightarrow> func_open_file_from_archive a]"

definition hook_size :: "hook \<Rightarrow> nat" where
  "hook_size h = (if h \<in> {GetAdaptersInfo, Gethostbyname, StormPackets} then 0
     else if h \<in> {GearStrDestructor, RMCMessages} then 3 else if h = StormEventDispatcher then 4 else 1)"

lemma hook_addr_slots: "hook_size h \<noteq> 0 \<Longrightarrow> hook_addr a h = option2vec (hook_slots a h)"
  by (cases h) (simp_all add: hook_size_def)

lemma hook_slots_other: "h \<noteq> k \<Longrightarrow> hook_slots (set_hook_addrs k as a) h = hook_slots a h"
  by (cases h; cases k) simp_all

lemma hook_slots_same: "hook_slots (set_hook_addrs h as a) h = map (slot as) [0..<hook_size h]"
  by (cases h) (simp_all add: hook_size_def numeral_eq_Suc)

section \<open>Searching\<close>

text \<open>Where a pattern is first found.\<close>

definition first_at :: "nat \<Rightarrow> bytes \<Rightarrow> pattern \<Rightarrow> nat option" where
  "first_at start text p = (if \<exists>i. occurs p text i then Some (start + (LEAST i. occurs p text i)) else None)"

lemma located_first:
  "list_all (\<lambda>p. p \<noteq> []) ps \<Longrightarrow> located start text ps = Some (List.map_filter (first_at start text) ps)"
proof -
  assume "list_all (\<lambda>p. p \<noteq> []) ps"
  then have "those (map (\<lambda>p. pattern_search p text) ps)
      = Some (map (\<lambda>p. if \<exists>i. occurs p text i then Some (LEAST i. occurs p text i) else None) ps)"
    by (induction ps) (simp_all add: search_spec)
  moreover have "List.map_filter (map_option ((+) start)) (map (\<lambda>p. if \<exists>i. occurs p text i then Some (LEAST i. occurs p text i) else None) ps)
      = List.map_filter (first_at start text) ps"
    by (induction ps) (simp_all add: List.map_filter_simps first_at_def)
  ultimately show ?thesis by (simp add: located_def)
qed

lemma locate_hooks_slots:
  assumes "locate_hooks start text hps a = Some b" and "distinct (map fst hps)"
    and "list_all (\<lambda>(h, ps). list_all (\<lambda>p. p \<noteq> []) ps) hps"
  shows "hook_slots b h = (case Option.bind (map_of hps h) (\<lambda>ps. Some (List.map_filter (first_at start text) ps)) of
      Some (x # xs) \<Rightarrow> map (slot (x # xs)) [0..<hook_size h] | _ \<Rightarrow> hook_slots a h)"
  using assms
proof (induction hps arbitrary: a)
  case (Cons hp hps)
  obtain k qs where hp: "hp = (k, qs)" by (cases hp)
  have qs: "list_all (\<lambda>p. p \<noteq> []) qs" using Cons.prems hp by auto
  define c where "c = (if List.map_filter (first_at start text) qs = [] then a
      else set_hook_addrs k (List.map_filter (first_at start text) qs) a)"
  have "locate_hooks start text hps c = Some b"
    using Cons.prems(1) by (auto simp: hp locate_hook_def located_first [OF qs] c_def)
  note IH = Cons.IH [OF this]
  show ?case
  proof (cases "h = k")
    case True
    then have "map_of hps h = None" using Cons.prems(2) hp by (simp add: map_of_eq_None_iff)
    then show ?thesis using IH Cons.prems True hp by (auto simp: c_def hook_slots_same split: list.split)
  next
    case False
    then have "hook_slots c h = hook_slots a h" by (simp add: c_def hook_slots_other)
    then show ?thesis using IH Cons.prems False hp by (simp split: option.split list.split)
  qed
qed simp

lemma locate_hooks_total:
  "list_all (\<lambda>(h, ps). list_all (\<lambda>p. p \<noteq> []) ps) hps \<Longrightarrow> \<exists>b. locate_hooks start text hps a = Some b"
  by (induction hps arbitrary: a) (auto simp: locate_hook_def located_first)

text \<open>Every static pattern can be parsed, and none is empty.\<close>

definition pattern_string_ok :: "string \<Rightarrow> bool" where
  "pattern_string_ok s \<longleftrightarrow> s \<noteq> [] \<and> hd s \<noteq> CHR '' '' \<and> list_all (\<lambda>c. c \<in> set ''0123456789ABCDEF? '') s"

lemma pattern_string:
  assumes "pattern_string_ok s"
  shows "\<exists>p. parse_pattern s = Some p \<and> p \<noteq> []"
proof -
  have known: "parse_nibble c \<noteq> None" if "c \<in> set ''0123456789ABCDEF? ''" "c \<noteq> CHR '' ''" for c
    using that by (auto simp: parse_nibble_def to_digit16_def)
  have "\<forall>c\<in>set (filter (\<lambda>c. c \<noteq> CHR '' '') s). parse_nibble c \<noteq> None"
  proof
    fix c assume "c \<in> set (filter (\<lambda>c. c \<noteq> CHR '' '') s)"
    then have "c \<in> set s" and c: "c \<noteq> CHR '' ''" by simp_all
    then have "c \<in> set ''0123456789ABCDEF? ''"
      using assms unfolding pattern_string_ok_def list_all_iff by blast
    from this c show "parse_nibble c \<noteq> None" by (rule known)
  qed
  then obtain ns where ns: "those (map parse_nibble (filter (\<lambda>c. c \<noteq> CHR '' '') s)) = Some ns"
    using those_all by blast
  have "length ns = length (filter (\<lambda>c. c \<noteq> CHR '' '') s)"
    using ns by (auto dest: those_length)
  moreover have "filter (\<lambda>c. c \<noteq> CHR '' '') s \<noteq> []"
    using assms by (cases s) (auto simp: pattern_string_ok_def)
  ultimately have "ns \<noteq> []" by auto
  then have "chunk_nibbles ns \<noteq> []" by (cases ns rule: chunk_nibbles.cases) simp_all
  with ns show ?thesis by (simp add: parse_pattern_def)
qed

lemma hook_patterns_ok: "list_all (\<lambda>(h, ss). list_all pattern_string_ok ss) (hook_patterns modding)"
  by (simp add: hook_patterns_def pattern_string_ok_def)

lemma fixed_patterns_ok: "pattern_string_ok ONLINE_CLIENT_CFG_PATTERN" "pattern_string_ok CMDLINE_PATTERN"
  by (simp_all add: ONLINE_CLIENT_CFG_PATTERN_def CMDLINE_PATTERN_def pattern_string_ok_def)

lemma those_pairs:
  "those (map (\<lambda>(h, x). map_option (Pair h) (f x)) xs) = Some ys \<Longrightarrow>
    map fst ys = map fst xs \<and> (\<forall>h. map_of ys h = Option.bind (map_of xs h) f) \<and> (\<forall>h y. (h, y) \<in> set ys \<longrightarrow> (\<exists>x. (h, x) \<in> set xs \<and> f x = Some y))"
  by (induction xs arbitrary: ys) (fastforce split: option.splits)+

lemma parsed_hook_patterns_ok:
  "\<exists>hps. parsed_hook_patterns modding = Some hps \<and> distinct (map fst hps) \<and> list_all (\<lambda>(h, ps). list_all (\<lambda>p. p \<noteq> []) ps) hps
    \<and> (\<forall>h. map_of hps h = Option.bind (map_of (hook_patterns modding) h) (\<lambda>ss. those (map parse_pattern ss)))"
proof -
  have ok: "\<exists>p. parse_pattern s = Some p \<and> p \<noteq> []" if "(h, ss) \<in> set (hook_patterns modding)" "s \<in> set ss" for h ss s
    using that hook_patterns_ok [of modding] by (intro pattern_string) (auto simp: list_all_iff)
  have all: "\<exists>ps. those (map parse_pattern ss) = Some ps" if "(h, ss) \<in> set (hook_patterns modding)" for h ss
    using ok [OF that] by (intro those_all ballI) auto
  have "\<exists>hps. parsed_hook_patterns modding = Some hps"
    unfolding parsed_hook_patterns_def
  proof (rule those_all, rule ballI)
    fix x assume x: "x \<in> set (hook_patterns modding)"
    obtain h ss where "x = (h, ss)" by (cases x)
    with all x show "(case x of (h, ss) \<Rightarrow> map_option (Pair h) (those (map parse_pattern ss))) \<noteq> None" by auto
  qed
  then obtain hps where hps: "parsed_hook_patterns modding = Some hps" by blast
  note q = those_pairs [OF hps [unfolded parsed_hook_patterns_def]]
  have "p \<noteq> []" if mem: "(h, ps) \<in> set hps" "p \<in> set ps" for h ps p
  proof -
    obtain ss where ss: "(h, ss) \<in> set (hook_patterns modding)" "those (map parse_pattern ss) = Some ps"
      using q mem(1) by blast
    obtain s where "s \<in> set ss" "parse_pattern s = Some p" using those_member [OF ss(2) mem(2)] by blast
    then show ?thesis using ok [OF ss(1)] by force
  qed
  then have ne: "list_all (\<lambda>(h, ps). list_all (\<lambda>p. p \<noteq> []) ps) hps" by (auto simp: list_all_iff)
  have "distinct (map fst (hook_patterns modding))" by (simp add: hook_patterns_def)
  then have "distinct (map fst hps)" using q by simp
  with hps ne q show ?thesis by blast
qed

lemma search_text_total: "pattern_string_ok s \<Longrightarrow> \<exists>r. search_text s text = Some r"
  using pattern_string [of s] by (auto simp: search_text_def search_spec)

lemma empty_slots: "hook_slots (empty_addresses c u l) h = replicate (hook_size h) None"
  by (cases h) (simp_all add: empty_addresses_def hook_size_def numeral_eq_Suc)

definition found_at :: "nat \<Rightarrow> bytes \<Rightarrow> string list \<Rightarrow> nat list" where
  "found_at start text ss = (case those (map parse_pattern ss) of
     None \<Rightarrow> [] | Some ps \<Rightarrow> List.map_filter (first_at start text) ps)"

lemma search_never_panics: "search_patterns modding exe \<noteq> Panics"
proof -
  obtain hps where hps: "parsed_hook_patterns modding = Some hps" "list_all (\<lambda>(h, ps). list_all (\<lambda>p. p \<noteq> []) ps) hps"
    using parsed_hook_patterns_ok by blast
  have fixed: "search_text ONLINE_CLIENT_CFG_PATTERN t \<noteq> None" "search_text CMDLINE_PATTERN t \<noteq> None" for t
    using search_text_total fixed_patterns_ok by auto
  have total: "locate_hooks start t hps b \<noteq> None" for start t b using locate_hooks_total [OF hps(2)] by simp
  show ?thesis
    using hps(1) by (auto simp: search_patterns_def Let_def fixed total simp del: not_None_eq split: option.splits bool.splits)
qed

lemma search_slots:
  assumes run: "search_patterns modding exe = Value a"
  shows "\<exists>im text tbytes. exe = Some im \<and> im_text im = Some text \<and> is_data text = Some tbytes
      \<and> (\<forall>h. hook_slots a h = map (slot (case map_of (hook_patterns modding) h of None \<Rightarrow> []
            | Some ss \<Rightarrow> found_at (is_address text + im_base im) tbytes ss)) [0..<hook_size h])"
proof -
  obtain hps where hps: "parsed_hook_patterns modding = Some hps" "distinct (map fst hps)"
      "list_all (\<lambda>(h, ps). list_all (\<lambda>p. p \<noteq> []) ps) hps"
      "\<forall>h. map_of hps h = Option.bind (map_of (hook_patterns modding) h) (\<lambda>ss. those (map parse_pattern ss))"
    using parsed_hook_patterns_ok by blast
  obtain im sec tbytes c u l where im: "exe = Some im" "im_text im = Some sec" "is_data sec = Some tbytes"
      "locate_hooks (is_address sec + im_base im) tbytes hps (empty_addresses c u l) = Some a"
    using run hps(1) by (auto simp: search_patterns_def Let_def split: option.splits bool.splits)
  have "hook_slots a h = map (slot (case map_of (hook_patterns modding) h of None \<Rightarrow> []
      | Some ss \<Rightarrow> found_at (is_address sec + im_base im) tbytes ss)) [0..<hook_size h]" for h
  proof -
    have "map_of hps h = Option.bind (map_of (hook_patterns modding) h) (\<lambda>ss. those (map parse_pattern ss))" using hps(4) by blast
    moreover have "replicate n None = map (slot []) [0..<n]" for n
      by (rule nth_equalityI) (simp_all add: slot_def)
    ultimately show ?thesis using locate_hooks_slots [OF im(4) hps(2,3), of h]
      by (simp add: empty_slots found_at_def split: option.splits list.splits)
  qed
  with im show ?thesis by blast
qed


text \<open>The only pattern of \<open>GearStrDestructor\<close> is that of \<open>Printer\<close>.\<close>

lemma destructor_is_printer:
  assumes "search_patterns modding exe = Value a"
  shows "func_gear_str_destructor a = func_printer a"
proof -
  obtain l where l: "\<forall>h. hook_slots a h = map (slot (case map_of (hook_patterns modding) h of None \<Rightarrow> [] | Some ss \<Rightarrow> l ss)) [0..<hook_size h]"
    using search_slots [OF assms] by blast
  define l' where "l' = (\<lambda>s. case s of None \<Rightarrow> [] | Some ss \<Rightarrow> l ss)"
  from l have "hook_slots a Printer = map (slot (l' (map_of (hook_patterns modding) Printer))) [0..<hook_size Printer]"
    and "hook_slots a GearStrDestructor = map (slot (l' (map_of (hook_patterns modding) GearStrDestructor))) [0..<hook_size GearStrDestructor]"
    unfolding l'_def by blast+
  moreover have "map_of (hook_patterns modding) Printer = map_of (hook_patterns modding) GearStrDestructor"
    by (simp add: hook_patterns_def)
  ultimately show ?thesis by (simp add: hook_size_def numeral_eq_Suc)
qed


definition sample_text :: bytes where
  "sample_text = [0xA1, 0, 0, 0, 0, 0x50, 0x8D, 0x40, 0, 0x51, 0x8B, 0x0D, 0, 0, 0, 0, 0x8D, 0x50, 0, 0x52, 0x8D, 0x40, 0,
     0x50, 0xE8, 0, 0, 0, 0]"

definition sample_exe :: image where
  "sample_exe = \<lparr>im_base = 0x400000,
     im_rdata = Some \<lparr>is_address = 0x2000, is_data = Some (str_bytes ''onlineconfigservice.ubi.com'' @ [0])\<rparr>, im_has_data = True,
     im_text = Some \<lparr>is_address = 0x1000, is_data = Some sample_text\<rparr>, im_displacement = (\<lambda>_. 7), im_immediate = (\<lambda>_. 8)\<rparr>"


text \<open>The addresses that are found close ranks: without the first one, the second takes its place.\<close>

lemma missing_pattern_shifts:
  assumes "found_at start text [s1, s2, s3, s4] = [x]"
  shows "hook_slots (set_hook_addrs StormEventDispatcher (found_at start text [s1, s2, s3, s4]) a) StormEventDispatcher
    = [Some x, None, None, None]"
  by (simp add: assms hook_slots_same hook_size_def slot_def numeral_eq_Suc)

section \<open>Identifying a version\<close>

lemma map_of_or_insert_all:
  "map_of (or_insert_all t custom) h = (case map_of t h of Some a \<Rightarrow> Some a | None \<Rightarrow> map_of custom h)"
proof -
  have "map_of (foldl (\<lambda>t e. if map_of t (fst e) = None then t @ [e] else t) t custom) h
      = (case map_of t h of Some a \<Rightarrow> Some a | None \<Rightarrow> map_of custom h)"
  proof (induction custom arbitrary: t)
    case Nil
    then show ?case by (simp split: option.split)
  next
    case (Cons e es)
    then show ?case by (cases e) (auto simp: map_add_def split: option.split)
  qed
  then show ?thesis by (simp add: or_insert_all_def)
qed

text \<open>An executable with the name of the game is identified by its hash in
  the built-in table first, so that no file can change the addresses of a known version, then in the
  file in its directory; without a name, with another name, without a hash or with an unknown one,
  the respective error is answered. A file is only written where there was none.\<close>

lemma version_identified:
  "fst (get_from_path to_json from_json can_create exec_dir dir file_name digest files) =
     (case file_name of
        None \<Rightarrow> Inl NoFileName
      | Some f \<Rightarrow>
         (case inbuilt_addresses (map lower_char f) of
            None \<Rightarrow> Inl (UnknownBinary (map lower_char f))
          | Some t \<Rightarrow>
             (case digest of
                None \<Rightarrow> Inl (BinaryMismatch (map lower_char f) '''')
              | Some h \<Rightarrow>
                 (case map_of t h of
                    Some a \<Rightarrow> Inr a
                  | None \<Rightarrow>
                     (case Option.bind (load_custom_addresses from_json (save_builtin_addresses to_json can_create exec_dir files dir) (map lower_char f))
                         (\<lambda>c. map_of c h) of
                        Some a \<Rightarrow> Inr a
                      | None \<Rightarrow> Inl (BinaryMismatch (map lower_char f) (hex h)))))))
   \<and> (files d = None \<or> snd (get_from_path to_json from_json can_create exec_dir dir file_name digest files) d = files d)"
  by (auto simp: get_from_path_def build_game_map_def Let_def map_of_or_insert_all save_builtin_addresses_def
      save_addresses_impl_def split: option.splits)

section \<open>The file\<close>

lemma lower_back: "n < 16 \<Longrightarrow> to_digit16 (lower_digit n) = Some n"
proof -
  assume n: "n < 16"
  then have "(of_char (lower_digit n) :: nat) = (if n < 10 then 48 + n else 87 + n)"
    by (simp add: lower_digit_def)
  with n show ?thesis by (auto simp: to_digit16_def Let_def)
qed

lemma hex_pairs_hex: "hex_pairs (hex h) = Some h"
proof (induction h)
  case (Cons b bs)
  have "unat b < 256" by simp
  then have "unat b div 16 < 16" by (intro less_mult_imp_div_less) simp
  then have "to_digit16 (lower_digit (unat b div 16)) = Some (unat b div 16)"
      "to_digit16 (lower_digit (unat b mod 16)) = Some (unat b mod 16)" by (simp_all add: lower_back)
  moreover have "(of_nat (16 * (unat b div 16) + unat b mod 16) :: u8) = b" by simp
  ultimately show ?case using Cons by (simp add: hex_def del: of_nat_add of_nat_mult)
qed (simp add: hex_def)

lemma dehex_hex: "length h = 32 \<Longrightarrow> dehex (hex h) = Some h"
proof -
  assume "length h = 32"
  moreover have "length (hex h) = 2 * length h" by (induction h) (simp_all add: hex_def)
  ultimately show ?thesis by (simp add: dehex_def hex_pairs_hex)
qed

lemma insert_games: "distinct (map fst (t @ xs)) \<Longrightarrow> foldl insert_game t xs = t @ xs"
proof (induction xs arbitrary: t)
  case (Cons x xs)
  then have "\<forall>y\<in>set t. fst y \<noteq> fst x" by (auto intro: image_eqI dest: sym)
  then have "filter (\<lambda>y. fst y \<noteq> fst x) t = t" by (simp add: filter_id_conv)
  then have "insert_game t x = t @ [x]" by (simp add: insert_game_def)
  with Cons show ?case by simp
qed simp

lemma dehex_hex_table:
  assumes "distinct (map fst t)" and "\<forall>x\<in>set t. length (fst x) = 32"
  shows "dehex_table (hex_table t) = Some t"
proof -
  have "those (map (\<lambda>(k, v). map_option (\<lambda>h. (h, v)) (dehex k)) (hex_table t)) = Some t"
    using assms(2) by (induction t) (auto simp: hex_table_def dehex_hex)
  then show ?thesis using insert_games [of "[]" t] assms(1) by (simp add: dehex_table_def)
qed

text \<open>What is saved for the two games is what is loaded for them, and nothing is loaded for another name,
  as long as JSON reads back what it wrote.\<close>

lemma addresses_file_roundtrip:
  assumes "from_json (to_json \<lparr>saved_dx9 = hex_table dx9, saved_dx11 = hex_table dx11\<rparr>)
      = Some \<lparr>saved_dx9 = hex_table dx9, saved_dx11 = hex_table dx11\<rparr>"
    and "distinct (map fst dx9)" and "\<forall>x\<in>set dx9. length (fst x) = 32"
    and "distinct (map fst dx11)" and "\<forall>x\<in>set dx11. length (fst x) = 32"
  shows "load_custom_addresses from_json (save_addresses to_json True dir dx9 dx11 files dir) name
    = (if name = ''blacklist_game.exe'' then Some dx9 else if name = ''blacklist_dx11_game.exe'' then Some dx11 else None)"
  by (simp add: load_custom_addresses_def save_addresses_def save_addresses_impl_def assms dehex_hex_table)

end
