(* ===== verification/Hook_Install.thy ===== *)
theory Hook_Install
  imports Game_Addresses
begin

text \<open>
  Which functions are detoured when the library is loaded, and which stay detoured when it is unloaded
  (\<open>init\<close> and \<open>deinit\<close> of \<open>client/hooks/src/hooks.rs\<close>, \<open>hooks/storm.rs\<close> and
  \<open>hooks/quazal.rs\<close>). Making a detour is done by the crate retour: \<open>ok\<close> tells for which
  functions it succeeds. The addresses of system functions are arguments too.
\<close>

section \<open>Detours\<close>

text \<open>The static detours.\<close>

datatype engine_hook =
    ChangeStateHook | GearStrDestructorHook | SomeGearStrConstructorHook | AnotherGearStrDestructorHook
  | GenerateIDHook | SomethingWithGoalHook | LeaveStateHook | NetResultBaseHook | NetResultCoreHook
  | NetResultLobbyHook | NetResultRdvSessionHook | NetResultSessionHook | NextStateHook | PrinterHook
  | QuazalStepSequenceJobSetStateHook | StormErrorFormatterHook | StormHostPortToStringHook | StormSetStateHook
  | StormStateMachineActionExecuteHook | ThreadStarterHook | ArcOpenFileHook | NetCoreHook
  | StormJoinAdmissionTraceHook | StormSessionLockTraceHook | StormSessionUnlockTraceHook
  | AsmStateJoinEnterHook | AsmJoinSessionRmcHook | AsmJoinCompletionEventHook | AsmStateJoinUpdateHook
  | AsmStormSessionSnapshotApplyHook | AsmRdvCompletionRouterHook | AsmRdvRouteFilterHook | AsmStateJoinResetHook
  | AsmRdvEventFanoutHook | AsmRdvListenerFactoryHook | GetAdaptersInfoHook | GethostbynameHook | GetAddrinfoHook
  | StateAcceptInviteEnterHook | SomeEventHook | SomeEvent2Hook | EventMaybeQueuePopHook | EventHandlerHook
  | BindSocketHook | ConnectHook | WsaConnectHook | CloseSocketHook | SendToHook | RecvFromHook
  | InitMessageHook | AddMethodIDHook | SendRMCMessageHook

definition hook_configured :: "client_config \<Rightarrow> hook \<Rightarrow> bool" where
  "hook_configured cfg h \<longleftrightarrow> cc_enable_all_hooks cfg \<or> h \<in> cc_enable_hooks cfg"

definition hook_with_name :: "(engine_hook \<Rightarrow> bool) \<Rightarrow> engine_hook \<Rightarrow> nat option \<Rightarrow> engine_hook set \<Rightarrow> engine_hook set" where
  "hook_with_name ok d target enabled =
    (case target of None \<Rightarrow> enabled | Some a \<Rightarrow> if ok d then insert d enabled else enabled)"

text \<open>A detour, the hook that must be configured for it if any, and where it is put.\<close>

type_synonym installation = "engine_hook \<times> hook option \<times> nat option"

fun configurable_hook :: "(engine_hook \<Rightarrow> bool) \<Rightarrow> client_config \<Rightarrow> installation \<Rightarrow> engine_hook set \<Rightarrow> engine_hook set" where
  "configurable_hook ok cfg (d, Some h, target) enabled =
    (if hook_configured cfg h then hook_with_name ok d target enabled else enabled)"
| "configurable_hook ok cfg (d, None, target) enabled = hook_with_name ok d target enabled"

definition engine_installations :: "bool \<Rightarrow> addresses \<Rightarrow> installation list" where
  "engine_installations modding addr =
    [(ChangeStateHook, Some ChangeState, func_goal_change_state addr),
     (GearStrDestructorHook, Some GearStrDestructor, func_gear_str_destructor addr),
     (SomeGearStrConstructorHook, Some GearStrDestructor, func_some_gear_str_constructor addr),
     (AnotherGearStrDestructorHook, Some GearStrDestructor, func_another_gear_str_destructor addr),
     (GenerateIDHook, Some GenerateID, func_generate_id addr),
     (SomethingWithGoalHook, Some Goal, func_something_with_goal addr),
     (LeaveStateHook, Some LeaveState, func_net_finite_state_leave_state addr),
     (NetResultBaseHook, Some NetResultBase, func_net_result_base addr),
     (NetResultCoreHook, Some NetResultCore, func_net_result_core addr),
     (NetResultLobbyHook, Some NetResultLobby, func_net_result_lobby addr),
     (NetResultRdvSessionHook, Some NetResultRdvSession, func_net_result_rdv_session addr),
     (NetResultSessionHook, Some NetResultSession, func_net_result_session addr),
     (NextStateHook, Some NextState, func_net_finite_state_machine_next_state addr),
     (PrinterHook, Some Printer, func_printer addr),
     (QuazalStepSequenceJobSetStateHook, Some SetStep, func_quazal_stepsequencejob_setstep addr),
     (StormErrorFormatterHook, Some StormErrorFormatter, func_storm_some_error_formatter addr),
     (StormHostPortToStringHook, Some StormHostPortToString, func_storm_host_port_to_str addr),
     (StormSetStateHook, Some StormSetState, func_storm_maybe_set_state addr),
     (StormStateMachineActionExecuteHook, Some StormStateMachineActionExecute, func_storm_statemachineaction_execute addr),
     (ThreadStarterHook, Some Thread, func_thread_starter addr)]
    @ (if modding then [(ArcOpenFileHook, Some OverridePackaged, func_open_file_from_archive addr)] else [])
    @ [(NetCoreHook, None, func_net_core addr),
     (StormJoinAdmissionTraceHook, None, func_storm_join_admission_trace addr),
     (StormSessionLockTraceHook, None, func_storm_session_lock_trace addr),
     (StormSessionUnlockTraceHook, None, func_storm_session_unlock_trace addr),
     (AsmStateJoinEnterHook, None, func_state_join_on_enter_trace addr),
     (AsmJoinSessionRmcHook, None, func_join_session_rmc_trace addr),
     (AsmJoinCompletionEventHook, None, func_join_completion_event_trace addr),
     (AsmStateJoinUpdateHook, None, func_state_join_update_trace addr),
     (AsmStormSessionSnapshotApplyHook, None, func_storm_session_snapshot_apply_trace addr),
     (AsmRdvCompletionRouterHook, None, func_rdv_completion_router_trace addr),
     (AsmRdvRouteFilterHook, None, func_rdv_route_filter_trace addr),
     (AsmStateJoinResetHook, None, func_state_join_reset_trace addr),
     (AsmRdvEventFanoutHook, None, func_rdv_event_fanout_trace addr),
     (AsmRdvListenerFactoryHook, None, func_rdv_listener_factory_trace addr)]"

definition state_accept_invite_enter_target :: "addresses \<Rightarrow> nat option" where
  "state_accept_invite_enter_target addr =
    (if func_net_finite_state_machine_next_state addr = Some 0x00834ff0 then Some 0x0087a2e0 else None)"

text \<open>The functions a library of the system exports: \<open>None\<close> if it cannot be loaded.\<close>

record system_libraries =
  iphlpapi :: "(string \<Rightarrow> nat option) option"
  ws2_32 :: "(string \<Rightarrow> nat option) option"

definition system_installations ::
    "bool \<Rightarrow> addresses \<Rightarrow> (string \<Rightarrow> nat option) \<Rightarrow> (string \<Rightarrow> nat option) \<Rightarrow> installation list" where
  "system_installations patch_free addr ip ws =
    [(GetAdaptersInfoHook, None, ip ''GetAdaptersInfo''), (GethostbynameHook, None, ws ''gethostbyname'')]
    @ (if patch_free then [(GetAddrinfoHook, None, ws ''getaddrinfo'')] else [])
    @ [(StateAcceptInviteEnterHook, None, state_accept_invite_enter_target addr)]"

definition storm_installations :: "client_config \<Rightarrow> addresses \<Rightarrow> (string \<Rightarrow> nat option) \<Rightarrow> installation list" where
  "storm_installations cfg addr ws =
    [(SomeEventHook, Some StormEventDispatcher, func_storm_event_dispatch addr),
     (SomeEvent2Hook, Some StormEventDispatcher, func_storm_event_dispatch2 addr),
     (EventMaybeQueuePopHook, Some StormEventDispatcher, func_storm_event_maybe_queue_pop addr),
     (EventHandlerHook, Some StormEventDispatcher, func_storm_event_handler addr)]
    @ (if nw_ip_address (cc_networking cfg) \<noteq> None
       then [(BindSocketHook, None, ws ''bind''), (ConnectHook, None, ws ''connect''),
             (WsaConnectHook, None, ws ''WSAConnect''), (CloseSocketHook, None, ws ''closesocket''),
             (SendToHook, None, ws ''sendto''), (RecvFromHook, None, ws ''recvfrom'')]
       else [(SendToHook, Some StormPackets, ws ''sendto''), (RecvFromHook, Some StormPackets, ws ''recvfrom'')])"

definition quazal_installations :: "addresses \<Rightarrow> installation list" where
  "quazal_installations addr =
    [(InitMessageHook, Some RMCMessages, func_rmc_init_message addr),
     (AddMethodIDHook, Some RMCMessages, func_rmc_add_method_id addr),
     (SendRMCMessageHook, Some RMCMessages, func_rmc_send_message addr)]"

text \<open>\<open>None\<close> is the panic when a library of the system cannot be loaded.\<close>

definition hooks_init ::
    "bool \<Rightarrow> bool \<Rightarrow> (engine_hook \<Rightarrow> bool) \<Rightarrow> system_libraries \<Rightarrow> client_config \<Rightarrow> addresses \<Rightarrow> engine_hook set option" where
  "hooks_init modding patch_free ok sys cfg addr =
    (let enabled = fold (configurable_hook ok cfg) (engine_installations modding addr) {} in
     case (iphlpapi sys, ws2_32 sys) of
       (Some ip, Some ws) \<Rightarrow>
         Some (fold (configurable_hook ok cfg)
           (system_installations patch_free addr ip ws @ storm_installations cfg addr ws @ quazal_installations addr) enabled)
     | _ \<Rightarrow> None)"

section \<open>Unloading\<close>

definition engine_removals :: "bool \<Rightarrow> (engine_hook \<times> hook option) list" where
  "engine_removals modding =
    [(ChangeStateHook, Some ChangeState), (GearStrDestructorHook, Some GearStrDestructor),
     (AnotherGearStrDestructorHook, Some GearStrDestructor), (SomeGearStrConstructorHook, Some GearStrDestructor),
     (GenerateIDHook, Some GenerateID), (GetAdaptersInfoHook, Some GetAdaptersInfo),
     (GethostbynameHook, Some Gethostbyname), (SomethingWithGoalHook, Some Goal), (LeaveStateHook, Some LeaveState),
     (NetCoreHook, Some NetCore), (NetResultBaseHook, Some NetResultBase), (NetResultCoreHook, Some NetResultCore),
     (NetResultLobbyHook, Some NetResultLobby), (NetResultRdvSessionHook, Some NetResultRdvSession),
     (NetResultSessionHook, Some NetResultSession), (NextStateHook, Some NextState), (PrinterHook, Some Printer),
     (QuazalStepSequenceJobSetStateHook, Some SetStep), (StormErrorFormatterHook, Some StormErrorFormatter),
     (StormHostPortToStringHook, Some StormHostPortToString), (StormSetStateHook, Some StormSetState),
     (StormStateMachineActionExecuteHook, Some StormStateMachineActionExecute), (ThreadStarterHook, Some Thread)]
    @ (if modding then [(ArcOpenFileHook, Some OverridePackaged)] else [])
    @ map (\<lambda>d. (d, None)) [StormJoinAdmissionTraceHook, StormSessionLockTraceHook, StormSessionUnlockTraceHook,
        AsmStateJoinEnterHook, AsmJoinSessionRmcHook, AsmJoinCompletionEventHook, AsmStateJoinUpdateHook,
        AsmStormSessionSnapshotApplyHook, AsmRdvCompletionRouterHook, AsmRdvRouteFilterHook, AsmStateJoinResetHook,
        StateAcceptInviteEnterHook]"

definition storm_removals :: "(engine_hook \<times> hook option) list" where
  "storm_removals =
    [(SomeEventHook, Some StormEventDispatcher), (SomeEvent2Hook, Some StormEventDispatcher),
     (EventHandlerHook, Some StormEventDispatcher), (EventMaybeQueuePopHook, Some StormEventDispatcher)]
    @ map (\<lambda>d. (d, None)) [BindSocketHook, ConnectHook, WsaConnectHook, CloseSocketHook, SendToHook, RecvFromHook]"

definition quazal_removals :: "(engine_hook \<times> hook option) list" where
  "quazal_removals =
    [(InitMessageHook, Some RMCMessages), (AddMethodIDHook, Some RMCMessages), (SendRMCMessageHook, Some RMCMessages)]"

fun disable_configurable_hook :: "client_config \<Rightarrow> engine_hook \<times> hook option \<Rightarrow> engine_hook set \<Rightarrow> engine_hook set" where
  "disable_configurable_hook cfg (d, Some h) enabled = (if hook_configured cfg h then enabled - {d} else enabled)"
| "disable_configurable_hook cfg (d, None) enabled = enabled - {d}"

definition hooks_deinit :: "bool \<Rightarrow> client_config \<Rightarrow> engine_hook set \<Rightarrow> engine_hook set" where
  "hooks_deinit modding cfg enabled =
    fold (disable_configurable_hook cfg) (engine_removals modding @ storm_removals @ quazal_removals) enabled"

section \<open>What is detoured\<close>

fun wanted :: "(engine_hook \<Rightarrow> bool) \<Rightarrow> client_config \<Rightarrow> installation \<Rightarrow> bool" where
  "wanted ok cfg (d, h, target) \<longleftrightarrow> ok d \<and> target \<noteq> None \<and> (\<forall>k. h = Some k \<longrightarrow> hook_configured cfg k)"

fun removed :: "client_config \<Rightarrow> engine_hook \<times> hook option \<Rightarrow> bool" where
  "removed cfg (d, h) \<longleftrightarrow> (\<forall>k. h = Some k \<longrightarrow> hook_configured cfg k)"

lemma installed: "fold (configurable_hook ok cfg) xs E = E \<union> fst ` set (filter (wanted ok cfg) xs)"
proof (induction xs arbitrary: E)
  case (Cons x xs)
  obtain d h t where x: "x = (d, h, t)" by (cases x) auto
  have "configurable_hook ok cfg x E = (if wanted ok cfg x then insert d E else E)"
    by (cases h; cases t) (simp_all add: x hook_with_name_def)
  with Cons show ?case by (cases "wanted ok cfg x") (simp_all add: x del: wanted.simps)
qed simp

lemma uninstalled: "fold (disable_configurable_hook cfg) xs E = E - fst ` set (filter (removed cfg) xs)"
proof (induction xs arbitrary: E)
  case (Cons x xs)
  obtain d h where x: "x = (d, h)" by (cases x) auto
  have "disable_configurable_hook cfg x E = (if removed cfg x then E - {d} else E)"
    by (cases h) (simp_all add: x)
  with Cons show ?case by (auto simp: x)
qed simp

definition all_installations ::
    "bool \<Rightarrow> bool \<Rightarrow> client_config \<Rightarrow> addresses \<Rightarrow> (string \<Rightarrow> nat option) \<Rightarrow> (string \<Rightarrow> nat option) \<Rightarrow> installation list" where
  "all_installations modding patch_free cfg addr ip ws = engine_installations modding addr
     @ system_installations patch_free addr ip ws @ storm_installations cfg addr ws @ quazal_installations addr"

lemma hooks_init_set:
  "hooks_init modding patch_free ok sys cfg addr = (case (iphlpapi sys, ws2_32 sys) of
     (Some ip, Some ws) \<Rightarrow> Some (fst ` set (filter (wanted ok cfg) (all_installations modding patch_free cfg addr ip ws)))
   | _ \<Rightarrow> None)"
  by (simp add: hooks_init_def installed all_installations_def Let_def image_Un Un_ac split: option.split)

lemmas installation_defs = all_installations_def engine_installations_def system_installations_def storm_installations_def
  quazal_installations_def

lemmas removal_defs = engine_removals_def storm_removals_def quazal_removals_def

text \<open>What every installation is undone by.\<close>

definition never_removed :: "engine_hook set" where
  "never_removed = {AsmRdvEventFanoutHook, AsmRdvListenerFactoryHook, GetAddrinfoHook}"

definition undone :: "(engine_hook \<times> hook option) list \<Rightarrow> installation \<Rightarrow> bool" where
  "undone rs x \<longleftrightarrow> (fst x, fst (snd x)) \<in> set rs \<or> (fst x, None) \<in> set rs
     \<or> fst x \<in> never_removed \<union> {NetCoreHook, GetAdaptersInfoHook, GethostbynameHook}"

lemma engine_undone: "list_all (undone (engine_removals modding)) (engine_installations modding addr)"
  by (cases modding) (simp_all add: engine_removals_def engine_installations_def undone_def never_removed_def)

lemma system_undone: "list_all (undone (engine_removals modding)) (system_installations patch_free addr ip ws)"
  by (simp add: engine_removals_def system_installations_def undone_def never_removed_def)

lemma storm_undone: "list_all (undone storm_removals) (storm_installations cfg addr ws)"
  by (simp add: storm_removals_def storm_installations_def undone_def never_removed_def)

lemma quazal_undone: "list_all (undone quazal_removals) (quazal_installations addr)"
  by (simp add: quazal_removals_def quazal_installations_def undone_def never_removed_def)

lemma undone_more: "list_all (undone rs) xs \<Longrightarrow> set rs \<subseteq> set ss \<Longrightarrow> list_all (undone ss) xs"
  by (auto simp: list_all_iff undone_def)

lemma all_undone:
  "list_all (undone (engine_removals modding @ storm_removals @ quazal_removals)) (all_installations modding patch_free cfg addr ip ws)"
  unfolding all_installations_def list_all_append
  by (intro conjI undone_more [OF engine_undone] undone_more [OF system_undone] undone_more [OF storm_undone]
      undone_more [OF quazal_undone]) auto

definition unconditional :: "(engine_hook \<times> hook) set" where
  "unconditional = {(NetCoreHook, NetCore), (GetAdaptersInfoHook, GetAdaptersInfo), (GethostbynameHook, Gethostbyname)}"

lemma kept_removals:
  "d \<in> never_removed \<Longrightarrow> d \<notin> fst ` set (engine_removals modding @ storm_removals @ quazal_removals)"
  "(NetCoreHook, h) \<in> set (engine_removals modding @ storm_removals @ quazal_removals) \<longleftrightarrow> h = Some NetCore"
  "(GetAdaptersInfoHook, h) \<in> set (engine_removals modding @ storm_removals @ quazal_removals) \<longleftrightarrow> h = Some GetAdaptersInfo"
  "(GethostbynameHook, h) \<in> set (engine_removals modding @ storm_removals @ quazal_removals) \<longleftrightarrow> h = Some Gethostbyname"
  by (auto simp: removal_defs never_removed_def)

lemma unconditional_removals:
  "(d, k) \<in> unconditional \<Longrightarrow> (d, h) \<in> set (engine_removals modding @ storm_removals @ quazal_removals) \<longleftrightarrow> h = Some k"
  by (auto simp only: unconditional_def insert_iff empty_iff prod.inject kept_removals)

lemma left_after_deinit:
  assumes "hooks_init modding patch_free ok sys cfg addr = Some E"
  shows "hooks_deinit modding cfg E
    = {d \<in> E. d \<in> never_removed \<or> (\<exists>h. (d, h) \<in> unconditional \<and> \<not> hook_configured cfg h)}"
proof -
  define rs where "rs = engine_removals modding @ storm_removals @ quazal_removals"
  obtain xs where E: "E = fst ` set (filter (wanted ok cfg) xs)" and undone: "list_all (undone rs) xs"
    using assms all_undone [of modding patch_free cfg addr] by (auto simp: hooks_init_set rs_def split: option.splits)
  have out: "hooks_deinit modding cfg E = E - fst ` set (filter (removed cfg) rs)"
    by (simp only: hooks_deinit_def uninstalled rs_def)
  have "d \<in> fst ` set (filter (removed cfg) rs) \<longleftrightarrow> \<not> (d \<in> never_removed \<or> (\<exists>h. (d, h) \<in> unconditional \<and> \<not> hook_configured cfg h))"
    if d: "d \<in> E" for d
  proof -
    obtain h t where x: "(d, h, t) \<in> set xs" "wanted ok cfg (d, h, t)" using d E by force
    show ?thesis
    proof (cases "d \<in> never_removed")
      case True
      then show ?thesis using kept_removals(1) [OF True, of modding] by (auto simp: rs_def [symmetric])
    next
      case False
      show ?thesis
      proof (cases "\<exists>k. (d, k) \<in> unconditional")
        case True
        then obtain k where k: "(d, k) \<in> unconditional" by blast
        have only: "(d, h) \<in> set rs \<longleftrightarrow> h = Some k" for h
          unfolding rs_def by (rule unconditional_removals [OF k])
        have same: "k' = k" if "(d, k') \<in> unconditional" for k' using that k by (auto simp: unconditional_def)
        have "d \<in> fst ` set (filter (removed cfg) rs) \<longleftrightarrow> (\<exists>h. (d, h) \<in> set rs \<and> removed cfg (d, h))" by force
        also have "\<dots> \<longleftrightarrow> hook_configured cfg k" by (simp add: only)
        finally show ?thesis using False k same by blast
      next
        case other: False
        then have "d \<notin> {NetCoreHook, GetAdaptersInfoHook, GethostbynameHook}" by (auto simp: unconditional_def)
        then have "(d, h) \<in> set rs \<or> (d, None) \<in> set rs"
          using undone x(1) False by (auto simp: list_all_iff undone_def)
        moreover have "removed cfg (d, h)" "removed cfg (d, None)" using x(2) by simp_all
        ultimately have "d \<in> fst ` set (filter (removed cfg) rs)" by force
        then show ?thesis using False other by blast
      qed
    qed
  qed
  then show ?thesis unfolding out by blast
qed

lemma loaded_hooks:
  assumes "get_or_load toml adapters file cells = (Loaded cfg, cells')" and "cell_config cells = None"
  shows "hook_configured cfg GetAdaptersInfo" and "hook_configured cfg Gethostbyname"
proof -
  obtain raw where "adapt_config adapters (apply_scbl_required_hooks raw) = Some cfg"
    using assms by (auto simp: get_or_load_def parse_scbl_config_def bind_eq_Some_conv split: file_text.splits option.splits if_splits)
  then have "cc_enable_hooks cfg = cc_enable_hooks (apply_scbl_required_hooks raw)"
    by (auto simp: adapt_config_def Let_def split: option.splits if_splits)
  then show "hook_configured cfg GetAdaptersInfo" "hook_configured cfg Gethostbyname"
    by (simp_all add: hook_configured_def apply_scbl_required_hooks_def required_hooks_def)
qed

text \<open>C25 (hooks_after_unload). When the library is unloaded again, with the configuration it was loaded with from the
  file, of the functions it detoured these still lead into it, and no others: the two diagnostic ones,
  the lookup of names, and, unless its hook is configured, the one of the network core.\<close>

theorem hooks_after_unload:
  assumes "get_or_load toml adapters file cells = (Loaded cfg, cells')" and "cell_config cells = None"
    and "hooks_init modding patch_free ok sys cfg addr = Some E"
  shows "hooks_deinit modding cfg E
    = {d \<in> E. d \<in> {AsmRdvEventFanoutHook, AsmRdvListenerFactoryHook, GetAddrinfoHook}
        \<or> d = NetCoreHook \<and> \<not> hook_configured cfg NetCore}"
  using left_after_deinit [OF assms(3)] loaded_hooks [OF assms(1,2)]
  by (auto simp: never_removed_def unconditional_def)

theorem hooks_after_unload_witness:
  "\<exists>cfg E. hooks_init False True (\<lambda>_. True) \<lparr>iphlpapi = Some (\<lambda>_. Some 1), ws2_32 = Some (\<lambda>_. Some 1)\<rparr> cfg dx11_addrs = Some E
    \<and> {NetCoreHook, GetAddrinfoHook} \<subseteq> hooks_deinit False cfg E \<and> PrinterHook \<notin> hooks_deinit False cfg E"
proof -
  define cells where "cells = \<lparr>cell_config = None, cell_url = None\<rparr>"
  obtain cfg cells' where load: "get_or_load (\<lambda>_. Some default_config) None (FileText '''') cells = (Loaded cfg, cells')"
      and plain: "\<not> hook_configured cfg NetCore"
    by (simp add: get_or_load_def parse_scbl_config_def adapt_config_def default_config_def cells_def hook_configured_def
        apply_scbl_required_hooks_def required_hooks_def)
  define sys where "sys = \<lparr>iphlpapi = Some (\<lambda>_. Some 1), ws2_32 = Some (\<lambda>_. Some (1 :: nat))\<rparr>"
  obtain E where E: "hooks_init False True (\<lambda>_. True) sys cfg dx11_addrs = Some E"
    by (simp add: hooks_init_def sys_def Let_def)
  have "NetCoreHook \<in> E" "GetAddrinfoHook \<in> E"
    using E by (auto simp: hooks_init_set sys_def all_installations_def engine_installations_def system_installations_def
        dx11_addrs_def image_Un)
  moreover have "cell_config cells = None" by (simp add: cells_def)
  ultimately have "{NetCoreHook, GetAddrinfoHook} \<subseteq> hooks_deinit False cfg E \<and> PrinterHook \<notin> hooks_deinit False cfg E"
    using hooks_after_unload [OF load _ E] plain by simp
  with E show ?thesis unfolding sys_def by blast
qed

text \<open>Invitations are accepted for the player in one build of the game only.\<close>

definition put_at :: "engine_hook \<Rightarrow> nat option \<Rightarrow> installation \<Rightarrow> bool" where
  "put_at d target x \<longleftrightarrow> fst x = d \<longrightarrow> snd (snd x) = target"

lemma accept_invite_put:
  "list_all (put_at StateAcceptInviteEnterHook (state_accept_invite_enter_target addr)) (all_installations modding patch_free cfg addr ip ws)"
  by (simp add: installation_defs put_at_def)

lemma accept_invite_one_build:
  assumes "hooks_init modding patch_free ok sys cfg addr = Some E" and "StateAcceptInviteEnterHook \<in> E"
  shows "func_net_finite_state_machine_next_state addr = Some 0x00834ff0"
proof -
  obtain ip ws h t where x: "(StateAcceptInviteEnterHook, h, t) \<in> set (all_installations modding patch_free cfg addr ip ws)"
      and "wanted ok cfg (StateAcceptInviteEnterHook, h, t)"
    using assms by (auto simp: hooks_init_set split: option.splits)
  then have "t \<noteq> None" by simp
  moreover have "put_at StateAcceptInviteEnterHook (state_accept_invite_enter_target addr) (StateAcceptInviteEnterHook, h, t)"
    using accept_invite_put x unfolding list_all_iff by blast
  ultimately show ?thesis by (simp add: put_at_def state_accept_invite_enter_target_def split: if_splits)
qed

lemma accept_invite_not_dx9: "state_accept_invite_enter_target dx9_addrs = None" "state_accept_invite_enter_target dx11_addrs \<noteq> None"
  by (simp_all add: state_accept_invite_enter_target_def dx9_addrs_def dx11_addrs_def)

end
