(* ===== verification/Join_Bridge.thy ===== *)
theory Join_Bridge
  imports Prelude
begin

text \<open>
  The bridge that ends a join of a private session (\<open>client/hooks/src/hooks.rs\<close>). The game's functions
  are detoured: what they do to the memory of the game is an argument, \<open>game\<close>. The process is one of
  32 bits, its memory a byte at every address; the pointers the game passes are valid. What the
  detours do otherwise is to write to the log.
\<close>

section \<open>Reading the memory of the game\<close>

type_synonym memory = "u32 \<Rightarrow> u8"

definition peek32 :: "memory \<Rightarrow> u32 \<Rightarrow> u32" where
  "peek32 m a = of_nat (nat_of_le [m a, m (a + 1), m (a + 2), m (a + 3)])"

definition asm_trace_read_u8 :: "memory \<Rightarrow> u32 \<Rightarrow> u32 \<Rightarrow> u8 option" where
  "asm_trace_read_u8 m base offset = (if base = 0 then None else Some (m (base + offset)))"

definition asm_trace_read_u32 :: "memory \<Rightarrow> u32 \<Rightarrow> u32 \<Rightarrow> u32 option" where
  "asm_trace_read_u32 m base offset = (if base = 0 then None else Some (peek32 m (base + offset)))"

definition asm_trace_read_ptr :: "memory \<Rightarrow> u32 \<Rightarrow> u32 \<Rightarrow> u32" where
  "asm_trace_read_ptr m base offset = (if base = 0 then 0 else peek32 m (base + offset))"

definition asm_trace_offset_ptr :: "u32 \<Rightarrow> u32 \<Rightarrow> u32" where
  "asm_trace_offset_ptr base offset = (if base = 0 then 0 else base + offset)"

text \<open>The owner's two status words select the slot that holds the session.\<close>

definition status_joined :: "u32 option \<Rightarrow> bool" where
  "status_joined st \<longleftrightarrow> (case st of None \<Rightarrow> False | Some v \<Rightarrow> 4 \<le> v \<and> v \<le> 6)"

definition asm_resolve_state_join_storm_session ::
    "memory \<Rightarrow> u32 \<Rightarrow> u32 \<times> u32 option \<times> u32 option \<times> u32 \<times> u32 option \<times> u32" where
  "asm_resolve_state_join_storm_session m sj =
    (let owner = asm_trace_read_ptr m sj 0x08;
         status_328 = asm_trace_read_u32 m owner 0x328;
         status_158 = asm_trace_read_u32 m owner 0x158;
         slot = (if status_joined status_328 then asm_trace_offset_ptr owner 0x220
                 else if status_joined status_158 then asm_trace_offset_ptr owner 0x50 else 0);
         class_tag = asm_trace_read_u32 m slot 0x24;
         storm_session = (if class_tag = Some 0x0b then asm_trace_read_ptr m slot 0x10 else 0)
     in (owner, status_328, status_158, slot, class_tag, storm_session))"

section \<open>State\<close>

record join_snapshot =
  js_service :: u32
  js_session_id :: "u32 option"
  js_flag_429 :: "u8 option"
  js_flag_42a :: "u8 option"
  js_flag_42b :: "u8 option"
  js_flag_42c :: "u8 option"
  js_state_mode :: "u32 option"

record join_completion_bridge =
  jb_service :: u32
  jb_session_id :: u32
  jb_completed :: bool

text \<open>The three static maps, by the address of the object that joins, and the memory of the game.\<close>

record join_hooks =
  jh_snapshots :: "u32 \<rightharpoonup> join_snapshot"
  jh_heartbeats :: "u32 \<rightharpoonup> u64"
  jh_bridges :: "u32 \<rightharpoonup> join_completion_bridge"
  jh_memory :: memory

definition no_join_hooks :: "memory \<Rightarrow> join_hooks" where
  "no_join_hooks m = \<lparr>jh_snapshots = Map.empty, jh_heartbeats = Map.empty, jh_bridges = Map.empty, jh_memory = m\<rparr>"

section \<open>Operations\<close>

definition asm_private_join_bridge_arm :: "u32 \<Rightarrow> u32 \<Rightarrow> u32 \<Rightarrow> join_hooks \<Rightarrow> join_hooks" where
  "asm_private_join_bridge_arm sj service sid s =
    s\<lparr>jh_bridges := (jh_bridges s)(sj \<mapsto> \<lparr>jb_service = service, jb_session_id = sid, jb_completed = False\<rparr>)\<rparr>"

definition asm_private_join_bridge_disarm :: "u32 \<Rightarrow> join_hooks \<Rightarrow> join_hooks" where
  "asm_private_join_bridge_disarm sj s = s\<lparr>jh_bridges := (jh_bridges s)(sj := None)\<rparr>"

definition bridge_matches :: "join_completion_bridge \<Rightarrow> join_snapshot \<Rightarrow> bool" where
  "bridge_matches b w \<longleftrightarrow> \<not> (jb_completed b \<or> js_service w \<noteq> jb_service b \<or> js_session_id w \<noteq> Some (jb_session_id b)
     \<or> js_flag_429 w \<noteq> Some 0 \<or> js_flag_42a w \<noteq> Some 0 \<or> js_flag_42b w \<noteq> Some 1 \<or> js_flag_42c w \<noteq> Some 0
     \<or> js_state_mode w \<noteq> Some 0)"

text \<open>Whether the flag was written is the first result.\<close>

definition asm_private_join_bridge_try_complete ::
    "u32 \<Rightarrow> u64 \<Rightarrow> join_snapshot \<Rightarrow> join_hooks \<Rightarrow> bool \<times> join_hooks" where
  "asm_private_join_bridge_try_complete sj heartbeat w s =
    (if heartbeat < 120 then (False, s)
     else case jh_bridges s sj of
       None \<Rightarrow> (False, s)
     | Some b \<Rightarrow>
        if \<not> bridge_matches b w then (False, s)
        else
          let s = s\<lparr>jh_bridges := (jh_bridges s)(sj \<mapsto> b\<lparr>jb_completed := True\<rparr>)\<rparr>;
              flag_42a = js_service w + 0x42a in
          if jh_memory s flag_42a \<noteq> 0 then (False, s)
          else
            let s = s\<lparr>jh_memory := (jh_memory s)(flag_42a := 1)\<rparr> in
            (jh_memory s flag_42a = 1, s))"

definition asm_join_wait_heartbeat :: "u32 \<Rightarrow> join_hooks \<Rightarrow> u64 \<times> join_hooks" where
  "asm_join_wait_heartbeat sj s =
    (let count = (case jh_heartbeats s sj of None \<Rightarrow> 0 | Some n \<Rightarrow> n);
         count = (if count = - 1 then count else count + 1)
     in (count, s\<lparr>jh_heartbeats := (jh_heartbeats s)(sj \<mapsto> count)\<rparr>))"

definition asm_join_wait_snapshot :: "memory \<Rightarrow> u32 \<Rightarrow> join_snapshot" where
  "asm_join_wait_snapshot m sj =
    (let service = asm_trace_read_ptr m sj 0x30;
         session_key = asm_trace_read_ptr m service 0x40c in
     \<lparr>js_service = service, js_session_id = asm_trace_read_u32 m session_key 0x08,
      js_flag_429 = asm_trace_read_u8 m service 0x429, js_flag_42a = asm_trace_read_u8 m service 0x42a,
      js_flag_42b = asm_trace_read_u8 m service 0x42b, js_flag_42c = asm_trace_read_u8 m service 0x42c,
      js_state_mode = asm_trace_read_u32 m sj 0x40\<rparr>)"

definition asm_should_log_join_wait :: "u32 \<Rightarrow> join_snapshot \<Rightarrow> join_hooks \<Rightarrow> bool \<times> join_hooks" where
  "asm_should_log_join_wait sj w s =
    (jh_snapshots s sj \<noteq> Some w, s\<lparr>jh_snapshots := (jh_snapshots s)(sj \<mapsto> w)\<rparr>)"

section \<open>Detours\<close>

text \<open>What the game does when the join starts, and whether it is a private join it will wait for in vain.\<close>

datatype join_branch = StormFlagSkip | NormalJoin | AlternatePath

definition state_join_branch :: "memory \<Rightarrow> memory \<Rightarrow> u32 \<Rightarrow> join_branch" where
  "state_join_branch m m' sj =
    (let service = asm_trace_read_ptr m sj 0x30;
         (_, _, _, _, _, storm_session) = asm_resolve_state_join_storm_session m sj;
         storm_flag_5a8_before = asm_trace_read_u8 m storm_session 0x5a8;
         flag_42b_before = asm_trace_read_u8 m service 0x42b;
         flag_42c_before = asm_trace_read_u8 m service 0x42c;
         flag_42b_after = asm_trace_read_u8 m' service 0x42b in
     if flag_42c_before = Some 0 \<and> storm_flag_5a8_before \<noteq> Some 0 \<and> flag_42b_before = Some 0 \<and> flag_42b_after = Some 1
     then StormFlagSkip
     else if flag_42c_before = Some 0 \<and> storm_flag_5a8_before = Some 0 then NormalJoin else AlternatePath)"

definition bridge_eligible :: "memory \<Rightarrow> memory \<Rightarrow> u32 \<Rightarrow> bool" where
  "bridge_eligible m m' sj \<longleftrightarrow>
    (let service = asm_trace_read_ptr m sj 0x30;
         session_key = asm_trace_read_ptr m service 0x40c;
         bridge_session_id = asm_trace_read_u32 m' session_key 0x08 in
     state_join_branch m m' sj = StormFlagSkip \<and> asm_trace_read_u32 m' session_key 0x04 = Some 1
     \<and> (case bridge_session_id of None \<Rightarrow> False | Some v \<Rightarrow> v \<noteq> 0)
     \<and> asm_trace_read_u8 m' service 0x42a = Some 0 \<and> asm_trace_read_u8 m' service 0x42b = Some 1
     \<and> asm_trace_read_u8 m' service 0x42c = Some 0)"

definition asm_state_join_enter :: "(memory \<Rightarrow> memory) \<Rightarrow> u32 \<Rightarrow> join_hooks \<Rightarrow> join_hooks" where
  "asm_state_join_enter game sj s =
    (let m = jh_memory s;
         service = asm_trace_read_ptr m sj 0x30;
         session_key = asm_trace_read_ptr m service 0x40c;
         m' = game m;
         s = s\<lparr>jh_memory := m'\<rparr> in
     if bridge_eligible m m' sj
     then asm_private_join_bridge_arm sj service (the (asm_trace_read_u32 m' session_key 0x08)) s
     else asm_private_join_bridge_disarm sj s)"

text \<open>The first result is whether the bridge wrote the flag.\<close>

definition asm_state_join_update :: "(memory \<Rightarrow> memory) \<Rightarrow> u32 \<Rightarrow> join_hooks \<Rightarrow> bool \<times> join_hooks" where
  "asm_state_join_update game sj s =
    (let before = asm_join_wait_snapshot (jh_memory s) sj;
         (log_before, s) = asm_should_log_join_wait sj before s;
         (heartbeat, s) = asm_join_wait_heartbeat sj s;
         (wrote, s) = asm_private_join_bridge_try_complete sj heartbeat before s;
         s = s\<lparr>jh_memory := game (jh_memory s)\<rparr>;
         after = asm_join_wait_snapshot (jh_memory s) sj;
         (log_after, s) = asm_should_log_join_wait sj after s
     in (wrote, s))"

definition asm_state_join_reset :: "(memory \<Rightarrow> memory) \<Rightarrow> u32 \<Rightarrow> join_hooks \<Rightarrow> join_hooks" where
  "asm_state_join_reset game sj s =
    (let s = asm_private_join_bridge_disarm sj s in s\<lparr>jh_memory := game (jh_memory s)\<rparr>)"

section \<open>Runs\<close>

text \<open>What happens in the game: a detoured function is called, or other code runs.\<close>

datatype join_event =
    Enter u32 "memory \<Rightarrow> memory"
  | Update u32 "memory \<Rightarrow> memory"
  | Reset u32 "memory \<Rightarrow> memory"
  | Elsewhere "memory \<Rightarrow> memory"

fun join_step :: "join_event \<Rightarrow> join_hooks \<Rightarrow> join_hooks" where
  "join_step (Enter sj game) s = asm_state_join_enter game sj s"
| "join_step (Update sj game) s = snd (asm_state_join_update game sj s)"
| "join_step (Reset sj game) s = asm_state_join_reset game sj s"
| "join_step (Elsewhere game) s = s\<lparr>jh_memory := game (jh_memory s)\<rparr>"

fun join_write :: "join_event \<Rightarrow> join_hooks \<Rightarrow> u32 list" where
  "join_write (Update sj game) s = (if fst (asm_state_join_update game sj s) then [sj] else [])"
| "join_write e s = []"

fun join_run :: "join_event list \<Rightarrow> join_hooks \<Rightarrow> join_hooks" where
  "join_run [] s = s"
| "join_run (e # es) s = join_run es (join_step e s)"

text \<open>For which joins the bridge wrote the flag, in order.\<close>

fun join_writes :: "join_event list \<Rightarrow> join_hooks \<Rightarrow> u32 list" where
  "join_writes [] s = []"
| "join_writes (e # es) s = join_write e s @ join_writes es (join_step e s)"

fun enters :: "u32 \<Rightarrow> join_event \<Rightarrow> bool" where
  "enters sj (Enter sj' game) = (sj' = sj)"
| "enters sj e = False"

fun updates :: "u32 \<Rightarrow> join_event \<Rightarrow> bool" where
  "updates sj (Update sj' game) = (sj' = sj)"
| "updates sj e = False"

fun ends_join :: "u32 \<Rightarrow> join_event \<Rightarrow> bool" where
  "ends_join sj (Enter sj' game) = (sj' = sj)"
| "ends_join sj (Reset sj' game) = (sj' = sj)"
| "ends_join sj e = False"

lemma join_run_append [simp]: "join_run (es @ fs) s = join_run fs (join_run es s)"
  by (induction es arbitrary: s) simp_all

lemma join_writes_append [simp]: "join_writes (es @ fs) s = join_writes es s @ join_writes fs (join_run es s)"
  by (induction es arbitrary: s) simp_all

section \<open>What an update does\<close>

definition next_heartbeat :: "u32 \<Rightarrow> join_hooks \<Rightarrow> u64" where
  "next_heartbeat sj s = fst (asm_join_wait_heartbeat sj s)"

text \<open>When the flag is written: the bridge is armed, has not fired, and the game waits for its session.\<close>

definition bridge_fires :: "u32 \<Rightarrow> join_hooks \<Rightarrow> bool" where
  "bridge_fires sj s \<longleftrightarrow> 120 \<le> next_heartbeat sj s
     \<and> (\<exists>b. jh_bridges s sj = Some b \<and> bridge_matches b (asm_join_wait_snapshot (jh_memory s) sj))"

lemma matches_unset:
  assumes "bridge_matches b (asm_join_wait_snapshot m sj)"
  shows "m (js_service (asm_join_wait_snapshot m sj) + 0x42a) = 0"
proof -
  have "js_flag_42a (asm_join_wait_snapshot m sj) = Some 0" using assms by (simp add: bridge_matches_def)
  then show ?thesis by (simp add: asm_join_wait_snapshot_def Let_def asm_trace_read_u8_def split: if_splits)
qed

definition flag_42a :: "memory \<Rightarrow> u32 \<Rightarrow> u32" where
  "flag_42a m sj = js_service (asm_join_wait_snapshot m sj) + 0x42a"

lemma try_complete:
  assumes "w = asm_join_wait_snapshot (jh_memory s) sj"
  shows "asm_private_join_bridge_try_complete sj n w s =
    (if 120 \<le> n \<and> (\<exists>b. jh_bridges s sj = Some b \<and> bridge_matches b w)
     then (True, s\<lparr>jh_bridges := (jh_bridges s)(sj \<mapsto> (the (jh_bridges s sj))\<lparr>jb_completed := True\<rparr>),
       jh_memory := (jh_memory s)(flag_42a (jh_memory s) sj := 1)\<rparr>)
     else (False, s))"
  using assms by (cases "jh_bridges s sj")
    (auto simp: asm_private_join_bridge_try_complete_def Let_def matches_unset flag_42a_def not_less)

lemma heartbeat_step:
  "asm_join_wait_heartbeat sj s = (next_heartbeat sj s, s\<lparr>jh_heartbeats := (jh_heartbeats s)(sj \<mapsto> next_heartbeat sj s)\<rparr>)"
  by (simp add: next_heartbeat_def asm_join_wait_heartbeat_def Let_def)

lemma heartbeat_snapshots: "next_heartbeat sj (s\<lparr>jh_snapshots := f\<rparr>) = next_heartbeat sj s"
  by (simp add: next_heartbeat_def asm_join_wait_heartbeat_def Let_def)

lemmas update_unfold = asm_state_join_update_def Let_def asm_should_log_join_wait_def heartbeat_step heartbeat_snapshots
  try_complete bridge_fires_def

lemma update_wrote: "fst (asm_state_join_update game sj s) \<longleftrightarrow> bridge_fires sj s"
  by (simp add: update_unfold)

lemma update_bridges: "jh_bridges (snd (asm_state_join_update game sj s)) =
    (if bridge_fires sj s then (jh_bridges s)(sj \<mapsto> (the (jh_bridges s sj))\<lparr>jb_completed := True\<rparr>) else jh_bridges s)"
  by (auto simp: update_unfold)

lemma update_memory: "jh_memory (snd (asm_state_join_update game sj s)) =
    game (if bridge_fires sj s then (jh_memory s)(flag_42a (jh_memory s) sj := 1) else jh_memory s)"
  by (auto simp: update_unfold)

lemma update_heartbeats: "jh_heartbeats (snd (asm_state_join_update game sj s)) = (jh_heartbeats s)(sj \<mapsto> next_heartbeat sj s)"
  by (simp add: update_unfold)

lemmas update_simps = update_wrote update_bridges update_memory update_heartbeats

lemma enter_bridges: "jh_bridges (asm_state_join_enter game sj s) = (jh_bridges s)(sj :=
    (if bridge_eligible (jh_memory s) (game (jh_memory s)) sj
     then Some \<lparr>jb_service = asm_trace_read_ptr (jh_memory s) sj 0x30,
       jb_session_id = the (asm_trace_read_u32 (game (jh_memory s)) (asm_trace_read_ptr (jh_memory s) (asm_trace_read_ptr (jh_memory s) sj 0x30) 0x40c) 0x08),
       jb_completed = False\<rparr>
     else None))"
  by (simp add: asm_state_join_enter_def Let_def asm_private_join_bridge_arm_def asm_private_join_bridge_disarm_def)

lemma reset_bridges: "jh_bridges (asm_state_join_reset game sj s) = (jh_bridges s)(sj := None)"
  by (simp add: asm_state_join_reset_def asm_private_join_bridge_disarm_def)

section \<open>The bridge fires once\<close>

definition armed :: "u32 \<Rightarrow> join_hooks \<Rightarrow> bool" where
  "armed sj s \<longleftrightarrow> (\<exists>b. jh_bridges s sj = Some b \<and> \<not> jb_completed b)"

lemma fires_armed: "bridge_fires sj s \<Longrightarrow> armed sj s"
  by (auto simp: bridge_fires_def armed_def bridge_matches_def)

lemma step_armed: "\<not> enters sj e \<Longrightarrow> armed sj (join_step e s) \<Longrightarrow> armed sj s \<and> count_list (join_write e s) sj = 0"
  by (cases e) (auto simp: armed_def update_simps enter_bridges reset_bridges split: if_splits)

lemma step_writes: "count_list (join_write e s) sj \<le> (if armed sj s then 1 else 0)"
  by (cases e) (auto simp: update_wrote dest: fires_armed)

lemma writes_once:
  "\<not> list_ex (enters sj) es \<Longrightarrow> count_list (join_writes es s) sj \<le> (if armed sj s then 1 else 0)"
proof (induction es arbitrary: s)
  case (Cons e es)
  then have "\<not> enters sj e" and IH: "count_list (join_writes es (join_step e s)) sj \<le> (if armed sj (join_step e s) then 1 else 0)"
    by simp_all
  then show ?case using step_armed [of sj e s] step_writes [of e s sj]
    by (cases "armed sj (join_step e s)") (auto simp: count_list_append)
qed simp

section \<open>What an armed bridge shows\<close>

definition joined_private :: "join_event list \<Rightarrow> memory \<Rightarrow> u32 \<Rightarrow> u32 \<Rightarrow> u32 \<Rightarrow> bool" where
  "joined_private es m sj service sid \<longleftrightarrow> (\<exists>pre game post. es = pre @ Enter sj game # post \<and> \<not> list_ex (ends_join sj) post \<and>
     (let before = jh_memory (join_run pre (no_join_hooks m)); after = game before;
          key = asm_trace_read_ptr before service 0x40c in
      bridge_eligible before after sj \<and> service = asm_trace_read_ptr before sj 0x30
      \<and> asm_trace_read_u32 after key 0x08 = Some sid))"

lemma joined_private_extend: "joined_private es m sj service sid \<Longrightarrow> \<not> ends_join sj e \<Longrightarrow> joined_private (es @ [e]) m sj service sid"
  unfolding joined_private_def by (fastforce intro: exI [of _ "_ @ [e]"])

lemma bridge_history:
  "jh_bridges (join_run es (no_join_hooks m)) sj = Some b \<Longrightarrow> joined_private es m sj (jb_service b) (jb_session_id b)"
proof (induction es arbitrary: b rule: rev_induct)
  case Nil
  then show ?case by (simp add: no_join_hooks_def)
next
  case (snoc e es)
  define s where "s = join_run es (no_join_hooks m)"
  have run: "jh_bridges (join_step e s) sj = Some b" using snoc.prems by (simp add: s_def)
  show ?case
  proof (cases "ends_join sj e")
    case False
    then obtain c where "jh_bridges s sj = Some c" "jb_service c = jb_service b" "jb_session_id c = jb_session_id b"
      using run by (cases e) (auto simp: update_simps enter_bridges reset_bridges bridge_fires_def split: if_splits)
    with snoc.IH [of c] joined_private_extend [OF _ False] show ?thesis by (simp add: s_def)
  next
    case True
    then obtain game where e: "e = Enter sj game" and el: "bridge_eligible (jh_memory s) (game (jh_memory s)) sj"
      using run by (cases e) (auto simp: enter_bridges reset_bridges split: if_splits)
    have "asm_trace_read_u32 (game (jh_memory s)) (asm_trace_read_ptr (jh_memory s) (jb_service b) 0x40c) 0x08 = Some (jb_session_id b)"
      "jb_service b = asm_trace_read_ptr (jh_memory s) sj 0x30"
      using run el by (auto simp: e enter_bridges bridge_eligible_def Let_def split: option.splits)
    with el show ?thesis unfolding joined_private_def e s_def
      by (intro exI [of _ es] exI [of _ game] exI [of _ "[]"]) (simp add: Let_def)
  qed
qed

lemma heartbeat_bound:
  "(case jh_heartbeats (join_run es (no_join_hooks m)) sj of None \<Rightarrow> 0 | Some n \<Rightarrow> unat n) \<le> length (filter (updates sj) es)"
proof (induction es rule: rev_induct)
  case (snoc e es)
  define s where "s = join_run es (no_join_hooks m)"
  have step: "unat (n + 1) \<le> Suc (unat n)" for n :: u64 by (simp add: unat_word_ariths)
  show ?case using snoc
    by (cases e) (auto simp: update_simps asm_state_join_enter_def asm_state_join_reset_def Let_def
        asm_private_join_bridge_arm_def asm_private_join_bridge_disarm_def next_heartbeat_def asm_join_wait_heartbeat_def
        simp flip: s_def split: option.splits if_splits intro: le_trans [OF step])
qed (simp add: no_join_hooks_def)


section \<open>The bridge fires at the 120th update\<close>

fun idle_updates :: "nat \<Rightarrow> (memory \<Rightarrow> memory) \<Rightarrow> u32 \<Rightarrow> join_event list" where
  "idle_updates n game sj = replicate n (Update sj game)"

definition beats :: "u32 \<Rightarrow> join_hooks \<Rightarrow> nat" where
  "beats sj s = (case jh_heartbeats s sj of None \<Rightarrow> 0 | Some n \<Rightarrow> unat n)"

lemma next_heartbeat: "unat (next_heartbeat sj s) = (if beats sj s = 18446744073709551615 then beats sj s else Suc (beats sj s))"
proof -
  have top: "unat (- 1 :: u64) = 18446744073709551615"
    by (simp add: unsigned_minus_1_eq_mask mask_eq_exp_minus_1)
  have "unat (n + 1) = Suc (unat n)" if "n \<noteq> - 1" for n :: u64
  proof -
    have "unat n \<noteq> 18446744073709551615" using that top by (metis unsigned_word_eqI)
    moreover have "unat n < 18446744073709551616" by simp
    ultimately have "Suc (unat n) < 18446744073709551616" by linarith
    then show ?thesis by (simp add: unat_word_ariths)
  qed
  moreover have "unat n \<noteq> 18446744073709551615" if "n \<noteq> - 1" for n :: u64
    using that top by (metis unsigned_word_eqI)
  ultimately show ?thesis using top
    by (auto simp: beats_def next_heartbeat_def asm_join_wait_heartbeat_def Let_def split: option.splits)
qed

lemma waiting_run:
  assumes "bridge_matches b w" and "jh_bridges s sj = Some b" and "asm_join_wait_snapshot (jh_memory s) sj = w"
    and "\<And>m. asm_join_wait_snapshot m sj = w \<Longrightarrow> asm_join_wait_snapshot (game m) sj = w"
    and "beats sj s + n < 120"
  shows "jh_bridges (join_run (idle_updates n game sj) s) sj = Some b
    \<and> asm_join_wait_snapshot (jh_memory (join_run (idle_updates n game sj) s)) sj = w
    \<and> beats sj (join_run (idle_updates n game sj) s) = beats sj s + n \<and> join_writes (idle_updates n game sj) s = []"
  using assms
proof (induction n arbitrary: s)
  case (Suc n)
  have beat: "unat (next_heartbeat sj s) = Suc (beats sj s)" using Suc.prems by (simp add: next_heartbeat)
  then have quiet: "\<not> bridge_fires sj s" using Suc.prems(5) by (simp add: bridge_fires_def word_le_nat_alt)
  define t where "t = snd (asm_state_join_update game sj s)"
  have t: "jh_bridges t sj = Some b" "asm_join_wait_snapshot (jh_memory t) sj = w" "beats sj t = Suc (beats sj s)"
    using Suc.prems quiet beat by (simp_all add: t_def update_simps beats_def)
  from Suc.IH [OF Suc.prems(1) t(1,2) Suc.prems(4)] t(3) Suc.prems(5) quiet show ?case
    by (simp add: t_def update_wrote)
qed simp

lemma waiting_fires:
  assumes "bridge_matches b w" and "jh_bridges s sj = Some b" and "asm_join_wait_snapshot (jh_memory s) sj = w"
    and "\<And>m. asm_join_wait_snapshot m sj = w \<Longrightarrow> asm_join_wait_snapshot (game m) sj = w"
    and "k = (if beats sj s < 120 then 119 - beats sj s else 0)"
  shows "join_writes (idle_updates (Suc k) game sj) s = [sj]
    \<and> (\<exists>m. asm_join_wait_snapshot m sj = w \<and> jh_memory (join_run (idle_updates (Suc k) game sj) s) = game (m(jb_service b + 0x42a := 1)))"
proof -
  define t where "t = join_run (idle_updates k game sj) s"
  have split: "idle_updates (Suc k) game sj = idle_updates k game sj @ [Update sj game]"
    by (simp add: replicate_append_same)
  have t: "jh_bridges t sj = Some b \<and> asm_join_wait_snapshot (jh_memory t) sj = w \<and> 119 \<le> beats sj t
      \<and> join_writes (idle_updates k game sj) s = []"
  proof (cases "beats sj s < 120")
    case True
    then show ?thesis using waiting_run [where game = game and n = k, OF assms(1-4)] assms(5) by (simp add: t_def)
  next
    case False
    then show ?thesis using assms by (simp add: t_def)
  qed
  then have "120 \<le> unat (next_heartbeat sj t)" by (simp add: next_heartbeat)
  then have fires: "bridge_fires sj t" using t assms(1) by (simp add: bridge_fires_def word_le_nat_alt)
  have "flag_42a (jh_memory t) sj = jb_service b + 0x42a" using t assms(1) by (simp add: flag_42a_def bridge_matches_def)
  with fires t show ?thesis unfolding split by (auto simp: update_simps simp flip: t_def simp del: idle_updates.simps)
qed

text \<open>What an entry that arms the bridge leaves.\<close>

lemma enter_waits:
  assumes "service = asm_trace_read_ptr (jh_memory s) sj 0x30"
    and "session_key = asm_trace_read_ptr (jh_memory s) service 0x40c"
    and "bridge_eligible (jh_memory s) (enter (jh_memory s)) sj"
    and "w = asm_join_wait_snapshot (enter (jh_memory s)) sj"
    and "js_service w = service" and "js_session_id w = asm_trace_read_u32 (enter (jh_memory s)) session_key 0x08"
    and "js_flag_429 w = Some 0" and "js_state_mode w = Some 0" and "t = asm_state_join_enter enter sj s"
  obtains b where "bridge_matches b w" and "jh_bridges t sj = Some b" and "asm_join_wait_snapshot (jh_memory t) sj = w"
    and "beats sj t = beats sj s" and "jb_service b = service"
proof -
  define b where "b = \<lparr>jb_service = service, jb_session_id = the (asm_trace_read_u32 (enter (jh_memory s)) session_key 0x08), jb_completed = False\<rparr>"
  have t: "jh_bridges t sj = Some b" "asm_join_wait_snapshot (jh_memory t) sj = w" "beats sj t = beats sj s"
    using assms(1-4) by (simp_all add: assms(9) b_def enter_bridges)
      (simp_all add: asm_state_join_enter_def beats_def Let_def asm_private_join_bridge_arm_def)
  have "js_flag_42a w = Some 0 \<and> js_flag_42b w = Some 1 \<and> js_flag_42c w = Some 0"
    using assms(1-5) by (auto simp: bridge_eligible_def Let_def asm_join_wait_snapshot_def)
  moreover have "js_session_id w = Some (jb_session_id b)"
    using assms(1-3,6) by (auto simp: b_def bridge_eligible_def Let_def split: option.splits)
  ultimately have "bridge_matches b w" using assms(5,7,8) by (simp add: bridge_matches_def b_def)
  with t show ?thesis by (auto simp: b_def intro: that)
qed

text \<open>C17 (private_join_completes). A private join that skips the request and then waits is completed: with
  one write, at the 120th update of an object that has never been updated. Updates are counted for the address
  of the object, however, and never forgotten: when an address is used again, after 119 earlier
  updates or more, the first update after the entry completes the join.\<close>

theorem private_join_completes:
  assumes "service = asm_trace_read_ptr (jh_memory s) sj 0x30"
    and "session_key = asm_trace_read_ptr (jh_memory s) service 0x40c"
    and "bridge_eligible (jh_memory s) (enter (jh_memory s)) sj"
    and "w = asm_join_wait_snapshot (enter (jh_memory s)) sj"
    and "js_service w = service" and "js_session_id w = asm_trace_read_u32 (enter (jh_memory s)) session_key 0x08"
    and "js_flag_429 w = Some 0" and "js_state_mode w = Some 0"
    and "\<And>m. asm_join_wait_snapshot m sj = w \<Longrightarrow> asm_join_wait_snapshot (game m) sj = w"
    and "k = (if beats sj s < 120 then 119 - beats sj s else 0)"
  shows "(\<forall>n \<le> k. join_writes (Enter sj enter # idle_updates n game sj) s = [])
    \<and> join_writes (Enter sj enter # idle_updates (Suc k) game sj) s = [sj]
    \<and> (\<exists>m. asm_join_wait_snapshot m sj = w
      \<and> jh_memory (join_run (Enter sj enter # idle_updates (Suc k) game sj) s) = game (m(service + 0x42a := 1)))"
proof -
  define t where "t = asm_state_join_enter enter sj s"
  obtain b where w: "bridge_matches b w" and t: "jh_bridges t sj = Some b" "asm_join_wait_snapshot (jh_memory t) sj = w"
      and beats: "beats sj t = beats sj s" and b: "jb_service b = service"
    using enter_waits [OF assms(1-8) t_def] by blast
  have "join_writes (idle_updates n game sj) t = []" if "n \<le> k" for n
  proof (cases n)
    case (Suc n')
    then have "beats sj t + n < 120" using that beats assms(10) by (simp split: if_splits)
    then show ?thesis using waiting_run [where game = game and n = n, OF w t assms(9)] by blast
  qed simp
  moreover have "k = (if beats sj t < 120 then 119 - beats sj t else 0)" using assms(10) beats by simp
  note waiting_fires [where game = game and k = k, OF w t assms(9) this]
  ultimately show ?thesis by (simp add: b flip: t_def del: idle_updates.simps)
qed

definition sample_memory :: memory where
  "sample_memory = (\<lambda>_. 0)(0x1031 := 0x20, 0x240D := 0x30, 0x3004 := 1, 0x3008 := 7)"

definition sample_enter :: "memory \<Rightarrow> memory" where
  "sample_enter m = m(0x242B := 1)"

lemmas read_simps = asm_trace_read_ptr_def asm_trace_read_u32_def asm_trace_read_u8_def asm_trace_offset_ptr_def peek32_def
  asm_resolve_state_join_storm_session_def status_joined_def

lemma sample_eligible: "bridge_eligible sample_memory (sample_enter sample_memory) 0x1000"
  by (simp add: bridge_eligible_def state_join_branch_def read_simps sample_memory_def sample_enter_def Let_def)

text \<open>The bridge is armed here although no session of the engine can be found: a flag that cannot be read
  counts as one that is not zero.\<close>

lemma storm_session_not_needed:
  "snd (snd (snd (snd (snd (asm_resolve_state_join_storm_session sample_memory 0x1000))))) = 0"
  "state_join_branch sample_memory (sample_enter sample_memory) 0x1000 = StormFlagSkip"
  by (simp_all add: state_join_branch_def read_simps sample_memory_def sample_enter_def Let_def)

definition sample_waiting :: join_snapshot where
  "sample_waiting = \<lparr>js_service = 0x2000, js_session_id = Some 7, js_flag_429 = Some 0, js_flag_42a = Some 0,
     js_flag_42b = Some 1, js_flag_42c = Some 0, js_state_mode = Some 0\<rparr>"

lemma sample_reads:
  "jh_memory (no_join_hooks sample_memory) = sample_memory"
  "asm_trace_read_ptr sample_memory 0x1000 0x30 = 0x2000" "asm_trace_read_ptr sample_memory 0x2000 0x40c = 0x3000"
  "asm_join_wait_snapshot (sample_enter sample_memory) 0x1000 = sample_waiting"
  "asm_trace_read_u32 (sample_enter sample_memory) 0x3000 0x08 = Some 7"
  "beats 0x1000 (no_join_hooks sample_memory) = 0"
  by (simp_all add: no_join_hooks_def beats_def read_simps sample_memory_def sample_enter_def asm_join_wait_snapshot_def
      Let_def sample_waiting_def)

lemma sample_waits:
  assumes "t = asm_state_join_enter sample_enter 0x1000 (no_join_hooks sample_memory)"
  obtains b where "bridge_matches b sample_waiting" and "jh_bridges t 0x1000 = Some b"
    and "asm_join_wait_snapshot (jh_memory t) 0x1000 = sample_waiting" and "beats 0x1000 t = 0"
  using enter_waits [of "0x2000" "no_join_hooks sample_memory" "0x1000" "0x3000" sample_enter sample_waiting t] assms
  by (auto simp: sample_reads sample_eligible sample_waiting_def)

theorem private_join_completes_witness:
  "join_writes (Enter 0x1000 sample_enter # idle_updates 119 id 0x1000) (no_join_hooks sample_memory) = []
    \<and> join_writes (Enter 0x1000 sample_enter # idle_updates 120 id 0x1000) (no_join_hooks sample_memory) = [0x1000]"
proof -
  have "(\<forall>n \<le> 119. join_writes (Enter 0x1000 sample_enter # idle_updates n id 0x1000) (no_join_hooks sample_memory) = [])
      \<and> join_writes (Enter 0x1000 sample_enter # idle_updates (Suc 119) id 0x1000) (no_join_hooks sample_memory) = [0x1000]
      \<and> (\<exists>m. asm_join_wait_snapshot m 0x1000 = sample_waiting
        \<and> jh_memory (join_run (Enter 0x1000 sample_enter # idle_updates (Suc 119) id 0x1000) (no_join_hooks sample_memory)) = id (m(0x2000 + 0x42a := 1)))"
    by (rule private_join_completes [where session_key = "0x3000"])
      (simp_all add: sample_reads sample_eligible, simp_all add: sample_waiting_def)
  then have "join_writes (Enter 0x1000 sample_enter # idle_updates 119 id 0x1000) (no_join_hooks sample_memory) = []"
    and "join_writes (Enter 0x1000 sample_enter # idle_updates (Suc 119) id 0x1000) (no_join_hooks sample_memory) = [0x1000]"
    by blast+
  then show ?thesis by simp
qed


end
