(* ===== verification/Spec2Isabelle.thy ===== *)
theory Spec2Isabelle
  imports Invite_Behaviour Session_Matchmaking Session_Urls Secure_Panics Client_Behaviour Client_Sockets Client_Lists Hook_Install Join_Bridge
begin

text \<open>
  A verification development for the Splinter Cell Blacklist dedicated server: the Quazal
  protocol library (\<open>server/quazal\<close>), the server built on it
  (\<open>server/dedicated-server\<close>), and the library that takes the place of the game's Uplay loader
  (\<open>client/hooks\<close>).

  The program. A game client speaks PRUDP over UDP. \<open>Server::serve\<close> cuts a datagram into
  packets, checks and decrypts them, and keeps a table of clients keyed by signature: Syn
  opens a connection, Connect presents a Kerberos-style ticket and gives the client an
  identity, Data carries fragments of remote method calls. \<open>RVSecHandler\<close> decodes a call and
  dispatches it to the protocol it names; the handlers of the dedicated server act on an
  SQLite database.

  The storage is also reached from outside the game: the gRPC services of \<open>api.rs\<close> log users
  in, carry invitations from player to player and let an administrator look around; a content
  server and an online configuration server answer plain HTTP.

  On the player's machine the loader library answers the game's calls to Uplay. Its overlay polls
  the API for invitations, shows them, accepts them at the press of a key and puts an event into
  the channel the game polls; detours in the game keep its traffic on one address and hand the
  accepted session from one of the game's controllers to another.

  Conventions. \<open>None\<close> as the result of a handler or a packet step is a panic; errors are the
  left side of a sum. A record of state is passed and returned. Every function that reads a
  clock gets the time as an argument: seconds on the server, milliseconds in the client. Random bytes (session keys, nonces, signatures) are arguments, as is everything the
  program gets from a library that is not in the repository.

  The wire.
  \<^item> \<open>Prelude\<close>: bytes, strings, checked enumerations, results that may panic.
  \<^item> \<open>Wire_Stream\<close> (\<open>rmc/basic.rs\<close>): readers and writers of the stream encoding; the locale
    \<open>wire_codec\<close> is the contract between \<open>ToStream\<close> and \<open>FromStream\<close>, \<open>canonical_codec\<close> adds that
    a value has one encoding; each implementation interprets one of them.
  \<^item> \<open>Result_Codes\<close> (\<open>rmc/result.rs\<close>), \<open>Rmc_Types\<close> (\<open>rmc/types.rs\<close>), \<open>Rmc\<close> (\<open>rmc.rs\<close>): result
    codes (locale \<open>code_enum\<close>), value types, and the packets of remote method calls.
  \<^item> \<open>Rc4\<close> (locale \<open>stream_cipher\<close>), \<open>Packet\<close> (\<open>prudp/packet.rs\<close>, \<open>Context\<close> of \<open>config.rs\<close>): the
    cipher, the packet layout.
  \<^item> \<open>Kerberos\<close> (\<open>kerberos.rs\<close>): tickets.
  \<^item> \<open>Fragments\<close> (\<open>lib.rs\<close>, the first part of \<open>prudp.rs\<close>): the client record and reassembly.
  \<^item> \<open>Prudp_Server\<close> (\<open>prudp.rs\<close>): packet handlers, expiry, the datagram loop, and the states
    reachable by them.
  \<^item> \<open>Rmc_Dispatch\<close> (\<open>RVSecHandler\<close>, \<open>secure.rs\<close>, \<open>nat_traversal.rs\<close>): dispatch and the handlers
    without storage.

  The storage (\<open>storage/mod.rs\<close>, \<open>storage/migrations\<close>). A transaction is a function from the
  tables to an error or an answer with new tables, so a failed one leaves no trace.
  \<^item> \<open>Storage_Db\<close>: rows, keys, statements, the trigger, the functions on session attributes.
  \<^item> \<open>Storage_Parties\<close>, \<open>Storage_Sessions\<close>, \<open>Storage_Invites\<close>, \<open>Storage_Search\<close>, \<open>Storage_Users\<close>:
    the operations.
  \<^item> \<open>Storage_Invariants\<close>: keys and foreign keys, one party per leader, at most one open
    invitation per receiver and lane, and the host of an active session takes part in it; a
    small Hoare logic. \<open>Storage_Reachable\<close>: every operation keeps the invariant, so every
    database that can be reached has it.
  \<^item> \<open>Session_Behaviour\<close>, \<open>Invite_Behaviour\<close>: what the operations do, branch by branch, and the
    life of an invitation.

  The services of the game.
  \<^item> \<open>Game_Session\<close> (\<open>game_session.rs\<close>, \<open>game_session_ex.rs\<close>), \<open>Session_Protocol\<close>
    (\<open>game_session_service\<close>, \<open>game_session_ex_service\<close>): handlers over the storage, requests
    and answers, the method tables.
  \<^item> \<open>Session_Attributes\<close>, \<open>Session_Urls\<close>, \<open>Session_Matchmaking\<close>: attributes as the protocol
    writes them against the text the storage reads; registered URLs; the answers of a search.
  \<^item> \<open>Session_Service\<close>: the locale \<open>request_service\<close> is the contract of a service behind a login
    (a stranger is refused and changes nothing, a permitted call keeps the invariant), with
    its consequences for runs of calls; interpreted here on both session protocols and in
    \<open>Api_Behaviour\<close> on the API.
  \<^item> \<open>Ticket_Granting\<close> (\<open>ticket.rs\<close>), \<open>Service_Protocols\<close> and \<open>Account_Services\<close> (the other
    handlers of \<open>dedicated-server/src\<close>): all methods, implemented or not.
  \<^item> \<open>Secure_Server\<close> (\<open>start_server\<close> of \<open>main.rs\<close>): both servers; the locale \<open>world_server\<close> takes an
    invariant of the world behind a PRUDP server through every packet and every expiry, and is
    interpreted on the secure server with the storage as its world. \<open>Secure_Panics\<close>: which
    requests stop it.

  Around the game.
  \<^item> \<open>Api_Access\<close>, \<open>Api_Services\<close> (\<open>api.rs\<close>): tokens and keys, then the handlers and the router.
    \<open>Api_Behaviour\<close>: the invariant under all calls, and an invitation across the API and the
    session protocol, from the sender's call to the receiver's join.
  \<^item> \<open>Service_Config\<close> (\<open>config.rs\<close>, \<open>config/src/lib.rs\<close>, \<open>simple_http.rs\<close>): the configuration and
    the HTTP servers.

  The client (\<open>client/hooks\<close>). An exported function is a step on the state it shares with the
  others; what the system, the game or the server answers is an argument.
  \<^item> \<open>Client_Config\<close> (\<open>hooks-config\<close>, \<open>hooks-proc\<close>): the configuration, loaded once, and the code
    put around every exported function.
  \<^item> \<open>Client_Party\<close> (\<open>uplay_r1_loader/party.rs\<close>): the party as the game sees it, its invariant, and
    that the diagnostic state changes no answer.
  \<^item> \<open>Client_Events\<close> (\<open>uplay_r1_loader.rs\<close>, \<open>user.rs\<close>): captured sessions, the blobs and events
    handed to the game, the repetition of private invitations.
  \<^item> \<open>Client_Api\<close> (\<open>api.rs\<close>): the calls to the server over the record \<open>api_remote\<close> of its answers, and
    the local ids of invitations.
  \<^item> \<open>Client_Overlay\<close> (\<open>overlay.rs\<close>, \<open>friends.rs\<close>, the threads of \<open>UPLAY_Startup\<close>): a frame, the polling
    thread, the match controller. \<open>Overlay_Behaviour\<close>: what it promises against any server;
    \<open>Client_Behaviour\<close>: \<open>api_remote\<close> answered by the handlers of \<open>Api_Services\<close>, and an invitation
    from the host's game to the friend's.
  \<^item> \<open>Client_Sockets\<close> (\<open>hooks/storm.rs\<close>): the Winsock detours; the state carries a log of the calls
    that reach the system, on which the confinement is stated.
  \<^item> \<open>Client_Saves\<close> (\<open>save.rs\<close>, \<open>hooks-config/src/saves.rs\<close>): saved games on a file system that is
    written out.
  \<^item> \<open>Client_Lists\<close> (\<open>types.rs\<close>): lists on an explicit heap; the locale \<open>heap_item\<close> is the contract
    of an item (it is put into fresh cells and taken back from exactly these), interpreted on
    keys, saved games and friends.
  \<^item> \<open>Game_Patterns\<close> (\<open>hooks-addresses/src/patterns.rs\<close>), \<open>Game_Addresses\<close>
    (\<open>hooks-addresses/src/lib.rs\<close>): patterns of bytes with their search against its specification, the
    least offset at which a pattern occurs; the addresses of known versions, of the file and of
    the search, and the slots they are put in.
  \<^item> \<open>Hook_Install\<close> (\<open>init\<close> and \<open>deinit\<close> of \<open>hooks.rs\<close>, \<open>hooks/storm.rs\<close> and \<open>hooks/quazal.rs\<close>): the set
    of functions that are detoured, after loading and after unloading.
  \<^item> \<open>Join_Bridge\<close> (\<open>hooks.rs\<close>): the detours on a join over the memory of the game, a function from
    addresses to bytes that the game may change as it likes between two of them; what must have happened before
    they write, that they write once, and when.

  Bounds. Integers of the wire are words of their width; ids of the storage are natural
  numbers, returned as 32-bit words. Loops are structural recursions over the packets, clients,
  rows or bytes at hand, so no fuel is used; the one that is not, the search for a free local id,
  is a partial function, and it is proved to return.

  Not modelled: sockets, threads, logging, opening the database and running its migrations,
  reading and writing files; zlib, the boxes and hashes of sodiumoxide, MD5, HMAC, Argon2,
  TOML, JSON and the gRPC transport, which are parameters with their documented laws as
  hypotheses; the clients generated beside the protocol servers and the generated servers
  nobody registers; the derive macros, whose output is written out where a struct is modelled;
  the unused table \<open>errors.rs\<close>; the command line tool. Of the client: drawing, fonts and message
  boxes, the detours that only log what the engine does, the parsing of executables and of version
  resources (\<open>dll_utils\<close>), the rest of \<open>DllMain\<close>, exported functions that return a constant, and the
  launcher and the other programs that are not written in Rust.
\<close>

end
